(* ===== verification/Go_Prelude.thy ===== *)
theory Go_Prelude
  imports Main "HOL-Library.Char_ord" "HOL-Library.List_Lexorder"
begin

text \<open>
  What every component shares: the theorem collections of the development, the Go
  standard-library string functions the source calls (\<open>strings.TrimSpace\<close>,
  \<open>strings.Contains\<close>, \<open>fmt\<close>'s \<open>%d\<close>), rows of a relational table as lists with
  select, update and delete by predicate, and the bookkeeping lemmas about them. Go strings
  are byte strings and are modelled as \<open>string\<close>, a list of bytes.
\<close>

named_theorems row_simps \<open>unfoldings of the table operations\<close>
named_theorems op_success \<open>what a successful operation implies\<close>
named_theorems inv_intros \<open>preservation of the store invariants\<close>

section \<open>Go strings\<close>

type_synonym time = nat

text \<open>
  \<open>strings.TrimSpace\<close> strips Unicode white space. The byte sequences below are the UTF-8
  encodings of the code points for which \<open>unicode.IsSpace\<close> holds.
\<close>

definition ascii_spaces :: string where
  "ascii_spaces = [CHR 0x09, CHR 0x0A, CHR 0x0B, CHR 0x0C, CHR 0x0D, CHR 0x20]"

definition wide_spaces :: "string list" where
  "wide_spaces =
     [[CHR 0xC2, CHR 0x85], [CHR 0xC2, CHR 0xA0], [CHR 0xE1, CHR 0x9A, CHR 0x80]]
     @ map (\<lambda>b. [CHR 0xE2, CHR 0x80, b])
         [CHR 0x80, CHR 0x81, CHR 0x82, CHR 0x83, CHR 0x84, CHR 0x85, CHR 0x86, CHR 0x87,
          CHR 0x88, CHR 0x89, CHR 0x8A, CHR 0xA8, CHR 0xA9, CHR 0xAF]
     @ [[CHR 0xE2, CHR 0x81, CHR 0x9F], [CHR 0xE3, CHR 0x80, CHR 0x80]]"

definition space_seqs :: "string list" where
  "space_seqs = map (\<lambda>c. [c]) ascii_spaces @ wide_spaces"

definition starts_with :: "string \<Rightarrow> string \<Rightarrow> bool" where
  "starts_with p s \<longleftrightarrow> take (length p) s = p"

lemma find_SomeD: "find p xs = Some x \<Longrightarrow> x \<in> set xs \<and> p x"
  by (induction xs) (auto split: if_splits)

lemma starts_with_iff: "starts_with p s \<longleftrightarrow> (\<exists>t. s = p @ t)"
  unfolding starts_with_def by (metis append_eq_conv_conj append_take_drop_id)

lemma starts_with_append: "starts_with p s \<Longrightarrow> starts_with p (s @ t)"
  by (auto simp: starts_with_iff)

lemma starts_with_length: "starts_with p s \<Longrightarrow> length p \<le> length s"
  by (auto simp: starts_with_iff)

lemma starts_with_cut: "starts_with p (u @ b # v) \<Longrightarrow> b \<notin> set p \<Longrightarrow> starts_with p u"
  by (auto simp: starts_with_iff append_eq_append_conv2 Cons_eq_append_conv)

lemma space_seqs_nonempty: "w \<in> set space_seqs \<Longrightarrow> w \<noteq> []"
  by (auto simp: space_seqs_def ascii_spaces_def wide_spaces_def)

lemma starts_with_shorter:
  assumes "starts_with w s" "w \<noteq> []"
  shows "length (drop (length w) s) < length s"
  using assms by (cases s) (auto simp: starts_with_def)

text \<open>Stripping a list of non-empty sequences from the front of a string, as long as one fits.\<close>

function strip_front :: "string list \<Rightarrow> string \<Rightarrow> string" where
  "strip_front ws s =
     (case find (\<lambda>w. w \<noteq> [] \<and> starts_with w s) ws of
        None \<Rightarrow> s
      | Some w \<Rightarrow> strip_front ws (drop (length w) s))"
  by pat_completeness auto
termination
  by (relation "measure (\<lambda>(ws, s). length s)")
    (auto simp: find_Some_iff intro!: starts_with_shorter simp del: length_drop)

declare strip_front.simps [simp del]

definition TrimSpace :: "string \<Rightarrow> string" where
  "TrimSpace s = rev (strip_front (map rev space_seqs) (rev (strip_front space_seqs s)))"

definition blank :: "string \<Rightarrow> bool" where
  "blank s \<longleftrightarrow> TrimSpace s = []"

definition space_leads :: string where
  "space_leads = ascii_spaces @ [CHR 0xC2, CHR 0xE1, CHR 0xE2, CHR 0xE3]"

definition space_trails :: string where
  "space_trails = ascii_spaces @ map last wide_spaces"

lemma strip_front_Nil [simp]: "strip_front ws [] = []"
  by (subst strip_front.simps) (auto split: option.splits simp: find_Some_iff starts_with_def)

lemma strip_front_stop:
  "(\<forall>w \<in> set ws. w = [] \<or> \<not> starts_with w s) \<Longrightarrow> strip_front ws s = s"
  by (subst strip_front.simps) (auto split: option.splits simp: find_Some_iff)

lemma lead_of_space: "w \<in> set space_seqs \<Longrightarrow> hd w \<in> set space_leads"
  by (auto simp: space_seqs_def ascii_spaces_def wide_spaces_def space_leads_def)

lemma strip_front_space_stop:
  assumes "c \<notin> set space_leads"
  shows "strip_front space_seqs (c # s) = c # s"
proof (rule strip_front_stop, intro ballI)
  fix w assume w: "w \<in> set space_seqs"
  then have "hd w \<in> set space_leads" by (rule lead_of_space)
  then show "w = [] \<or> \<not> starts_with w (c # s)"
    using assms by (cases w) (auto simp: starts_with_def)
qed

text \<open>
  A string with a byte that begins no white space is not blank: whatever is stripped from the
  right, a non-empty stripped suffix begins with a byte of \<^term>\<open>space_leads\<close>.
\<close>

lemma strip_back_keeps:
  "c \<notin> set space_leads \<Longrightarrow> strip_front (map rev space_seqs) (t @ [c]) \<noteq> []"
proof (induction "length t" arbitrary: t rule: less_induct)
  case less
  show ?case
  proof (cases "find (\<lambda>w. w \<noteq> [] \<and> starts_with w (t @ [c])) (map rev space_seqs)")
    case None
    then show ?thesis by (subst strip_front.simps) simp
  next
    case (Some w)
    then have w: "w \<in> set (map rev space_seqs)" "w \<noteq> []" "starts_with w (t @ [c])"
      using find_SomeD by fastforce+
    from w(1) obtain v where v: "v \<in> set space_seqs" "w = rev v" by auto
    with w(2) have lw: "last w = hd v" by (simp add: last_rev)
    have "last w \<noteq> c" using lead_of_space [OF v(1)] lw less.prems by auto
    have len: "length w \<le> length t"
    proof (rule ccontr)
      assume "\<not> length w \<le> length t"
      then have "take (length w) (t @ [c]) = t @ [c]" by simp
      then have "w = t @ [c]" using w(3) by (simp add: starts_with_def)
      with \<open>last w \<noteq> c\<close> show False by simp
    qed
    with w(2) have "length (drop (length w) t) < length t" by (cases w) auto
    with less have "strip_front (map rev space_seqs) (drop (length w) t @ [c]) \<noteq> []" by blast
    with Some len show ?thesis by (subst strip_front.simps) simp
  qed
qed

lemma not_blank_Cons [simp]: "c \<notin> set space_leads \<Longrightarrow> \<not> blank (c # s)"
  by (simp add: blank_def TrimSpace_def strip_front_space_stop strip_back_keeps)

lemma blank_Nil [simp]: "blank []"
  by (simp add: blank_def TrimSpace_def)

lemma not_blank_nonempty: "\<not> blank s \<Longrightarrow> s \<noteq> []"
  by auto

declare space_leads_def [simp] ascii_spaces_def [simp]

text \<open>\<open>strings.Contains\<close>, \<open>strings.HasPrefix\<close> and \<open>%d\<close>.\<close>

fun Contains :: "string \<Rightarrow> string \<Rightarrow> bool" where
  "Contains [] p \<longleftrightarrow> p = []"
| "Contains (c # s) p \<longleftrightarrow> starts_with p (c # s) \<or> Contains s p"

fun dec_digits :: "nat \<Rightarrow> string" where
  "dec_digits n = (if n < 10 then [char_of (48 + n)]
                   else dec_digits (n div 10) @ [char_of (48 + n mod 10)])"

declare dec_digits.simps [simp del]

definition fmt_d :: "int \<Rightarrow> string" where
  "fmt_d i = (if i < 0 then CHR ''-'' # dec_digits (nat (- i)) else dec_digits (nat i))"

text \<open>\<open>strings.ToLower\<close> on ASCII bytes; bytes of multi-byte runes are left as they are.\<close>

definition lower_byte :: "char \<Rightarrow> char" where
  "lower_byte c = (if CHR ''A'' \<le> c \<and> c \<le> CHR ''Z'' then char_of (of_char c + (32::nat)) else c)"

section \<open>Tables as lists of rows\<close>

text \<open>
  A table is the list of its rows, in insertion order. \<open>SELECT ... WHERE p\<close> scanned with
  \<open>QueryRow\<close> reads the first row that satisfies \<open>p\<close>; no such row is \<open>sql.ErrNoRows\<close>.
\<close>

definition sel :: "('r \<Rightarrow> bool) \<Rightarrow> 'r list \<Rightarrow> 'r option" where
  "sel p t = find p t"

definition upd :: "('r \<Rightarrow> bool) \<Rightarrow> ('r \<Rightarrow> 'r) \<Rightarrow> 'r list \<Rightarrow> 'r list" where
  "upd p f t = map (\<lambda>r. if p r then f r else r) t"

definition del :: "('r \<Rightarrow> bool) \<Rightarrow> 'r list \<Rightarrow> 'r list" where
  "del p t = filter (\<lambda>r. \<not> p r) t"

lemma sel_Nil [simp]: "sel p [] = None"
  by (simp add: sel_def)

lemma sel_Cons [simp]: "sel p (r # t) = (if p r then Some r else sel p t)"
  by (simp add: sel_def)

lemma sel_append [simp]:
  "sel p (t @ u) = (case sel p t of None \<Rightarrow> sel p u | Some r \<Rightarrow> Some r)"
  by (induction t) auto

lemma sel_SomeD: "sel p t = Some r \<Longrightarrow> r \<in> set t \<and> p r"
  by (induction t) (auto split: if_splits)

lemma sel_NoneD: "sel p t = None \<Longrightarrow> \<forall>r \<in> set t. \<not> p r"
  by (induction t) (auto split: if_splits)

lemma sel_None_iff: "sel p t = None \<longleftrightarrow> (\<forall>r \<in> set t. \<not> p r)"
  by (induction t) auto

lemma upd_Nil [simp]: "upd p f [] = []"
  by (simp add: upd_def)

lemma upd_Cons [simp]: "upd p f (r # t) = (if p r then f r else r) # upd p f t"
  by (simp add: upd_def)

lemma upd_append [simp]: "upd p f (t @ u) = upd p f t @ upd p f u"
  by (simp add: upd_def)

lemma length_upd [simp]: "length (upd p f t) = length t"
  by (simp add: upd_def)

lemma set_upd: "set (upd p f t) = (\<lambda>r. if p r then f r else r) ` set t"
  by (simp add: upd_def)

lemma in_updE:
  assumes "r \<in> set (upd p f t)"
  obtains r0 where "r0 \<in> set t" "r = (if p r0 then f r0 else r0)"
  using assms by (auto simp: set_upd)

lemma map_upd_same: "(\<And>r. r \<in> set t \<Longrightarrow> p r \<Longrightarrow> g (f r) = g r) \<Longrightarrow> map g (upd p f t) = map g t"
  by (induction t) auto

lemma sel_upd:
  "(\<And>r. p r \<Longrightarrow> q (f r) = q r) \<Longrightarrow>
   sel q (upd p f t) = map_option (\<lambda>r. if p r then f r else r) (sel q t)"
  by (induction t) auto

lemma del_Nil [simp]: "del p [] = []"
  by (simp add: del_def)

lemma set_del [simp]: "set (del p t) = {r \<in> set t. \<not> p r}"
  by (auto simp: del_def)

lemma sel_del: "sel q (del p t) = sel (\<lambda>r. \<not> p r \<and> q r) t"
  by (induction t) (auto simp: del_def)

lemma distinct_del: "distinct (map g t) \<Longrightarrow> distinct (map g (del p t))"
  by (simp add: del_def distinct_map_filter)

text \<open>In a table whose key column is distinct, the selected row is the only one with its key.\<close>

lemma sel_key_unique:
  "distinct (map key t) \<Longrightarrow> r \<in> set t \<Longrightarrow> sel (\<lambda>x. key x = key r) t = Some r"
  by (induction t) (auto simp: image_iff)

lemma key_unique:
  "distinct (map key t) \<Longrightarrow> r \<in> set t \<Longrightarrow> r' \<in> set t \<Longrightarrow> key r = key r' \<Longrightarrow> r = r'"
  by (induction t) (auto simp: image_iff)

end
