(* ===== verification/Redaction.thy ===== *)
theory Redaction
  imports Go_Prelude
begin

text \<open>
  Credential redaction, \<open>internal/storage/redaction.go\<close>: the five token patterns, the
  redaction of a text before it is persisted, and the check for a credential. A pattern is a
  sequence of one-byte classes, for the bearer pattern a run of white space, and a final greedy
  run of at least \<open>k\<close> characters of a class. Each pattern is a function from a string to the
  length of the match at its front. The laws a pattern obeys are the locale
  \<open>token_pattern\<close>; what redaction promises is proved inside it and for any two patterns.
\<close>

section \<open>Patterns\<close>

definition upper_letters :: string where "upper_letters = ''ABCDEFGHIJKLMNOPQRSTUVWXYZ''"

definition lower_letters :: string where "lower_letters = ''abcdefghijklmnopqrstuvwxyz''"

definition digit_chars :: string where "digit_chars = ''0123456789''"

definition word_chars :: string where
  "word_chars = upper_letters @ lower_letters @ digit_chars @ ''_''"

definition dash_word_chars :: string where "dash_word_chars = word_chars @ ''-''"

definition regexp_spaces :: string where
  "regexp_spaces = [CHR 0x09, CHR 0x0A, CHR 0x0C, CHR 0x0D, CHR 0x20]"

text \<open>
  The length of the class member at the front of a string, 0 when there is none. Under
  \<open>(?i)\<close> a class with the letters K and S also has their Unicode folds, U+017F and U+212A.
\<close>

fun ascii_member :: "string \<Rightarrow> string \<Rightarrow> nat" where
  "ascii_member cls [] = 0"
| "ascii_member cls (c # s) = (if c \<in> set cls then 1 else 0)"

definition long_s :: string where "long_s = [CHR 0xC5, CHR 0xBF]"

definition kelvin :: string where "kelvin = [CHR 0xE2, CHR 0x84, CHR 0xAA]"

definition folded_member :: "string \<Rightarrow> string \<Rightarrow> nat" where
  "folded_member cls s =
     (if ascii_member cls s > 0 then 1
      else if starts_with long_s s then 2
      else if starts_with kelvin s then 3 else 0)"

function class_run :: "(string \<Rightarrow> nat) \<Rightarrow> string \<Rightarrow> nat \<times> nat" where
  "class_run member s =
     (if s = [] \<or> member s = 0 then (0, 0)
      else let (k, b) = class_run member (drop (member s) s) in (k + 1, b + member s))"
  by pat_completeness auto
termination by (relation "measure (\<lambda>(m, s). length s)") auto

declare class_run.simps [simp del]

fun match_ones :: "string list \<Rightarrow> string \<Rightarrow> string option" where
  "match_ones [] s = Some s"
| "match_ones (cls # cs) [] = None"
| "match_ones (cls # cs) (c # s) = (if c \<in> set cls then match_ones cs s else None)"

definition final_run :: "(string \<Rightarrow> nat) \<Rightarrow> nat \<Rightarrow> string \<Rightarrow> nat option" where
  "final_run member k s = (case class_run member s of (n, b) \<Rightarrow> if k \<le> n then Some b else None)"

definition token_match :: "string list \<Rightarrow> (string \<Rightarrow> nat) \<Rightarrow> nat \<Rightarrow> string \<Rightarrow> nat option" where
  "token_match cs member k s =
     (case match_ones cs s of None \<Rightarrow> None
      | Some r \<Rightarrow> map_option (\<lambda>b. length cs + b) (final_run member k r))"

definition spaced_token_match :: "string list \<Rightarrow> (string \<Rightarrow> nat) \<Rightarrow> nat \<Rightarrow> string \<Rightarrow> nat option" where
  "spaced_token_match cs member k s =
     (case match_ones cs s of None \<Rightarrow> None
      | Some r \<Rightarrow>
          let w = length (takeWhile (\<lambda>c. c \<in> set regexp_spaces) r) in
          if w = 0 then None
          else map_option (\<lambda>b. length cs + w + b) (final_run member k (drop w r)))"

definition literal :: "string \<Rightarrow> string list" where
  "literal = map (\<lambda>c. [c])"

definition githubTokenRegex :: "string \<Rightarrow> nat option" where
  "githubTokenRegex = token_match (literal ''gh'' @ [''pousr'', ''_'']) (ascii_member word_chars) 16"

definition anthropicKeyRegex :: "string \<Rightarrow> nat option" where
  "anthropicKeyRegex s =
     (case token_match (literal ''sk-ant-api03-'') (ascii_member dash_word_chars) 20 s of
        Some n \<Rightarrow> Some n
      | None \<Rightarrow> token_match (literal ''sk-ant-'') (ascii_member dash_word_chars) 20 s)"

definition bearerTokenRegex :: "string \<Rightarrow> nat option" where
  "bearerTokenRegex = spaced_token_match [''bB'', ''eE'', ''aA'', ''rR'', ''eE'', ''rR'']
     (folded_member (dash_word_chars @ ''.'')) 8"

definition genericApiKeyRegex :: "string \<Rightarrow> nat option" where
  "genericApiKeyRegex = token_match (literal ''sk-'') (ascii_member dash_word_chars) 20"

definition slackTokenRegex :: "string \<Rightarrow> nat option" where
  "slackTokenRegex = token_match (literal ''xox'' @ [''baprs'', ''-'']) (ascii_member dash_word_chars) 1"

text \<open>\<open>ReplaceAllString\<close> and \<open>MatchString\<close>: leftmost matches, none of them empty.\<close>

definition redacted :: string where "redacted = ''[REDACTED]''"

function ReplaceAll :: "(string \<Rightarrow> nat option) \<Rightarrow> string \<Rightarrow> string" where
  "ReplaceAll m [] = []"
| "ReplaceAll m (c # s) =
     (case m (c # s) of
        Some n \<Rightarrow> if n = 0 then c # ReplaceAll m s else redacted @ ReplaceAll m (drop n (c # s))
      | None \<Rightarrow> c # ReplaceAll m s)"
  by pat_completeness auto
termination by (relation "measure (\<lambda>(m, s). length s)") auto

fun MatchString :: "(string \<Rightarrow> nat option) \<Rightarrow> string \<Rightarrow> bool" where
  "MatchString m [] \<longleftrightarrow> m [] \<noteq> None"
| "MatchString m (c # s) \<longleftrightarrow> m (c # s) \<noteq> None \<or> MatchString m s"

definition SanitizeText :: "string \<Rightarrow> string" where
  "SanitizeText input =
     ReplaceAll slackTokenRegex
       (ReplaceAll genericApiKeyRegex
         (ReplaceAll bearerTokenRegex
           (ReplaceAll anthropicKeyRegex
             (ReplaceAll githubTokenRegex input))))"

definition containsDisallowedCredential :: "string \<Rightarrow> bool" where
  "containsDisallowedCredential input \<longleftrightarrow>
     MatchString githubTokenRegex input \<or> MatchString anthropicKeyRegex input \<or>
     MatchString bearerTokenRegex input \<or> MatchString genericApiKeyRegex input \<or>
     MatchString slackTokenRegex input"

section \<open>The laws of a pattern\<close>

definition brackets :: string where "brackets = ''[]''"

text \<open>
  What \<open>ReplaceAll\<close> copies before its first replacement is a prefix of the input; after it comes
  the opening bracket of the replacement, or nothing.
\<close>

lemma ReplaceAll_hit: "m (c # s) = Some n \<Longrightarrow> 0 < n \<Longrightarrow> \<exists>x. ReplaceAll m (c # s) = CHR ''['' # x"
  by (simp add: redacted_def)

lemma ReplaceAll_miss:
  "m (c # s) = None \<or> m (c # s) = Some 0 \<Longrightarrow> ReplaceAll m (c # s) = c # ReplaceAll m s"
  by auto

lemma ReplaceAll_cases:
  obtains (hit) x where "ReplaceAll m (c # s) = CHR ''['' # x"
    | (miss) "m (c # s) = None \<or> m (c # s) = Some 0" "ReplaceAll m (c # s) = c # ReplaceAll m s"
proof (cases "m (c # s) = None \<or> m (c # s) = Some 0")
  case True
  then show ?thesis by (intro miss) (simp_all only: ReplaceAll_miss)
next
  case False
  then obtain n where "m (c # s) = Some n" "0 < n" by (cases "m (c # s)") auto
  then show ?thesis using ReplaceAll_hit hit by blast
qed

lemma ReplaceAll_prefix:
  "\<exists>u v w. s = u @ v \<and> ReplaceAll m s = u @ w \<and> (w = [] \<and> v = [] \<or> (\<exists>x. w = CHR ''['' # x))"
proof (induction s)
  case Nil
  then show ?case by simp
next
  case (Cons c s)
  show ?case
  proof (cases rule: ReplaceAll_cases [of m c s])
    case (hit x)
    then have "c # s = [] @ (c # s) \<and> ReplaceAll m (c # s) = [] @ CHR ''['' # x" by simp
    then show ?thesis by blast
  next
    case miss
    obtain u v w where "s = u @ v" "ReplaceAll m s = u @ w"
      "w = [] \<and> v = [] \<or> (\<exists>x. w = CHR ''['' # x)"
      using Cons by blast
    then have "c # s = (c # u) @ v \<and> ReplaceAll m (c # s) = (c # u) @ w"
      using miss by simp
    with \<open>w = [] \<and> v = [] \<or> (\<exists>x. w = CHR ''['' # x)\<close> show ?thesis by blast
  qed
qed

text \<open>
  A match is not lost by appending text, never crosses a bracket, and there is none inside the
  word that replaces a token.
\<close>

locale token_pattern =
  fixes m :: "string \<Rightarrow> nat option"
  assumes nil: "m [] = None"
    and pos: "m s = Some n \<Longrightarrow> 0 < n"
    and extend: "m (u @ v) = None \<Longrightarrow> m u = None"
    and cut: "b \<in> set brackets \<Longrightarrow> m u = None \<Longrightarrow> m (u @ b # v) = None"
    and mark: "m (drop i ''REDACTED'') = None"
begin

lemma at_bracket: "b \<in> set brackets \<Longrightarrow> m (b # v) = None"
  using cut [of b "[]" v] nil by simp

lemma in_mark: "m (drop i ''REDACTED'' @ CHR '']'' # t) = None"
  by (rule cut) (simp_all add: brackets_def mark)

lemma MatchString_skip:
  "(\<And>i. i < length d \<Longrightarrow> m (drop i d @ t) = None) \<Longrightarrow> MatchString m (d @ t) \<longleftrightarrow> MatchString m t"
proof (induction d)
  case (Cons c d)
  from Cons.prems [of 0] have "m (c # d @ t) = None" by simp
  moreover have "m (drop i d @ t) = None" if "i < length d" for i
    using Cons.prems [of "Suc i"] that by simp
  ultimately show ?case using Cons.IH by simp
qed simp

lemma no_match_in_mark: "MatchString m (redacted @ t) \<longleftrightarrow> MatchString m t"
proof -
  have "MatchString m (''REDACTED'' @ CHR '']'' # t) \<longleftrightarrow> MatchString m (CHR '']'' # t)"
    using MatchString_skip [of "''REDACTED''" "CHR '']'' # t"] in_mark by blast
  moreover have "m (CHR '']'' # t) = None" "m (CHR ''['' # ''REDACTED'' @ CHR '']'' # t) = None"
    by (rule at_bracket, simp add: brackets_def)+
  moreover have "redacted @ t = CHR ''['' # ''REDACTED'' @ CHR '']'' # t"
    by (simp add: redacted_def)
  ultimately show ?thesis by (simp only: MatchString.simps) simp
qed

lemma match_before_replacement:
  assumes "m (c # s) = None"
  shows "m (c # ReplaceAll m0 s) = None"
proof -
  obtain u v w where s: "s = u @ v" and r: "ReplaceAll m0 s = u @ w"
    and w: "w = [] \<and> v = [] \<or> (\<exists>x. w = CHR ''['' # x)"
    using ReplaceAll_prefix [of s m0] by blast
  have u: "m (c # u) = None" using extend [of "c # u" v] assms s by simp
  from w show ?thesis
  proof
    assume "w = [] \<and> v = []"
    then have "ReplaceAll m0 s = s" using s r by simp
    then show ?thesis using assms by simp
  next
    assume "\<exists>x. w = CHR ''['' # x"
    then obtain x where "w = CHR ''['' # x" by blast
    then show ?thesis using cut [of "CHR ''[''" "c # u" x] u r by (simp add: brackets_def)
  qed
qed

lemma MatchString_drop: "MatchString m (drop n s) \<Longrightarrow> MatchString m s"
proof (induction s arbitrary: n)
  case (Cons c s)
  then show ?case by (cases n) auto
qed simp

text \<open>A pass over the text with any pattern creates no match of this one.\<close>

lemma replace_keeps: "\<not> MatchString m s \<Longrightarrow> \<not> MatchString m (ReplaceAll m0 s)"
proof (induction m0 s rule: ReplaceAll.induct)
  case (1 m0)
  then show ?case by simp
next
  case (2 m0 c s)
  have "m (c # s) = None" "\<not> MatchString m s" using 2(4) by auto
  have miss: "\<not> MatchString m (c # ReplaceAll m0 s)" if "\<not> MatchString m (ReplaceAll m0 s)"
    using that match_before_replacement [OF \<open>m (c # s) = None\<close>] by simp
  show ?case
  proof (cases "m0 (c # s)")
    case None
    with 2 miss show ?thesis by simp
  next
    case (Some n)
    then show ?thesis
      using 2 miss MatchString_drop [of n "c # s"] by (auto simp: no_match_in_mark)
  qed
qed

text \<open>A pass with this pattern removes every match of it.\<close>

lemma replace_removes: "\<not> MatchString m (ReplaceAll m s)"
proof (induction s rule: length_induct)
  case (1 s)
  show ?case
  proof (cases s)
    case Nil
    then show ?thesis by (simp add: nil)
  next
    case (Cons c t)
    then show ?thesis
      using 1 pos [of "c # t"]
      by (cases "m (c # t)") (auto simp: no_match_in_mark match_before_replacement)
  qed
qed

end

section \<open>The five patterns obey the laws\<close>

definition member_ok :: "(string \<Rightarrow> nat) \<Rightarrow> bool" where
  "member_ok member \<longleftrightarrow>
     (\<forall>s. member s \<le> length s) \<and>
     (\<forall>u v. 0 < member u \<longrightarrow> member (u @ v) = member u) \<and>
     (\<forall>u b v. b \<in> set brackets \<longrightarrow> member (u @ b # v) = member u)"

lemma member_okD:
  assumes "member_ok member"
  shows "member s \<le> length s" "0 < member u \<Longrightarrow> member (u @ v) = member u"
    "b \<in> set brackets \<Longrightarrow> member (u @ b # v) = member u" "member [] = 0"
  using assms by (auto simp: member_ok_def) (metis le_zero_eq list.size(3))

lemma ascii_member_ok:
  assumes "set cls \<inter> set brackets = {}"
  shows "member_ok (ascii_member cls)"
proof -
  have "ascii_member cls s \<le> length s" "0 < ascii_member cls s \<longrightarrow> ascii_member cls (s @ v) = ascii_member cls s"
    for s v by (cases s; simp)+
  moreover have "ascii_member cls (u @ b # v) = ascii_member cls u" if "b \<in> set brackets" for u b v
    using that assms by (cases u) auto
  ultimately show ?thesis unfolding member_ok_def by blast
qed

lemma folded_member_ok:
  assumes "set cls \<inter> set brackets = {}"
  shows "member_ok (folded_member cls)"
proof -
  note a = member_okD [OF ascii_member_ok [OF assms]]
  have "folded_member cls s \<le> length s" for s
    using a(1) [of s] starts_with_length [of long_s s] starts_with_length [of kelvin s]
    by (auto simp: folded_member_def long_s_def kelvin_def)
  moreover have "folded_member cls (u @ v) = folded_member cls u" if "0 < folded_member cls u" for u v
  proof -
    have "u \<noteq> []" using that by (auto simp: folded_member_def starts_with_def long_s_def kelvin_def)
    then have "ascii_member cls (u @ v) = ascii_member cls u" by (cases u) auto
    moreover have "starts_with long_s u \<Longrightarrow> \<not> starts_with kelvin u"
      by (auto simp: starts_with_iff long_s_def kelvin_def)
    moreover have "starts_with kelvin u \<Longrightarrow> \<not> starts_with long_s (u @ v)"
      by (auto simp: starts_with_iff long_s_def kelvin_def)
    ultimately show ?thesis
      using that starts_with_append unfolding folded_member_def by (smt (verit) less_irrefl)
  qed
  moreover have "folded_member cls (u @ b # v) = folded_member cls u" if b: "b \<in> set brackets" for u b v
  proof -
    have "b \<notin> set long_s" "b \<notin> set kelvin"
      using b by (auto simp: brackets_def long_s_def kelvin_def)
    then have "starts_with long_s (u @ b # v) = starts_with long_s u"
      "starts_with kelvin (u @ b # v) = starts_with kelvin u"
      using starts_with_cut starts_with_append by blast+
    then show ?thesis by (simp add: folded_member_def a(3) [OF b])
  qed
  ultimately show ?thesis unfolding member_ok_def by blast
qed

lemma class_run_Nil [simp]: "class_run member [] = (0, 0)"
  by (subst class_run.simps) simp

lemma class_run_cut:
  assumes "member_ok member" "b \<in> set brackets"
  shows "class_run member (u @ b # v) = class_run member u"
proof (induction "length u" arbitrary: u rule: less_induct)
  case less
  show ?case
  proof (cases "member u = 0")
    case True
    then have "member (u @ b # v) = 0" by (simp add: member_okD(3) [OF assms])
    with True show ?thesis
      by (subst class_run.simps, subst (2) class_run.simps) simp
  next
    case False
    have len: "member u \<le> length u" "member (u @ b # v) = member u"
      by (simp_all add: member_okD(1) [OF assms(1)] member_okD(3) [OF assms])
    with False have "u \<noteq> []" by auto
    then have "class_run member (drop (member u) u @ b # v) = class_run member (drop (member u) u)"
      using False less by auto
    then show ?thesis
      using False len \<open>u \<noteq> []\<close>
      by (subst class_run.simps, subst (2) class_run.simps) (simp add: Let_def)
  qed
qed

lemma class_run_extend:
  assumes "member_ok member"
  shows "fst (class_run member u) \<le> fst (class_run member (u @ v))"
proof (induction "length u" arbitrary: u rule: less_induct)
  case less
  show ?case
  proof (cases "member u = 0")
    case True
    then show ?thesis by (subst class_run.simps) simp
  next
    case False
    have len: "member u \<le> length u" "member (u @ v) = member u"
      using False member_okD(1,2) [OF assms] by auto
    with False have "u \<noteq> []" by (metis le_zero_eq list.size(3))
    then have "fst (class_run member (drop (member u) u)) \<le> fst (class_run member (drop (member u) u @ v))"
      using False less by auto
    then show ?thesis
      using False len \<open>u \<noteq> []\<close>
      by (subst class_run.simps, subst (2) class_run.simps) (simp add: Let_def case_prod_beta)
  qed
qed

lemma final_run_extend:
  "member_ok member \<Longrightarrow> final_run member k (u @ v) = None \<Longrightarrow> final_run member k u = None"
  using class_run_extend [of member u v] by (auto simp: final_run_def split: prod.splits if_splits)

lemma final_run_cut:
  "member_ok member \<Longrightarrow> b \<in> set brackets \<Longrightarrow> final_run member k (u @ b # v) = final_run member k u"
  by (simp add: final_run_def class_run_cut)

lemma final_run_Nil: "0 < k \<Longrightarrow> final_run member k [] = None"
  by (simp add: final_run_def)

lemma match_ones_append: "match_ones cs u = Some r \<Longrightarrow> match_ones cs (u @ v) = Some (r @ v)"
  by (induction cs u rule: match_ones.induct) (auto split: if_splits)

lemma match_ones_cut:
  "list_all (\<lambda>c. b \<notin> set c) cs \<Longrightarrow> match_ones cs (u @ b # v) = Some r \<Longrightarrow>
   \<exists>r'. match_ones cs u = Some r' \<and> r = r' @ b # v"
  by (induction cs u rule: match_ones.induct) (auto split: if_splits)

definition classes_ok :: "string list \<Rightarrow> bool" where
  "classes_ok cs \<longleftrightarrow> cs \<noteq> [] \<and> list_all (\<lambda>c. set c \<inter> set brackets = {}) cs"

lemma classes_okD: "classes_ok cs \<Longrightarrow> b \<in> set brackets \<Longrightarrow> list_all (\<lambda>c. b \<notin> set c) cs"
  by (auto simp: classes_ok_def list_all_iff)

lemma token_match_pattern:
  assumes cs: "classes_ok cs" and mem: "member_ok member" and k: "0 < k"
    and mark: "\<And>i. token_match cs member k (drop i ''REDACTED'') = None"
  shows "token_pattern (token_match cs member k)"
proof
  have ne: "cs \<noteq> []" using cs by (simp add: classes_ok_def)
  then show "token_match cs member k [] = None"
    by (cases cs) (simp_all add: token_match_def)
  show "0 < n" if "token_match cs member k s = Some n" for s n
    using that ne by (auto simp: token_match_def split: option.splits)
  show "token_match cs member k u = None" if "token_match cs member k (u @ v) = None" for u v
    using that final_run_extend [OF mem, of k _ v]
    by (cases "match_ones cs u") (simp_all add: token_match_def match_ones_append)
  show "token_match cs member k (u @ b # v) = None"
    if b: "b \<in> set brackets" and "token_match cs member k u = None" for b u v
    using that(2) match_ones_cut [OF classes_okD [OF cs b]] final_run_cut [OF mem b]
    by (fastforce simp: token_match_def split: option.splits)
qed (rule mark)

lemma spaces_no_bracket: "b \<in> set brackets \<Longrightarrow> b \<notin> set regexp_spaces"
  by (auto simp: brackets_def regexp_spaces_def)

lemma takeWhile_append_stop:
  "(\<exists>x \<in> set r. \<not> P x) \<Longrightarrow> takeWhile P (r @ v) = takeWhile P r"
  by (metis takeWhile_append1)

lemma takeWhile_cut: "\<not> P b \<Longrightarrow> takeWhile P (r @ b # v) = takeWhile P r"
  by (induction r) auto

lemma spaced_token_match_pattern:
  assumes cs: "classes_ok cs" and mem: "member_ok member" and k: "0 < k"
    and mark: "\<And>i. spaced_token_match cs member k (drop i ''REDACTED'') = None"
  shows "token_pattern (spaced_token_match cs member k)"
proof
  have ne: "cs \<noteq> []" using cs by (simp add: classes_ok_def)
  then show "spaced_token_match cs member k [] = None"
    by (cases cs) (simp_all add: spaced_token_match_def)
  show "0 < n" if "spaced_token_match cs member k s = Some n" for s n
    using that ne by (auto simp: spaced_token_match_def Let_def split: option.splits if_splits)
  let ?sp = "\<lambda>c. c \<in> set regexp_spaces"
  show "spaced_token_match cs member k u = None"
    if no: "spaced_token_match cs member k (u @ v) = None" for u v
  proof (cases "match_ones cs u")
    case (Some r)
    let ?w = "length (takeWhile ?sp r)"
    show ?thesis
    proof (cases "\<exists>x \<in> set r. \<not> ?sp x")
      case True
      have w: "takeWhile ?sp (r @ v) = takeWhile ?sp r" by (rule takeWhile_append_stop [OF True])
      then have "drop ?w (r @ v) = drop ?w r @ v"
        using length_takeWhile_le [of ?sp r] by simp
      then show ?thesis
        using no Some w final_run_extend [OF mem, of k "drop ?w r" v]
        by (auto simp: spaced_token_match_def match_ones_append Let_def split: if_splits)
    next
      case False
      then have "drop ?w r = []" by (metis drop_all le_refl takeWhile_eq_all_conv)
      then show ?thesis using Some by (simp add: spaced_token_match_def final_run_Nil [OF k] Let_def)
    qed
  qed (simp add: spaced_token_match_def)
  show "spaced_token_match cs member k (u @ b # v) = None"
    if b: "b \<in> set brackets" and no: "spaced_token_match cs member k u = None" for b u v
  proof (cases "match_ones cs (u @ b # v)")
    case (Some r)
    then obtain r' where r': "match_ones cs u = Some r'" "r = r' @ b # v"
      using match_ones_cut [OF classes_okD [OF cs b]] by blast
    have w: "takeWhile ?sp r = takeWhile ?sp r'"
      unfolding r'(2) by (rule takeWhile_cut) (rule spaces_no_bracket [OF b])
    let ?w = "length (takeWhile ?sp r')"
    have "drop ?w r = drop ?w r' @ b # v"
      using length_takeWhile_le [of ?sp r'] by (simp add: r'(2))
    then show ?thesis
      using no Some r' w final_run_cut [OF mem b, of k "drop ?w r'" v]
      by (auto simp: spaced_token_match_def Let_def split: if_splits)
  qed (simp add: spaced_token_match_def)
qed (rule mark)

lemmas class_defs = word_chars_def dash_word_chars_def upper_letters_def lower_letters_def
  digit_chars_def brackets_def literal_def

lemma classes_ok_patterns:
  "classes_ok (literal ''gh'' @ [''pousr'', ''_''])" "classes_ok (literal ''sk-ant-api03-'')"
  "classes_ok (literal ''sk-ant-'')" "classes_ok (literal ''sk-'')"
  "classes_ok [''bB'', ''eE'', ''aA'', ''rR'', ''eE'', ''rR'']"
  "classes_ok (literal ''xox'' @ [''baprs'', ''-''])"
  by (simp_all add: classes_ok_def class_defs)

lemma members_ok:
  "member_ok (ascii_member word_chars)" "member_ok (ascii_member dash_word_chars)"
  "member_ok (folded_member (dash_word_chars @ ''.''))"
  by (intro ascii_member_ok folded_member_ok; simp add: class_defs)+

text \<open>No suffix of the replacement word starts like a token.\<close>

lemma drop_REDACTED_cases:
  "drop i ''REDACTED'' \<in> {''REDACTED'', ''EDACTED'', ''DACTED'', ''ACTED'', ''CTED'', ''TED'', ''ED'', ''D'', []}"
proof -
  have "i = 0 \<or> i = 1 \<or> i = 2 \<or> i = 3 \<or> i = 4 \<or> i = 5 \<or> i = 6 \<or> i = 7 \<or> 8 \<le> i" by arith
  then show ?thesis by (elim disjE) auto
qed

lemma no_ones_in_mark:
  "match_ones (literal ''gh'' @ [''pousr'', ''_'']) (drop i ''REDACTED'') = None"
  "match_ones (literal ''sk-ant-api03-'') (drop i ''REDACTED'') = None"
  "match_ones (literal ''sk-ant-'') (drop i ''REDACTED'') = None"
  "match_ones (literal ''sk-'') (drop i ''REDACTED'') = None"
  "match_ones [''bB'', ''eE'', ''aA'', ''rR'', ''eE'', ''rR''] (drop i ''REDACTED'') = None"
  "match_ones (literal ''xox'' @ [''baprs'', ''-'']) (drop i ''REDACTED'') = None"
  using drop_REDACTED_cases [of i] by (auto simp: literal_def)

lemma mark_no_match:
  "match_ones cs s = None \<Longrightarrow> token_match cs member k s = None"
  "match_ones cs s = None \<Longrightarrow> spaced_token_match cs member k s = None"
  by (simp_all add: token_match_def spaced_token_match_def)

interpretation github: token_pattern githubTokenRegex
  unfolding githubTokenRegex_def
  by (rule token_match_pattern) (simp_all add: classes_ok_patterns members_ok mark_no_match no_ones_in_mark)

interpretation bearer: token_pattern bearerTokenRegex
  unfolding bearerTokenRegex_def
  by (rule spaced_token_match_pattern)
    (simp_all add: classes_ok_patterns members_ok mark_no_match no_ones_in_mark)

interpretation generic_key: token_pattern genericApiKeyRegex
  unfolding genericApiKeyRegex_def
  by (rule token_match_pattern) (simp_all add: classes_ok_patterns members_ok mark_no_match no_ones_in_mark)

interpretation slack: token_pattern slackTokenRegex
  unfolding slackTokenRegex_def
  by (rule token_match_pattern) (simp_all add: classes_ok_patterns members_ok mark_no_match no_ones_in_mark)

interpretation ant_api: token_pattern "token_match (literal ''sk-ant-api03-'') (ascii_member dash_word_chars) 20"
  by (rule token_match_pattern) (simp_all add: classes_ok_patterns members_ok mark_no_match no_ones_in_mark)

interpretation ant: token_pattern "token_match (literal ''sk-ant-'') (ascii_member dash_word_chars) 20"
  by (rule token_match_pattern) (simp_all add: classes_ok_patterns members_ok mark_no_match no_ones_in_mark)

lemma anthropic_None:
  "anthropicKeyRegex s = None \<longleftrightarrow>
     token_match (literal ''sk-ant-api03-'') (ascii_member dash_word_chars) 20 s = None \<and>
     token_match (literal ''sk-ant-'') (ascii_member dash_word_chars) 20 s = None"
  by (simp add: anthropicKeyRegex_def split: option.split)

interpretation anthropic: token_pattern anthropicKeyRegex
proof
  show "0 < n" if "anthropicKeyRegex s = Some n" for s n
    using that ant_api.pos ant.pos by (auto simp: anthropicKeyRegex_def split: option.splits)
qed (auto simp: anthropic_None ant_api.nil ant.nil ant_api.mark ant.mark
    dest: ant_api.extend ant.extend intro: ant_api.cut ant.cut)

section \<open>What redaction promises\<close>

lemma sanitized_no_match:
  "\<not> MatchString githubTokenRegex (SanitizeText s)" "\<not> MatchString anthropicKeyRegex (SanitizeText s)"
  "\<not> MatchString bearerTokenRegex (SanitizeText s)" "\<not> MatchString genericApiKeyRegex (SanitizeText s)"
  "\<not> MatchString slackTokenRegex (SanitizeText s)"
  unfolding SanitizeText_def
  by (intro github.replace_keeps anthropic.replace_keeps bearer.replace_keeps generic_key.replace_keeps
      github.replace_removes anthropic.replace_removes bearer.replace_removes
      generic_key.replace_removes slack.replace_removes)+

lemma ReplaceAll_id: "\<not> MatchString m s \<Longrightarrow> ReplaceAll m s = s"
  by (induction s) auto

lemma sanitized_clean: "\<not> containsDisallowedCredential (SanitizeText s)"
  by (simp add: containsDisallowedCredential_def sanitized_no_match)

lemma sanitize_clean_id: "\<not> containsDisallowedCredential u \<Longrightarrow> SanitizeText u = u"
  by (simp add: containsDisallowedCredential_def SanitizeText_def ReplaceAll_id)

lemma sanitize_idem [simp]: "SanitizeText (SanitizeText t) = SanitizeText t"
  by (rule sanitize_clean_id [OF sanitized_clean])

text \<open>C5 Text that went through \<open>SanitizeText\<close> holds none of the five credential patterns, so
  nothing the store persists after redaction would be refused as a credential.\<close>

theorem sanitized_has_no_credential: "\<not> containsDisallowedCredential (SanitizeText s)"
  by (rule sanitized_clean)

text \<open>Redaction changes a text exactly when it holds a credential pattern; and redacting
  twice is redacting once, so a prompt sanitized again at release stays as it was queued.\<close>

theorem sanitize_changes_only_credentials:
  "(SanitizeText s = s \<longleftrightarrow> \<not> containsDisallowedCredential s) \<and>
   SanitizeText (SanitizeText t) = SanitizeText t"
  using sanitized_clean [of s] sanitize_clean_id [of s] by auto

end
