(* ===== verification/Go_JSON.thy ===== *)
theory Go_JSON
  imports Go_Prelude
begin

text \<open>
  What the source uses of \<open>encoding/json\<close> to write canonical bytes: string literals with and
  without HTML escaping, arrays of strings (\<open>marshalStrings\<close> in
  \<open>internal/storage/agy_state.go\<close>) and integer literals. A byte that does not begin a valid
  UTF-8 sequence is written as the replacement character, as Go does.
\<close>

definition byte_of :: "char \<Rightarrow> nat" where "byte_of c = of_char c"

definition continuation :: "char \<Rightarrow> bool" where
  "continuation c \<longleftrightarrow> 0x80 \<le> byte_of c \<and> byte_of c < 0xC0"

text \<open>The length of the valid UTF-8 sequence at the front of a string, 0 if there is none.\<close>

fun rune_len :: "string \<Rightarrow> nat" where
  "rune_len [] = 0"
| "rune_len [a] = (if byte_of a < 0x80 then 1 else 0)"
| "rune_len (a # b # s) =
     (let x = byte_of a; y = byte_of b in
      if x < 0x80 then 1
      else if 0xC2 \<le> x \<and> x \<le> 0xDF then (if continuation b then 2 else 0)
      else if 0xE0 \<le> x \<and> x \<le> 0xEF then
        (if (if x = 0xE0 then 0xA0 \<le> y \<and> y < 0xC0
             else if x = 0xED then 0x80 \<le> y \<and> y < 0xA0
             else continuation b) \<and> s \<noteq> [] \<and> continuation (hd s)
         then 3 else 0)
      else if 0xF0 \<le> x \<and> x \<le> 0xF4 then
        (if (if x = 0xF0 then 0x90 \<le> y \<and> y < 0xC0
             else if x = 0xF4 then 0x80 \<le> y \<and> y < 0x90
             else continuation b) \<and> 2 \<le> length s \<and> continuation (s ! 0) \<and> continuation (s ! 1)
         then 4 else 0)
      else 0)"

definition hex_nibble :: "nat \<Rightarrow> char" where
  "hex_nibble n = (if n < 10 then char_of (48 + n) else char_of (87 + n))"

definition escape_u :: "nat \<Rightarrow> string" where
  "escape_u n = [CHR 0x5C, CHR ''u'', hex_nibble (n div 4096 mod 16), hex_nibble (n div 256 mod 16),
                 hex_nibble (n div 16 mod 16), hex_nibble (n mod 16)]"

definition escape_ascii :: "bool \<Rightarrow> char \<Rightarrow> string" where
  "escape_ascii html c =
     (if c = CHR 0x22 \<or> c = CHR 0x5C then [CHR 0x5C, c]
      else if c = CHR 0x08 then [CHR 0x5C, CHR ''b'']
      else if c = CHR 0x0C then [CHR 0x5C, CHR ''f'']
      else if c = CHR 0x0A then [CHR 0x5C, CHR ''n'']
      else if c = CHR 0x0D then [CHR 0x5C, CHR ''r'']
      else if c = CHR 0x09 then [CHR 0x5C, CHR ''t'']
      else if byte_of c < 0x20 \<or> html \<and> (c = CHR ''<'' \<or> c = CHR ''>'' \<or> c = CHR ''&'')
        then escape_u (byte_of c)
      else [c])"

function json_chars :: "bool \<Rightarrow> string \<Rightarrow> string" where
  "json_chars html [] = []"
| "json_chars html (c # s) =
     (case rune_len (c # s) of
        0 \<Rightarrow> escape_u 0xFFFD @ json_chars html s
      | Suc 0 \<Rightarrow> escape_ascii html c @ json_chars html s
      | Suc n \<Rightarrow>
          (if take 3 (c # s) = [CHR 0xE2, CHR 0x80, CHR 0xA8] then escape_u 0x2028
           else if take 3 (c # s) = [CHR 0xE2, CHR 0x80, CHR 0xA9] then escape_u 0x2029
           else take (Suc n) (c # s)) @ json_chars html (drop n s))"
  by pat_completeness auto
termination by (relation "measure (\<lambda>(h, s). length s)") auto

definition json_string :: "bool \<Rightarrow> string \<Rightarrow> string" where
  "json_string html s = [CHR 0x22] @ json_chars html s @ [CHR 0x22]"

fun comma_join :: "string list \<Rightarrow> string" where
  "comma_join [] = []"
| "comma_join [x] = x"
| "comma_join (x # y # xs) = x @ '','' @ comma_join (y # xs)"

definition marshalStrings :: "string list \<Rightarrow> string" where
  "marshalStrings v =
     (if v = [] then ''[]'' else ''['' @ comma_join (map (json_string True) v) @ '']'')"

end
