(* ===== verification/Go_Hash.thy ===== *)
theory Go_Hash
  imports Go_Prelude "HOL-Library.Word"
begin

text \<open>
  \<open>crypto/sha256.Sum256\<close> and \<open>encoding/hex\<close>, the standard-library hash behind the
  operation fingerprints, the artifact digests and the proposal-set digest. SHA-256 is
  written out on 32-bit words: padding to 64-byte blocks, the message schedule, the 64
  rounds, and the hexadecimal rendering the source compares and stores.
\<close>

unbundle bit_operations_syntax

type_synonym u32 = "32 word"

section \<open>Padding\<close>

definition be_bytes :: "nat \<Rightarrow> nat \<Rightarrow> nat list" where
  "be_bytes k n = map (\<lambda>i. (n div 256 ^ (k - 1 - i)) mod 256) [0..<k]"

definition sha_pad :: "nat list \<Rightarrow> nat list" where
  "sha_pad m = m @ [128] @ replicate ((119 - length m mod 64) mod 64) 0 @ be_bytes 8 (8 * length m)"

lemma length_be_bytes [simp]: "length (be_bytes k n) = k"
  by (simp add: be_bytes_def)

lemma sha_pad_blocks: "length (sha_pad m) mod 64 = 0"
proof -
  define r where "r = length m mod 64"
  have r: "r < 64" by (simp add: r_def)
  have "(r + ((119 - r) mod 64 + 9)) mod 64 = 0"
  proof (cases "r \<le> 55")
    case True
    then have "(119 - r) mod 64 = 55 - r"
      using mod_less [of "55 - r" 64] by (simp add: mod_if)
    with True show ?thesis by simp
  next
    case False
    with r have "(119 - r) mod 64 = 119 - r" by simp
    with False r show ?thesis by simp
  qed
  then have "(length m + ((119 - r) mod 64 + 9)) mod 64 = 0"
    unfolding r_def by (metis mod_add_left_eq)
  then show ?thesis by (simp add: sha_pad_def r_def add.commute add.left_commute)
qed

fun be_words :: "nat list \<Rightarrow> u32 list" where
  "be_words (a # b # c # d # bs) = of_nat (((a * 256 + b) * 256 + c) * 256 + d) # be_words bs"
| "be_words _ = []"

function word_blocks :: "u32 list \<Rightarrow> u32 list list" where
  "word_blocks ws = (if ws = [] then [] else take 16 ws # word_blocks (drop 16 ws))"
  by pat_completeness auto
termination
  by (relation "measure length") auto

declare word_blocks.simps [simp del]

section \<open>The compression function\<close>

text \<open>
  The constants are the first 32 fractional bits of the cube roots of the first 64 primes (the
  rounds) and of the square roots of the first eight (the initial value): the \<open>e\<close>-th root of
  \<open>p * 2 ^ (32 * e)\<close>, found bit by bit, modulo \<open>2 ^ 32\<close>.
\<close>

definition root_floor :: "nat \<Rightarrow> nat \<Rightarrow> nat" where
  "root_floor e n = fold (\<lambda>k r. if (r + 2 ^ k) ^ e \<le> n then r + 2 ^ k else r) (rev [0..<37]) 0"

definition small_primes :: "nat list" where
  "small_primes = filter (\<lambda>n. list_all (\<lambda>d. n mod d \<noteq> 0) [2..<min n 18]) [2..<312]"

definition round_constants :: "u32 list" where
  "round_constants = map (\<lambda>p. of_nat (root_floor 3 (p * 2 ^ 96))) small_primes"

definition initial_hash :: "u32 list" where
  "initial_hash = map (\<lambda>p. of_nat (root_floor 2 (p * 2 ^ 64))) (take 8 small_primes)"

definition rotr :: "nat \<Rightarrow> u32 \<Rightarrow> u32" where
  "rotr n w = drop_bit n w OR push_bit (32 - n) w"

definition small_sigma0 :: "u32 \<Rightarrow> u32" where
  "small_sigma0 w = rotr 7 w XOR rotr 18 w XOR drop_bit 3 w"

definition small_sigma1 :: "u32 \<Rightarrow> u32" where
  "small_sigma1 w = rotr 17 w XOR rotr 19 w XOR drop_bit 10 w"

definition big_sigma0 :: "u32 \<Rightarrow> u32" where
  "big_sigma0 w = rotr 2 w XOR rotr 13 w XOR rotr 22 w"

definition big_sigma1 :: "u32 \<Rightarrow> u32" where
  "big_sigma1 w = rotr 6 w XOR rotr 11 w XOR rotr 25 w"

text \<open>The schedule is kept newest word first, so \<open>W[t-2]\<close> is at index 1 and \<open>W[t-16]\<close> at 15.\<close>

fun extend_schedule :: "nat \<Rightarrow> u32 list \<Rightarrow> u32 list" where
  "extend_schedule 0 ws = ws"
| "extend_schedule (Suc n) ws =
     extend_schedule n ((small_sigma1 (ws ! 1) + ws ! 6 + small_sigma0 (ws ! 14) + ws ! 15) # ws)"

type_synonym hash_state = "u32 \<times> u32 \<times> u32 \<times> u32 \<times> u32 \<times> u32 \<times> u32 \<times> u32"

fun sha_round :: "u32 \<times> u32 \<Rightarrow> hash_state \<Rightarrow> hash_state" where
  "sha_round (k, w) (a, b, c, d, e, f, g, h) =
     (let t1 = h + big_sigma1 e + ((e AND f) XOR (NOT e AND g)) + k + w;
          t2 = big_sigma0 a + ((a AND b) XOR (a AND c) XOR (b AND c))
      in (t1 + t2, a, b, c, d + t1, e, f, g))"

fun add_state :: "hash_state \<Rightarrow> hash_state \<Rightarrow> hash_state" where
  "add_state (a, b, c, d, e, f, g, h) (a', b', c', d', e', f', g', h') =
     (a + a', b + b', c + c', d + d', e + e', f + f', g + g', h + h')"

definition sha_block :: "u32 list \<Rightarrow> hash_state \<Rightarrow> hash_state" where
  "sha_block ws st =
     add_state st (fold sha_round (zip round_constants (rev (extend_schedule 48 (rev ws)))) st)"

fun state_list :: "hash_state \<Rightarrow> u32 list" where
  "state_list (a, b, c, d, e, f, g, h) = [a, b, c, d, e, f, g, h]"

definition sha256_words :: "string \<Rightarrow> u32 list" where
  "sha256_words s =
     state_list (fold sha_block (word_blocks (be_words (sha_pad (map of_char s))))
       (initial_hash ! 0, initial_hash ! 1, initial_hash ! 2, initial_hash ! 3,
        initial_hash ! 4, initial_hash ! 5, initial_hash ! 6, initial_hash ! 7))"

section \<open>Hexadecimal\<close>

definition hex_digit :: "nat \<Rightarrow> char" where
  "hex_digit n = (if n < 10 then char_of (48 + n) else char_of (87 + n))"

definition hex_word :: "u32 \<Rightarrow> string" where
  "hex_word w = map (\<lambda>i. hex_digit ((unat w div 16 ^ (7 - i)) mod 16)) [0..<8]"

definition sha256_hex :: "string \<Rightarrow> string" where
  "sha256_hex s = concat (map hex_word (sha256_words s))"

lemma length_hex_word [simp]: "length (hex_word w) = 8"
  by (simp add: hex_word_def)

lemma length_state_list [simp]: "length (state_list st) = 8"
  by (induction st rule: state_list.induct) simp

lemma length_concat_const: "(\<And>x. length (f x) = k) \<Longrightarrow> length (concat (map f xs)) = k * length xs"
  by (induction xs) auto

lemma length_sha256_hex [simp]: "length (sha256_hex s) = 64"
  by (simp add: sha256_hex_def length_concat_const [where k = 8] sha256_words_def)

lemma hex_digit_range:
  "n < 16 \<Longrightarrow> CHR ''0'' \<le> hex_digit n \<and> hex_digit n \<le> CHR ''9'' \<or>
              CHR ''a'' \<le> hex_digit n \<and> hex_digit n \<le> CHR ''f''"
  by (auto simp: hex_digit_def less_eq_char_def)

lemma sha256_hex_digits:
  "c \<in> set (sha256_hex s) \<Longrightarrow>
     CHR ''0'' \<le> c \<and> c \<le> CHR ''9'' \<or> CHR ''a'' \<le> c \<and> c \<le> CHR ''f''"
  unfolding sha256_hex_def hex_word_def by (auto intro!: hex_digit_range)

end
