(* ===== verification/Council_Domain.thy ===== *)
theory Council_Domain
  imports Go_Prelude "HOL-Library.Word"
begin

text \<open>
  The in-memory domain kernel, \<open>internal/council/domain.go\<close>: the roster, the ballot tally,
  and the logical session with its turns. A session's turn records are Go pointers shared
  between \<open>Turns\<close> and \<open>ActiveTurn\<close>; the model keeps them in an explicit heap, so that
  a write through \<open>ActiveTurn\<close> is seen through \<open>Turns\<close> exactly when both hold the same
  address. Every method returns an error or the new session; no method changes the session on
  an error path.
\<close>

section \<open>Roster and tally\<close>

type_synonym Contributor = string

definition OpenCode :: Contributor where "OpenCode = ''opencode''"

definition Claude :: Contributor where "Claude = ''claude''"

definition Codex :: Contributor where "Codex = ''codex''"

definition Agy :: Contributor where "Agy = ''agy''"

lemmas contributor_names = OpenCode_def Claude_def Codex_def Agy_def

definition Roster :: "Contributor list" where
  "Roster = [OpenCode, Claude, Codex, Agy]"

definition ValidContributor :: "Contributor \<Rightarrow> bool" where
  "ValidContributor c \<longleftrightarrow> list_ex (\<lambda>v. v = c) Roster"

record Ballot =
  Voter :: Contributor
  Choice :: Contributor
  ProposalSet :: string
  Reason :: string
  Acceptable :: bool

datatype tally_error =
    MissingProposalSet | NotFourBallots | UnknownContributor | SelfVote
  | DuplicateBallot | StaleProposalSet | MissingReason

text \<open>\<open>out[b.Choice]++\<close> on a Go map: an absent key reads as zero.\<close>

definition count_vote :: "Ballot \<Rightarrow> (Contributor \<rightharpoonup> int) \<Rightarrow> (Contributor \<rightharpoonup> int)" where
  "count_vote b out = out(Choice b \<mapsto> (case out (Choice b) of None \<Rightarrow> 0 | Some n \<Rightarrow> n) + 1)"

text \<open>The body of the loop over the ballots: the first failing check of a ballot returns.\<close>

fun tally_loop ::
  "string \<Rightarrow> Ballot list \<Rightarrow> (Contributor \<Rightarrow> bool) \<Rightarrow> (Contributor \<rightharpoonup> int) \<Rightarrow> tally_error + (Contributor \<rightharpoonup> int)"
where
  "tally_loop ps [] seen out = Inr out"
| "tally_loop ps (b # bs) seen out =
     (if \<not> ValidContributor (Voter b) \<or> \<not> ValidContributor (Choice b) then Inl UnknownContributor
      else if Voter b = Choice b then Inl SelfVote
      else if seen (Voter b) then Inl DuplicateBallot
      else if ProposalSet b \<noteq> ps then Inl StaleProposalSet
      else if blank (Reason b) then Inl MissingReason
      else tally_loop ps bs (seen(Voter b := True))
             (count_vote b out))"

definition Tally :: "Ballot list \<Rightarrow> string \<Rightarrow> tally_error + (Contributor \<rightharpoonup> int)" where
  "Tally ballots proposalSet =
     (if blank proposalSet then Inl MissingProposalSet
      else if length ballots \<noteq> 4 then Inl NotFourBallots
      else tally_loop proposalSet ballots (\<lambda>_. False)
             (fold (\<lambda>c m. m(c \<mapsto> 0)) Roster Map.empty))"

section \<open>Session state\<close>

datatype State = Parked | Running | Archived

datatype SessionLifecycle = SessionActive | SessionArchived

datatype TurnStatus =
    TurnPending | TurnRunning | TurnCompleted | TurnInterrupted | TurnCancelling
  | TurnCancelled | TurnFailed | TurnOther string

datatype ControllerConnection = ControllerConnected | ControllerDisconnected

datatype ExecutionVisibility = VisibilityReachable | VisibilityHostLost

record TurnRecord =
  tr_Key :: string
  tr_Prompt :: string
  tr_Status :: TurnStatus
  tr_Result :: string

record Session =
  ID :: Contributor
  State :: State
  Lifecycle :: SessionLifecycle
  ControllerStatus :: ControllerConnection
  Visibility :: ExecutionVisibility
  ControllerLease :: string
  Pending :: "string \<rightharpoonup> string"
  Active :: string
  ActiveTurn :: "nat option"
  Turns :: "string \<rightharpoonup> nat"
  RecoveryContext :: string
  RecoveryGeneration :: "64 word"
  ActiveRecoveryGen :: "64 word"
  turn_heap :: "TurnRecord list"

datatype kernel_error =
    InvalidContributorOrLease | LeaseMismatch | KSessionArchived | KControllerDisconnected
  | EmptyPromptOrKey | KeyAlreadyActive | RetiredDifferentContent | AlreadyRetired
  | DuplicatePendingKey | HostLostReleaseBlocked | CancellationUnresolved | AlreadyProcessing
  | PendingNotFound | TurnAlreadyCompleted | CompletionMismatch | NoRunningTurnToCancel
  | CancelConfirmMismatch | InterruptMismatch | FailureMismatch | InactiveHostLoss
  | HostNotLost | EmptyTurnIdentity | StaleRecoveryGeneration | StaleReconciliation
  | ReconcileKeyMismatch | InvalidReconcileStatus | ReconcileContextMismatch
  | ConflictsWithTerminal | PendingReconcileStatus | EmptyPrompt | CannotArchive

definition is_terminal :: "TurnStatus \<Rightarrow> bool" where
  "is_terminal st \<longleftrightarrow> st = TurnCompleted \<or> st = TurnCancelled \<or> st = TurnFailed \<or> st = TurnInterrupted"

definition is_live :: "TurnStatus \<Rightarrow> bool" where
  "is_live st \<longleftrightarrow> st = TurnRunning \<or> st = TurnCancelling"

text \<open>Writing through a pointer, the status of the turn filed under a key, and the status a
  possibly nil \<open>ActiveTurn\<close> points to.\<close>

definition upd_turn :: "nat \<Rightarrow> (TurnRecord \<Rightarrow> TurnRecord) \<Rightarrow> Session \<Rightarrow> Session" where
  "upd_turn a f s = s\<lparr>turn_heap := (turn_heap s)[a := f (turn_heap s ! a)]\<rparr>"

definition turn_status :: "Session \<Rightarrow> string \<Rightarrow> TurnStatus option" where
  "turn_status s key = map_option (\<lambda>a. tr_Status (turn_heap s ! a)) (Turns s key)"

definition active_status :: "Session \<Rightarrow> TurnStatus option" where
  "active_status s = map_option (\<lambda>a. tr_Status (turn_heap s ! a)) (ActiveTurn s)"

text \<open>What every terminal method does at its end: forget the active turn and park.\<close>

definition park :: "Session \<Rightarrow> Session" where
  "park s = s\<lparr>Active := [], ActiveTurn := None, State := Parked\<rparr>"

definition close_episode :: "Session \<Rightarrow> Session" where
  "close_episode s = s\<lparr>Visibility := VisibilityReachable, RecoveryContext := [], ActiveRecoveryGen := 0\<rparr>"

section \<open>Methods\<close>

definition NewSession :: "Contributor \<Rightarrow> string \<Rightarrow> kernel_error + Session" where
  "NewSession c lease =
     (if \<not> ValidContributor c \<or> blank lease then Inl InvalidContributorOrLease
      else Inr \<lparr>ID = c, State = Parked, Lifecycle = SessionActive,
                ControllerStatus = ControllerConnected, Visibility = VisibilityReachable,
                ControllerLease = lease, Pending = Map.empty, Active = [], ActiveTurn = None,
                Turns = Map.empty, RecoveryContext = [], RecoveryGeneration = 0,
                ActiveRecoveryGen = 0, turn_heap = []\<rparr>)"

definition authorize :: "string \<Rightarrow> Session \<Rightarrow> kernel_error option" where
  "authorize lease s =
     (if lease = [] \<or> lease \<noteq> ControllerLease s then Some LeaseMismatch
      else if Lifecycle s = SessionArchived \<or> State s = Archived then Some KSessionArchived
      else if ControllerStatus s = ControllerDisconnected then Some KControllerDisconnected
      else None)"

definition Queue :: "string \<Rightarrow> string \<Rightarrow> string \<Rightarrow> Session \<Rightarrow> kernel_error + Session" where
  "Queue lease key prompt s =
     (case authorize lease s of Some e \<Rightarrow> Inl e | None \<Rightarrow>
      if blank key \<or> blank prompt then Inl EmptyPromptOrKey
      else if Active s = key then Inl KeyAlreadyActive
      else case Turns s key of
        Some a \<Rightarrow> if tr_Prompt (turn_heap s ! a) \<noteq> prompt then Inl RetiredDifferentContent
                  else Inl AlreadyRetired
      | None \<Rightarrow> (case Pending s key of
          Some p \<Rightarrow> if p = prompt then Inr s else Inl DuplicatePendingKey
        | None \<Rightarrow> Inr (s\<lparr>Pending := (Pending s)(key \<mapsto> prompt)\<rparr>)))"

definition Release :: "string \<Rightarrow> string \<Rightarrow> Session \<Rightarrow> kernel_error + (string \<times> Session)" where
  "Release lease key s =
     (case authorize lease s of Some e \<Rightarrow> Inl e | None \<Rightarrow>
      if Visibility s = VisibilityHostLost then Inl HostLostReleaseBlocked
      else if active_status s = Some TurnCancelling then Inl CancellationUnresolved
      else if State s \<noteq> Parked then Inl AlreadyProcessing
      else case Pending s key of
        None \<Rightarrow> Inl PendingNotFound
      | Some prompt \<Rightarrow>
          Inr (prompt,
            s\<lparr>Pending := (Pending s)(key := None),
              turn_heap := turn_heap s @
                [\<lparr>tr_Key = key, tr_Prompt = prompt, tr_Status = TurnRunning, tr_Result = []\<rparr>],
              Turns := (Turns s)(key \<mapsto> length (turn_heap s)),
              ActiveTurn := Some (length (turn_heap s)),
              Active := key, State := Running\<rparr>))"

definition CompleteWithResult :: "string \<Rightarrow> string \<Rightarrow> Session \<Rightarrow> kernel_error + Session" where
  "CompleteWithResult key result s =
     (if turn_status s key = Some TurnCompleted
      then Inl TurnAlreadyCompleted
      else case ActiveTurn s of
        None \<Rightarrow> Inl CompletionMismatch
      | Some a \<Rightarrow>
          if State s \<noteq> Running \<or> Active s \<noteq> key then Inl CompletionMismatch
          else Inr (park (upd_turn a (\<lambda>t. t\<lparr>tr_Status := TurnCompleted, tr_Result := result\<rparr>) s)))"

definition Complete :: "string \<Rightarrow> Session \<Rightarrow> kernel_error + Session" where
  "Complete key s = CompleteWithResult key [] s"

definition RequestCancel :: "string \<Rightarrow> Session \<Rightarrow> kernel_error + Session" where
  "RequestCancel lease s =
     (case authorize lease s of Some e \<Rightarrow> Inl e | None \<Rightarrow>
      case ActiveTurn s of
        None \<Rightarrow> Inl NoRunningTurnToCancel
      | Some a \<Rightarrow>
          if State s \<noteq> Running \<or> tr_Status (turn_heap s ! a) \<noteq> TurnRunning
          then Inl NoRunningTurnToCancel
          else Inr (upd_turn a (\<lambda>t. t\<lparr>tr_Status := TurnCancelling\<rparr>) s))"

definition ConfirmCancel :: "string \<Rightarrow> Session \<Rightarrow> kernel_error + Session" where
  "ConfirmCancel key s =
     (case ActiveTurn s of
        None \<Rightarrow> Inl CancelConfirmMismatch
      | Some a \<Rightarrow>
          if Active s \<noteq> key \<or> tr_Status (turn_heap s ! a) \<noteq> TurnCancelling
          then Inl CancelConfirmMismatch
          else Inr (park (upd_turn a (\<lambda>t. t\<lparr>tr_Status := TurnCancelled\<rparr>) s)))"

definition Interrupt :: "string \<Rightarrow> Session \<Rightarrow> kernel_error + Session" where
  "Interrupt key s =
     (case ActiveTurn s of
        None \<Rightarrow> Inl InterruptMismatch
      | Some a \<Rightarrow>
          if Active s \<noteq> key \<or>
             (tr_Status (turn_heap s ! a) \<noteq> TurnRunning \<and> tr_Status (turn_heap s ! a) \<noteq> TurnCancelling)
          then Inl InterruptMismatch
          else Inr (park (upd_turn a (\<lambda>t. t\<lparr>tr_Status := TurnInterrupted\<rparr>) s)))"

definition Fail :: "string \<Rightarrow> string \<Rightarrow> Session \<Rightarrow> kernel_error + Session" where
  "Fail key reason s =
     (case ActiveTurn s of
        None \<Rightarrow> Inl FailureMismatch
      | Some a \<Rightarrow>
          if Active s \<noteq> key then Inl FailureMismatch
          else Inr (park (upd_turn a (\<lambda>t. t\<lparr>tr_Status := TurnFailed, tr_Result := reason\<rparr>) s)))"

definition RecordHostLoss :: "Session \<Rightarrow> kernel_error + (64 word \<times> Session)" where
  "RecordHostLoss s =
     (if Visibility s = VisibilityHostLost then Inr (ActiveRecoveryGen s, s)
      else if State s \<noteq> Running \<or> ActiveTurn s = None then Inl InactiveHostLoss
      else let g = RecoveryGeneration s + 1 in
        Inr (g, s\<lparr>RecoveryGeneration := g, ActiveRecoveryGen := g,
                  Visibility := VisibilityHostLost, RecoveryContext := Active s\<rparr>))"

definition ReconcileHost ::
  "string \<Rightarrow> 64 word \<Rightarrow> TurnStatus \<Rightarrow> string \<Rightarrow> Session \<Rightarrow> kernel_error + Session" where
  "ReconcileHost key gen status result s =
     (if Visibility s \<noteq> VisibilityHostLost then Inl HostNotLost
      else if key = [] then Inl EmptyTurnIdentity
      else if gen = 0 \<or> gen \<noteq> ActiveRecoveryGen s then Inl StaleRecoveryGeneration
      else case ActiveTurn s of
        Some a \<Rightarrow>
          if key \<noteq> Active s then
            (if Turns s key \<noteq> None then Inl StaleReconciliation else Inl ReconcileKeyMismatch)
          else if status = TurnRunning then
            Inr ((close_episode
                   (if tr_Status (turn_heap s ! a) \<noteq> TurnCancelling
                    then upd_turn a (\<lambda>t. t\<lparr>tr_Status := TurnRunning\<rparr>) s else s))\<lparr>State := Running\<rparr>)
          else if status = TurnCancelling then
            Inr ((close_episode (upd_turn a (\<lambda>t. t\<lparr>tr_Status := TurnCancelling\<rparr>) s))\<lparr>State := Running\<rparr>)
          else if is_terminal status then
            Inr (close_episode (park (upd_turn a (\<lambda>t. t\<lparr>tr_Status := status, tr_Result := result\<rparr>) s)))
          else Inl InvalidReconcileStatus
      | None \<Rightarrow>
          if key \<noteq> RecoveryContext s then
            (if Turns s key \<noteq> None then Inl StaleReconciliation else Inl ReconcileContextMismatch)
          else if is_terminal status then Inr (close_episode s)
          else if is_live status then Inl ConflictsWithTerminal
          else if status = TurnPending then Inl PendingReconcileStatus
          else Inl InvalidReconcileStatus)"

definition DisconnectController :: "Session \<Rightarrow> Session" where
  "DisconnectController s = s\<lparr>ControllerStatus := ControllerDisconnected\<rparr>"

definition ReconnectController :: "string \<Rightarrow> Session \<Rightarrow> kernel_error + Session" where
  "ReconnectController lease s =
     (if lease = [] \<or> lease \<noteq> ControllerLease s then Inl LeaseMismatch
      else if Lifecycle s = SessionArchived \<or> State s = Archived then Inl KSessionArchived
      else Inr (s\<lparr>ControllerStatus := ControllerConnected\<rparr>))"

definition Discard :: "string \<Rightarrow> string \<Rightarrow> Session \<Rightarrow> kernel_error + Session" where
  "Discard lease key s =
     (case authorize lease s of Some e \<Rightarrow> Inl e | None \<Rightarrow>
      if Pending s key = None then Inl PendingNotFound
      else Inr (s\<lparr>Pending := (Pending s)(key := None)\<rparr>))"

definition Replace :: "string \<Rightarrow> string \<Rightarrow> string \<Rightarrow> Session \<Rightarrow> kernel_error + Session" where
  "Replace lease key newPrompt s =
     (case authorize lease s of Some e \<Rightarrow> Inl e | None \<Rightarrow>
      if blank newPrompt then Inl EmptyPrompt
      else if Pending s key = None then Inl PendingNotFound
      else Inr (s\<lparr>Pending := (Pending s)(key \<mapsto> newPrompt)\<rparr>))"

definition Archive :: "string \<Rightarrow> Session \<Rightarrow> kernel_error + Session" where
  "Archive lease s =
     (case authorize lease s of Some e \<Rightarrow> Inl e | None \<Rightarrow>
      if State s = Running \<or> ActiveTurn s \<noteq> None \<or> Visibility s = VisibilityHostLost
      then Inl CannotArchive
      else Inr (s\<lparr>State := Archived, Lifecycle := SessionArchived\<rparr>))"

section \<open>The tally counts one sealed ballot of every contributor\<close>

definition ballot_ok :: "string \<Rightarrow> Ballot \<Rightarrow> bool" where
  "ballot_ok ps b \<longleftrightarrow> Voter b \<in> set Roster \<and> Choice b \<in> set Roster \<and> Voter b \<noteq> Choice b
     \<and> ProposalSet b = ps \<and> \<not> blank (Reason b)"

definition votes_for :: "Ballot list \<Rightarrow> Contributor \<Rightarrow> nat" where
  "votes_for bs c = length (filter (\<lambda>b. Choice b = c) bs)"

definition vote_counts :: "Ballot list \<Rightarrow> (Contributor \<rightharpoonup> int)" where
  "vote_counts bs = (\<lambda>c. if c \<in> set Roster then Some (int (votes_for bs c)) else None)"

lemma ValidContributor_iff [simp]: "ValidContributor c \<longleftrightarrow> c \<in> set Roster"
  by (auto simp: ValidContributor_def list_ex_iff)

lemma distinct_Roster: "distinct Roster"
  by (simp add: Roster_def contributor_names)

lemma card_Roster: "card (set Roster) = 4"
  by (simp add: distinct_card [OF distinct_Roster]) (simp add: Roster_def)

lemma tally_loop_iff:
  "tally_loop ps bs seen out = Inr out' \<longleftrightarrow>
     (\<forall>b \<in> set bs. ballot_ok ps b \<and> \<not> seen (Voter b)) \<and> distinct (map Voter bs) \<and>
     out' = fold count_vote bs out"
  by (induction bs arbitrary: seen out) (auto simp: ballot_ok_def split: if_splits, metis image_eqI)

lemma fold_votes:
  "(\<forall>b \<in> set bs. Choice b \<in> set Roster) \<Longrightarrow>
   fold count_vote bs
     (\<lambda>c. if c \<in> set Roster then Some (f c) else None)
   = (\<lambda>c. if c \<in> set Roster then Some (f c + int (votes_for bs c)) else None)"
proof (induction bs arbitrary: f)
  case Nil
  then show ?case by (auto simp: votes_for_def intro!: ext)
next
  case (Cons b bs)
  let ?g = "f(Choice b := f (Choice b) + 1)"
  have step: "count_vote b (\<lambda>c. if c \<in> set Roster then Some (f c) else None)
      = (\<lambda>c. if c \<in> set Roster then Some (?g c) else None)"
    using Cons.prems by (intro ext) (auto simp: count_vote_def)
  have "(\<lambda>c. if c \<in> set Roster then Some (?g c + int (votes_for bs c)) else None)
      = (\<lambda>c. if c \<in> set Roster then Some (f c + int (votes_for (b # bs) c)) else None)"
    by (intro ext) (simp add: votes_for_def)
  with step Cons show ?case by simp
qed

lemma zero_counts: "fold (\<lambda>c m. m(c \<mapsto> 0)) Roster Map.empty = (\<lambda>c. if c \<in> set Roster then Some 0 else None)"
  by (intro ext) (simp add: Roster_def)

lemma sum_votes:
  "(\<forall>b \<in> set bs. Choice b \<in> set Roster) \<Longrightarrow> (\<Sum>c \<in> set Roster. votes_for bs c) = length bs"
proof (induction bs)
  case Nil
  then show ?case by (simp add: votes_for_def)
next
  case (Cons b bs)
  have "(\<Sum>c \<in> set Roster. votes_for (b # bs) c)
      = (\<Sum>c \<in> set Roster. (if c = Choice b then 1 else 0) + votes_for bs c)"
    by (rule sum.cong) (auto simp: votes_for_def)
  also have "\<dots> = 1 + length bs"
    using Cons by (simp add: sum.distrib)
  finally show ?case by simp
qed

text \<open>C1 A tally succeeds exactly when the proposal set is named and the ballots are one valid,
  reasoned, sealed ballot of each of the four contributors, none for its own voter; its result
  maps each contributor to the number of ballots that chose it, and nothing else.\<close>

theorem Tally_correct:
  "Tally bs ps = Inr out \<longleftrightarrow>
     \<not> blank ps \<and> distinct (map Voter bs) \<and> Voter ` set bs = set Roster \<and>
     list_all (ballot_ok ps) bs \<and> out = vote_counts bs"
proof -
  have four: "length bs = 4 \<longleftrightarrow> Voter ` set bs = set Roster"
    if "distinct (map Voter bs)" "\<forall>b \<in> set bs. ballot_ok ps b"
  proof -
    from that(2) have sub: "Voter ` set bs \<subseteq> set Roster" by (auto simp: ballot_ok_def)
    from that(1) have card: "card (Voter ` set bs) = length bs"
      by (metis distinct_card length_map list.set_map)
    show ?thesis
      using card_subset_eq [OF _ sub] card card_Roster by auto
  qed
  show ?thesis
    by (auto simp: Tally_def tally_loop_iff zero_counts fold_votes vote_counts_def list_all_iff
        four ballot_ok_def)
qed

section \<open>Runs of a session\<close>

datatype kernel_op =
    OpQueue string string string | OpRelease string string | OpComplete string string
  | OpRequestCancel string | OpConfirmCancel string | OpInterrupt string | OpFail string string
  | OpHostLoss | OpReconcile string "64 word" TurnStatus string | OpDisconnect
  | OpReconnect string | OpDiscard string string | OpReplace string string string
  | OpArchive string

fun kernel_step :: "kernel_op \<Rightarrow> Session \<Rightarrow> kernel_error + Session" where
  "kernel_step (OpQueue l k p) s = Queue l k p s"
| "kernel_step (OpRelease l k) s = map_sum id snd (Release l k s)"
| "kernel_step (OpComplete k r) s = CompleteWithResult k r s"
| "kernel_step (OpRequestCancel l) s = RequestCancel l s"
| "kernel_step (OpConfirmCancel k) s = ConfirmCancel k s"
| "kernel_step (OpInterrupt k) s = Interrupt k s"
| "kernel_step (OpFail k r) s = Fail k r s"
| "kernel_step OpHostLoss s = map_sum id snd (RecordHostLoss s)"
| "kernel_step (OpReconcile k g st r) s = ReconcileHost k g st r s"
| "kernel_step OpDisconnect s = Inr (DisconnectController s)"
| "kernel_step (OpReconnect l) s = ReconnectController l s"
| "kernel_step (OpDiscard l k) s = Discard l k s"
| "kernel_step (OpReplace l k p) s = Replace l k p s"
| "kernel_step (OpArchive l) s = Archive l s"

inductive kernel_run :: "Session \<Rightarrow> kernel_op list \<Rightarrow> Session \<Rightarrow> bool" where
  run_Nil: "kernel_run s [] s"
| run_Cons: "kernel_step op s = Inr s' \<Longrightarrow> kernel_run s' ops s'' \<Longrightarrow> kernel_run s (op # ops) s''"

inductive_cases kernel_run_ConsE: "kernel_run s (op # ops) s''"

inductive_simps kernel_run_Nil [simp]: "kernel_run s [] s'"

inductive_simps kernel_run_Cons_iff: "kernel_run s (op # ops) s'"

definition kernel_reachable :: "Session \<Rightarrow> bool" where
  "kernel_reachable s \<longleftrightarrow> (\<exists>c lease s0 ops. NewSession c lease = Inr s0 \<and> kernel_run s0 ops s)"

lemma run_invariant:
  assumes "kernel_run s ops s'" "I s" "\<And>op s s'. I s \<Longrightarrow> kernel_step op s = Inr s' \<Longrightarrow> I s'"
  shows "I s'"
  using assms by (induction rule: kernel_run.induct) auto

text \<open>
  The invariant, in the four groups the methods touch: which turn records exist, the pending
  prompts, the active turn, and the host-loss episode.
\<close>

definition turns_inv :: "Session \<Rightarrow> bool" where
  "turns_inv s \<longleftrightarrow>
     (\<forall>k a. Turns s k = Some a \<longrightarrow> a < length (turn_heap s) \<and> tr_Key (turn_heap s ! a) = k) \<and>
     (\<forall>a < length (turn_heap s). Turns s (tr_Key (turn_heap s ! a)) = Some a
        \<and> \<not> blank (tr_Key (turn_heap s ! a)) \<and> \<not> blank (tr_Prompt (turn_heap s ! a)))"

definition pending_inv :: "Session \<Rightarrow> bool" where
  "pending_inv s \<longleftrightarrow>
     (\<forall>k p. Pending s k = Some p \<longrightarrow> \<not> blank k \<and> \<not> blank p \<and> Turns s k = None)"

definition active_inv :: "Session \<Rightarrow> bool" where
  "active_inv s \<longleftrightarrow>
     (State s = Running \<longleftrightarrow> ActiveTurn s \<noteq> None) \<and>
     (ActiveTurn s = None \<longrightarrow> Active s = []) \<and>
     (\<forall>a. ActiveTurn s = Some a \<longrightarrow> Turns s (Active s) = Some a) \<and>
     (\<forall>a < length (turn_heap s).
        if ActiveTurn s = Some a then is_live (tr_Status (turn_heap s ! a))
        else is_terminal (tr_Status (turn_heap s ! a))) \<and>
     (State s = Archived \<longleftrightarrow> Lifecycle s = SessionArchived)"

definition recovery_inv :: "Session \<Rightarrow> bool" where
  "recovery_inv s \<longleftrightarrow>
     (Visibility s = VisibilityReachable \<longrightarrow> RecoveryContext s = [] \<and> ActiveRecoveryGen s = 0) \<and>
     (Visibility s = VisibilityHostLost \<longrightarrow> ActiveRecoveryGen s = RecoveryGeneration s
        \<and> Turns s (RecoveryContext s) \<noteq> None \<and> State s \<noteq> Archived
        \<and> (State s = Running \<longrightarrow> RecoveryContext s = Active s))"

definition session_inv :: "Session \<Rightarrow> bool" where
  "session_inv s \<longleftrightarrow> turns_inv s \<and> pending_inv s \<and> active_inv s \<and> recovery_inv s"

lemmas session_inv_defs = session_inv_def turns_inv_def pending_inv_def active_inv_def recovery_inv_def

lemmas kernel_ops = Queue_def Release_def CompleteWithResult_def RequestCancel_def ConfirmCancel_def
  Interrupt_def Fail_def RecordHostLoss_def ReconcileHost_def DisconnectController_def
  ReconnectController_def Discard_def Replace_def Archive_def

lemmas kernel_splits = option.splits if_splits

lemma NewSession_inv: "NewSession c lease = Inr s \<Longrightarrow> session_inv s"
  by (auto simp: NewSession_def session_inv_defs split: if_splits)

text \<open>The shapes of update the methods share, each with its preservation lemma.\<close>

lemma upd_turn_sel [simp]:
  "ID (upd_turn a f s) = ID s" "State (upd_turn a f s) = State s"
  "Lifecycle (upd_turn a f s) = Lifecycle s" "ControllerStatus (upd_turn a f s) = ControllerStatus s"
  "Visibility (upd_turn a f s) = Visibility s" "ControllerLease (upd_turn a f s) = ControllerLease s"
  "Pending (upd_turn a f s) = Pending s" "Active (upd_turn a f s) = Active s"
  "ActiveTurn (upd_turn a f s) = ActiveTurn s" "Turns (upd_turn a f s) = Turns s"
  "RecoveryContext (upd_turn a f s) = RecoveryContext s"
  "RecoveryGeneration (upd_turn a f s) = RecoveryGeneration s"
  "ActiveRecoveryGen (upd_turn a f s) = ActiveRecoveryGen s"
  "length (turn_heap (upd_turn a f s)) = length (turn_heap s)"
  by (simp_all add: upd_turn_def)

lemma upd_turn_nth:
  "b < length (turn_heap s) \<Longrightarrow>
   turn_heap (upd_turn a f s) ! b = (if b = a then f (turn_heap s ! a) else turn_heap s ! b)"
  by (simp add: upd_turn_def nth_list_update)

lemma turns_inv_upd_turn:
  assumes "turns_inv s" "\<And>t. tr_Key (f t) = tr_Key t" "\<And>t. tr_Prompt (f t) = tr_Prompt t"
  shows "turns_inv (upd_turn a f s)"
  using assms by (simp add: turns_inv_def upd_turn_nth)

lemma session_inv_frame:
  assumes "session_inv s" "Turns s' = Turns s" "turn_heap s' = turn_heap s" "Pending s' = Pending s"
    "State s' = State s" "ActiveTurn s' = ActiveTurn s" "Active s' = Active s"
    "Lifecycle s' = Lifecycle s" "recovery_inv s'"
  shows "session_inv s'"
  using assms by (simp add: session_inv_def turns_inv_def pending_inv_def active_inv_def)

lemma inv_controller: "session_inv s \<Longrightarrow> session_inv (s\<lparr>ControllerStatus := c\<rparr>)"
  by (rule session_inv_frame) (simp_all add: session_inv_def recovery_inv_def)

lemma inv_pending:
  assumes "session_inv s" "pending_inv (s\<lparr>Pending := P\<rparr>)"
  shows "session_inv (s\<lparr>Pending := P\<rparr>)"
proof -
  have "turns_inv (s\<lparr>Pending := P\<rparr>)" "active_inv (s\<lparr>Pending := P\<rparr>)"
    using assms(1) by (simp_all add: session_inv_def turns_inv_def active_inv_def)
  moreover have "recovery_inv (s\<lparr>Pending := P\<rparr>)"
    using assms(1) by (simp add: session_inv_def recovery_inv_def)
  ultimately show ?thesis using assms(2) by (simp add: session_inv_def)
qed

lemma inv_pending_put:
  "session_inv s \<Longrightarrow> \<not> blank k \<Longrightarrow> \<not> blank p \<Longrightarrow> Turns s k = None \<Longrightarrow>
   session_inv (s\<lparr>Pending := (Pending s)(k \<mapsto> p)\<rparr>)"
  by (rule inv_pending) (auto simp: session_inv_def pending_inv_def)

lemma inv_pending_drop: "session_inv s \<Longrightarrow> session_inv (s\<lparr>Pending := (Pending s)(k := None)\<rparr>)"
  by (rule inv_pending) (auto simp: session_inv_def pending_inv_def)

lemma inv_active_write:
  assumes "session_inv s" "ActiveTurn s = Some a" "is_live st"
  shows "session_inv (upd_turn a (\<lambda>t. t\<lparr>tr_Status := st\<rparr>) s)"
proof -
  have "active_inv (upd_turn a (\<lambda>t. t\<lparr>tr_Status := st\<rparr>) s)"
    using assms by (auto simp: session_inv_def active_inv_def upd_turn_nth)
  then show ?thesis
    using assms by (simp add: session_inv_def turns_inv_upd_turn pending_inv_def recovery_inv_def)
qed

lemma inv_finish:
  assumes inv: "session_inv s" and a: "ActiveTurn s = Some a"
    and f: "\<And>t. tr_Key (f t) = tr_Key t" "\<And>t. tr_Prompt (f t) = tr_Prompt t"
      "\<And>t. is_terminal (tr_Status (f t))"
  shows "session_inv (park (upd_turn a f s))"
proof -
  have "turns_inv (upd_turn a f s)"
    using inv f by (simp add: session_inv_def turns_inv_upd_turn)
  then have t: "turns_inv (park (upd_turn a f s))"
    by (simp add: turns_inv_def park_def)
  have run: "State s = Running" using inv a by (simp add: session_inv_def active_inv_def)
  then have "active_inv (park (upd_turn a f s))"
    using inv a f(3) by (auto simp: session_inv_def active_inv_def park_def upd_turn_nth)
  with t inv show ?thesis
    by (simp add: session_inv_def pending_inv_def recovery_inv_def park_def)
qed

lemma inv_close_episode: "session_inv s \<Longrightarrow> session_inv (close_episode s)"
  by (rule session_inv_frame) (simp_all add: close_episode_def session_inv_def recovery_inv_def)

lemma inv_new_turn:
  assumes inv: "session_inv s" and p: "Pending s k = Some p" and parked: "State s = Parked"
    and reach: "Visibility s \<noteq> VisibilityHostLost"
  shows "session_inv (s\<lparr>Pending := (Pending s)(k := None),
      turn_heap := turn_heap s @ [\<lparr>tr_Key = k, tr_Prompt = p, tr_Status = TurnRunning, tr_Result = []\<rparr>],
      Turns := (Turns s)(k \<mapsto> length (turn_heap s)), ActiveTurn := Some (length (turn_heap s)),
      Active := k, State := Running\<rparr>)" (is "session_inv ?s'")
proof -
  have nb: "\<not> blank k" "\<not> blank p" "Turns s k = None"
    using inv p by (auto simp: session_inv_def pending_inv_def)
  have none: "ActiveTurn s = None" and life: "Lifecycle s \<noteq> SessionArchived"
    using inv parked by (auto simp: session_inv_def active_inv_def)
  have t: "turns_inv s" using inv by (simp add: session_inv_def)
  have "turns_inv ?s'"
    using t nb by (auto simp: turns_inv_def nth_append less_Suc_eq)
  moreover have "pending_inv ?s'"
    using inv by (auto simp: session_inv_def pending_inv_def)
  moreover have "active_inv ?s'"
    using inv none life
    by (auto simp: session_inv_def active_inv_def is_live_def nth_append less_Suc_eq)
  moreover have "recovery_inv ?s'"
    using inv reach by (auto simp: session_inv_def recovery_inv_def)
  ultimately show ?thesis by (simp add: session_inv_def)
qed

lemma authorize_None_iff:
  "authorize l s = None \<longleftrightarrow> l \<noteq> [] \<and> l = ControllerLease s \<and> Lifecycle s \<noteq> SessionArchived
     \<and> State s \<noteq> Archived \<and> ControllerStatus s = ControllerConnected"
  by (auto simp: authorize_def) (metis ControllerConnection.exhaust)

lemma Queue_inv: "session_inv s \<Longrightarrow> Queue l k p s = Inr s' \<Longrightarrow> session_inv s'"
  by (auto simp: Queue_def inv_pending_put split: kernel_splits)

lemma Release_inv: "session_inv s \<Longrightarrow> Release l k s = Inr (p, s') \<Longrightarrow> session_inv s'"
  by (auto simp: Release_def inv_new_turn split: kernel_splits)

lemma Complete_inv: "session_inv s \<Longrightarrow> CompleteWithResult k r s = Inr s' \<Longrightarrow> session_inv s'"
  by (auto simp: CompleteWithResult_def is_terminal_def intro!: inv_finish split: kernel_splits)

lemma RequestCancel_inv: "session_inv s \<Longrightarrow> RequestCancel l s = Inr s' \<Longrightarrow> session_inv s'"
  by (auto simp: RequestCancel_def is_live_def intro!: inv_active_write split: kernel_splits)

lemma ConfirmCancel_inv: "session_inv s \<Longrightarrow> ConfirmCancel k s = Inr s' \<Longrightarrow> session_inv s'"
  by (auto simp: ConfirmCancel_def is_terminal_def intro!: inv_finish split: kernel_splits)

lemma Interrupt_inv: "session_inv s \<Longrightarrow> Interrupt k s = Inr s' \<Longrightarrow> session_inv s'"
  by (auto simp: Interrupt_def is_terminal_def intro!: inv_finish split: kernel_splits)

lemma Fail_inv: "session_inv s \<Longrightarrow> Fail k r s = Inr s' \<Longrightarrow> session_inv s'"
  by (auto simp: Fail_def is_terminal_def intro!: inv_finish split: kernel_splits)

lemma RecordHostLoss_inv:
  assumes "session_inv s" "RecordHostLoss s = Inr (g, s')"
  shows "session_inv s'"
proof (cases "Visibility s = VisibilityHostLost")
  case True
  with assms show ?thesis by (simp add: RecordHostLoss_def)
next
  case False
  with assms obtain a where a: "State s = Running" "ActiveTurn s = Some a"
    and s': "s' = s\<lparr>RecoveryGeneration := RecoveryGeneration s + 1,
      ActiveRecoveryGen := RecoveryGeneration s + 1, Visibility := VisibilityHostLost,
      RecoveryContext := Active s\<rparr>"
    by (auto simp: RecordHostLoss_def Let_def split: if_splits)
  have "recovery_inv s'"
    using assms(1) a by (auto simp: s' session_inv_def active_inv_def recovery_inv_def)
  then show ?thesis by (intro session_inv_frame [OF assms(1)]) (simp_all add: s')
qed

lemma set_Running_same: "State s = Running \<Longrightarrow> s\<lparr>State := Running\<rparr> = s"
  by simp

lemma close_episode_State [simp]: "State (close_episode s) = State s"
  by (simp add: close_episode_def)

lemma inv_running: "session_inv s \<Longrightarrow> ActiveTurn s = Some a \<Longrightarrow> State s = Running"
  by (simp add: session_inv_def active_inv_def)

lemma ReconcileHost_inv: "session_inv s \<Longrightarrow> ReconcileHost k g st r s = Inr s' \<Longrightarrow> session_inv s'"
  by (auto simp: ReconcileHost_def set_Running_same inv_running is_live_def
      intro!: inv_close_episode inv_active_write inv_finish split: kernel_splits)

lemma Archive_inv:
  assumes inv: "session_inv s" and r: "Archive l s = Inr s'"
  shows "session_inv s'"
proof -
  from r have s': "s' = s\<lparr>State := Archived, Lifecycle := SessionArchived\<rparr>"
    and none: "ActiveTurn s = None" "Visibility s \<noteq> VisibilityHostLost"
    by (auto simp: Archive_def split: kernel_splits)
  have "turns_inv s'" "pending_inv s'" "active_inv s'" "recovery_inv s'"
    using inv none
    by (simp_all add: s' session_inv_def turns_inv_def pending_inv_def active_inv_def recovery_inv_def)
  then show ?thesis by (simp add: session_inv_def)
qed

lemma Discard_inv: "session_inv s \<Longrightarrow> Discard l k s = Inr s' \<Longrightarrow> session_inv s'"
  by (auto simp: Discard_def inv_pending_drop split: kernel_splits)

lemma Replace_inv:
  assumes "session_inv s" "Replace l k p s = Inr s'"
  shows "session_inv s'"
proof -
  from assms(2) obtain q where "Pending s k = Some q" "\<not> blank p"
    "s' = s\<lparr>Pending := (Pending s)(k \<mapsto> p)\<rparr>"
    by (auto simp: Replace_def split: kernel_splits)
  moreover have "\<not> blank k" "Turns s k = None"
    using assms(1) \<open>Pending s k = Some q\<close> by (auto simp: session_inv_def pending_inv_def)
  ultimately show ?thesis using inv_pending_put [OF assms(1)] by simp
qed

lemma Reconnect_inv: "session_inv s \<Longrightarrow> ReconnectController l s = Inr s' \<Longrightarrow> session_inv s'"
  by (auto simp: ReconnectController_def inv_controller split: if_splits)

lemma map_sum_InrD: "map_sum id f x = Inr y \<Longrightarrow> \<exists>z. x = Inr z \<and> y = f z"
  by (cases x) auto

lemmas kernel_op_invs = Queue_inv Release_inv Complete_inv RequestCancel_inv ConfirmCancel_inv
  Interrupt_inv Fail_inv RecordHostLoss_inv ReconcileHost_inv Reconnect_inv Discard_inv Replace_inv
  Archive_inv

lemma kernel_step_inv: "session_inv s \<Longrightarrow> kernel_step op s = Inr s' \<Longrightarrow> session_inv s'"
  by (cases op) (auto dest!: map_sum_InrD simp: DisconnectController_def inv_controller
      dest: kernel_op_invs)

lemma kernel_reachable_inv: "kernel_reachable s \<Longrightarrow> session_inv s"
  unfolding kernel_reachable_def
  using run_invariant [where I = session_inv] NewSession_inv kernel_step_inv by blast

lemma kernel_run_reachable: "kernel_reachable s \<Longrightarrow> kernel_run s ops s' \<Longrightarrow> kernel_reachable s'"
proof -
  have app: "kernel_run s0 xs s \<Longrightarrow> kernel_run s ys s' \<Longrightarrow> kernel_run s0 (xs @ ys) s'" for s0 xs s ys s'
    by (induction rule: kernel_run.induct) (auto intro: run_Cons)
  show "kernel_reachable s \<Longrightarrow> kernel_run s ops s' \<Longrightarrow> kernel_reachable s'"
    unfolding kernel_reachable_def using app by blast
qed

section \<open>What a run can and cannot do\<close>

text \<open>
  The turn history only grows: keys, prompts and the record a key is filed under never change,
  and a record with a terminal status is never written again.
\<close>

definition history_le :: "Session \<Rightarrow> Session \<Rightarrow> bool" where
  "history_le s s' \<longleftrightarrow>
     length (turn_heap s) \<le> length (turn_heap s') \<and>
     (\<forall>k a. Turns s k = Some a \<longrightarrow> Turns s' k = Some a) \<and>
     (\<forall>a < length (turn_heap s).
        tr_Key (turn_heap s' ! a) = tr_Key (turn_heap s ! a) \<and>
        tr_Prompt (turn_heap s' ! a) = tr_Prompt (turn_heap s ! a) \<and>
        (is_terminal (tr_Status (turn_heap s ! a)) \<longrightarrow> turn_heap s' ! a = turn_heap s ! a))"

lemma history_le_refl: "Turns s' = Turns s \<Longrightarrow> turn_heap s' = turn_heap s \<Longrightarrow> history_le s s'"
  by (simp add: history_le_def)

lemma history_le_trans: "history_le s t \<Longrightarrow> history_le t u \<Longrightarrow> history_le s u"
  by (auto simp: history_le_def)

lemma live_not_terminal: "is_live st \<Longrightarrow> \<not> is_terminal st"
  by (auto simp: is_live_def is_terminal_def)

lemma history_le_write:
  assumes "session_inv s" "ActiveTurn s = Some a"
    "\<And>t. tr_Key (f t) = tr_Key t" "\<And>t. tr_Prompt (f t) = tr_Prompt t"
  shows "history_le s (upd_turn a f s)"
proof -
  have "\<not> is_terminal (tr_Status (turn_heap s ! a))" if "a < length (turn_heap s)"
    using assms(1,2) that live_not_terminal unfolding session_inv_def active_inv_def by metis
  then show ?thesis using assms by (simp add: history_le_def upd_turn_nth)
qed

lemma park_history: "history_le s t \<Longrightarrow> history_le s (park t)"
  by (simp add: history_le_def park_def)

lemma close_history: "history_le s t \<Longrightarrow> history_le s (close_episode t)"
  by (simp add: history_le_def close_episode_def)

lemma running_history: "history_le s t \<Longrightarrow> history_le s (t\<lparr>State := st\<rparr>)"
  by (simp add: history_le_def)

lemma Release_history:
  assumes "session_inv s" "Release l k s = Inr (p, s')"
  shows "history_le s s'"
proof -
  have "Turns s k = None" if "Pending s k = Some q" for q
    using assms(1) that by (auto simp: session_inv_def pending_inv_def)
  then show ?thesis
    using assms(2) by (auto simp: Release_def history_le_def nth_append split: kernel_splits)
qed

lemmas history_intros = history_le_write park_history close_history running_history

lemma kernel_step_history: "session_inv s \<Longrightarrow> kernel_step op s = Inr s' \<Longrightarrow> history_le s s'"
proof (cases op)
  case (OpRelease l k)
  then show "session_inv s \<Longrightarrow> kernel_step op s = Inr s' \<Longrightarrow> history_le s s'"
    by (auto dest!: map_sum_InrD dest: Release_history)
qed (auto dest!: map_sum_InrD simp: Queue_def CompleteWithResult_def RequestCancel_def
      ConfirmCancel_def Interrupt_def Fail_def RecordHostLoss_def ReconcileHost_def
      DisconnectController_def ReconnectController_def Discard_def Replace_def Archive_def Let_def
      intro!: history_intros intro: history_le_refl split: kernel_splits)

text \<open>C2 In every session reachable from \<open>NewSession\<close>: the keyed turns and the turn records
  correspond one to one; no pending key is also a retired one; the session is running exactly
  when it has an active turn, that turn is the only one that is not terminal; archiving is the
  same in both fields and excludes a lost host; and a lost host remembers the turn and the
  generation of its episode.\<close>

theorem kernel_invariant: "kernel_reachable s \<Longrightarrow> session_inv s"
  by (rule kernel_reachable_inv)

text \<open>C3 A turn that has reached a terminal status keeps its record, status and result for the
  rest of the session, whatever is called.\<close>

theorem terminal_turn_is_final:
  assumes "kernel_reachable s" "kernel_run s ops s'" "Turns s k = Some a"
    "is_terminal (tr_Status (turn_heap s ! a))"
  shows "Turns s' k = Some a \<and> turn_heap s' ! a = turn_heap s ! a"
proof -
  have "session_inv s' \<and> history_le s s'"
    by (rule run_invariant [where I = "\<lambda>t. session_inv t \<and> history_le s t", OF assms(2)])
      (auto intro: kernel_step_inv kernel_step_history history_le_trans history_le_refl
        kernel_reachable_inv [OF assms(1)])
  moreover have "a < length (turn_heap s)"
    using kernel_reachable_inv [OF assms(1)] assms(3) by (simp add: session_inv_def turns_inv_def)
  ultimately show ?thesis using assms(3,4) by (simp add: history_le_def)
qed

text \<open>C4 Nothing is dispatched but by a release: a step that files a turn is a \<open>Release\<close> with
  the session's own lease, on a connected, parked, reachable session, of a prompt that was
  pending under that key, and the turn that runs carries exactly that prompt.\<close>

theorem only_release_dispatches:
  assumes "kernel_reachable s" "kernel_step op s = Inr s'" "Turns s' k \<noteq> Turns s k"
  shows "op = OpRelease (ControllerLease s) k \<and> State s = Parked \<and>
    ControllerStatus s = ControllerConnected \<and> Visibility s = VisibilityReachable \<and>
    Pending s' k = None \<and> State s' = Running \<and> Active s' = k \<and>
    (\<exists>p a. Pending s k = Some p \<and> Turns s' k = Some a \<and> ActiveTurn s' = Some a \<and>
       turn_heap s' ! a = \<lparr>tr_Key = k, tr_Prompt = p, tr_Status = TurnRunning, tr_Result = []\<rparr>)"
proof -
  obtain l k' where op: "op = OpRelease l k'"
    using assms(2,3)
    by (cases op) (auto dest!: map_sum_InrD simp: Queue_def CompleteWithResult_def
        RequestCancel_def ConfirmCancel_def Interrupt_def Fail_def RecordHostLoss_def
        ReconcileHost_def DisconnectController_def ReconnectController_def Discard_def Replace_def
        Archive_def Let_def park_def close_episode_def split: kernel_splits)
  then obtain p where r: "Release l k' s = Inr (p, s')"
    using assms(2) by (auto dest!: map_sum_InrD)
  have reach: "Visibility s \<noteq> VisibilityHostLost \<Longrightarrow> Visibility s = VisibilityReachable"
    by (cases "Visibility s") auto
  show ?thesis
    using op r assms(3) reach
    by (auto simp: Release_def authorize_None_iff nth_append split: kernel_splits)
qed

definition sample_lease :: string where "sample_lease = ''lease''"

definition sample_session :: Session where
  "sample_session =
     \<lparr>ID = Claude, State = Running, Lifecycle = SessionActive,
      ControllerStatus = ControllerConnected, Visibility = VisibilityReachable,
      ControllerLease = sample_lease, Pending = [''k2'' \<mapsto> ''p2''], Active = ''k1'',
      ActiveTurn = Some 0, Turns = [''k1'' \<mapsto> 0], RecoveryContext = [], RecoveryGeneration = 0,
      ActiveRecoveryGen = 0,
      turn_heap = [\<lparr>tr_Key = ''k1'', tr_Prompt = ''p1'', tr_Status = TurnRunning, tr_Result = []\<rparr>]\<rparr>"

definition sample_ops :: "kernel_op list" where
  "sample_ops = [OpQueue sample_lease ''k1'' ''p1'', OpQueue sample_lease ''k2'' ''p2'',
     OpRelease sample_lease ''k1'']"

lemmas sample_simps = sample_session_def sample_lease_def sample_ops_def kernel_ops authorize_def
  turn_status_def active_status_def upd_turn_def park_def close_episode_def Roster_def
  contributor_names kernel_run_Cons_iff is_terminal_def is_live_def

definition sample_start :: Session where
  "sample_start = (case NewSession Claude sample_lease of Inr s \<Rightarrow> s)"

lemma sample_start: "NewSession Claude sample_lease = Inr sample_start"
  by (simp add: sample_start_def NewSession_def sample_lease_def Roster_def contributor_names)

lemma sample_reachable: "kernel_reachable sample_session"
proof -
  have "kernel_run sample_start sample_ops sample_session"
    by (simp add: sample_simps sample_start_def NewSession_def)
  then show ?thesis unfolding kernel_reachable_def using sample_start by blast
qed

lemma kernel_invariant_witness: "session_inv sample_session"
  by (rule kernel_invariant [OF sample_reachable])

definition sample_done :: Session where
  "sample_done = (case CompleteWithResult ''k1'' ''r'' sample_session of Inr s \<Rightarrow> s)"

lemma sample_done: "kernel_run sample_session [OpComplete ''k1'' ''r''] sample_done"
  by (simp add: sample_done_def sample_simps)

lemma terminal_turn_is_final_witness:
  "\<exists>s'. kernel_run sample_done [OpRelease sample_lease ''k2'', OpFail ''k2'' ''x''] s' \<and>
     Turns s' ''k1'' = Some 0 \<and> turn_heap s' ! 0 = turn_heap sample_done ! 0"
proof -
  have r: "\<exists>s'. kernel_run sample_done [OpRelease sample_lease ''k2'', OpFail ''k2'' ''x''] s'"
    by (simp add: sample_done_def sample_simps)
  have t: "Turns sample_done ''k1'' = Some 0" "is_terminal (tr_Status (turn_heap sample_done ! 0))"
    by (simp_all add: sample_done_def sample_simps)
  show ?thesis
    using r terminal_turn_is_final [OF kernel_run_reachable [OF sample_reachable sample_done] _ t] by blast
qed

lemma only_release_dispatches_witness:
  "\<exists>s' p. kernel_step (OpRelease sample_lease ''k2'') sample_done = Inr s' \<and> Pending sample_done ''k2'' = Some p \<and>
     State sample_done = Parked \<and> Active s' = ''k2''"
proof -
  have "\<exists>s'. kernel_step (OpRelease sample_lease ''k2'') sample_done = Inr s' \<and> Turns s' ''k2'' \<noteq> Turns sample_done ''k2''"
    by (simp add: sample_done_def sample_simps)
  then show ?thesis
    using only_release_dispatches [OF kernel_run_reachable [OF sample_reachable sample_done]] by blast
qed

lemma Tally_correct_witness:
  "Tally (map (\<lambda>(v, c). \<lparr>Voter = v, Choice = c, ProposalSet = ''ps'', Reason = ''why'', Acceptable = False\<rparr>)
      [(OpenCode, Claude), (Claude, Codex), (Codex, Claude), (Agy, Claude)]) ''ps''
   = Inr [OpenCode \<mapsto> 0, Claude \<mapsto> 3, Codex \<mapsto> 1, Agy \<mapsto> 0]"
  by (subst Tally_correct)
    (auto simp: ballot_ok_def Roster_def contributor_names vote_counts_def votes_for_def)

text \<open>A reconciliation is accepted only for the turn and the generation of the episode the
  host was lost in; it ends the episode, so that no further evidence is accepted for it; a report
  that the turn still runs does not undo a pending cancellation, and a report about a turn that
  ended in the meantime changes no turn.\<close>

theorem reconcile_current_episode:
  assumes "kernel_reachable s" "ReconcileHost k g st r s = Inr s'"
  shows "Visibility s = VisibilityHostLost \<and> k = RecoveryContext s \<and> g = RecoveryGeneration s \<and> g \<noteq> 0
    \<and> Visibility s' = VisibilityReachable \<and> Pending s' = Pending s \<and> Turns s' = Turns s
    \<and> ReconcileHost k' g' st' r' s' = Inl HostNotLost
    \<and> (case ActiveTurn s of
         None \<Rightarrow> turn_heap s' = turn_heap s \<and> is_terminal st
       | Some a \<Rightarrow> ActiveTurn s' = (if is_terminal st then None else Some a) \<and>
           tr_Status (turn_heap s' ! a) =
             (if st = TurnRunning \<and> tr_Status (turn_heap s ! a) = TurnCancelling
              then TurnCancelling else st))"
proof -
  have inv: "session_inv s" by (rule kernel_reachable_inv [OF assms(1)])
  have lost: "Visibility s = VisibilityHostLost" and g: "g = ActiveRecoveryGen s" "g \<noteq> 0"
    and vis: "Visibility s' = VisibilityReachable"
    and frame: "Pending s' = Pending s" "Turns s' = Turns s"
    using assms(2)
    by (auto simp: ReconcileHost_def close_episode_def park_def split: kernel_splits)
  have gen: "ActiveRecoveryGen s = RecoveryGeneration s"
    and ctx: "State s = Running \<Longrightarrow> RecoveryContext s = Active s"
    using inv lost by (auto simp: session_inv_def recovery_inv_def)
  have again: "ReconcileHost k' g' st' r' s' = Inl HostNotLost"
    using vis by (simp add: ReconcileHost_def)
  show ?thesis
  proof (cases "ActiveTurn s")
    case None
    then have "k = RecoveryContext s" "is_terminal st" "s' = close_episode s"
      using assms(2) by (auto simp: ReconcileHost_def split: if_splits)
    with None lost g gen vis frame again show ?thesis by (simp add: close_episode_def)
  next
    case (Some a)
    then have run: "State s = Running" and len: "a < length (turn_heap s)"
      using inv by (auto simp: session_inv_def active_inv_def turns_inv_def)
    have k: "k = Active s"
      using assms(2) Some by (auto simp: ReconcileHost_def split: if_splits)
    have "ActiveTurn s' = (if is_terminal st then None else Some a) \<and>
        tr_Status (turn_heap s' ! a) =
          (if st = TurnRunning \<and> tr_Status (turn_heap s ! a) = TurnCancelling then TurnCancelling else st)"
      using assms(2) Some len
      by (auto simp: ReconcileHost_def close_episode_def park_def upd_turn_nth is_terminal_def
          split: if_splits)
    with Some run k ctx lost g gen vis frame again show ?thesis by simp
  qed
qed

definition sample_lost :: Session where
  "sample_lost = (case RecordHostLoss sample_session of Inr (g, s) \<Rightarrow> s)"

lemma reconcile_current_episode_witness:
  "\<exists>s'. ReconcileHost ''k1'' 1 TurnFailed ''gone'' sample_lost = Inr s' \<and>
     ReconcileHost ''k1'' 1 TurnCompleted ''late'' s' = Inl HostNotLost"
proof -
  have run: "kernel_run sample_session [OpHostLoss] sample_lost"
    by (simp add: sample_lost_def sample_simps)
  have "\<exists>s'. ReconcileHost ''k1'' 1 TurnFailed ''gone'' sample_lost = Inr s'"
    by (simp add: sample_lost_def sample_simps)
  then show ?thesis
    using reconcile_current_episode [OF kernel_run_reachable [OF sample_reachable run]] by blast
qed

text \<open>An archived session is frozen: the only call that changes anything is the controller's
  disconnect, which records the disconnection; pending prompts and history are retained.\<close>

theorem archived_is_final:
  assumes "kernel_reachable s" "State s = Archived" "kernel_step op s = Inr s'"
  shows "s' = s \<or> op = OpDisconnect \<and> s' = s\<lparr>ControllerStatus := ControllerDisconnected\<rparr>"
proof -
  have inv: "session_inv s" by (rule kernel_reachable_inv [OF assms(1)])
  then have "ActiveTurn s = None" "Visibility s = VisibilityReachable"
    using assms(2) by (cases "Visibility s"; auto simp: session_inv_def active_inv_def recovery_inv_def)+
  moreover have "authorize l s \<noteq> None" for l
    using assms(2) by (simp add: authorize_None_iff)
  ultimately show ?thesis
    using assms(2,3)
    by (cases op) (auto dest!: map_sum_InrD simp: kernel_ops authorize_None_iff split: kernel_splits)
qed

lemma archived_is_final_witness:
  "\<exists>s. State s = Archived \<and> kernel_step OpDisconnect s = Inr (DisconnectController s) \<and>
     (DisconnectController s = s \<or> DisconnectController s = s\<lparr>ControllerStatus := ControllerDisconnected\<rparr>)"
proof -
  obtain s where run: "kernel_run sample_session [OpComplete ''k1'' ''r'', OpArchive sample_lease] s"
    and arch: "State s = Archived"
    by (simp add: sample_simps)
  show ?thesis
    using archived_is_final [OF kernel_run_reachable [OF sample_reachable run] arch, of OpDisconnect] arch
    by auto
qed

fun controller_lease_of :: "kernel_op \<Rightarrow> string option" where
  "controller_lease_of (OpQueue l k p) = Some l"
| "controller_lease_of (OpRelease l k) = Some l"
| "controller_lease_of (OpRequestCancel l) = Some l"
| "controller_lease_of (OpDiscard l k) = Some l"
| "controller_lease_of (OpReplace l k p) = Some l"
| "controller_lease_of (OpArchive l) = Some l"
| "controller_lease_of op = None"

definition refusal :: "string \<Rightarrow> Session \<Rightarrow> kernel_error" where
  "refusal l s =
     (if l = [] \<or> l \<noteq> ControllerLease s then LeaseMismatch
      else if Lifecycle s = SessionArchived \<or> State s = Archived then KSessionArchived
      else KControllerDisconnected)"

lemma authorize_disconnected [simp]: "authorize l (DisconnectController s) = Some (refusal l s)"
  by (simp add: authorize_def refusal_def DisconnectController_def)

lemma upd_turn_disconnect:
  "upd_turn a f (DisconnectController s) = DisconnectController (upd_turn a f s)"
  "park (DisconnectController s) = DisconnectController (park s)"
  "close_episode (DisconnectController s) = DisconnectController (close_episode s)"
  "(DisconnectController s)\<lparr>State := st\<rparr> = DisconnectController (s\<lparr>State := st\<rparr>)"
  "(DisconnectController s)\<lparr>ControllerStatus := c\<rparr> = s\<lparr>ControllerStatus := c\<rparr>"
  "(DisconnectController s)\<lparr>RecoveryGeneration := g, ActiveRecoveryGen := g, Visibility := v,
     RecoveryContext := k\<rparr> =
   DisconnectController (s\<lparr>RecoveryGeneration := g, ActiveRecoveryGen := g, Visibility := v,
     RecoveryContext := k\<rparr>)"
  by (simp_all add: upd_turn_def park_def close_episode_def DisconnectController_def)

lemma disconnect_sel [simp]:
  "State (DisconnectController s) = State s" "Active (DisconnectController s) = Active s"
  "ActiveTurn (DisconnectController s) = ActiveTurn s" "Turns (DisconnectController s) = Turns s"
  "turn_heap (DisconnectController s) = turn_heap s" "Visibility (DisconnectController s) = Visibility s"
  "ActiveRecoveryGen (DisconnectController s) = ActiveRecoveryGen s"
  "RecoveryGeneration (DisconnectController s) = RecoveryGeneration s"
  "RecoveryContext (DisconnectController s) = RecoveryContext s"
  "turn_status (DisconnectController s) k = turn_status s k"
  "Lifecycle (DisconnectController s) = Lifecycle s" "Pending (DisconnectController s) = Pending s"
  "ControllerLease (DisconnectController s) = ControllerLease s"
  by (auto simp: DisconnectController_def turn_status_def authorize_def)

text \<open>Disconnecting a controller is not cancelling: on a disconnected session every call that
  reports on the execution does exactly what it did before the disconnection, and every call that
  needs the controller's lease is refused until it reconnects.\<close>

theorem disconnect_is_not_cancel:
  "kernel_step op (DisconnectController s) =
     (case controller_lease_of op of
        Some l \<Rightarrow> Inl (refusal l s)
      | None \<Rightarrow>
        (case op of OpReconnect l \<Rightarrow> kernel_step op s
         | _ \<Rightarrow> map_sum id DisconnectController (kernel_step op s)))"
  by (cases op)
    (auto simp: Queue_def Release_def CompleteWithResult_def RequestCancel_def ConfirmCancel_def
      Interrupt_def Fail_def RecordHostLoss_def ReconcileHost_def ReconnectController_def
      Discard_def Replace_def Archive_def Let_def upd_turn_disconnect
      split: option.splits)

end
