(* ===== verification/Adapter_Types.thy ===== *)
theory Adapter_Types
  imports Council_Domain
begin

text \<open>
  The adapter vocabulary the store and the service share, \<open>internal/adapter/types.go\<close>:
  turn and recovery references, capability reports and the reconciliation outcome, with the
  validation each gets before it is believed.
\<close>

datatype ReconciliationStatus =
    ReconciliationReachableActive | ReconciliationReachableTerminal
  | ReconciliationDefinitivelyMissing | ReconciliationUncertain | ReconciliationOther string

datatype adapter_error =
    EmptySessionID | EmptyTurnKey | RecoveryGenerationZero
  | RequiresReachable ReconciliationStatus | ContradictsObserved ReconciliationStatus TurnStatus
  | UncertainMustStayLost | UnknownReconciliationStatus string

record TurnRef =
  ref_SessionID :: string
  ref_TurnKey :: string

record RecoveryRef = TurnRef +
  ref_Generation :: "64 word"

definition TurnRef_Validate :: "'a TurnRef_scheme \<Rightarrow> adapter_error option" where
  "TurnRef_Validate r =
     (if blank (ref_SessionID r) then Some EmptySessionID
      else if blank (ref_TurnKey r) then Some EmptyTurnKey
      else None)"

definition RecoveryRef_Validate :: "RecoveryRef \<Rightarrow> adapter_error option" where
  "RecoveryRef_Validate r =
     (case TurnRef_Validate r of Some e \<Rightarrow> Some e
      | None \<Rightarrow> if ref_Generation r = 0 then Some RecoveryGenerationZero else None)"

section \<open>Capabilities\<close>

datatype CapabilityStatus =
  CapabilitySupported | CapabilityUnsupported | CapabilityUnknown | CapabilityOther string

record AdapterCapabilities =
  SessionResumption :: CapabilityStatus
  MidTurnCancellation :: CapabilityStatus
  ToolApprovalRouting :: CapabilityStatus
  StreamingObservation :: CapabilityStatus
  StructuredOutput :: CapabilityStatus

definition norm_capability :: "CapabilityStatus \<Rightarrow> CapabilityStatus" where
  "norm_capability s =
     (if s = CapabilitySupported \<or> s = CapabilityUnsupported then s else CapabilityUnknown)"

definition Normalize :: "AdapterCapabilities \<Rightarrow> AdapterCapabilities" where
  "Normalize c =
     \<lparr>SessionResumption = norm_capability (SessionResumption c),
      MidTurnCancellation = norm_capability (MidTurnCancellation c),
      ToolApprovalRouting = norm_capability (ToolApprovalRouting c),
      StreamingObservation = norm_capability (StreamingObservation c),
      StructuredOutput = norm_capability (StructuredOutput c)\<rparr>"

lemma Normalize_idem [simp]: "Normalize (Normalize c) = Normalize c"
  by (simp add: Normalize_def norm_capability_def)

section \<open>Reconciliation outcomes\<close>

record ReconciliationOutcome =
  ro_Ref :: RecoveryRef
  ro_Reachability :: ExecutionVisibility
  ro_Status :: ReconciliationStatus
  ro_Observed :: TurnStatus
  ro_Result :: string

definition Outcome_Validate :: "ReconciliationOutcome \<Rightarrow> adapter_error option" where
  "Outcome_Validate r =
     (case RecoveryRef_Validate (ro_Ref r) of Some e \<Rightarrow> Some e | None \<Rightarrow>
       (case ro_Status r of
          ReconciliationReachableActive \<Rightarrow>
            if ro_Reachability r \<noteq> VisibilityReachable then Some (RequiresReachable (ro_Status r))
            else if ro_Observed r \<noteq> TurnRunning \<and> ro_Observed r \<noteq> TurnCancelling
              then Some (ContradictsObserved (ro_Status r) (ro_Observed r))
            else None
        | ReconciliationReachableTerminal \<Rightarrow>
            if ro_Reachability r \<noteq> VisibilityReachable then Some (RequiresReachable (ro_Status r))
            else if ro_Observed r \<noteq> TurnCompleted \<and> ro_Observed r \<noteq> TurnCancelled \<and>
                    ro_Observed r \<noteq> TurnFailed \<and> ro_Observed r \<noteq> TurnInterrupted
              then Some (ContradictsObserved (ro_Status r) (ro_Observed r))
            else None
        | ReconciliationDefinitivelyMissing \<Rightarrow>
            if ro_Reachability r \<noteq> VisibilityReachable then Some (RequiresReachable (ro_Status r))
            else if ro_Observed r \<noteq> TurnFailed
              then Some (ContradictsObserved (ro_Status r) (ro_Observed r))
            else None
        | ReconciliationUncertain \<Rightarrow>
            if ro_Reachability r \<noteq> VisibilityHostLost then Some UncertainMustStayLost else None
        | ReconciliationOther t \<Rightarrow> Some (UnknownReconciliationStatus t)))"

lemmas outcome_validations = TurnRef_Validate_def RecoveryRef_Validate_def Outcome_Validate_def

lemma valid_terminal_observed:
  "Outcome_Validate r = None \<Longrightarrow> ro_Status r = ReconciliationReachableTerminal \<Longrightarrow> is_terminal (ro_Observed r)"
  by (auto simp: Outcome_Validate_def is_terminal_def split: option.splits if_splits)

lemma valid_active_observed:
  "Outcome_Validate r = None \<Longrightarrow> ro_Status r = ReconciliationReachableActive \<Longrightarrow> is_live (ro_Observed r)"
  by (auto simp: Outcome_Validate_def is_live_def split: option.splits if_splits)

lemma valid_outcome_ref:
  "Outcome_Validate r = None \<Longrightarrow> \<not> blank (ref_SessionID (ro_Ref r)) \<and> \<not> blank (ref_TurnKey (ro_Ref r))
     \<and> ref_Generation (ro_Ref r) \<noteq> 0"
  by (auto simp: outcome_validations split: option.splits if_splits)

end
