(* ===== verification/Store_Schema.thy ===== *)
theory Store_Schema
  imports Redaction Go_JSON Go_Hash Adapter_Types
begin

text \<open>
  The durable state of the transactional store, \<open>internal/storage/schema.sql\<close> with the later
  migrations (\<open>schema_v2.go\<close>, \<open>schema_v3.go\<close>, the \<open>required_tools_json\<close> columns of
  \<open>migrations.go\<close>), and the receipts and errors of \<open>types.go\<close>. A table is the list of its rows
  in insertion order. \<open>CHECK\<close>, \<open>UNIQUE\<close> and \<open>REFERENCES\<close> constraints are error branches of the
  statement that would violate them.

  Every write operation of the store is one \<open>BEGIN IMMEDIATE\<close> transaction over a single write
  connection, so an operation is a function from the database to an error or a result with the
  new database; a failed operation rolls back, which is the absence of a new database. Each
  operation reads the clock a few times; the model gives it one instant \<open>now\<close>.
\<close>

section \<open>Errors\<close>

datatype store_error =
    ErrStaleUpdate | ErrIdempotencyConflict | ErrUnauthorizedOperation | ErrInconsistentStorage string
  | ErrArtifactNotFound | ErrArtifactCorrupt | ErrRecoveryGenerationOverflow | ErrHostLost
  | ErrInvalidPath | ErrSessionArchived | ErrControllerDisconnected | ErrPromptNotQueued
  | ErrRequiredToolsImmutable | ErrInvalidExpectedVersion | ErrArtifactOversized
  | ErrDisallowedToolingConfig | ErrTurnAlreadyExists | ErrConflictingTerminalOutcome
  | ErrSessionNotFound | ErrRunSessionMismatch | ErrInvalidAttempt | ErrConflictingArtifact
  | ErrRunNotFound | ErrAdoptionExists | ErrAdoptionRequired | ErrGenerationMismatch
  | ErrLeaseSuperseded | ErrRecoveryUnavailable | ErrWrongExecutionAttempt
  | ErrNoRows | ErrConstraint string | ErrAdapter adapter_error | ErrMsg string

text \<open>Sequencing of steps that may fail, as Go's \<open>if err != nil { return err }\<close>.\<close>

definition and_then :: "'e + 'a \<Rightarrow> ('a \<Rightarrow> 'e + 'b) \<Rightarrow> 'e + 'b" where
  "and_then x k = (case x of Inl e \<Rightarrow> Inl e | Inr a \<Rightarrow> k a)"

lemma and_then_simps [simp]: "and_then (Inl e) k = Inl e" "and_then (Inr a) k = k a"
  by (simp_all add: and_then_def)

lemma and_then_Inr_iff: "and_then x k = Inr y \<longleftrightarrow> (\<exists>a. x = Inr a \<and> k a = Inr y)"
  by (cases x) auto

lemma and_then_Inl_iff: "and_then x k = Inl e \<longleftrightarrow> x = Inl e \<or> (\<exists>a. x = Inr a \<and> k a = Inl e)"
  by (cases x) auto

text \<open>Eliminations that walk down the error branches of a command to its success.\<close>

lemma and_then_InrE: "and_then x k = Inr y \<Longrightarrow> (\<And>a. x = Inr a \<Longrightarrow> k a = Inr y \<Longrightarrow> P) \<Longrightarrow> P"
  by (cases x) auto

lemma guard_InrE: "(if b then Inl e else x) = Inr y \<Longrightarrow> (\<not> b \<Longrightarrow> x = Inr y \<Longrightarrow> P) \<Longrightarrow> P"
  by (auto split: if_splits)

lemma guard_InlE: "(if b then x else Inl e) = Inr y \<Longrightarrow> (b \<Longrightarrow> x = Inr y \<Longrightarrow> P) \<Longrightarrow> P"
  by (auto split: if_splits)

lemma lookup_InrE:
  "(case z of None \<Rightarrow> Inl e | Some a \<Rightarrow> k a) = Inr y \<Longrightarrow> (\<And>a. z = Some a \<Longrightarrow> k a = Inr y \<Longrightarrow> P) \<Longrightarrow> P"
  by (cases z) auto

lemma check_InrE:
  "(case z of None \<Rightarrow> x | Some e \<Rightarrow> Inl (f e)) = Inr y \<Longrightarrow> (z = None \<Longrightarrow> x = Inr y \<Longrightarrow> P) \<Longrightarrow> P"
  by (cases z) auto

lemma replay_InrE:
  "(case z of None \<Rightarrow> x | Some r \<Rightarrow> Inr (g r)) = Inr y \<Longrightarrow>
   (\<And>r. z = Some r \<Longrightarrow> y = g r \<Longrightarrow> P) \<Longrightarrow> (z = None \<Longrightarrow> x = Inr y \<Longrightarrow> P) \<Longrightarrow> P"
  by (cases z) auto

lemma branch_InrE:
  "(if b then x else z) = Inr y \<Longrightarrow> (b \<Longrightarrow> x = Inr y \<Longrightarrow> P) \<Longrightarrow> (\<not> b \<Longrightarrow> z = Inr y \<Longrightarrow> P) \<Longrightarrow> P"
  by (auto split: if_splits)

lemma option_InrE:
  "(case z of None \<Rightarrow> x | Some a \<Rightarrow> k a) = Inr y \<Longrightarrow>
   (\<And>a. z = Some a \<Longrightarrow> k a = Inr y \<Longrightarrow> P) \<Longrightarrow> (z = None \<Longrightarrow> x = Inr y \<Longrightarrow> P) \<Longrightarrow> P"
  by (cases z) auto

lemma pair_InrE: "(case z of (a, b) \<Rightarrow> k a b) = Inr y \<Longrightarrow> (\<And>a b. z = (a, b) \<Longrightarrow> k a b = Inr y \<Longrightarrow> P) \<Longrightarrow> P"
  by (cases z) auto

lemmas success_elims = and_then_InrE guard_InrE guard_InlE check_InrE lookup_InrE replay_InrE
  branch_InrE option_InrE pair_InrE

section \<open>Receipts\<close>

record OperationReceipt =
  or_OpID :: string
  or_CommandType :: string
  or_SessionID :: string
  or_TurnKey :: string
  or_CommittedVersion :: int
  or_CreatedAt :: time
  or_Payload :: string

record ReleaseReceipt =
  rr_Operation :: OperationReceipt
  rr_SanitizedPrompt :: string
  rr_TurnKey :: string
  rr_AttemptID :: string

record DecisionRecord =
  dr_OpID :: string
  dr_RunID :: string
  dr_ArtifactID :: string
  dr_Revision :: int
  dr_Digest :: string
  dr_DecisionPayload :: string
  dr_CreatedAt :: time

record ArtifactMetadata =
  am_ID :: string
  am_RunID :: string
  am_SessionID :: string
  am_TurnKey :: string
  am_Name :: string
  am_Digest :: string
  am_ByteCount :: int
  am_Revision :: int
  am_CreatedAt :: time

record ProposalSetReceipt =
  ps_ProposalSetDigest :: string
  ps_RunID :: string
  ps_SealedAt :: time

text \<open>
  The payload column of a journal entry holds the JSON of one of five Go structures. The model
  keeps the structure; decoding it as a structure is reading the fields the two JSON shapes
  share, absent fields being zero values.
\<close>

datatype payload =
    PayReceipt string OperationReceipt
  | PayRelease string ReleaseReceipt
  | PayDecision string OperationReceipt DecisionRecord
  | PayArtifact string OperationReceipt ArtifactMetadata
  | PayProposal string ProposalSetReceipt

definition zero_receipt :: OperationReceipt where
  "zero_receipt = \<lparr>or_OpID = [], or_CommandType = [], or_SessionID = [], or_TurnKey = [],
     or_CommittedVersion = 0, or_CreatedAt = 0, or_Payload = []\<rparr>"

text \<open>
  The \<open>turn_key\<close> of a release receipt is written once, from the outer field, which hides the
  embedded one in both directions.
\<close>

fun decode_receipt :: "payload \<Rightarrow> OperationReceipt" where
  "decode_receipt (PayReceipt l r) = r"
| "decode_receipt (PayRelease l r) = (rr_Operation r)\<lparr>or_TurnKey := rr_TurnKey r\<rparr>"
| "decode_receipt (PayDecision l r d) = r"
| "decode_receipt (PayArtifact l r m) = r"
| "decode_receipt (PayProposal l r) = zero_receipt"

fun decode_release :: "payload \<Rightarrow> ReleaseReceipt" where
  "decode_release (PayRelease l r) = r\<lparr>rr_Operation := (rr_Operation r)\<lparr>or_TurnKey := []\<rparr>\<rparr>"
| "decode_release p =
     \<lparr>rr_Operation = (decode_receipt p)\<lparr>or_TurnKey := []\<rparr>, rr_SanitizedPrompt = [],
      rr_TurnKey = or_TurnKey (decode_receipt p), rr_AttemptID = []\<rparr>"

section \<open>Rows\<close>

record RunRow =
  r_run_id :: string
  r_brief_digest :: string
  r_source_digest :: string
  r_profile_digest :: string
  r_controller_lease :: string
  r_lifecycle :: string
  r_adopted :: bool
  r_created_at :: time
  r_updated_at :: time

record SessionRow =
  s_session_id :: string
  s_run_id :: string
  s_contributor :: string
  s_is_active :: bool
  s_state :: string
  s_lifecycle :: string
  s_controller_status :: string
  s_visibility :: string
  s_active_key :: "string option"
  s_recovery_context :: "string option"
  s_recovery_gen :: nat
  s_active_recovery_gen :: nat
  s_row_version :: int
  s_created_at :: time
  s_updated_at :: time

record BindingRow =
  b_session_id :: string
  b_native_session_id :: string
  b_harness :: string
  b_model :: string
  b_workspace_mode :: string
  b_config_json :: string
  b_created_at :: time
  b_updated_at :: time

record PendingRow =
  p_session_id :: string
  p_turn_key :: string
  p_prompt :: string
  p_queued_at :: time
  p_required_tools_json :: string

record TurnRow =
  t_session_id :: string
  t_turn_key :: string
  t_prompt :: string
  t_status :: string
  t_result :: string
  t_attempt_id :: string
  t_created_at :: time
  t_completed_at :: "time option"

record IntentRow =
  i_session_id :: string
  i_turn_key :: string
  i_attempt_id :: string
  i_phase :: string
  i_required_tools_json :: string
  i_issuing_generation :: nat
  i_recorded_at :: time
  i_updated_at :: time

record JournalRow =
  j_op_id :: string
  j_command_type :: string
  j_fingerprint :: string
  j_run_id :: string
  j_session_id :: "string option"
  j_turn_key :: "string option"
  j_event_kind :: string
  j_payload :: payload
  j_created_at :: time

record LeaseRow =
  l_run_id :: string
  l_generation :: nat
  l_harness :: "string option"
  l_controller_ref :: string
  l_lease :: string
  l_status :: string
  l_granted_by :: string
  l_attachment_id :: "string option"
  l_instance_id :: "string option"
  l_attachment_rev :: nat
  l_connected :: bool
  l_attached_at :: time
  l_updated_at :: time

record ProfileRow =
  f_run_id :: string
  f_profile_digest :: string
  f_algorithm_version :: string
  f_workspace_mode :: string
  f_isolation_strictness :: string
  f_network_mode :: string
  f_canonical_profile_json :: string
  f_source_repo_identity :: string
  f_source_commit :: string
  f_source_tree :: string
  f_brief_artifact_digest :: string
  f_created_at :: time

record ArtifactRow =
  a_artifact_id :: string
  a_revision :: int
  a_run_id :: string
  a_kind :: string
  a_digest :: string
  a_byte_size :: int
  a_created_at :: time
  a_session_id :: "string option"
  a_attempt_id :: "string option"
  a_released :: bool
  a_proposal_set_digest :: "string option"

record ProposalSetRow =
  q_digest :: string
  q_run_id :: string
  q_released_by :: string
  q_issuing_generation :: nat
  q_sealed_at :: time

record MemberRow =
  m_set_digest :: string
  m_artifact_id :: string
  m_revision :: int
  m_digest :: string
  m_author_session_id :: string
  m_author_contributor :: string

record DB =
  runs :: "RunRow list"
  sessions :: "SessionRow list"
  bindings :: "BindingRow list"
  pending :: "PendingRow list"
  turns :: "TurnRow list"
  intents :: "IntentRow list"
  journal :: "JournalRow list"
  leases :: "LeaseRow list"
  profiles :: "ProfileRow list"
  artifacts :: "ArtifactRow list"
  decisions :: "DecisionRecord list"
  proposal_sets :: "ProposalSetRow list"
  members :: "MemberRow list"

definition empty_db :: DB where
  "empty_db = \<lparr>runs = [], sessions = [], bindings = [], pending = [], turns = [], intents = [],
     journal = [], leases = [], profiles = [], artifacts = [], decisions = [], proposal_sets = [],
     members = []\<rparr>"

end
