(* ===== verification/Store_Tables.thy ===== *)
theory Store_Tables
  imports Store_Schema
begin

text \<open>
  The SQL statements of the store with the constraints they are subject to, the operation
  fingerprint, and the journal with its idempotency lookup (\<open>computeFingerprint\<close>,
  \<open>checkOrRecordIdempotency\<close> and \<open>recordJournalEntry\<close> of \<open>internal/storage/session_store.go\<close>).
\<close>

section \<open>Row lookups\<close>

definition run_row :: "string \<Rightarrow> DB \<Rightarrow> RunRow option" where
  "run_row rid d = sel (\<lambda>r. r_run_id r = rid) (runs d)"

definition session_row :: "string \<Rightarrow> DB \<Rightarrow> SessionRow option" where
  "session_row sid d = sel (\<lambda>s. s_session_id s = sid) (sessions d)"

definition is_pending :: "string \<Rightarrow> string \<Rightarrow> PendingRow \<Rightarrow> bool" where
  "is_pending sid k p \<longleftrightarrow> p_session_id p = sid \<and> p_turn_key p = k"

definition pending_row :: "string \<Rightarrow> string \<Rightarrow> DB \<Rightarrow> PendingRow option" where
  "pending_row sid k d = sel (is_pending sid k) (pending d)"

definition is_turn :: "string \<Rightarrow> string \<Rightarrow> TurnRow \<Rightarrow> bool" where
  "is_turn sid k t \<longleftrightarrow> t_session_id t = sid \<and> t_turn_key t = k"

definition turn_row :: "string \<Rightarrow> string \<Rightarrow> DB \<Rightarrow> TurnRow option" where
  "turn_row sid k d = sel (is_turn sid k) (turns d)"

definition is_intent :: "string \<Rightarrow> string \<Rightarrow> IntentRow \<Rightarrow> bool" where
  "is_intent sid k i \<longleftrightarrow> i_session_id i = sid \<and> i_turn_key i = k"

definition intent_row :: "string \<Rightarrow> string \<Rightarrow> DB \<Rightarrow> IntentRow option" where
  "intent_row sid k d = sel (is_intent sid k) (intents d)"

definition journal_row :: "string \<Rightarrow> DB \<Rightarrow> JournalRow option" where
  "journal_row op d = sel (\<lambda>j. j_op_id j = op) (journal d)"

definition is_active_lease :: "string \<Rightarrow> LeaseRow \<Rightarrow> bool" where
  "is_active_lease rid l \<longleftrightarrow> l_run_id l = rid \<and> l_status l = ''active''"

definition active_lease :: "string \<Rightarrow> DB \<Rightarrow> LeaseRow option" where
  "active_lease rid d = sel (is_active_lease rid) (leases d)"

lemmas row_defs = run_row_def session_row_def pending_row_def turn_row_def intent_row_def
  journal_row_def active_lease_def

lemmas is_row_defs = is_pending_def is_turn_def is_intent_def is_active_lease_def

section \<open>CHECK constraints\<close>

definition max_int64 :: int where "max_int64 = 2 ^ 63 - 1"

definition session_check :: "SessionRow \<Rightarrow> bool" where
  "session_check s \<longleftrightarrow>
     s_contributor s \<in> set Roster \<and>
     s_state s \<in> {''parked'', ''running'', ''archived''} \<and>
     s_lifecycle s \<in> {''active'', ''archived''} \<and>
     s_controller_status s \<in> {''connected'', ''disconnected''} \<and>
     s_visibility s \<in> {''reachable'', ''host_lost''} \<and>
     int (s_recovery_gen s) \<le> max_int64 \<and> int (s_active_recovery_gen s) \<le> max_int64 \<and>
     1 \<le> s_row_version s \<and> s_row_version s \<le> max_int64"

definition turn_statuses :: "string list" where
  "turn_statuses = [''pending'', ''running'', ''completed'', ''interrupted'', ''cancelling'', ''cancelled'', ''failed'']"

definition intent_phases :: "string list" where
  "intent_phases = [''intent_recorded'', ''receipt_acknowledged'', ''acceptance_unknown'', ''resolved'']"

section \<open>Statements\<close>

definition insert_run :: "RunRow \<Rightarrow> DB \<Rightarrow> store_error + DB" where
  "insert_run r d =
     (if run_row (r_run_id r) d \<noteq> None then Inl (ErrConstraint ''runs.run_id'')
      else Inr (d\<lparr>runs := runs d @ [r]\<rparr>))"

definition insert_session :: "SessionRow \<Rightarrow> DB \<Rightarrow> store_error + DB" where
  "insert_session s d =
     (if \<not> session_check s then Inl (ErrConstraint ''sessions CHECK'')
      else if session_row (s_session_id s) d \<noteq> None then Inl (ErrConstraint ''sessions.session_id'')
      else if s_is_active s \<and> sel (\<lambda>t. s_is_active t \<and> s_run_id t = s_run_id s
                \<and> s_contributor t = s_contributor s) (sessions d) \<noteq> None
        then Inl (ErrConstraint ''idx_sessions_active_contributor'')
      else if run_row (s_run_id s) d = None then Inl (ErrConstraint ''FOREIGN KEY'')
      else Inr (d\<lparr>sessions := sessions d @ [s]\<rparr>))"

definition insert_pending :: "PendingRow \<Rightarrow> DB \<Rightarrow> store_error + DB" where
  "insert_pending p d =
     (if pending_row (p_session_id p) (p_turn_key p) d \<noteq> None then Inl (ErrConstraint ''pending_prompts'')
      else if session_row (p_session_id p) d = None then Inl (ErrConstraint ''FOREIGN KEY'')
      else Inr (d\<lparr>pending := pending d @ [p]\<rparr>))"

definition insert_turn :: "TurnRow \<Rightarrow> DB \<Rightarrow> store_error + DB" where
  "insert_turn t d =
     (if t_status t \<notin> set turn_statuses then Inl (ErrConstraint ''turns CHECK'')
      else if turn_row (t_session_id t) (t_turn_key t) d \<noteq> None then Inl (ErrConstraint ''turns'')
      else if session_row (t_session_id t) d = None then Inl (ErrConstraint ''FOREIGN KEY'')
      else Inr (d\<lparr>turns := turns d @ [t]\<rparr>))"

definition insert_intent :: "IntentRow \<Rightarrow> DB \<Rightarrow> store_error + DB" where
  "insert_intent i d =
     (if i_phase i \<notin> set intent_phases then Inl (ErrConstraint ''dispatch_intents CHECK'')
      else if intent_row (i_session_id i) (i_turn_key i) d \<noteq> None then Inl (ErrConstraint ''dispatch_intents'')
      else if turn_row (i_session_id i) (i_turn_key i) d = None then Inl (ErrConstraint ''FOREIGN KEY'')
      else Inr (d\<lparr>intents := intents d @ [i]\<rparr>))"

definition insert_lease :: "LeaseRow \<Rightarrow> DB \<Rightarrow> store_error + DB" where
  "insert_lease l d =
     (if sel (\<lambda>x. l_run_id x = l_run_id l \<and> l_generation x = l_generation l) (leases d) \<noteq> None
        then Inl (ErrConstraint ''controller_leases'')
      else if l_status l = ''active'' \<and> active_lease (l_run_id l) d \<noteq> None
        then Inl (ErrConstraint ''idx_controller_leases_active'')
      else if run_row (l_run_id l) d = None then Inl (ErrConstraint ''FOREIGN KEY'')
      else Inr (d\<lparr>leases := leases d @ [l]\<rparr>))"

definition insert_journal :: "JournalRow \<Rightarrow> DB \<Rightarrow> store_error + DB" where
  "insert_journal j d =
     (if journal_row (j_op_id j) d \<noteq> None then Inl (ErrConstraint ''journal_entries.op_id'')
      else if run_row (j_run_id j) d = None then Inl (ErrConstraint ''FOREIGN KEY'')
      else if (case j_session_id j of None \<Rightarrow> False | Some sid \<Rightarrow> session_row sid d = None)
        then Inl (ErrConstraint ''FOREIGN KEY'')
      else Inr (d\<lparr>journal := journal d @ [j]\<rparr>))"

text \<open>
  An \<open>UPDATE sessions\<close> of one row: the \<open>CHECK\<close>s are tested on the new row. The version written
  by Go is an \<open>int64\<close>, so that the successor of the largest one is negative and fails the
  \<open>CHECK\<close>, as does a recovery generation above it; both are the failing branch here.
\<close>

definition update_session :: "string \<Rightarrow> (SessionRow \<Rightarrow> SessionRow) \<Rightarrow> DB \<Rightarrow> store_error + DB" where
  "update_session sid f d =
     (if list_all (\<lambda>s. s_session_id s = sid \<longrightarrow> session_check (f s)) (sessions d)
      then Inr (d\<lparr>sessions := upd (\<lambda>s. s_session_id s = sid) f (sessions d)\<rparr>)
      else Inl (ErrConstraint ''sessions CHECK''))"

definition update_turn :: "string \<Rightarrow> string \<Rightarrow> (TurnRow \<Rightarrow> TurnRow) \<Rightarrow> DB \<Rightarrow> DB" where
  "update_turn sid k f d = d\<lparr>turns := upd (is_turn sid k) f (turns d)\<rparr>"

definition update_intent :: "string \<Rightarrow> string \<Rightarrow> (IntentRow \<Rightarrow> IntentRow) \<Rightarrow> DB \<Rightarrow> DB" where
  "update_intent sid k f d = d\<lparr>intents := upd (is_intent sid k) f (intents d)\<rparr>"

definition bump :: "int \<Rightarrow> time \<Rightarrow> SessionRow \<Rightarrow> SessionRow" where
  "bump ver now s = s\<lparr>s_row_version := ver, s_updated_at := now\<rparr>"

lemmas statement_defs = insert_run_def insert_session_def insert_pending_def insert_turn_def
  insert_intent_def insert_lease_def insert_journal_def update_session_def

section \<open>Fingerprints and idempotency\<close>

definition computeFingerprint :: "string list \<Rightarrow> string" where
  "computeFingerprint parts = sha256_hex (concat (map (\<lambda>p. p @ [CHR 0x00]) parts))"

definition checkOrRecordIdempotency ::
  "string \<Rightarrow> string \<Rightarrow> string \<Rightarrow> DB \<Rightarrow> store_error + OperationReceipt option"
where
  "checkOrRecordIdempotency opID cmdType fingerprint d =
     (case journal_row opID d of
        None \<Rightarrow> Inr None
      | Some j \<Rightarrow>
          if j_command_type j \<noteq> cmdType \<or> j_fingerprint j \<noteq> fingerprint then Inl ErrIdempotencyConflict
          else Inr (Some (decode_receipt (j_payload j))))"

definition nonempty :: "string \<Rightarrow> string option" where
  "nonempty s = (if s = [] then None else Some s)"

definition recordJournalEntry ::
  "string \<Rightarrow> string \<Rightarrow> string \<Rightarrow> string \<Rightarrow> string \<Rightarrow> string \<Rightarrow> string \<Rightarrow> OperationReceipt \<Rightarrow> string \<Rightarrow> time
   \<Rightarrow> DB \<Rightarrow> store_error + DB"
where
  "recordJournalEntry opID cmdType fingerprint runID sessionID turnKey eventKind receipt callerLease now =
     insert_journal
       \<lparr>j_op_id = opID, j_command_type = cmdType, j_fingerprint = fingerprint, j_run_id = runID,
        j_session_id = nonempty sessionID, j_turn_key = nonempty turnKey, j_event_kind = eventKind,
        j_payload = PayReceipt callerLease receipt, j_created_at = now\<rparr>"

text \<open>The receipt of a command about a session.\<close>

definition session_receipt ::
  "string \<Rightarrow> string \<Rightarrow> string \<Rightarrow> string \<Rightarrow> int \<Rightarrow> time \<Rightarrow> string \<Rightarrow> OperationReceipt"
where
  "session_receipt opID cmd sessionID turnKey version now payload =
     \<lparr>or_OpID = opID, or_CommandType = cmd, or_SessionID = sessionID, or_TurnKey = turnKey,
      or_CommittedVersion = version, or_CreatedAt = now, or_Payload = payload\<rparr>"

end
