(* ===== verification/Store_Authority.thy ===== *)
theory Store_Authority
  imports Store_Tables
begin

text \<open>
  Controller authority, \<open>internal/storage/controller_leases.go\<close>: classification of a presented
  credential and the connection precondition, which every controller command checks before
  anything else, and the grant transitions (adopt, hand off, revoke, recover a credential).
  A credential authorizes a controller command only through an internally consistent grant.
\<close>

section \<open>Classification\<close>

definition retired_lease :: "string \<Rightarrow> string \<Rightarrow> LeaseRow \<Rightarrow> bool" where
  "retired_lease rid lease l \<longleftrightarrow>
     l_run_id l = rid \<and> l_lease l = lease \<and> l_status l \<in> {''superseded'', ''revoked''}"

definition legacy_lease :: "string \<Rightarrow> LeaseRow \<Rightarrow> bool" where
  "legacy_lease rid l \<longleftrightarrow> l_run_id l = rid \<and> l_generation l = 0 \<and> l_status l = ''legacy''"

text \<open>What follows when the credential is not that of the active grant.\<close>

definition classify_inactive :: "RunRow \<Rightarrow> string \<Rightarrow> bool \<Rightarrow> DB \<Rightarrow> store_error + nat" where
  "classify_inactive r presented requireAdopted d =
     (if sel (retired_lease (r_run_id r) presented) (leases d) \<noteq> None then Inl ErrLeaseSuperseded
      else if \<not> r_adopted r then
        (if requireAdopted then Inl ErrAdoptionRequired
         else case sel (legacy_lease (r_run_id r)) (leases d) of
           Some l \<Rightarrow> if l_lease l = presented \<and> r_controller_lease r = presented then Inr 0
                     else Inl ErrUnauthorizedOperation
         | None \<Rightarrow> Inl ErrUnauthorizedOperation)
      else Inl ErrUnauthorizedOperation)"

definition classifyCredential :: "string \<Rightarrow> string \<Rightarrow> bool \<Rightarrow> DB \<Rightarrow> store_error + nat" where
  "classifyCredential runID presented requireAdopted d =
     (if blank presented then Inl ErrAdoptionRequired
      else case run_row runID d of
        None \<Rightarrow> Inl (ErrMsg ''run not found'')
      | Some r \<Rightarrow>
          if r_lifecycle r = ''archived'' then Inl ErrSessionArchived
          else case active_lease runID d of
            Some l \<Rightarrow> if r_adopted r \<and> l_lease l = presented \<and> r_controller_lease r = presented
                      then Inr (l_generation l) else classify_inactive r presented requireAdopted d
          | None \<Rightarrow> classify_inactive r presented requireAdopted d)"

definition runIDOfSession :: "string \<Rightarrow> DB \<Rightarrow> string" where
  "runIDOfSession sessionID d = (case session_row sessionID d of None \<Rightarrow> [] | Some s \<Rightarrow> s_run_id s)"

definition requireRunConnected :: "string \<Rightarrow> DB \<Rightarrow> store_error option" where
  "requireRunConnected runID d =
     (case active_lease runID d of
        None \<Rightarrow> Some ErrAdoptionRequired
      | Some l \<Rightarrow> if \<not> l_connected l then Some ErrControllerDisconnected else None)"

definition classifyRunController :: "string \<Rightarrow> string \<Rightarrow> DB \<Rightarrow> store_error + nat" where
  "classifyRunController runID presented d = classifyCredential runID presented True d"

definition authorizeSessionController :: "string \<Rightarrow> string \<Rightarrow> bool \<Rightarrow> DB \<Rightarrow> store_error + nat" where
  "authorizeSessionController sessionID presented requireAdopted d =
     (case session_row sessionID d of
        None \<Rightarrow> Inl ErrSessionNotFound
      | Some s \<Rightarrow> classifyCredential (s_run_id s) presented requireAdopted d)"

definition ValidateRunControllerLease :: "string \<Rightarrow> string \<Rightarrow> DB \<Rightarrow> store_error option" where
  "ValidateRunControllerLease runID callerLease d =
     (case classifyCredential runID callerLease True d of Inl e \<Rightarrow> Some e | Inr g \<Rightarrow> None)"

definition ValidateControllerLease :: "string \<Rightarrow> string \<Rightarrow> DB \<Rightarrow> store_error option" where
  "ValidateControllerLease sessionID callerLease d =
     (case authorizeSessionController sessionID callerLease True d of Inl e \<Rightarrow> Some e | Inr g \<Rightarrow> None)"

section \<open>Grants\<close>

record OperatorRecovery =
  rec_Reason :: string
  rec_ExpectedGeneration :: nat

record ControllerGrantReceipt =
  cg_Operation :: OperationReceipt
  cg_Generation :: nat
  cg_LeaseSecret :: string
  cg_IssuanceStatus :: string
  cg_ReplayedReceipt :: bool

definition granted_by :: "string \<Rightarrow> DB \<Rightarrow> LeaseRow option" where
  "granted_by opID d = sel (\<lambda>l. l_granted_by l = opID) (leases d)"

definition resolveGrantReplay ::
  "string \<Rightarrow> string \<Rightarrow> string \<Rightarrow> DB \<Rightarrow> store_error + ControllerGrantReceipt option"
where
  "resolveGrantReplay opID commandType fingerprint d =
     (case journal_row opID d of
        None \<Rightarrow> Inr None
      | Some j \<Rightarrow>
          if j_command_type j \<noteq> commandType \<or> j_fingerprint j \<noteq> fingerprint then Inl ErrIdempotencyConflict
          else if or_OpID (decode_receipt (j_payload j)) = []
            then Inl (ErrMsg ''grant operation has an unreadable committed receipt'')
          else (case granted_by opID d of
              None \<Rightarrow> Inl (ErrMsg ''grant operation has no issuance record'')
            | Some l \<Rightarrow> Inr (Some
                \<lparr>cg_Operation = decode_receipt (j_payload j), cg_Generation = l_generation l,
                 cg_LeaseSecret = (if l_status l = ''active'' then l_lease l else []),
                 cg_IssuanceStatus = l_status l, cg_ReplayedReceipt = True\<rparr>)))"

definition next_generation :: "string \<Rightarrow> DB \<Rightarrow> nat" where
  "next_generation runID d =
     fold max (map l_generation (filter (\<lambda>l. l_run_id l = runID) (leases d))) 0 + 1"

definition update_leases :: "(LeaseRow \<Rightarrow> bool) \<Rightarrow> (LeaseRow \<Rightarrow> LeaseRow) \<Rightarrow> DB \<Rightarrow> DB" where
  "update_leases p f d = d\<lparr>leases := upd p f (leases d)\<rparr>"

definition update_run :: "string \<Rightarrow> (RunRow \<Rightarrow> RunRow) \<Rightarrow> DB \<Rightarrow> DB" where
  "update_run rid f d = d\<lparr>runs := upd (\<lambda>r. r_run_id r = rid) f (runs d)\<rparr>"

definition installGrant ::
  "string \<Rightarrow> string \<Rightarrow> string \<Rightarrow> string \<Rightarrow> string \<Rightarrow> string \<Rightarrow> string \<Rightarrow> string \<Rightarrow> string \<Rightarrow> time \<Rightarrow> DB
   \<Rightarrow> store_error + ControllerGrantReceipt \<times> DB"
where
  "installGrant opID runID harness controllerRef candidate commandType fingerprint eventKind authMode now d =
     (let gen = next_generation runID d;
          receipt = session_receipt opID commandType [] [] (int gen) now
            (''generation='' @ fmt_d (int gen) @ '':authorized_by='' @ authMode)
      in and_then
        (insert_lease
          \<lparr>l_run_id = runID, l_generation = gen, l_harness = Some harness,
           l_controller_ref = controllerRef, l_lease = candidate, l_status = ''active'',
           l_granted_by = opID, l_attachment_id = None, l_instance_id = None, l_attachment_rev = 0,
           l_connected = False, l_attached_at = now, l_updated_at = now\<rparr> d) (\<lambda>d1.
      let d2 = update_leases (legacy_lease runID) (\<lambda>l. l\<lparr>l_status := ''superseded'', l_updated_at := now\<rparr>) d1;
          d3 = update_run runID
            (\<lambda>r. r\<lparr>r_controller_lease := candidate, r_adopted := True, r_updated_at := now\<rparr>) d2
      in and_then (recordJournalEntry opID commandType fingerprint runID [] [] eventKind receipt [] now d3)
        (\<lambda>d4. Inr (\<lparr>cg_Operation = receipt, cg_Generation = gen, cg_LeaseSecret = candidate,
                     cg_IssuanceStatus = ''active'', cg_ReplayedReceipt = False\<rparr>, d4))))"

section \<open>Grant transitions\<close>

text \<open>The argument checks adoption and handoff share.\<close>

definition grant_arguments :: "string \<Rightarrow> string \<Rightarrow> string \<Rightarrow> string \<Rightarrow> store_error option" where
  "grant_arguments opID harness controllerRef candidate =
     (if blank opID then Some (ErrMsg ''empty operation id'')
      else if \<not> ValidContributor harness then Some (ErrMsg ''invalid controller harness'')
      else if blank controllerRef then Some (ErrMsg ''controller reference is required'')
      else if blank candidate then Some (ErrMsg ''lease candidate is required'')
      else None)"

definition adopt_auth_mode :: "OperatorRecovery option \<Rightarrow> string" where
  "adopt_auth_mode recovery =
     (case recovery of
        None \<Rightarrow> ''bootstrap''
      | Some rv \<Rightarrow> ''recovery:gen='' @ fmt_d (int (rec_ExpectedGeneration rv)) @ '':reason=''
                   @ SanitizeText (rec_Reason rv))"

text \<open>\<open>ORDER BY generation DESC LIMIT 1\<close> over the rows that satisfy a condition.\<close>

definition latest_generation :: "(LeaseRow \<Rightarrow> bool) \<Rightarrow> DB \<Rightarrow> nat option" where
  "latest_generation p d =
     (case map l_generation (filter p (leases d)) of [] \<Rightarrow> None | g # gs \<Rightarrow> Some (fold max gs g))"

definition adopt_authority ::
  "string \<Rightarrow> string \<Rightarrow> OperatorRecovery option \<Rightarrow> RunRow \<Rightarrow> DB \<Rightarrow> store_error option"
where
  "adopt_authority runID bootstrapLease recovery r d =
     (case recovery of
        Some rv \<Rightarrow>
          (case latest_generation (\<lambda>l. l_run_id l = runID \<and> l_status l \<in> {''legacy'', ''revoked''}) d of
             None \<Rightarrow> Some ErrGenerationMismatch
           | Some g \<Rightarrow> if rec_ExpectedGeneration rv \<noteq> g then Some ErrGenerationMismatch else None)
      | None \<Rightarrow> if bootstrapLease \<noteq> r_controller_lease r then Some ErrUnauthorizedOperation else None)"

definition adopt_fingerprint :: "string \<Rightarrow> string \<Rightarrow> string \<Rightarrow> OperatorRecovery option \<Rightarrow> string" where
  "adopt_fingerprint runID harness controllerRef recovery =
     computeFingerprint [''adopt_controller'', runID, harness, controllerRef, adopt_auth_mode recovery]"

definition AdoptController ::
  "string \<Rightarrow> string \<Rightarrow> string \<Rightarrow> string \<Rightarrow> string \<Rightarrow> OperatorRecovery option \<Rightarrow> string \<Rightarrow> time \<Rightarrow> DB
   \<Rightarrow> store_error + ControllerGrantReceipt \<times> DB"
where
  "AdoptController opID runID harness controllerRef bootstrapLease recovery candidate now d =
     (case grant_arguments opID harness controllerRef candidate of Some e \<Rightarrow> Inl e | None \<Rightarrow>
      if (case recovery of None \<Rightarrow> False | Some rv \<Rightarrow> blank (rec_Reason rv))
        then Inl (ErrMsg ''operator recovery requires an explicit reason'')
      else let fp = adopt_fingerprint runID harness controllerRef recovery in
      and_then (resolveGrantReplay opID ''adopt_controller'' fp d) (\<lambda>replay.
      case replay of Some receipt \<Rightarrow> Inr (receipt, d) | None \<Rightarrow>
      case run_row runID d of None \<Rightarrow> Inl (ErrMsg ''run not found'') | Some r \<Rightarrow>
      if r_adopted r then Inl ErrAdoptionExists
      else case adopt_authority runID bootstrapLease recovery r d of Some e \<Rightarrow> Inl e | None \<Rightarrow>
      installGrant opID runID harness controllerRef candidate ''adopt_controller'' fp
        ''controller_adopted'' (adopt_auth_mode recovery) now d))"

definition projectSessionConnection :: "string \<Rightarrow> string \<Rightarrow> time \<Rightarrow> DB \<Rightarrow> DB" where
  "projectSessionConnection runID status now d =
     d\<lparr>sessions := upd (\<lambda>s. s_run_id s = runID \<and> s_controller_status s \<noteq> status)
         (\<lambda>s. s\<lparr>s_controller_status := status, s_row_version := s_row_version s + 1,
                s_updated_at := now\<rparr>) (sessions d)\<rparr>"

definition handoff_fingerprint :: "string \<Rightarrow> string \<Rightarrow> string \<Rightarrow> nat \<Rightarrow> string" where
  "handoff_fingerprint runID harness controllerRef expectedGeneration =
     computeFingerprint [''handoff_controller'', runID, harness, controllerRef, fmt_d (int expectedGeneration)]"

definition HandoffController ::
  "string \<Rightarrow> string \<Rightarrow> string \<Rightarrow> nat \<Rightarrow> string \<Rightarrow> string \<Rightarrow> string \<Rightarrow> time \<Rightarrow> DB
   \<Rightarrow> store_error + ControllerGrantReceipt \<times> DB"
where
  "HandoffController opID runID currentLease expectedGeneration harness controllerRef candidate now d =
     (case grant_arguments opID harness controllerRef candidate of Some e \<Rightarrow> Inl e | None \<Rightarrow>
      let fp = handoff_fingerprint runID harness controllerRef expectedGeneration in
      and_then (resolveGrantReplay opID ''handoff_controller'' fp d) (\<lambda>replay.
      case replay of Some receipt \<Rightarrow> Inr (receipt, d) | None \<Rightarrow>
      and_then (classifyRunController runID currentLease d) (\<lambda>activeGen.
      if activeGen \<noteq> expectedGeneration then Inl ErrGenerationMismatch
      else
        let d1 = update_leases (is_active_lease runID)
              (\<lambda>l. l\<lparr>l_status := ''superseded'', l_connected := False, l_attachment_id := None,
                     l_updated_at := now\<rparr>) d;
            d2 = projectSessionConnection runID ''disconnected'' now d1
        in installGrant opID runID harness controllerRef candidate ''handoff_controller'' fp
             ''controller_handed_off'' ''controller'' now d2)))"

text \<open>
  Revocation: the controller revokes itself under its current credential, or the operator revokes
  the latest grant by generation. Target generation, authorization mode and fingerprint follow.
\<close>

definition revoke_target ::
  "string \<Rightarrow> string \<Rightarrow> OperatorRecovery option \<Rightarrow> DB \<Rightarrow> store_error + nat \<times> string \<times> string"
where
  "revoke_target runID controllerLease recovery d =
     (case recovery of
        Some rv \<Rightarrow> Inr (rec_ExpectedGeneration rv,
                        ''recovery-gen='' @ fmt_d (int (rec_ExpectedGeneration rv)),
                        ''recovery:reason='' @ SanitizeText (rec_Reason rv))
      | None \<Rightarrow> and_then (classifyRunController runID controllerLease d)
                  (\<lambda>gen. Inr (gen, ''controller-gen='' @ fmt_d (int gen), ''controller'')))"

definition revoke_fingerprint :: "string \<Rightarrow> string \<Rightarrow> string \<Rightarrow> string" where
  "revoke_fingerprint runID fingerprintTarget authMode =
     computeFingerprint [''revoke_controller'', runID, fingerprintTarget, authMode]"

definition revoke_recovery_check :: "string \<Rightarrow> OperatorRecovery option \<Rightarrow> DB \<Rightarrow> store_error option" where
  "revoke_recovery_check runID recovery d =
     (case recovery of None \<Rightarrow> None
      | Some rv \<Rightarrow>
          (case latest_generation (\<lambda>l. l_run_id l = runID \<and> l_status l \<in> {''legacy'', ''active''}) d of
             None \<Rightarrow> Some (ErrMsg ''no controller grant to revoke'')
           | Some g \<Rightarrow> if rec_ExpectedGeneration rv \<noteq> g then Some ErrGenerationMismatch else None))"

definition revoke_effect :: "string \<Rightarrow> nat \<Rightarrow> time \<Rightarrow> DB \<Rightarrow> DB" where
  "revoke_effect runID targetGen now d =
     (let d1 = update_leases (\<lambda>l. l_run_id l = runID \<and> l_generation l = targetGen)
            (\<lambda>l. l\<lparr>l_status := ''revoked'', l_connected := False, l_attachment_id := None,
                   l_updated_at := now\<rparr>) d;
          d2 = update_run runID (\<lambda>r. r\<lparr>r_controller_lease := [], r_updated_at := now\<rparr>) d1;
          d3 = (if 0 < targetGen
                then update_run runID (\<lambda>r. r\<lparr>r_adopted := False, r_updated_at := now\<rparr>) d2 else d2)
      in projectSessionConnection runID ''disconnected'' now d3)"

definition RevokeController ::
  "string \<Rightarrow> string \<Rightarrow> string \<Rightarrow> OperatorRecovery option \<Rightarrow> time \<Rightarrow> DB \<Rightarrow> store_error + OperationReceipt \<times> DB"
where
  "RevokeController opID runID controllerLease recovery now d =
     (if blank opID then Inl (ErrMsg ''empty operation id'')
      else if (case recovery of None \<Rightarrow> False | Some rv \<Rightarrow> blank (rec_Reason rv))
        then Inl (ErrMsg ''operator recovery requires an explicit reason'')
      else and_then (revoke_target runID controllerLease recovery d) (\<lambda>(targetGen, fpTarget, authMode).
      let fp = revoke_fingerprint runID fpTarget authMode in
      case journal_row opID d of
        Some j \<Rightarrow>
          if j_command_type j \<noteq> ''revoke_controller'' \<or> j_fingerprint j \<noteq> fp then Inl ErrIdempotencyConflict
          else if or_OpID (decode_receipt (j_payload j)) = [] then Inl ErrIdempotencyConflict
          else Inr (decode_receipt (j_payload j), d)
      | None \<Rightarrow>
          case revoke_recovery_check runID recovery d of Some e \<Rightarrow> Inl e | None \<Rightarrow>
          let receipt = session_receipt opID ''revoke_controller'' [] [] (int targetGen) now
                (''revoked:generation='' @ fmt_d (int targetGen) @ '':authorized_by='' @ authMode)
          in and_then (recordJournalEntry opID ''revoke_controller'' fp runID [] [] ''controller_revoked''
                receipt [] now (revoke_effect runID targetGen now d))
               (\<lambda>d'. Inr (receipt, d'))))"

definition resolveIssuanceForRecovery ::
  "string \<Rightarrow> string \<Rightarrow> nat \<Rightarrow> time \<Rightarrow> DB \<Rightarrow> store_error + ControllerGrantReceipt"
where
  "resolveIssuanceForRecovery runID sourceOpID expectedGeneration now d =
     (case journal_row sourceOpID d of
        None \<Rightarrow> Inl ErrRecoveryUnavailable
      | Some j \<Rightarrow>
          if j_command_type j \<noteq> ''adopt_controller'' \<and> j_command_type j \<noteq> ''handoff_controller''
            then Inl ErrRecoveryUnavailable
          else case granted_by sourceOpID d of
            None \<Rightarrow> Inl ErrRecoveryUnavailable
          | Some l \<Rightarrow>
              if l_run_id l \<noteq> runID then Inl ErrRecoveryUnavailable
              else if l_generation l \<noteq> expectedGeneration then Inl ErrGenerationMismatch
              else if l_status l \<noteq> ''active'' then Inl ErrRecoveryUnavailable
              else Inr
                \<lparr>cg_Operation = session_receipt sourceOpID (j_command_type j) [] []
                    (int (l_generation l)) now (''generation='' @ fmt_d (int (l_generation l))),
                 cg_Generation = l_generation l, cg_LeaseSecret = l_lease l,
                 cg_IssuanceStatus = l_status l, cg_ReplayedReceipt = False\<rparr>)"

definition recover_fingerprint :: "string \<Rightarrow> string \<Rightarrow> nat \<Rightarrow> string" where
  "recover_fingerprint runID sourceOpID expectedGeneration =
     computeFingerprint [''recover_controller_credential'', runID, sourceOpID, fmt_d (int expectedGeneration)]"

definition RecoverControllerCredential ::
  "string \<Rightarrow> string \<Rightarrow> string \<Rightarrow> nat \<Rightarrow> time \<Rightarrow> DB \<Rightarrow> store_error + ControllerGrantReceipt \<times> DB"
where
  "RecoverControllerCredential opID runID sourceOpID expectedGeneration now d =
     (if blank opID \<or> blank sourceOpID
        then Inl (ErrMsg ''operation id and source operation id are required'')
      else let fp = recover_fingerprint runID sourceOpID expectedGeneration in
      case journal_row opID d of
        Some j \<Rightarrow>
          if j_command_type j \<noteq> ''recover_controller_credential'' \<or> j_fingerprint j \<noteq> fp
            then Inl ErrIdempotencyConflict
          else and_then (resolveIssuanceForRecovery runID sourceOpID expectedGeneration now d)
                 (\<lambda>grant. Inr (grant, d))
      | None \<Rightarrow>
          and_then (resolveIssuanceForRecovery runID sourceOpID expectedGeneration now d) (\<lambda>grant.
          let receipt = session_receipt opID ''recover_controller_credential'' [] []
                (int (cg_Generation grant)) now
                (''recovered:generation='' @ fmt_d (int (cg_Generation grant)) @ '':source='' @ sourceOpID)
          in and_then (recordJournalEntry opID ''recover_controller_credential'' fp runID [] []
                ''controller_credential_recovered'' receipt [] now d)
               (\<lambda>d'. Inr (grant, d'))))"

section \<open>The redacted record\<close>

record ControllerRecord =
  cr_Generation :: nat
  cr_Harness :: string
  cr_ControllerRef :: string
  cr_Status :: string
  cr_Adopted :: bool
  cr_Connected :: bool
  cr_AttachmentID :: string
  cr_InstanceID :: string
  cr_AttachmentRev :: nat

definition text_or_empty :: "string option \<Rightarrow> string" where
  "text_or_empty s = (case s of None \<Rightarrow> [] | Some x \<Rightarrow> x)"

definition no_controller :: ControllerRecord where
  "no_controller = \<lparr>cr_Generation = 0, cr_Harness = [], cr_ControllerRef = [], cr_Status = ''none'',
     cr_Adopted = False, cr_Connected = False, cr_AttachmentID = [], cr_InstanceID = [],
     cr_AttachmentRev = 0\<rparr>"

definition record_lease :: "bool \<Rightarrow> LeaseRow \<Rightarrow> ControllerRecord \<Rightarrow> ControllerRecord" where
  "record_lease adopted l rec =
     (if l_status l = ''active'' then
        \<lparr>cr_Generation = l_generation l, cr_Harness = text_or_empty (l_harness l),
         cr_ControllerRef = l_controller_ref l, cr_Status = ''active'', cr_Adopted = adopted,
         cr_Connected = l_connected l, cr_AttachmentID = text_or_empty (l_attachment_id l),
         cr_InstanceID = text_or_empty (l_instance_id l), cr_AttachmentRev = l_attachment_rev l\<rparr>
      else if l_status l = ''legacy'' then
        no_controller\<lparr>cr_Generation := l_generation l, cr_Status := ''legacy''\<rparr>
      else if l_status l = ''revoked'' \<or> l_status l = ''superseded'' then
        (if cr_Status rec = ''none'' then
           no_controller\<lparr>cr_Generation := l_generation l, cr_Harness := text_or_empty (l_harness l),
             cr_ControllerRef := l_controller_ref l, cr_Status := l_status l, cr_Adopted := adopted\<rparr>
         else rec)
      else rec)"

definition GetControllerRecord :: "string \<Rightarrow> DB \<Rightarrow> store_error + ControllerRecord" where
  "GetControllerRecord runID d =
     (case run_row runID d of
        None \<Rightarrow> Inl ErrNoRows
      | Some r \<Rightarrow>
          Inr (fold (record_lease (r_adopted r))
                 (rev (sort_key l_generation (filter (\<lambda>l. l_run_id l = runID) (leases d))))
                 no_controller))"

end
