(* ===== verification/Store_Attachment.thy ===== *)
theory Store_Attachment
  imports Store_Authority
begin

text \<open>
  The run-scoped controller attachment, \<open>internal/storage/controller_attachment.go\<close>: connection
  episodes of the active grant, ordered by an attachment revision. The random attachment
  identifier is an argument. Connecting and disconnecting never change who holds the lease.
\<close>

record ConnectReceipt =
  cn_Operation :: OperationReceipt
  cn_AttachmentID :: string
  cn_AttachmentRev :: nat

text \<open>
  \<open>strings.Cut\<close> of the payload after \<open>attachment=\<close> at \<open>:rev=\<close>, and \<open>fmt.Sscanf(rest, "%d")\<close>:
  the leading decimal digits.
\<close>

fun cut_at :: "string \<Rightarrow> string \<Rightarrow> string \<times> string" where
  "cut_at sep [] = ([], [])"
| "cut_at sep (c # s) =
     (if starts_with sep (c # s) then ([], drop (length sep) (c # s))
      else case cut_at sep s of (a, b) \<Rightarrow> (c # a, b))"

definition digit_value :: "char \<Rightarrow> nat" where "digit_value c = of_char c - 48"

definition is_digit :: "char \<Rightarrow> bool" where "is_digit c \<longleftrightarrow> 48 \<le> (of_char c :: nat) \<and> (of_char c :: nat) \<le> 57"

definition leading_number :: "string \<Rightarrow> nat" where
  "leading_number s = foldl (\<lambda>n c. 10 * n + digit_value c) 0 (takeWhile is_digit s)"

definition parseAttachmentPayload :: "string \<Rightarrow> string \<times> nat" where
  "parseAttachmentPayload payload =
     (let body = (if starts_with ''attachment='' payload then drop 11 payload else payload)
      in case cut_at '':rev='' body of (attachment, rest) \<Rightarrow> (attachment, leading_number rest))"

definition attachment_payload :: "string \<Rightarrow> nat \<Rightarrow> string" where
  "attachment_payload attachment epi = ''attachment='' @ attachment @ '':rev='' @ fmt_d (int epi)"

definition connect_fingerprint :: "string \<Rightarrow> nat \<Rightarrow> string" where
  "connect_fingerprint runID gen = computeFingerprint [''connect_run_controller'', runID, fmt_d (int gen)]"

definition active_generation :: "string \<Rightarrow> nat \<Rightarrow> LeaseRow \<Rightarrow> bool" where
  "active_generation runID gen l \<longleftrightarrow> l_run_id l = runID \<and> l_generation l = gen \<and> l_status l = ''active''"

definition ConnectRunController ::
  "string \<Rightarrow> string \<Rightarrow> string \<Rightarrow> nat \<Rightarrow> string \<Rightarrow> string \<Rightarrow> time \<Rightarrow> DB \<Rightarrow> store_error + ConnectReceipt \<times> DB"
where
  "ConnectRunController opID runID lease expectedGeneration instanceID attachmentID now d =
     (if blank opID then Inl (ErrMsg ''empty operation id'')
      else and_then (classifyRunController runID lease d) (\<lambda>gen.
      if gen \<noteq> expectedGeneration then Inl ErrGenerationMismatch
      else let fp = connect_fingerprint runID expectedGeneration in
      case journal_row opID d of
        Some j \<Rightarrow>
          if j_fingerprint j \<noteq> fp then Inl ErrIdempotencyConflict
          else if or_OpID (decode_receipt (j_payload j)) = [] then Inl ErrIdempotencyConflict
          else (case parseAttachmentPayload (or_Payload (decode_receipt (j_payload j))) of (a, epi) \<Rightarrow>
            Inr (\<lparr>cn_Operation = decode_receipt (j_payload j), cn_AttachmentID = a, cn_AttachmentRev = epi\<rparr>, d))
      | None \<Rightarrow>
          let d1 = update_leases (active_generation runID gen)
                (\<lambda>l. l\<lparr>l_connected := True, l_attachment_id := Some attachmentID,
                       l_instance_id := Some instanceID, l_attachment_rev := l_attachment_rev l + 1,
                       l_updated_at := now\<rparr>) d
          in case sel (active_generation runID gen) (leases d1) of
            None \<Rightarrow> Inl ErrNoRows
          | Some l \<Rightarrow>
              let epi = l_attachment_rev l;
                  d2 = projectSessionConnection runID ''connected'' now d1;
                  receipt = session_receipt opID ''connect_run_controller'' [] [] (int gen) now
                    (attachment_payload attachmentID epi)
              in and_then (recordJournalEntry opID ''connect_run_controller'' fp runID [] []
                    ''controller_connected'' receipt [] now d2)
                   (\<lambda>d3. Inr (\<lparr>cn_Operation = receipt, cn_AttachmentID = attachmentID,
                                cn_AttachmentRev = epi\<rparr>, d3))))"

definition disconnect_fingerprint :: "string \<Rightarrow> string \<Rightarrow> nat \<Rightarrow> string" where
  "disconnect_fingerprint runID attachmentID gen =
     computeFingerprint [''disconnect_run_controller'', runID, attachmentID, fmt_d (int gen)]"

definition DisconnectRunController ::
  "string \<Rightarrow> string \<Rightarrow> string \<Rightarrow> string \<Rightarrow> nat \<Rightarrow> time \<Rightarrow> DB \<Rightarrow> store_error + OperationReceipt \<times> DB"
where
  "DisconnectRunController opID runID lease attachmentID expectedGeneration now d =
     (if blank opID then Inl (ErrMsg ''empty operation id'')
      else and_then (classifyRunController runID lease d) (\<lambda>gen.
      if gen \<noteq> expectedGeneration then Inl ErrGenerationMismatch
      else let fp = disconnect_fingerprint runID attachmentID expectedGeneration in
      case journal_row opID d of
        Some j \<Rightarrow>
          if j_fingerprint j \<noteq> fp then Inl ErrIdempotencyConflict
          else if or_OpID (decode_receipt (j_payload j)) = [] then Inl ErrIdempotencyConflict
          else Inr (decode_receipt (j_payload j), d)
      | None \<Rightarrow>
          (case sel (active_generation runID gen) (leases d) of
             None \<Rightarrow> Inl ErrNoRows
           | Some l \<Rightarrow>
               let live = l_connected l \<and> text_or_empty (l_attachment_id l) = attachmentID;
                   d1 = (if live
                         then projectSessionConnection runID ''disconnected'' now
                           (update_leases (\<lambda>l. l_run_id l = runID \<and> l_generation l = gen)
                             (\<lambda>l. l\<lparr>l_connected := False, l_attachment_id := None, l_updated_at := now\<rparr>) d)
                         else d);
                   receipt = session_receipt opID ''disconnect_run_controller'' [] [] (int gen) now
                     (if live then ''disconnected:attachment='' @ attachmentID
                      else ''stale_attachment_ignored'')
               in and_then (recordJournalEntry opID ''disconnect_run_controller'' fp runID [] []
                     ''controller_disconnected'' receipt [] now d1)
                    (\<lambda>d2. Inr (receipt, d2)))))"

end
