(* ===== verification/Store_Sessions.thy ===== *)
theory Store_Sessions
  imports Store_Attachment
begin

text \<open>
  Runs, sessions and their pending prompts, \<open>internal/storage/session_store.go\<close>. Every command
  checks authority, then looks its operation up in the journal (a known operation replays its
  receipt and changes nothing), then checks its preconditions against the rows it read in the
  same transaction, writes, and journals its receipt.
\<close>

definition CreateRun ::
  "string \<Rightarrow> string \<Rightarrow> string \<Rightarrow> string \<Rightarrow> string \<Rightarrow> string \<Rightarrow> time \<Rightarrow> DB \<Rightarrow> store_error + OperationReceipt \<times> DB"
where
  "CreateRun opID runID briefDigest sourceDigest profileDigest controllerLease now d =
     (if blank runID \<or> blank briefDigest \<or> blank sourceDigest \<or> blank profileDigest \<or> blank controllerLease
        then Inl (ErrMsg ''empty run parameter or lease'')
      else let fp = computeFingerprint
            [''create_run'', runID, briefDigest, sourceDigest, profileDigest, controllerLease] in
      and_then (checkOrRecordIdempotency opID ''create_run'' fp d) (\<lambda>replay.
      case replay of Some receipt \<Rightarrow> Inr (receipt, d) | None \<Rightarrow>
      and_then (insert_run
          \<lparr>r_run_id = runID, r_brief_digest = briefDigest, r_source_digest = sourceDigest,
           r_profile_digest = profileDigest, r_controller_lease = controllerLease,
           r_lifecycle = ''active'', r_adopted = False, r_created_at = now, r_updated_at = now\<rparr> d) (\<lambda>d1.
      and_then (insert_lease
          \<lparr>l_run_id = runID, l_generation = 0, l_harness = None,
           l_controller_ref = ''create-run-provenance'', l_lease = controllerLease,
           l_status = ''legacy'', l_granted_by = opID, l_attachment_id = None, l_instance_id = None,
           l_attachment_rev = 0, l_connected = False, l_attached_at = now, l_updated_at = now\<rparr> d1) (\<lambda>d2.
      let d3 = (if sel (\<lambda>f. f_run_id f = runID) (profiles d2) \<noteq> None then d2
                else d2\<lparr>profiles := profiles d2 @
                  [\<lparr>f_run_id = runID, f_profile_digest = profileDigest,
                    f_algorithm_version = ''legacy-unverified'', f_workspace_mode = ''none'',
                    f_isolation_strictness = ''permissive_dev'', f_network_mode = ''unrestricted'',
                    f_canonical_profile_json = [], f_source_repo_identity = ''legacy'',
                    f_source_commit = [], f_source_tree = [], f_brief_artifact_digest = [],
                    f_created_at = now\<rparr>]\<rparr>);
          receipt = session_receipt opID ''create_run'' [] [] 1 now []
      in and_then (recordJournalEntry opID ''create_run'' fp runID [] [] ''run_created'' receipt
            controllerLease now d3)
           (\<lambda>d4. Inr (receipt, d4))))))"

record SessionRecord =
  sr_ID :: string
  sr_RunID :: string
  sr_Contributor :: string
  sr_IsActiveContributor :: bool
  sr_State :: string
  sr_Visibility :: string
  sr_RecoveryGeneration :: nat

definition fmt_bool :: "bool \<Rightarrow> string" where
  "fmt_bool b = (if b then ''true'' else ''false'')"

definition create_session_fingerprint :: "SessionRecord \<Rightarrow> string" where
  "create_session_fingerprint s =
     computeFingerprint [''create_session'', sr_ID s, sr_RunID s, sr_Contributor s,
       fmt_bool (sr_IsActiveContributor s), sr_State s, sr_Visibility s]"

definition run_connected :: "string \<Rightarrow> DB \<Rightarrow> bool" where
  "run_connected runID d = (case active_lease runID d of None \<Rightarrow> False | Some l \<Rightarrow> l_connected l)"

definition new_session_row :: "SessionRecord \<Rightarrow> string \<Rightarrow> time \<Rightarrow> SessionRow" where
  "new_session_row s projection now =
     \<lparr>s_session_id = sr_ID s, s_run_id = sr_RunID s, s_contributor = sr_Contributor s,
      s_is_active = sr_IsActiveContributor s, s_state = sr_State s, s_lifecycle = ''active'',
      s_controller_status = projection, s_visibility = sr_Visibility s, s_active_key = None,
      s_recovery_context = None, s_recovery_gen = sr_RecoveryGeneration s,
      s_active_recovery_gen = sr_RecoveryGeneration s, s_row_version = 1, s_created_at = now,
      s_updated_at = now\<rparr>"

definition CreateSession ::
  "string \<Rightarrow> string \<Rightarrow> SessionRecord \<Rightarrow> time \<Rightarrow> DB \<Rightarrow> store_error + OperationReceipt \<times> DB"
where
  "CreateSession opID callerLease session now d =
     (let fp = create_session_fingerprint session in
      and_then (classifyCredential (sr_RunID session) callerLease False d) (\<lambda>gen.
      and_then (checkOrRecordIdempotency opID ''create_session'' fp d) (\<lambda>replay.
      case replay of Some receipt \<Rightarrow> Inr (receipt, d) | None \<Rightarrow>
      if run_row (sr_RunID session) d = None then Inl ErrNoRows
      else
        let projection = (if run_connected (sr_RunID session) d then ''connected'' else ''disconnected'')
        in and_then (insert_session (new_session_row session projection now) d) (\<lambda>d1.
        let receipt = session_receipt opID ''create_session'' (sr_ID session) [] 1 now []
        in and_then (recordJournalEntry opID ''create_session'' fp (sr_RunID session) (sr_ID session) []
              ''session_created'' receipt callerLease now d1)
             (\<lambda>d2. Inr (receipt, d2))))))"

record PendingPrompt =
  pp_TurnKey :: string
  pp_Prompt :: string
  pp_RequiredTools :: "string list option"

text \<open>The row a session command reads: the session joined with its run.\<close>

definition joined_session :: "string \<Rightarrow> DB \<Rightarrow> SessionRow option" where
  "joined_session sid d =
     (case session_row sid d of None \<Rightarrow> None
      | Some s \<Rightarrow> if run_row (s_run_id s) d = None then None else Some s)"

text \<open>The preconditions on that row shared by the commands on pending prompts.\<close>

definition prompt_preconditions :: "int \<Rightarrow> SessionRow \<Rightarrow> store_error option" where
  "prompt_preconditions expectedVersion s =
     (if s_row_version s \<noteq> expectedVersion then Some ErrStaleUpdate
      else if s_lifecycle s = ''archived'' then Some ErrSessionArchived
      else if s_controller_status s = ''disconnected'' then Some ErrControllerDisconnected
      else None)"

text \<open>
  A Go slice that is nil is \<open>None\<close>; \<open>len(nil)\<close> is 0.
\<close>

definition tools_list :: "string list option \<Rightarrow> string list" where
  "tools_list v = (case v of None \<Rightarrow> [] | Some ts \<Rightarrow> ts)"

definition queue_fingerprint :: "string \<Rightarrow> PendingPrompt \<Rightarrow> string" where
  "queue_fingerprint sessionID prompt =
     computeFingerprint ([''queue_prompt'', sessionID, pp_TurnKey prompt, SanitizeText (pp_Prompt prompt)]
       @ (if tools_list (pp_RequiredTools prompt) = [] then []
          else [marshalStrings (tools_list (pp_RequiredTools prompt))]))"

definition QueuePrompt ::
  "string \<Rightarrow> string \<Rightarrow> string \<Rightarrow> int \<Rightarrow> PendingPrompt \<Rightarrow> time \<Rightarrow> DB \<Rightarrow> store_error + OperationReceipt \<times> DB"
where
  "QueuePrompt opID callerLease sessionID expectedVersion prompt now d =
     (if expectedVersion \<le> 0 then Inl ErrInvalidExpectedVersion
      else if blank (pp_TurnKey prompt) then Inl (ErrMsg ''empty turn key'')
      else if blank (pp_Prompt prompt) then Inl (ErrMsg ''empty prompt'')
      else
        let sanitized = SanitizeText (pp_Prompt prompt);
            tools = marshalStrings (tools_list (pp_RequiredTools prompt));
            fp = queue_fingerprint sessionID prompt;
            k = pp_TurnKey prompt
        in and_then (authorizeSessionController sessionID callerLease True d) (\<lambda>gen.
      and_then (checkOrRecordIdempotency opID ''queue_prompt'' fp d) (\<lambda>replay.
      case replay of Some receipt \<Rightarrow> Inr (receipt, d) | None \<Rightarrow>
      case requireRunConnected (runIDOfSession sessionID d) d of Some e \<Rightarrow> Inl e | None \<Rightarrow>
      case joined_session sessionID d of None \<Rightarrow> Inl ErrNoRows | Some s \<Rightarrow>
      case prompt_preconditions expectedVersion s of Some e \<Rightarrow> Inl e | None \<Rightarrow>
      if s_active_key s = Some k then Inl (ErrMsg ''key already active'')
      else case turn_row sessionID k d of
        Some t \<Rightarrow> if t_prompt t \<noteq> sanitized
          then Inl (ErrMsg ''retired turn identifier cannot be reused with different content'')
          else Inl ErrTurnAlreadyExists
      | None \<Rightarrow>
      (case pending_row sessionID k d of
        Some p \<Rightarrow>
          if p_prompt p = sanitized \<and> p_required_tools_json p = tools then
            let receipt = session_receipt opID ''queue_prompt'' sessionID k (s_row_version s) now sanitized
            in and_then (recordJournalEntry opID ''queue_prompt'' fp (s_run_id s) sessionID k
                  ''prompt_identical_noop'' receipt callerLease now d)
                 (\<lambda>d1. Inr (receipt, d1))
          else Inl (ErrMsg ''duplicate pending key with different content'')
      | None \<Rightarrow>
          and_then (insert_pending \<lparr>p_session_id = sessionID, p_turn_key = k, p_prompt = sanitized,
              p_queued_at = now, p_required_tools_json = tools\<rparr> d) (\<lambda>d1.
          let ver = s_row_version s + 1 in
          and_then (update_session sessionID (bump ver now) d1) (\<lambda>d2.
          let receipt = session_receipt opID ''queue_prompt'' sessionID k ver now sanitized
          in and_then (recordJournalEntry opID ''queue_prompt'' fp (s_run_id s) sessionID k
                ''prompt_queued'' receipt callerLease now d2)
               (\<lambda>d3. Inr (receipt, d3))))))))"

definition replace_fingerprint :: "string \<Rightarrow> PendingPrompt \<Rightarrow> string" where
  "replace_fingerprint sessionID prompt =
     computeFingerprint ([''replace_pending_prompt'', sessionID, pp_TurnKey prompt, SanitizeText (pp_Prompt prompt)]
       @ (case pp_RequiredTools prompt of None \<Rightarrow> [] | Some ts \<Rightarrow> [marshalStrings ts]))"

text \<open>A stated tool set must be the one the prompt was queued with.\<close>

definition replace_tools_check :: "string \<Rightarrow> PendingPrompt \<Rightarrow> DB \<Rightarrow> store_error option" where
  "replace_tools_check sessionID prompt d =
     (case pp_RequiredTools prompt of None \<Rightarrow> None
      | Some ts \<Rightarrow>
          (case pending_row sessionID (pp_TurnKey prompt) d of
             None \<Rightarrow> Some ErrPromptNotQueued
           | Some p \<Rightarrow> if p_required_tools_json p \<noteq> marshalStrings ts then Some ErrRequiredToolsImmutable
                       else None))"

definition ReplacePendingPrompt ::
  "string \<Rightarrow> string \<Rightarrow> string \<Rightarrow> int \<Rightarrow> PendingPrompt \<Rightarrow> time \<Rightarrow> DB \<Rightarrow> store_error + OperationReceipt \<times> DB"
where
  "ReplacePendingPrompt opID callerLease sessionID expectedVersion prompt now d =
     (if expectedVersion \<le> 0 then Inl ErrInvalidExpectedVersion
      else if blank (pp_TurnKey prompt) then Inl (ErrMsg ''empty turn key'')
      else if blank (pp_Prompt prompt) then Inl (ErrMsg ''empty prompt'')
      else
        let sanitized = SanitizeText (pp_Prompt prompt);
            fp = replace_fingerprint sessionID prompt;
            k = pp_TurnKey prompt
        in and_then (authorizeSessionController sessionID callerLease True d) (\<lambda>gen.
      and_then (checkOrRecordIdempotency opID ''replace_pending_prompt'' fp d) (\<lambda>replay.
      case replay of Some receipt \<Rightarrow> Inr (receipt, d) | None \<Rightarrow>
      case requireRunConnected (runIDOfSession sessionID d) d of Some e \<Rightarrow> Inl e | None \<Rightarrow>
      case joined_session sessionID d of None \<Rightarrow> Inl ErrNoRows | Some s \<Rightarrow>
      case prompt_preconditions expectedVersion s of Some e \<Rightarrow> Inl e | None \<Rightarrow>
      case replace_tools_check sessionID prompt d of Some e \<Rightarrow> Inl e | None \<Rightarrow>
      if pending_row sessionID k d = None then Inl ErrPromptNotQueued
      else
        let d1 = d\<lparr>pending := upd (is_pending sessionID k)
                (\<lambda>p. p\<lparr>p_prompt := sanitized, p_queued_at := now\<rparr>) (pending d)\<rparr>;
            ver = s_row_version s + 1
        in and_then (update_session sessionID (bump ver now) d1) (\<lambda>d2.
        let receipt = session_receipt opID ''replace_pending_prompt'' sessionID k ver now sanitized
        in and_then (recordJournalEntry opID ''replace_pending_prompt'' fp (s_run_id s) sessionID k
              ''pending_prompt_replaced'' receipt callerLease now d2)
             (\<lambda>d3. Inr (receipt, d3))))))"

definition discard_fingerprint :: "string \<Rightarrow> string \<Rightarrow> string" where
  "discard_fingerprint sessionID turnKey = computeFingerprint [''discard_pending_prompt'', sessionID, turnKey]"

definition DiscardPendingPrompt ::
  "string \<Rightarrow> string \<Rightarrow> string \<Rightarrow> int \<Rightarrow> string \<Rightarrow> time \<Rightarrow> DB \<Rightarrow> store_error + OperationReceipt \<times> DB"
where
  "DiscardPendingPrompt opID callerLease sessionID expectedVersion turnKey now d =
     (if expectedVersion \<le> 0 then Inl ErrInvalidExpectedVersion
      else if blank turnKey then Inl (ErrMsg ''empty turn key'')
      else
        let fp = discard_fingerprint sessionID turnKey
        in and_then (authorizeSessionController sessionID callerLease True d) (\<lambda>gen.
      and_then (checkOrRecordIdempotency opID ''discard_pending_prompt'' fp d) (\<lambda>replay.
      case replay of Some receipt \<Rightarrow> Inr (receipt, d) | None \<Rightarrow>
      case requireRunConnected (runIDOfSession sessionID d) d of Some e \<Rightarrow> Inl e | None \<Rightarrow>
      case joined_session sessionID d of None \<Rightarrow> Inl ErrNoRows | Some s \<Rightarrow>
      case prompt_preconditions expectedVersion s of Some e \<Rightarrow> Inl e | None \<Rightarrow>
      if pending_row sessionID turnKey d = None then Inl ErrPromptNotQueued
      else
        let d1 = d\<lparr>pending := del (is_pending sessionID turnKey) (pending d)\<rparr>;
            ver = s_row_version s + 1
        in and_then (update_session sessionID (bump ver now) d1) (\<lambda>d2.
        let receipt = session_receipt opID ''discard_pending_prompt'' sessionID turnKey ver now []
        in and_then (recordJournalEntry opID ''discard_pending_prompt'' fp (s_run_id s) sessionID turnKey
              ''pending_prompt_discarded'' receipt callerLease now d2)
             (\<lambda>d3. Inr (receipt, d3))))))"

end
