(* ===== verification/Store_Outcomes.thy ===== *)
theory Store_Outcomes
  imports Store_Sessions
begin

text \<open>
  Evidence about accepted executions, \<open>internal/storage/execution_outcomes.go\<close>. These
  operations are authorized by the complete persisted execution identity (session, turn,
  attempt), never by a controller lease, so that an outcome can be recorded after the issuing
  controller is gone.
\<close>

record ExecutionRef =
  er_SessionID :: string
  er_TurnKey :: string
  er_AttemptID :: string

definition ExecutionRef_validate :: "ExecutionRef \<Rightarrow> store_error option" where
  "ExecutionRef_validate r =
     (if blank (er_SessionID r) \<or> blank (er_TurnKey r) \<or> blank (er_AttemptID r)
      then Some (ErrMsg ''execution reference requires session, turn, and attempt identity'')
      else None)"

definition ExecutionRefForTurn :: "string \<Rightarrow> string \<Rightarrow> DB \<Rightarrow> ExecutionRef" where
  "ExecutionRefForTurn sessionID turnKey d =
     (case intent_row sessionID turnKey d of
        None \<Rightarrow> \<lparr>er_SessionID = [], er_TurnKey = [], er_AttemptID = []\<rparr>
      | Some i \<Rightarrow> if i_attempt_id i = [] then \<lparr>er_SessionID = [], er_TurnKey = [], er_AttemptID = []\<rparr>
          else \<lparr>er_SessionID = sessionID, er_TurnKey = turnKey, er_AttemptID = i_attempt_id i\<rparr>)"

definition resolveExecutionRef :: "ExecutionRef \<Rightarrow> DB \<Rightarrow> store_error + nat" where
  "resolveExecutionRef r d =
     (case ExecutionRef_validate r of Some e \<Rightarrow> Inl e | None \<Rightarrow>
      case intent_row (er_SessionID r) (er_TurnKey r) d of
        None \<Rightarrow> Inl (ErrMsg ''no accepted execution'')
      | Some i \<Rightarrow> if i_attempt_id i \<noteq> er_AttemptID r then Inl ErrWrongExecutionAttempt
                  else Inr (i_issuing_generation i))"

definition currentSessionVersion :: "string \<Rightarrow> DB \<Rightarrow> int" where
  "currentSessionVersion sid d = (case session_row sid d of None \<Rightarrow> 0 | Some s \<Rightarrow> s_row_version s)"

text \<open>The column value of a terminal status; any other status is refused.\<close>

definition terminal_text :: "TurnStatus \<Rightarrow> string option" where
  "terminal_text st =
     (case st of
        TurnCompleted \<Rightarrow> Some ''completed''
      | TurnCancelled \<Rightarrow> Some ''cancelled''
      | TurnFailed \<Rightarrow> Some ''failed''
      | TurnInterrupted \<Rightarrow> Some ''interrupted''
      | _ \<Rightarrow> None)"

definition isTerminal :: "string \<Rightarrow> bool" where
  "isTerminal s \<longleftrightarrow> s = ''completed'' \<or> s = ''cancelled'' \<or> s = ''failed'' \<or> s = ''interrupted''"

text \<open>
  Which turn an outcome may end: the active one; on a lost host also the one the recovery
  episode is about.
\<close>

definition outcome_matches :: "string \<Rightarrow> SessionRow \<Rightarrow> bool" where
  "outcome_matches k s =
     (if s_visibility s = ''host_lost'' then s_active_key s = Some k \<or> s_recovery_context s = Some k
      else s_state s = ''running'' \<and> s_active_key s = Some k)"

text \<open>
  The three updates that end a turn: the turn, its dispatch intent, and the session, which is
  parked and on a lost host keeps the recovery context.
\<close>

definition end_turn :: "string \<Rightarrow> string \<Rightarrow> string \<Rightarrow> string \<Rightarrow> SessionRow \<Rightarrow> time \<Rightarrow> DB \<Rightarrow> store_error + DB" where
  "end_turn sid k statusStr result s now d =
     (let d1 = update_turn sid k
            (\<lambda>t. t\<lparr>t_status := statusStr, t_result := result, t_completed_at := Some now\<rparr>) d;
          d2 = update_intent sid k (\<lambda>i. i\<lparr>i_phase := ''resolved'', i_updated_at := now\<rparr>) d1
      in update_session sid
           (\<lambda>x. bump (s_row_version s + 1) now
             (if s_visibility s = ''host_lost''
              then x\<lparr>s_active_key := None, s_state := ''parked'', s_recovery_context := Some k\<rparr>
              else x\<lparr>s_active_key := None, s_state := ''parked''\<rparr>)) d2)"

definition outcome_fingerprint :: "ExecutionRef \<Rightarrow> string \<Rightarrow> string \<Rightarrow> string" where
  "outcome_fingerprint r statusStr result =
     computeFingerprint [''record_observed_execution_outcome'', er_SessionID r, er_TurnKey r,
       er_AttemptID r, statusStr, result]"

definition RecordObservedExecutionOutcome ::
  "string \<Rightarrow> ExecutionRef \<Rightarrow> TurnStatus \<Rightarrow> string \<Rightarrow> time \<Rightarrow> DB \<Rightarrow> store_error + OperationReceipt \<times> DB"
where
  "RecordObservedExecutionOutcome opID r terminalStatus rawResult now d =
     (if blank opID then Inl (ErrMsg ''empty operation id'')
      else case terminal_text terminalStatus of
        None \<Rightarrow> Inl (ErrMsg ''invalid terminal status'')
      | Some statusStr \<Rightarrow>
        let result = SanitizeText rawResult;
            fp = outcome_fingerprint r statusStr result;
            sid = er_SessionID r; k = er_TurnKey r
        in and_then (resolveExecutionRef r d) (\<lambda>issuingGeneration.
      and_then (checkOrRecordIdempotency opID ''record_observed_execution_outcome'' fp d) (\<lambda>replay.
      case replay of Some receipt \<Rightarrow> Inr (receipt, d) | None \<Rightarrow>
      case session_row sid d of None \<Rightarrow> Inl ErrNoRows | Some s \<Rightarrow>
      if s_lifecycle s = ''archived'' then Inl ErrSessionArchived
      else case turn_row sid k d of None \<Rightarrow> Inl (ErrMsg ''turn not found'') | Some t \<Rightarrow>
      if isTerminal (t_status t) then
        (if t_status t = statusStr \<and> t_result t = result then
           let receipt = session_receipt opID ''record_observed_execution_outcome'' sid k
                 (s_row_version s) now (statusStr @ '':duplicate'')
           in and_then (recordJournalEntry opID ''record_observed_execution_outcome'' fp (s_run_id s) sid k
                 (''turn_'' @ statusStr @ ''_duplicate'') receipt [] now d)
                (\<lambda>d1. Inr (receipt, d1))
         else Inl ErrConflictingTerminalOutcome)
      else if \<not> outcome_matches k s then Inl (ErrMsg ''observed outcome does not match active turn'')
      else
        and_then (end_turn sid k statusStr result s now d) (\<lambda>d1.
        let receipt = session_receipt opID ''record_observed_execution_outcome'' sid k
              (s_row_version s + 1) now
              (statusStr @ '':issued_by_generation='' @ fmt_d (int issuingGeneration))
        in and_then (recordJournalEntry opID ''record_observed_execution_outcome'' fp (s_run_id s) sid k
              (''turn_'' @ statusStr @ ''_observed'') receipt [] now d1)
             (\<lambda>d2. Inr (receipt, d2))))))"

definition acknowledgement_fingerprint :: "ExecutionRef \<Rightarrow> string \<Rightarrow> string" where
  "acknowledgement_fingerprint r phase =
     computeFingerprint [''record_dispatch_observation'', er_SessionID r, er_TurnKey r, er_AttemptID r, phase]"

definition RecordObservedDispatchAcknowledgement ::
  "string \<Rightarrow> ExecutionRef \<Rightarrow> string \<Rightarrow> time \<Rightarrow> DB \<Rightarrow> store_error + OperationReceipt \<times> DB"
where
  "RecordObservedDispatchAcknowledgement opID r phase now d =
     (if phase \<noteq> ''receipt_acknowledged'' \<and> phase \<noteq> ''acceptance_unknown''
        then Inl (ErrMsg ''invalid dispatch observation phase'')
      else if blank opID then Inl (ErrMsg ''empty operation id'')
      else
        let fp = acknowledgement_fingerprint r phase;
            sid = er_SessionID r; k = er_TurnKey r
        in and_then (resolveExecutionRef r d) (\<lambda>issuingGeneration.
      and_then (checkOrRecordIdempotency opID ''record_dispatch_observation'' fp d) (\<lambda>replay.
      case replay of Some receipt \<Rightarrow> Inr (receipt, d) | None \<Rightarrow>
      case session_row sid d of None \<Rightarrow> Inl ErrNoRows | Some s \<Rightarrow>
      case intent_row sid k d of None \<Rightarrow> Inl ErrNoRows | Some i \<Rightarrow>
      if i_phase i = ''resolved'' then Inl (ErrMsg ''dispatch intent already resolved'')
      else
        let d1 = update_intent sid k (\<lambda>i. i\<lparr>i_phase := phase, i_updated_at := now\<rparr>) d;
            ver = currentSessionVersion sid d1 + 1
        in and_then (update_session sid (\<lambda>s. bump (s_row_version s + 1) now s) d1) (\<lambda>d2.
        let receipt = session_receipt opID ''record_dispatch_observation'' sid k ver now
              (phase @ '':issued_by_generation='' @ fmt_d (int issuingGeneration))
        in and_then (recordJournalEntry opID ''record_dispatch_observation'' fp (s_run_id s) sid k
              ''dispatch_observed'' receipt [] now d2)
             (\<lambda>d3. Inr (receipt, d3))))))"

end
