(* ===== verification/Store_Transitions.thy ===== *)
theory Store_Transitions
  imports Store_Outcomes
begin

text \<open>
  The session transitions, \<open>internal/storage/transitions.go\<close>: release of a queued prompt into a
  turn, cancellation, terminal outcomes, host loss and its reconciliation, connection and
  archive, controller decisions, and the reads that replay a committed receipt.
\<close>

section \<open>Release\<close>

datatype ReleaseDisposition = ReleaseDispositionNew | ReleaseDispositionReplayed

record ReleaseResult =
  rl_Receipt :: ReleaseReceipt
  rl_Disposition :: ReleaseDisposition

definition release_fingerprint :: "string \<Rightarrow> string \<Rightarrow> string" where
  "release_fingerprint sessionID turnKey = computeFingerprint [''release_turn'', sessionID, turnKey]"

text \<open>A decoded release receipt, its hidden turn key restored from the outer one.\<close>

definition restored_release :: "payload \<Rightarrow> ReleaseReceipt" where
  "restored_release p =
     (let r = decode_release p in
      r\<lparr>rr_Operation := (rr_Operation r)\<lparr>or_TurnKey :=
        (if or_TurnKey (rr_Operation r) = [] then rr_TurnKey r else or_TurnKey (rr_Operation r))\<rparr>\<rparr>)"

definition FindCommittedRelease ::
  "string \<Rightarrow> string \<Rightarrow> string \<Rightarrow> string \<Rightarrow> DB \<Rightarrow> store_error + ReleaseReceipt option"
where
  "FindCommittedRelease opID callerLease sessionID turnKey d =
     and_then (authorizeSessionController sessionID callerLease True d) (\<lambda>gen.
       case journal_row opID d of
         None \<Rightarrow> Inr None
       | Some j \<Rightarrow>
           if rr_TurnKey (decode_release (j_payload j)) = [] then Inr None
           else if j_command_type j \<noteq> ''release_turn'' \<or> j_fingerprint j \<noteq> release_fingerprint sessionID turnKey
             then Inl ErrIdempotencyConflict
           else Inr (Some (restored_release (j_payload j))))"

text \<open>The receipt a release replays, if its operation is in the journal.\<close>

definition release_replay :: "string \<Rightarrow> string \<Rightarrow> DB \<Rightarrow> store_error + ReleaseReceipt option" where
  "release_replay opID fp d =
     (case journal_row opID d of
        None \<Rightarrow> Inr None
      | Some j \<Rightarrow>
          if rr_TurnKey (decode_release (j_payload j)) = [] then Inr None
          else if j_command_type j \<noteq> ''release_turn'' \<or> j_fingerprint j \<noteq> fp then Inl ErrIdempotencyConflict
          else Inr (Some (restored_release (j_payload j))))"

definition release_preconditions :: "int \<Rightarrow> SessionRow \<Rightarrow> store_error option" where
  "release_preconditions expectedVersion s =
     (if s_row_version s \<noteq> expectedVersion then Some ErrStaleUpdate
      else if s_lifecycle s = ''archived'' then Some ErrSessionArchived
      else if s_controller_status s = ''disconnected'' then Some ErrControllerDisconnected
      else if s_visibility s = ''host_lost'' then Some ErrHostLost
      else if s_state s \<noteq> ''parked'' \<or> text_or_empty (s_active_key s) \<noteq> []
        then Some (ErrMsg ''session is not parked or already has active turn'')
      else None)"

definition attempt_id :: "int \<Rightarrow> string \<Rightarrow> string" where
  "attempt_id ver turnKey = ''att_'' @ fmt_d ver @ ''_'' @ turnKey"

text \<open>The four statements of a release: the pending row goes, the turn and its intent come, the
  session runs.\<close>

definition release_effect ::
  "string \<Rightarrow> string \<Rightarrow> PendingRow \<Rightarrow> SessionRow \<Rightarrow> nat \<Rightarrow> time \<Rightarrow> DB \<Rightarrow> store_error + DB"
where
  "release_effect sid k p s issuingGeneration now d =
     (let ver = s_row_version s + 1; attempt = attempt_id ver k;
          d1 = d\<lparr>pending := del (is_pending sid k) (pending d)\<rparr>
      in and_then (insert_turn \<lparr>t_session_id = sid, t_turn_key = k, t_prompt = SanitizeText (p_prompt p),
           t_status = ''running'', t_result = [], t_attempt_id = attempt, t_created_at = now,
           t_completed_at = None\<rparr> d1) (\<lambda>d2.
      and_then (insert_intent \<lparr>i_session_id = sid, i_turn_key = k, i_attempt_id = attempt,
           i_phase = ''intent_recorded'', i_required_tools_json = p_required_tools_json p,
           i_issuing_generation = issuingGeneration, i_recorded_at = now, i_updated_at = now\<rparr> d2) (\<lambda>d3.
      update_session sid (\<lambda>x. bump ver now (x\<lparr>s_active_key := Some k, s_state := ''running''\<rparr>)) d3)))"

definition ReleaseTurn ::
  "string \<Rightarrow> string \<Rightarrow> string \<Rightarrow> int \<Rightarrow> string \<Rightarrow> time \<Rightarrow> DB \<Rightarrow> store_error + ReleaseResult \<times> DB"
where
  "ReleaseTurn opID callerLease sessionID expectedVersion turnKey now d =
     (if expectedVersion \<le> 0 then Inl ErrInvalidExpectedVersion
      else if blank turnKey then Inl (ErrMsg ''empty turn key'')
      else let fp = release_fingerprint sessionID turnKey in
      and_then (authorizeSessionController sessionID callerLease True d) (\<lambda>issuingGeneration.
      and_then (release_replay opID fp d) (\<lambda>replay.
      case replay of
        Some receipt \<Rightarrow> Inr (\<lparr>rl_Receipt = receipt, rl_Disposition = ReleaseDispositionReplayed\<rparr>, d)
      | None \<Rightarrow>
      case requireRunConnected (runIDOfSession sessionID d) d of Some e \<Rightarrow> Inl e | None \<Rightarrow>
      case joined_session sessionID d of None \<Rightarrow> Inl ErrNoRows | Some s \<Rightarrow>
      case release_preconditions expectedVersion s of Some e \<Rightarrow> Inl e | None \<Rightarrow>
      case pending_row sessionID turnKey d of None \<Rightarrow> Inl ErrPromptNotQueued | Some p \<Rightarrow>
      and_then (release_effect sessionID turnKey p s issuingGeneration now d) (\<lambda>d1.
      let ver = s_row_version s + 1;
          prompt = SanitizeText (p_prompt p);
          receipt = \<lparr>rr_Operation = session_receipt opID ''release_turn'' sessionID turnKey ver now prompt,
             rr_SanitizedPrompt = prompt, rr_TurnKey = turnKey, rr_AttemptID = attempt_id ver turnKey\<rparr>
      in and_then (insert_journal
           \<lparr>j_op_id = opID, j_command_type = ''release_turn'', j_fingerprint = fp,
            j_run_id = s_run_id s, j_session_id = Some sessionID, j_turn_key = Some turnKey,
            j_event_kind = ''turn_released'', j_payload = PayRelease callerLease receipt,
            j_created_at = now\<rparr> d1)
         (\<lambda>d2. Inr (\<lparr>rl_Receipt = receipt, rl_Disposition = ReleaseDispositionNew\<rparr>, d2))))))"

section \<open>Cancellation and terminal outcomes\<close>

definition cancel_fingerprint :: "string \<Rightarrow> string \<Rightarrow> string" where
  "cancel_fingerprint sessionID turnKey = computeFingerprint [''request_cancel'', sessionID, turnKey]"

definition StoreRequestCancel ::
  "string \<Rightarrow> string \<Rightarrow> string \<Rightarrow> int \<Rightarrow> string \<Rightarrow> time \<Rightarrow> DB \<Rightarrow> store_error + OperationReceipt \<times> DB"
where
  "StoreRequestCancel opID callerLease sessionID expectedVersion turnKey now d =
     (if expectedVersion \<le> 0 then Inl ErrInvalidExpectedVersion
      else if blank turnKey then Inl (ErrMsg ''empty turn key'')
      else let fp = cancel_fingerprint sessionID turnKey in
      and_then (authorizeSessionController sessionID callerLease True d) (\<lambda>gen.
      and_then (checkOrRecordIdempotency opID ''request_cancel'' fp d) (\<lambda>replay.
      case replay of Some receipt \<Rightarrow> Inr (receipt, d) | None \<Rightarrow>
      case requireRunConnected (runIDOfSession sessionID d) d of Some e \<Rightarrow> Inl e | None \<Rightarrow>
      case joined_session sessionID d of None \<Rightarrow> Inl ErrNoRows | Some s \<Rightarrow>
      case prompt_preconditions expectedVersion s of Some e \<Rightarrow> Inl e | None \<Rightarrow>
      if s_state s \<noteq> ''running'' \<or> s_active_key s \<noteq> Some turnKey
        then Inl (ErrMsg ''no active running turn to cancel'')
      else case turn_row sessionID turnKey d of None \<Rightarrow> Inl ErrNoRows | Some t \<Rightarrow>
      if t_status t = ''cancelling'' then
        let receipt = session_receipt opID ''request_cancel'' sessionID turnKey (s_row_version s) now ''cancelling''
        in and_then (recordJournalEntry opID ''request_cancel'' fp (s_run_id s) sessionID turnKey
              ''cancel_noop'' receipt callerLease now d)
             (\<lambda>d1. Inr (receipt, d1))
      else if t_status t \<noteq> ''running'' then Inl (ErrMsg ''turn cannot be cancelled in its status'')
      else
        let d1 = update_turn sessionID turnKey (\<lambda>t. t\<lparr>t_status := ''cancelling''\<rparr>) d;
            ver = s_row_version s + 1
        in and_then (update_session sessionID (bump ver now) d1) (\<lambda>d2.
        let receipt = session_receipt opID ''request_cancel'' sessionID turnKey ver now ''cancelling''
        in and_then (recordJournalEntry opID ''request_cancel'' fp (s_run_id s) sessionID turnKey
              ''cancel_requested'' receipt callerLease now d2)
             (\<lambda>d3. Inr (receipt, d3))))))"

definition terminal_fingerprint :: "string \<Rightarrow> string \<Rightarrow> string \<Rightarrow> string \<Rightarrow> string" where
  "terminal_fingerprint sessionID turnKey statusStr result =
     computeFingerprint [''record_terminal_outcome'', sessionID, turnKey, statusStr, result]"

definition RecordTerminalOutcome ::
  "string \<Rightarrow> string \<Rightarrow> string \<Rightarrow> int \<Rightarrow> string \<Rightarrow> TurnStatus \<Rightarrow> string \<Rightarrow> time \<Rightarrow> DB
   \<Rightarrow> store_error + OperationReceipt \<times> DB"
where
  "RecordTerminalOutcome opID callerLease sessionID expectedVersion turnKey terminalStatus rawResult now d =
     (if expectedVersion \<le> 0 then Inl ErrInvalidExpectedVersion
      else if blank turnKey then Inl (ErrMsg ''empty turn key'')
      else case terminal_text terminalStatus of
        None \<Rightarrow> Inl (ErrMsg ''invalid terminal status'')
      | Some statusStr \<Rightarrow>
        let result = SanitizeText rawResult;
            fp = terminal_fingerprint sessionID turnKey statusStr result
        in and_then (authorizeSessionController sessionID callerLease True d) (\<lambda>gen.
      and_then (checkOrRecordIdempotency opID ''record_terminal_outcome'' fp d) (\<lambda>replay.
      case replay of Some receipt \<Rightarrow> Inr (receipt, d) | None \<Rightarrow>
      case joined_session sessionID d of None \<Rightarrow> Inl ErrNoRows | Some s \<Rightarrow>
      if s_row_version s \<noteq> expectedVersion then Inl ErrStaleUpdate
      else if s_lifecycle s = ''archived'' then Inl ErrSessionArchived
      else case turn_row sessionID turnKey d of None \<Rightarrow> Inl (ErrMsg ''turn not found'') | Some t \<Rightarrow>
      if isTerminal (t_status t) then
        (if t_status t = statusStr \<and> t_result t = result then
           let receipt = session_receipt opID ''record_terminal_outcome'' sessionID turnKey
                 (s_row_version s) now statusStr
           in and_then (recordJournalEntry opID ''record_terminal_outcome'' fp (s_run_id s) sessionID turnKey
                 (''turn_'' @ statusStr @ ''_duplicate'') receipt callerLease now d)
                (\<lambda>d1. Inr (receipt, d1))
         else Inl ErrConflictingTerminalOutcome)
      else if \<not> outcome_matches turnKey s then Inl (ErrMsg ''terminal outcome does not match active turn'')
      else
        and_then (end_turn sessionID turnKey statusStr result s now d) (\<lambda>d1.
        let receipt = session_receipt opID ''record_terminal_outcome'' sessionID turnKey
              (s_row_version s + 1) now statusStr
        in and_then (recordJournalEntry opID ''record_terminal_outcome'' fp (s_run_id s) sessionID turnKey
              (''turn_'' @ statusStr) receipt callerLease now d1)
             (\<lambda>d2. Inr (receipt, d2))))))"

section \<open>Host loss\<close>

definition host_loss_fingerprint :: "string \<Rightarrow> string" where
  "host_loss_fingerprint sessionID = computeFingerprint [''record_host_loss'', sessionID]"

definition StoreRecordHostLoss ::
  "string \<Rightarrow> string \<Rightarrow> string \<Rightarrow> int \<Rightarrow> time \<Rightarrow> DB \<Rightarrow> store_error + OperationReceipt \<times> DB"
where
  "StoreRecordHostLoss opID callerLease sessionID expectedVersion now d =
     (if expectedVersion \<le> 0 then Inl ErrInvalidExpectedVersion
      else let fp = host_loss_fingerprint sessionID in
      and_then (authorizeSessionController sessionID callerLease True d) (\<lambda>gen.
      and_then (checkOrRecordIdempotency opID ''record_host_loss'' fp d) (\<lambda>replay.
      case replay of Some receipt \<Rightarrow> Inr (receipt, d) | None \<Rightarrow>
      case joined_session sessionID d of None \<Rightarrow> Inl ErrNoRows | Some s \<Rightarrow>
      if s_row_version s \<noteq> expectedVersion then Inl ErrStaleUpdate
      else if s_lifecycle s = ''archived'' then Inl ErrSessionArchived
      else
        let k = text_or_empty (s_active_key s) in
        if s_visibility s = ''host_lost'' then
          let receipt = session_receipt opID ''record_host_loss'' sessionID k (s_row_version s) now
                (fmt_d (int (s_active_recovery_gen s)))
          in and_then (recordJournalEntry opID ''record_host_loss'' fp (s_run_id s) sessionID k
                ''host_loss_noop'' receipt callerLease now d)
               (\<lambda>d1. Inr (receipt, d1))
        else if s_state s \<noteq> ''running'' \<or> k = []
          then Inl (ErrMsg ''cannot record host loss on inactive session'')
        else
          let newGen = s_recovery_gen s + 1; ver = s_row_version s + 1 in
          and_then (update_session sessionID (\<lambda>x. bump ver now
              (x\<lparr>s_recovery_gen := newGen, s_active_recovery_gen := newGen, s_visibility := ''host_lost'',
                 s_recovery_context := Some k\<rparr>)) d) (\<lambda>d1.
          let receipt = session_receipt opID ''record_host_loss'' sessionID k ver now (fmt_d (int newGen))
          in and_then (recordJournalEntry opID ''record_host_loss'' fp (s_run_id s) sessionID k
                ''host_loss_recorded'' receipt callerLease now d1)
               (\<lambda>d2. Inr (receipt, d2))))))"

section \<open>Dispatch observations, connection, archive, decisions\<close>

definition observation_fingerprint :: "string \<Rightarrow> string \<Rightarrow> string \<Rightarrow> string" where
  "observation_fingerprint sessionID turnKey phase =
     computeFingerprint [''record_dispatch_observation'', sessionID, turnKey, phase]"

definition RecordDispatchObservation ::
  "string \<Rightarrow> string \<Rightarrow> string \<Rightarrow> string \<Rightarrow> string \<Rightarrow> time \<Rightarrow> DB \<Rightarrow> store_error + OperationReceipt \<times> DB"
where
  "RecordDispatchObservation opID callerLease sessionID turnKey phase now d =
     (let fp = observation_fingerprint sessionID turnKey phase in
      and_then (checkOrRecordIdempotency opID ''record_dispatch_observation'' fp d) (\<lambda>replay.
      case replay of Some receipt \<Rightarrow> Inr (receipt, d) | None \<Rightarrow>
      case joined_session sessionID d of None \<Rightarrow> Inl ErrNoRows | Some s \<Rightarrow>
      case run_row (s_run_id s) d of None \<Rightarrow> Inl ErrNoRows | Some r \<Rightarrow>
      if r_controller_lease r \<noteq> callerLease then Inl ErrUnauthorizedOperation
      else case intent_row sessionID turnKey d of None \<Rightarrow> Inl ErrNoRows | Some i \<Rightarrow>
      if phase \<noteq> ''receipt_acknowledged'' \<and> phase \<noteq> ''acceptance_unknown''
        then Inl (ErrMsg ''invalid dispatch observation phase'')
      else if i_phase i = ''resolved'' then
        let receipt = session_receipt opID ''record_dispatch_observation'' sessionID turnKey
              (s_row_version s) now ''late_observation_ignored''
        in and_then (recordJournalEntry opID ''record_dispatch_observation'' fp (s_run_id s) sessionID
              turnKey ''dispatch_late_observation_ignored'' receipt callerLease now d)
             (\<lambda>d1. Inr (receipt, d1))
      else if i_phase i = phase then
        let receipt = session_receipt opID ''record_dispatch_observation'' sessionID turnKey
              (s_row_version s) now phase
        in and_then (recordJournalEntry opID ''record_dispatch_observation'' fp (s_run_id s) sessionID
              turnKey ''dispatch_observation_noop'' receipt callerLease now d)
             (\<lambda>d1. Inr (receipt, d1))
      else
        let d1 = update_intent sessionID turnKey (\<lambda>i. i\<lparr>i_phase := phase, i_updated_at := now\<rparr>) d;
            ver = s_row_version s + 1
        in and_then (update_session sessionID (bump ver now) d1) (\<lambda>d2.
        let receipt = session_receipt opID ''record_dispatch_observation'' sessionID turnKey ver now phase
        in and_then (recordJournalEntry opID ''record_dispatch_observation'' fp (s_run_id s) sessionID
              turnKey ''dispatch_observed'' receipt callerLease now d2)
             (\<lambda>d3. Inr (receipt, d3)))))"

definition connection_text :: "ControllerConnection \<Rightarrow> string" where
  "connection_text c = (case c of ControllerConnected \<Rightarrow> ''connected'' | ControllerDisconnected \<Rightarrow> ''disconnected'')"

definition connection_fingerprint :: "string \<Rightarrow> ControllerConnection \<Rightarrow> string" where
  "connection_fingerprint sessionID status =
     computeFingerprint [''set_controller_connection'', sessionID, connection_text status]"

definition SetControllerConnection ::
  "string \<Rightarrow> string \<Rightarrow> string \<Rightarrow> int \<Rightarrow> ControllerConnection \<Rightarrow> time \<Rightarrow> DB
   \<Rightarrow> store_error + OperationReceipt \<times> DB"
where
  "SetControllerConnection opID callerLease sessionID expectedVersion status now d =
     (if expectedVersion \<le> 0 then Inl ErrInvalidExpectedVersion
      else let fp = connection_fingerprint sessionID status; text = connection_text status in
      and_then (authorizeSessionController sessionID callerLease True d) (\<lambda>gen.
      and_then (checkOrRecordIdempotency opID ''set_controller_connection'' fp d) (\<lambda>replay.
      case replay of Some receipt \<Rightarrow> Inr (receipt, d) | None \<Rightarrow>
      case joined_session sessionID d of None \<Rightarrow> Inl ErrNoRows | Some s \<Rightarrow>
      if s_row_version s \<noteq> expectedVersion then Inl ErrStaleUpdate
      else if s_lifecycle s = ''archived'' then Inl ErrSessionArchived
      else if s_controller_status s = text then
        let receipt = session_receipt opID ''set_controller_connection'' sessionID [] (s_row_version s) now text
        in and_then (recordJournalEntry opID ''set_controller_connection'' fp (s_run_id s) sessionID []
              ''connection_noop'' receipt callerLease now d)
             (\<lambda>d1. Inr (receipt, d1))
      else
        let ver = s_row_version s + 1 in
        and_then (update_session sessionID (\<lambda>x. bump ver now (x\<lparr>s_controller_status := text\<rparr>)) d) (\<lambda>d1.
        let receipt = session_receipt opID ''set_controller_connection'' sessionID [] ver now text
        in and_then (recordJournalEntry opID ''set_controller_connection'' fp (s_run_id s) sessionID []
              ''connection_updated'' receipt callerLease now d1)
             (\<lambda>d2. Inr (receipt, d2))))))"

definition archive_fingerprint :: "string \<Rightarrow> string" where
  "archive_fingerprint sessionID = computeFingerprint [''archive_session'', sessionID]"

definition ArchiveSession ::
  "string \<Rightarrow> string \<Rightarrow> string \<Rightarrow> int \<Rightarrow> time \<Rightarrow> DB \<Rightarrow> store_error + OperationReceipt \<times> DB"
where
  "ArchiveSession opID callerLease sessionID expectedVersion now d =
     (if expectedVersion \<le> 0 then Inl ErrInvalidExpectedVersion
      else let fp = archive_fingerprint sessionID in
      and_then (authorizeSessionController sessionID callerLease False d) (\<lambda>gen.
      and_then (checkOrRecordIdempotency opID ''archive_session'' fp d) (\<lambda>replay.
      case replay of Some receipt \<Rightarrow> Inr (receipt, d) | None \<Rightarrow>
      case joined_session sessionID d of None \<Rightarrow> Inl ErrNoRows | Some s \<Rightarrow>
      if s_row_version s \<noteq> expectedVersion then Inl ErrStaleUpdate
      else if s_lifecycle s = ''archived'' then
        let receipt = session_receipt opID ''archive_session'' sessionID [] (s_row_version s) now []
        in and_then (recordJournalEntry opID ''archive_session'' fp (s_run_id s) sessionID []
              ''session_archived_noop'' receipt callerLease now d)
             (\<lambda>d1. Inr (receipt, d1))
      else if s_state s = ''running'' \<or> text_or_empty (s_active_key s) \<noteq> [] \<or> s_visibility s = ''host_lost''
        then Inl (ErrMsg ''cannot archive a running turn or lost host'')
      else
        let ver = s_row_version s + 1 in
        and_then (update_session sessionID
            (\<lambda>x. bump ver now (x\<lparr>s_lifecycle := ''archived'', s_state := ''archived''\<rparr>)) d) (\<lambda>d1.
        let receipt = session_receipt opID ''archive_session'' sessionID [] ver now []
        in and_then (recordJournalEntry opID ''archive_session'' fp (s_run_id s) sessionID []
              ''session_archived'' receipt callerLease now d1)
             (\<lambda>d2. Inr (receipt, d2))))))"

definition decision_fingerprint :: "string \<Rightarrow> string \<Rightarrow> int \<Rightarrow> string \<Rightarrow> string" where
  "decision_fingerprint runID artifactID revision payload =
     computeFingerprint [''record_decision'', runID, artifactID, fmt_d revision, payload]"

definition insert_decision :: "DecisionRecord \<Rightarrow> DB \<Rightarrow> store_error + DB" where
  "insert_decision x d =
     (if sel (\<lambda>y. dr_OpID y = dr_OpID x) (decisions d) \<noteq> None then Inl (ErrConstraint ''decisions.op_id'')
      else if journal_row (dr_OpID x) d = None \<or> run_row (dr_RunID x) d = None \<or>
              sel (\<lambda>a. a_artifact_id a = dr_ArtifactID x \<and> a_revision a = dr_Revision x) (artifacts d) = None
        then Inl (ErrConstraint ''FOREIGN KEY'')
      else Inr (d\<lparr>decisions := decisions d @ [x]\<rparr>))"

definition RecordDecision ::
  "string \<Rightarrow> string \<Rightarrow> string \<Rightarrow> string \<Rightarrow> int \<Rightarrow> string \<Rightarrow> time \<Rightarrow> DB \<Rightarrow> store_error + OperationReceipt \<times> DB"
where
  "RecordDecision opID callerLease runID artifactID revision decisionPayload now d =
     (if blank runID \<or> blank artifactID \<or> revision \<le> 0 then Inl (ErrMsg ''invalid decision parameters'')
      else
        let sanitized = SanitizeText decisionPayload;
            fp = decision_fingerprint runID artifactID revision sanitized
        in and_then (classifyCredential runID callerLease True d) (\<lambda>gen.
      and_then (checkOrRecordIdempotency opID ''record_decision'' fp d) (\<lambda>replay.
      case replay of Some receipt \<Rightarrow> Inr (receipt, d) | None \<Rightarrow>
      case requireRunConnected runID d of Some e \<Rightarrow> Inl e | None \<Rightarrow>
      if run_row runID d = None then Inl ErrNoRows
      else case sel (\<lambda>a. a_artifact_id a = artifactID \<and> a_revision a = revision \<and> a_run_id a = runID)
                  (artifacts d) of None \<Rightarrow> Inl ErrArtifactNotFound | Some a \<Rightarrow>
        let receipt = session_receipt opID ''record_decision'' [] [] revision now sanitized;
            dec = \<lparr>dr_OpID = opID, dr_RunID = runID, dr_ArtifactID = artifactID, dr_Revision = revision,
                   dr_Digest = a_digest a, dr_DecisionPayload = sanitized, dr_CreatedAt = now\<rparr>
        in and_then (insert_journal
             \<lparr>j_op_id = opID, j_command_type = ''record_decision'', j_fingerprint = fp, j_run_id = runID,
              j_session_id = None, j_turn_key = None, j_event_kind = ''controller_decision'',
              j_payload = PayDecision callerLease receipt dec, j_created_at = now\<rparr> d) (\<lambda>d1.
        and_then (insert_decision dec d1) (\<lambda>d2. Inr (receipt, d2))))))"

section \<open>Reads\<close>

definition GetSessionVersion :: "string \<Rightarrow> DB \<Rightarrow> store_error + int" where
  "GetSessionVersion sid d =
     (case session_row sid d of None \<Rightarrow> Inl ErrNoRows | Some s \<Rightarrow> Inr (s_row_version s))"

definition GetTurnPrompt :: "string \<Rightarrow> string \<Rightarrow> DB \<Rightarrow> store_error + string" where
  "GetTurnPrompt sid k d = (case turn_row sid k d of None \<Rightarrow> Inl ErrNoRows | Some t \<Rightarrow> Inr (t_prompt t))"

definition FindOperationReceipt :: "string \<Rightarrow> string \<Rightarrow> DB \<Rightarrow> store_error + OperationReceipt option" where
  "FindOperationReceipt opID callerLease d =
     (case journal_row opID d of
        None \<Rightarrow> Inr None
      | Some j \<Rightarrow>
          and_then (classifyCredential (j_run_id j) callerLease True d) (\<lambda>gen.
            if or_OpID (decode_receipt (j_payload j)) \<noteq> [] then Inr (Some (decode_receipt (j_payload j)))
            else Inr None))"

record SessionRecoveryState =
  rs_Visibility :: string
  rs_ActiveRecoveryGen :: nat
  rs_RecoveryContext :: string
  rs_RowVersion :: int
  rs_State :: string
  rs_ActiveKey :: string

definition GetSessionRecoveryState :: "string \<Rightarrow> DB \<Rightarrow> store_error + SessionRecoveryState" where
  "GetSessionRecoveryState sid d =
     (case session_row sid d of None \<Rightarrow> Inl ErrNoRows
      | Some s \<Rightarrow> Inr \<lparr>rs_Visibility = s_visibility s, rs_ActiveRecoveryGen = s_active_recovery_gen s,
           rs_RecoveryContext = text_or_empty (s_recovery_context s), rs_RowVersion = s_row_version s,
           rs_State = s_state s, rs_ActiveKey = text_or_empty (s_active_key s)\<rparr>)"

definition ValidateSessionRun :: "string \<Rightarrow> string \<Rightarrow> DB \<Rightarrow> store_error option" where
  "ValidateSessionRun sid runID d =
     (case session_row sid d of None \<Rightarrow> Some ErrSessionNotFound
      | Some s \<Rightarrow> if s_run_id s \<noteq> runID then Some ErrRunSessionMismatch else None)"

record DiagnosticCounts =
  ActiveRuns :: "string list"
  ReservedTurns :: nat
  UnresolvedTurns :: nat
  RecoveryBlockers :: nat

definition worker_key :: "TurnRow \<Rightarrow> string" where
  "worker_key t = t_session_id t @ '':'' @ t_turn_key t"

definition reserved_turns :: "DB \<Rightarrow> TurnRow list" where
  "reserved_turns d = filter (\<lambda>t. t_status t = ''running'' \<or> t_status t = ''cancelling'') (turns d)"

definition GetDiagnosticCounts :: "string list \<Rightarrow> DB \<Rightarrow> DiagnosticCounts" where
  "GetDiagnosticCounts liveWorkerKeys d =
     (let reserved = reserved_turns d;
          unresolved = length (filter (\<lambda>t. worker_key t \<notin> set liveWorkerKeys) reserved)
      in \<lparr>ActiveRuns = map r_run_id (filter (\<lambda>r. r_lifecycle r = ''active'') (runs d)),
          ReservedTurns = length reserved, UnresolvedTurns = unresolved,
          RecoveryBlockers = unresolved
            + length (filter (\<lambda>s. s_visibility s = ''host_lost'') (sessions d))\<rparr>)"

end
