(* ===== verification/Store_Reconcile.thy ===== *)
theory Store_Reconcile
  imports Store_Transitions
begin

text \<open>
  Reconciliation of a lost host, \<open>ReconcileSession\<close> of \<open>internal/storage/transitions.go\<close>: the
  verified observation of a recovery probe is committed under the execution and the recovery
  episode it was made for, whoever holds the controller lease by then.
\<close>

definition status_text :: "TurnStatus \<Rightarrow> string" where
  "status_text st =
     (case st of
        TurnPending \<Rightarrow> ''pending'' | TurnRunning \<Rightarrow> ''running'' | TurnCompleted \<Rightarrow> ''completed''
      | TurnInterrupted \<Rightarrow> ''interrupted'' | TurnCancelling \<Rightarrow> ''cancelling''
      | TurnCancelled \<Rightarrow> ''cancelled'' | TurnFailed \<Rightarrow> ''failed'' | TurnOther t \<Rightarrow> t)"

definition reconciliation_text :: "ReconciliationStatus \<Rightarrow> string" where
  "reconciliation_text st =
     (case st of
        ReconciliationReachableActive \<Rightarrow> ''reachable_active''
      | ReconciliationReachableTerminal \<Rightarrow> ''reachable_terminal''
      | ReconciliationDefinitivelyMissing \<Rightarrow> ''definitively_missing''
      | ReconciliationUncertain \<Rightarrow> ''uncertain'' | ReconciliationOther t \<Rightarrow> t)"

definition reconcile_fingerprint :: "ExecutionRef \<Rightarrow> RecoveryRef \<Rightarrow> ReconciliationOutcome \<Rightarrow> string" where
  "reconcile_fingerprint execRef ref outcome =
     computeFingerprint [''reconcile_session'', ref_SessionID ref, ref_TurnKey ref, er_AttemptID execRef,
       fmt_d (int (unat (ref_Generation ref))), reconciliation_text (ro_Status outcome),
       status_text (ro_Observed outcome), ro_Result outcome]"

text \<open>The end of the episode: reachable again, no generation, no context.\<close>

definition close_recovery :: "SessionRow \<Rightarrow> SessionRow" where
  "close_recovery x =
     x\<lparr>s_visibility := ''reachable'', s_active_recovery_gen := 0, s_recovery_context := Some []\<rparr>"

definition reconcile_turn_status :: "ReconciliationOutcome \<Rightarrow> string option" where
  "reconcile_turn_status outcome =
     (if ro_Status outcome = ReconciliationReachableTerminal then terminal_text (ro_Observed outcome)
      else Some ''failed'')"

text \<open>
  The update and the receipt payload of a reconciliation: with an active turn the episode is
  about it; otherwise its outcome was recorded while the host was lost.
\<close>

definition reconcile_active ::
  "string \<Rightarrow> string \<Rightarrow> SessionRow \<Rightarrow> ReconciliationOutcome \<Rightarrow> time \<Rightarrow> DB \<Rightarrow> store_error + string \<times> DB"
where
  "reconcile_active sid k s outcome now d =
     (let ver = s_row_version s + 1 in
      case ro_Status outcome of
        ReconciliationReachableActive \<Rightarrow>
          and_then (update_session sid (\<lambda>x. bump ver now (close_recovery x)) d)
            (\<lambda>d1. Inr (''reachable_active'', d1))
      | ReconciliationUncertain \<Rightarrow>
          and_then (update_session sid (bump ver now) d) (\<lambda>d1. Inr (''uncertain'', d1))
      | ReconciliationOther t \<Rightarrow> Inl (ErrMsg ''unknown reconciliation status'')
      | _ \<Rightarrow>
          (case reconcile_turn_status outcome of
             None \<Rightarrow> Inl (ErrMsg ''invalid terminal observed status'')
           | Some st \<Rightarrow>
               let d1 = update_turn sid k (\<lambda>t. t\<lparr>t_status := st,
                     t_result := SanitizeText (ro_Result outcome), t_completed_at := Some now\<rparr>) d;
                   d2 = update_intent sid k (\<lambda>i. i\<lparr>i_phase := ''resolved'', i_updated_at := now\<rparr>) d1
               in and_then (update_session sid (\<lambda>x. bump ver now
                     ((close_recovery x)\<lparr>s_active_key := None, s_state := ''parked''\<rparr>)) d2)
                    (\<lambda>d3. Inr (st, d3))))"

definition reconcile_parked ::
  "string \<Rightarrow> SessionRow \<Rightarrow> ReconciliationOutcome \<Rightarrow> time \<Rightarrow> DB \<Rightarrow> store_error + string \<times> DB"
where
  "reconcile_parked sid s outcome now d =
     (let ver = s_row_version s + 1 in
      case ro_Status outcome of
        ReconciliationReachableActive \<Rightarrow>
          Inl (ErrMsg ''reconciliation status conflicts with recorded terminal outcome'')
      | ReconciliationUncertain \<Rightarrow>
          and_then (update_session sid (bump ver now) d) (\<lambda>d1. Inr (''uncertain'', d1))
      | ReconciliationOther t \<Rightarrow> Inl (ErrMsg ''unknown reconciliation status'')
      | _ \<Rightarrow>
          and_then (update_session sid (\<lambda>x. bump ver now (close_recovery x)) d)
            (\<lambda>d1. Inr (''reconciled_post_terminal'', d1)))"

definition ReconcileSession ::
  "string \<Rightarrow> ExecutionRef \<Rightarrow> RecoveryRef \<Rightarrow> ReconciliationOutcome \<Rightarrow> time \<Rightarrow> DB
   \<Rightarrow> store_error + OperationReceipt \<times> DB"
where
  "ReconcileSession opID execRef ref outcome now d =
     (case Outcome_Validate outcome of Some e \<Rightarrow> Inl (ErrAdapter e) | None \<Rightarrow>
      case RecoveryRef_Validate ref of Some e \<Rightarrow> Inl (ErrAdapter e) | None \<Rightarrow>
      if ro_Ref outcome \<noteq> ref then Inl (ErrMsg ''outcome ref does not match request ref'')
      else
        let sid = ref_SessionID ref; k = ref_TurnKey ref; fp = reconcile_fingerprint execRef ref outcome in
      if er_SessionID execRef \<noteq> sid \<or> er_TurnKey execRef \<noteq> k then Inl ErrWrongExecutionAttempt
      else and_then (resolveExecutionRef execRef d) (\<lambda>gen.
      and_then (checkOrRecordIdempotency opID ''reconcile_session'' fp d) (\<lambda>replay.
      case replay of Some receipt \<Rightarrow> Inr (receipt, d) | None \<Rightarrow>
      case joined_session sid d of None \<Rightarrow> Inl ErrNoRows | Some s \<Rightarrow>
      if s_visibility s \<noteq> ''host_lost'' then Inl (ErrMsg ''session host is not lost'')
      else if ref_Generation ref = 0 \<or> s_active_recovery_gen s \<noteq> unat (ref_Generation ref)
        then Inl (ErrMsg ''stale or invalid recovery generation'')
      else
        let active = text_or_empty (s_active_key s) in
        and_then
          (if active \<noteq> [] then
             (if active \<noteq> k then Inl (ErrMsg ''turn key mismatch'')
              else reconcile_active sid k s outcome now d)
           else
             (if text_or_empty (s_recovery_context s) \<noteq> k
                then Inl (ErrMsg ''reconciliation key does not match recovery context'')
              else reconcile_parked sid s outcome now d))
          (\<lambda>(payload, d1).
            let receipt = session_receipt opID ''reconcile_session'' sid k (s_row_version s + 1) now payload
            in and_then (recordJournalEntry opID ''reconcile_session'' fp (s_run_id s) sid k
                  ''session_reconciled'' receipt [] now d1)
                 (\<lambda>d2. Inr (receipt, d2))))))"

end
