(* ===== verification/Go_Unmarshal.thy ===== *)
theory Go_Unmarshal
  imports Go_JSON
begin

text \<open>
  What the source uses of \<open>encoding/json\<close> to read: a JSON array of strings into a \<open>[]string\<close>
  (\<open>unmarshalRequiredTools\<close> in \<open>internal/storage/agy_state.go\<close>, \<open>decodeToolList\<close> in
  \<open>internal/service/commands.go\<close>). A \<open>null\<close> leaves the empty value; any other element is an
  error, be it one of syntax or of type. Reading back what the writer of \<open>Go_JSON\<close> wrote gives
  the strings that were written, when they are valid UTF-8.
\<close>

section \<open>Reading a string literal\<close>

definition hex_val :: "char \<Rightarrow> nat option" where
  "hex_val c =
     (let n = byte_of c in
      if 48 \<le> n \<and> n \<le> 57 then Some (n - 48)
      else if 97 \<le> n \<and> n \<le> 102 then Some (n - 87)
      else if 65 \<le> n \<and> n \<le> 70 then Some (n - 55)
      else None)"

fun hex4 :: "string \<Rightarrow> (nat \<times> string) option" where
  "hex4 (a # b # c # d # s) =
     (case (hex_val a, hex_val b, hex_val c, hex_val d) of
        (Some w, Some x, Some y, Some z) \<Rightarrow> Some (((w * 16 + x) * 16 + y) * 16 + z, s)
      | _ \<Rightarrow> None)"
| "hex4 _ = None"

definition getu4 :: "string \<Rightarrow> (nat \<times> string) option" where
  "getu4 s = (if take 2 s = [CHR 0x5C, CHR ''u''] then hex4 (drop 2 s) else None)"

definition unescape :: "char \<Rightarrow> char option" where
  "unescape e =
     (if e = CHR 0x22 \<or> e = CHR 0x5C \<or> e = CHR ''/'' then Some e
      else if e = CHR ''b'' then Some (CHR 0x08)
      else if e = CHR ''f'' then Some (CHR 0x0C)
      else if e = CHR ''n'' then Some (CHR 0x0A)
      else if e = CHR ''r'' then Some (CHR 0x0D)
      else if e = CHR ''t'' then Some (CHR 0x09)
      else None)"

text \<open>\<open>utf8.EncodeRune\<close> and the replacement character.\<close>

definition encode_rune :: "nat \<Rightarrow> string" where
  "encode_rune n =
     (if n < 0x80 then [char_of n]
      else if n < 0x800 then [char_of (0xC0 + n div 64), char_of (0x80 + n mod 64)]
      else if n < 0x10000 then [char_of (0xE0 + n div 4096), char_of (0x80 + n div 64 mod 64), char_of (0x80 + n mod 64)]
      else [char_of (0xF0 + n div 262144), char_of (0x80 + n div 4096 mod 64), char_of (0x80 + n div 64 mod 64),
            char_of (0x80 + n mod 64)])"

definition replacement :: string where "replacement = [CHR 0xEF, CHR 0xBF, CHR 0xBD]"

definition prepend :: "string \<Rightarrow> (string \<times> 'a) option \<Rightarrow> (string \<times> 'a) option" where
  "prepend p x = (case x of None \<Rightarrow> None | Some (s, r) \<Rightarrow> Some (p @ s, r))"

lemma prepend_Some [simp]: "prepend p (Some (s, r)) = Some (p @ s, r)"
  by (simp add: prepend_def)

lemma prepend_eq_Some: "prepend p x = Some (s, r) \<longleftrightarrow> (\<exists>t. x = Some (t, r) \<and> s = p @ t)"
  by (auto simp: prepend_def split: option.split)

lemma hex4_length: "hex4 s = Some (n, t) \<Longrightarrow> length t < length s"
  by (induction s rule: hex4.induct) (auto split: option.splits)

lemma getu4_length: "getu4 s = Some (n, t) \<Longrightarrow> length t < length s"
  by (auto simp: getu4_def dest!: hex4_length split: if_splits)

text \<open>What follows the opening quote: the decoded string and the text after the closing quote.\<close>

function json_unquote :: "string \<Rightarrow> (string \<times> string) option" where
  "json_unquote [] = None"
| "json_unquote (c # s) =
     (if c = CHR 0x22 then Some ([], s)
      else if c = CHR 0x5C then
        (case s of [] \<Rightarrow> None | e # t \<Rightarrow>
           if e = CHR ''u'' then
             (case hex4 t of None \<Rightarrow> None | Some (rr, t1) \<Rightarrow>
                if 0xD800 \<le> rr \<and> rr < 0xE000 then
                  (case getu4 t1 of
                     Some (r2, t2) \<Rightarrow>
                       if rr < 0xDC00 \<and> 0xDC00 \<le> r2 \<and> r2 < 0xE000
                         then prepend (encode_rune (0x10000 + (rr - 0xD800) * 1024 + (r2 - 0xDC00))) (json_unquote t2)
                       else prepend replacement (json_unquote t1)
                   | None \<Rightarrow> prepend replacement (json_unquote t1))
                else prepend (encode_rune rr) (json_unquote t1))
           else (case unescape e of None \<Rightarrow> None | Some b \<Rightarrow> prepend [b] (json_unquote t)))
      else if byte_of c < 0x20 then None
      else (case rune_len (c # s) of
              0 \<Rightarrow> prepend replacement (json_unquote s)
            | Suc n \<Rightarrow> prepend (c # take n s) (json_unquote (drop n s))))"
  by pat_completeness auto
termination
  by (relation "measure length") (auto dest!: hex4_length getu4_length)

lemma json_unquote_length: "json_unquote s = Some (v, t) \<Longrightarrow> length t < length s"
proof (induction s arbitrary: v rule: measure_induct_rule [of length])
  case (less s)
  have step: "length t < length u" if "json_unquote u = Some (w, t)" "length u < length s" for u w
    using less.IH [OF that(2,1)] .
  show ?case
  proof (cases s)
    case Nil
    then show ?thesis using less.prems by simp
  next
    case (Cons c u)
    show ?thesis
      using less.prems unfolding Cons
      by (auto simp: prepend_eq_Some Cons simp del: rune_len.simps
          split: if_splits option.splits list.splits nat.splits dest!: hex4_length getu4_length step)
  qed
qed

section \<open>Reading an array of strings\<close>

definition json_space :: "char \<Rightarrow> bool" where
  "json_space c \<longleftrightarrow> c = CHR 0x20 \<or> c = CHR 0x09 \<or> c = CHR 0x0A \<or> c = CHR 0x0D"

definition skip_space :: "string \<Rightarrow> string" where "skip_space s = dropWhile json_space s"

lemma skip_space_length: "length (skip_space s) \<le> length s"
  by (simp add: skip_space_def length_dropWhile_le)

definition json_element :: "string \<Rightarrow> (string \<times> string) option" where
  "json_element s =
     (if take 1 s = [CHR 0x22] then json_unquote (drop 1 s)
      else if take 4 s = ''null'' then Some ([], drop 4 s)
      else None)"

lemma json_element_length: "json_element s = Some (v, t) \<Longrightarrow> length t < length s"
proof -
  assume e: "json_element s = Some (v, t)"
  then have "s \<noteq> []" by (auto simp: json_element_def)
  then show ?thesis
    using e json_unquote_length [of "drop 1 s" v t] by (auto simp: json_element_def split: if_splits)
qed

function json_elements :: "string \<Rightarrow> (string list \<times> string) option" where
  "json_elements s =
     (case json_element (skip_space s) of None \<Rightarrow> None | Some (v, t) \<Rightarrow>
        (case skip_space t of
           [] \<Rightarrow> None
         | c # u \<Rightarrow>
             if c = CHR '']'' then Some ([v], u)
             else if c = CHR '','' then map_option (apfst ((#) v)) (json_elements u)
             else None))"
  by pat_completeness auto
termination
proof (relation "measure length")
  fix s v t c u and x :: "string \<times> string"
  assume e: "json_element (skip_space s) = Some x" "(v, t) = x" and u: "skip_space t = c # u"
  have "length u < length t" using skip_space_length [of t] by (simp add: u)
  moreover have "length t < length (skip_space s)" using json_element_length [of "skip_space s" v t] e by simp
  ultimately show "(u, s) \<in> measure length" using skip_space_length [of s] by simp
qed simp

declare json_elements.simps [simp del]

definition Unmarshal_strings :: "string \<Rightarrow> string list option" where
  "Unmarshal_strings raw =
     (let s = skip_space raw in
      if take 4 s = ''null'' then (if skip_space (drop 4 s) = [] then Some [] else None)
      else if take 1 s = ''['' then
        (case skip_space (drop 1 s) of
           [] \<Rightarrow> None
         | c # u \<Rightarrow>
             if c = CHR '']'' then (if skip_space u = [] then Some [] else None)
             else (case json_elements (drop 1 s) of None \<Rightarrow> None
                   | Some (v, t) \<Rightarrow> if skip_space t = [] then Some v else None))
      else None)"

text \<open>\<open>unmarshalRequiredTools\<close>: the empty string and \<open>[]\<close> are the empty set, malformed JSON an error.\<close>

definition unmarshalRequiredTools :: "string \<Rightarrow> string list option" where
  "unmarshalRequiredTools raw = (if blank raw \<or> raw = ''[]'' then Some [] else Unmarshal_strings raw)"

section \<open>Reading back what was written\<close>

function valid_utf8 :: "string \<Rightarrow> bool" where
  "valid_utf8 [] = True"
| "valid_utf8 (c # s) = (case rune_len (c # s) of 0 \<Rightarrow> False | Suc n \<Rightarrow> valid_utf8 (drop n s))"
  by pat_completeness auto
termination by (relation "measure length") auto

lemma rune_len_ascii: "byte_of c < 0x80 \<Longrightarrow> rune_len (c # s) = 1"
  by (cases s) (simp_all add: Let_def)

lemma rune_len_one: "rune_len (c # s) = Suc 0 \<Longrightarrow> byte_of c < 0x80"
  by (cases s) (simp_all add: Let_def split: if_splits)

text \<open>A sequence of more than one byte is recognised by its own bytes.\<close>

lemma rune_len_prefix:
  assumes "rune_len (c # s) = Suc (Suc n)"
  shows "rune_len (c # take (Suc n) s @ r) = Suc (Suc n)" and "0x80 \<le> byte_of c" and "Suc n \<le> length s"
proof -
  from assms obtain b t where s: "s = b # t" by (cases s) (simp_all split: if_splits)
  have n: "n = 0 \<or> n = 1 \<and> t \<noteq> [] \<or> n = 2 \<and> 2 \<le> length t"
    using assms by (simp add: s Let_def split: if_splits)
  then show "rune_len (c # take (Suc n) s @ r) = Suc (Suc n)"
  proof (elim disjE conjE)
    assume "n = 0"
    then show ?thesis using assms by (simp add: s Let_def split: if_splits)
  next
    assume n1: "n = 1" "t \<noteq> []"
    then obtain d u where t: "t = d # u" by (cases t) simp_all
    show ?thesis using assms by (simp add: s t n1 Let_def split: if_splits)
  next
    assume n2: "n = 2" "2 \<le> length t"
    then obtain d e u where t: "t = d # e # u" by (cases t; cases "tl t") simp_all
    show ?thesis using assms by (simp add: s t n2 Let_def split: if_splits)
  qed
  show "0x80 \<le> byte_of c" using assms by (simp add: s Let_def split: if_splits)
  show "Suc n \<le> length s" using n by (auto simp: s Suc_le_eq)
qed

lemma byte_of_inject: "byte_of a = byte_of b \<longleftrightarrow> a = b"
  by (simp add: byte_of_def)

lemma hex_val_nibble: "n < 16 \<Longrightarrow> hex_val (hex_nibble n) = Some n"
  by (simp add: hex_val_def hex_nibble_def byte_of_def Let_def)

lemma hex4_escape:
  assumes "n < 65536"
  shows "hex4 (drop 2 (escape_u n) @ s) = Some (n, s)"
proof -
  have low: "n div 16 * 16 + n mod 16 = n" by simp
  have mid: "n div 256 * 16 + n div 16 mod 16 = n div 16"
    using div_mult_mod_eq [of "n div 16" 16] by (simp add: div_mult2_eq [symmetric])
  have high: "n div 4096 * 16 + n div 256 mod 16 = n div 256"
    using div_mult_mod_eq [of "n div 256" 16] by (simp add: div_mult2_eq [symmetric])
  have top: "n div 4096 mod 16 = n div 4096" using assms by (simp add: less_mult_imp_div_less)
  let ?v = "((n div 4096 mod 16 * 16 + n div 256 mod 16) * 16 + n div 16 mod 16) * 16 + n mod 16"
  have "hex4 (drop 2 (escape_u n) @ s) = Some (?v, s)" by (simp add: escape_u_def hex_val_nibble)
  moreover have "?v = n" by (simp only: top high mid low)
  ultimately show ?thesis by (simp only:)
qed

lemma unquote_escape_u:
  assumes "n < 0xD800"
  shows "json_unquote (escape_u n @ s) = prepend (encode_rune n) (json_unquote s)"
proof -
  have "hex4 (drop 2 (escape_u n) @ s) = Some (n, s)" using assms by (intro hex4_escape) simp
  then show ?thesis using assms by (simp add: escape_u_def del: hex4.simps)
qed

lemma unquote_ascii:
  assumes a: "byte_of c < 0x80"
  shows "json_unquote (escape_ascii html c @ s) = prepend [c] (json_unquote s)"
proof -
  let ?special = "c = CHR 0x08 \<or> c = CHR 0x0C \<or> c = CHR 0x0A \<or> c = CHR 0x0D \<or> c = CHR 0x09"
  let ?hex = "byte_of c < 0x20 \<or> html \<and> (c = CHR ''<'' \<or> c = CHR ''>'' \<or> c = CHR ''&'')"
  show ?thesis
  proof (cases "c = CHR 0x22 \<or> c = CHR 0x5C \<or> ?special")
    case True
    then show ?thesis by (elim disjE) (simp_all add: escape_ascii_def unescape_def)
  next
    case False
    then have ne: "(c = CHR 0x22 \<or> c = CHR 0x5C) = False" "(c = CHR 0x08) = False" "(c = CHR 0x0C) = False"
      "(c = CHR 0x0A) = False" "(c = CHR 0x0D) = False" "(c = CHR 0x09) = False" by blast+
    show ?thesis
    proof (cases ?hex)
      case True
      have "escape_ascii html c = escape_u (byte_of c)" 
        by (simp only: escape_ascii_def ne True [THEN eqTrueI] if_False if_True)
      moreover have "encode_rune (byte_of c) = [c]" using a by (simp add: encode_rune_def byte_of_def)
      ultimately show ?thesis using a by (simp add: unquote_escape_u)
    next
      case plain: False
      have "escape_ascii html c = [c]" 
        by (simp only: escape_ascii_def ne plain [THEN eq_False [THEN iffD2]] if_False if_True)
      then show ?thesis using False plain rune_len_ascii [OF a, of s] by (simp del: rune_len.simps)
    qed
  qed
qed

lemma json_unquote_chars:
  "valid_utf8 s \<Longrightarrow> json_unquote (json_chars html s @ CHR 0x22 # r) = Some (s, r)"
proof (induction html s rule: json_chars.induct)
  case (1 html)
  then show ?case by simp
next
  case (2 html c s)
  show ?case
  proof (cases "rune_len (c # s)")
    case 0
    then show ?thesis using "2.prems" by (simp del: rune_len.simps)
  next
    case (Suc k)
    show ?thesis
    proof (cases k)
      case 0
      have "valid_utf8 s" using "2.prems" Suc 0 by (simp del: rune_len.simps)
      then have "json_unquote (json_chars html s @ CHR 0x22 # r) = Some (s, r)"
        using "2.IH"(2) Suc 0 by simp
      moreover have "byte_of c < 0x80" using Suc 0 rune_len_one by simp
      ultimately show ?thesis using Suc 0 by (simp add: unquote_ascii del: rune_len.simps)
    next
      case (Suc n)
      note k = \<open>rune_len (c # s) = Suc k\<close>[unfolded Suc]
      let ?rest = "json_chars html (drop (Suc n) s) @ CHR 0x22 # r"
      have "valid_utf8 (drop (Suc n) s)" using "2.prems" k by (simp del: rune_len.simps)
      then have ih: "json_unquote ?rest = Some (drop (Suc n) s, r)" using "2.IH"(3) k by simp
      note pre = rune_len_prefix [OF k]
      have big: "c \<noteq> CHR 0x22" "c \<noteq> CHR 0x5C" "\<not> byte_of c < 0x20" using pre(2) by (auto simp: byte_of_def)
      have plain: "json_unquote ((c # take (Suc n) s) @ ?rest) = Some (c # s, r)"
        using big pre(1) [of ?rest] pre(3) ih by (simp del: rune_len.simps)
      have line: "json_unquote (escape_u m @ ?rest) = Some (c # s, r)"
        if "take 3 (c # s) = encode_rune m" "m < 0xD800" "length (encode_rune m) = 3" "n = 1" for m
      proof -
        have "take 3 (c # s) @ drop 3 (c # s) = c # s" by (rule append_take_drop_id)
        then have "encode_rune m @ drop (Suc n) s = c # s" unfolding that(1) that(4) by (simp add: numeral_2_eq_2 numeral_3_eq_3)
        then show ?thesis using that(2) ih by (simp add: unquote_escape_u)
      qed
      have three: "n = 1" if "take 3 (c # s) = [CHR 0xE2, CHR 0x80, x]" for x
      proof -
        from that obtain t where "s = CHR 0x80 # x # t" "c = CHR 0xE2" by (cases s; cases "tl s") auto
        then show ?thesis using k by (simp add: byte_of_def Let_def split: if_splits)
      qed
      have e: "encode_rune 0x2028 = [CHR 0xE2, CHR 0x80, CHR 0xA8]" "encode_rune 0x2029 = [CHR 0xE2, CHR 0x80, CHR 0xA9]"
        by (simp_all add: encode_rune_def char_of_def bit_0)
      have "json_chars html (c # s) = (if take 3 (c # s) = [CHR 0xE2, CHR 0x80, CHR 0xA8] then escape_u 0x2028
           else if take 3 (c # s) = [CHR 0xE2, CHR 0x80, CHR 0xA9] then escape_u 0x2029
           else c # take (Suc n) s) @ json_chars html (drop (Suc n) s)"
        using k by (simp del: rune_len.simps)
      then show ?thesis using plain line [of "0x2028"] line [of "0x2029"] three e by simp
    qed
  qed
qed

lemma skip_space_nonspace: "\<not> json_space c \<Longrightarrow> skip_space (c # s) = c # s"
  by (simp add: skip_space_def)

lemma not_space [simp]: "\<not> json_space (CHR 0x22)" "\<not> json_space (CHR '','')" "\<not> json_space (CHR ''['')" "\<not> json_space (CHR '']'')"
  by (simp_all add: json_space_def)

lemma element_of_string:
  "valid_utf8 s \<Longrightarrow> json_element (skip_space (json_string html s @ r)) = Some (s, r)"
  by (simp add: json_string_def skip_space_nonspace json_element_def json_unquote_chars)

lemma json_elements_read:
  "\<lbrakk>v \<noteq> []; list_all valid_utf8 v\<rbrakk> \<Longrightarrow>
    json_elements (comma_join (map (json_string html) v) @ CHR '']'' # r) = Some (v, r)"
proof (induction v rule: comma_join.induct)
  case 1
  then show ?case by simp
next
  case (2 x)
  then show ?case by (subst json_elements.simps) (simp add: element_of_string skip_space_nonspace)
next
  case (3 x y ys)
  then have "json_elements (comma_join (map (json_string html) (y # ys)) @ CHR '']'' # r) = Some (y # ys, r)" by simp
  then show ?case using 3(3)
    by (subst json_elements.simps) (simp add: element_of_string skip_space_nonspace apfst_def)
qed

lemma Unmarshal_marshal:
  assumes v: "v \<noteq> []" and u: "list_all valid_utf8 v"
  shows "Unmarshal_strings (marshalStrings v) = Some v"
proof -
  let ?body = "comma_join (map (json_string True) v)"
  have m: "marshalStrings v = CHR ''['' # ?body @ CHR '']'' # []" using v by (simp add: marshalStrings_def)
  obtain b where b: "?body = CHR 0x22 # b" using v by (cases v; cases "tl v") (simp_all add: json_string_def)
  have "json_elements (?body @ CHR '']'' # []) = Some (v, [])" by (rule json_elements_read [OF v u])
  then have e: "json_elements (CHR 0x22 # b @ CHR '']'' # []) = Some (v, [])" by (simp add: b)
  show ?thesis
    unfolding m b Unmarshal_strings_def Let_def
    by (simp add: skip_space_nonspace e) (simp add: skip_space_def)
qed

lemma unmarshal_tools_marshal: "list_all valid_utf8 v \<Longrightarrow> unmarshalRequiredTools (marshalStrings v) = Some v"
proof (cases "v = []")
  case True
  then show "list_all valid_utf8 v \<Longrightarrow> ?thesis" by (simp add: unmarshalRequiredTools_def marshalStrings_def)
next
  case False
  assume u: "list_all valid_utf8 v"
  obtain b where b: "marshalStrings v = CHR ''['' # CHR 0x22 # b"
    using False by (cases v; cases "tl v") (simp_all add: marshalStrings_def json_string_def)
  have "\<not> blank (marshalStrings v)" "marshalStrings v \<noteq> ''[]''" by (simp_all add: b space_leads_def)
  then show ?thesis using Unmarshal_marshal [OF False u] by (simp add: unmarshalRequiredTools_def)
qed

end
