(* ===== verification/Go_Value.thy ===== *)
theory Go_Value
  imports Go_Unmarshal
begin

text \<open>
  Reading an arbitrary JSON document, as \<open>encoding/json\<close> does for the source's \<open>map[string]any\<close> and
  \<open>map[string]json.RawMessage\<close>: syntax is checked first and over the whole text, containers nest at
  most 10000 deep, a later duplicate of a key wins, invalid UTF-8 in strings is replaced. Numbers are
  kept as their literal; decoding one into an \<open>any\<close> fails when it overflows a \<open>float64\<close>.
\<close>

section \<open>Values\<close>

datatype json = JNull | JBool bool | JNumber string | JString string | JArray "json list"
  | JObject "(string \<times> json) list"

definition digit_byte :: "char \<Rightarrow> bool" where
  "digit_byte c \<longleftrightarrow> 48 \<le> byte_of c \<and> byte_of c \<le> 57"

text \<open>A run of digits, at least one.\<close>

definition take_digits :: "string \<Rightarrow> (string \<times> string) option" where
  "take_digits s =
     (if takeWhile digit_byte s = [] then None else Some (takeWhile digit_byte s, dropWhile digit_byte s))"

definition number_int :: "string \<Rightarrow> (string \<times> string) option" where
  "number_int s =
     (case s of [] \<Rightarrow> None
      | c # t \<Rightarrow> if c = CHR ''0'' then Some ([c], t) else take_digits s)"

definition number_frac :: "string \<Rightarrow> (string \<times> string) option" where
  "number_frac s =
     (case s of [] \<Rightarrow> Some ([], [])
      | c # t \<Rightarrow> if c = CHR ''.'' then map_option (apfst ((#) c)) (take_digits t) else Some ([], s))"

definition number_exp :: "string \<Rightarrow> (string \<times> string) option" where
  "number_exp s =
     (case s of [] \<Rightarrow> Some ([], [])
      | c # t \<Rightarrow>
          if c = CHR ''e'' \<or> c = CHR ''E'' then
            (case t of [] \<Rightarrow> None
             | d # u \<Rightarrow> if d = CHR ''+'' \<or> d = CHR ''-'' then map_option (apfst (\<lambda>x. c # d # x)) (take_digits u)
                        else map_option (apfst ((#) c)) (take_digits t))
          else Some ([], s))"

definition json_number :: "string \<Rightarrow> (string \<times> string) option" where
  "json_number s =
     (let (sign, s0) = (if take 1 s = ''-'' then (''-'', drop 1 s) else ([], s)) in
      case number_int s0 of None \<Rightarrow> None | Some (i, s1) \<Rightarrow>
      case number_frac s1 of None \<Rightarrow> None | Some (f, s2) \<Rightarrow>
      case number_exp s2 of None \<Rightarrow> None | Some (e, s3) \<Rightarrow> Some (sign @ i @ f @ e, s3))"

section \<open>Parsing\<close>

text \<open>
  The first argument is the nesting still allowed. A list of elements or members starts after the
  opening bracket and is not empty.
\<close>

function parse_value :: "nat \<Rightarrow> string \<Rightarrow> (json \<times> string) option"
  and parse_elements :: "nat \<Rightarrow> string \<Rightarrow> (json list \<times> string) option"
  and parse_members :: "nat \<Rightarrow> string \<Rightarrow> ((string \<times> json) list \<times> string) option" where
  "parse_value n s =
     (case skip_space s of [] \<Rightarrow> None
      | c # u \<Rightarrow>
          if c = CHR 0x22 then map_option (apfst JString) (json_unquote u)
          else if c = CHR ''['' then
            (case n of 0 \<Rightarrow> None
             | Suc m \<Rightarrow> if take 1 (skip_space u) = '']'' then Some (JArray [], drop 1 (skip_space u))
                         else map_option (apfst JArray) (parse_elements m u))
          else if c = CHR ''{'' then
            (case n of 0 \<Rightarrow> None
             | Suc m \<Rightarrow> if take 1 (skip_space u) = ''}'' then Some (JObject [], drop 1 (skip_space u))
                         else map_option (apfst JObject) (parse_members m u))
          else if take 4 (c # u) = ''null'' then Some (JNull, drop 3 u)
          else if take 4 (c # u) = ''true'' then Some (JBool True, drop 3 u)
          else if take 5 (c # u) = ''false'' then Some (JBool False, drop 4 u)
          else map_option (apfst JNumber) (json_number (c # u)))"
| "parse_elements n s =
     (case parse_value n s of None \<Rightarrow> None
      | Some (v, t) \<Rightarrow>
          (case skip_space t of [] \<Rightarrow> None
           | c # u \<Rightarrow> if c = CHR '']'' then Some ([v], u)
                      else if c = CHR '','' \<and> length u < length s
                        then map_option (apfst ((#) v)) (parse_elements n u)
                      else None))"
| "parse_members n s =
     (case skip_space s of [] \<Rightarrow> None
      | q # a \<Rightarrow> if q \<noteq> CHR 0x22 then None else
      (case json_unquote a of None \<Rightarrow> None | Some (k, b) \<Rightarrow>
      (case skip_space b of [] \<Rightarrow> None
       | p # d \<Rightarrow> if p \<noteq> CHR '':'' then None else
      (case parse_value n d of None \<Rightarrow> None
       | Some (v, t) \<Rightarrow>
          (case skip_space t of [] \<Rightarrow> None
           | c # u \<Rightarrow> if c = CHR ''}'' then Some ([(k, v)], u)
                      else if c = CHR '','' \<and> length u < length s
                        then map_option (apfst ((#) (k, v))) (parse_members n u)
                      else None)))))"
  by pat_completeness auto
termination
proof (relation "measures [
      \<lambda>x. case x of Inl (n, s) \<Rightarrow> n | Inr (Inl (n, s)) \<Rightarrow> n | Inr (Inr (n, s)) \<Rightarrow> n,
      \<lambda>x. case x of Inl (n, s) \<Rightarrow> 2 * length s | Inr (Inl (n, s)) \<Rightarrow> 2 * length s + 1
        | Inr (Inr (n, s)) \<Rightarrow> 2 * length s + 1]", goal_cases)
  case (6 n s q a x k b p d)
  have "length d < length b" using skip_space_length [of b] 6 by simp
  moreover have "length b < length a" using 6 json_unquote_length [of a k b] by simp
  moreover have "length a < length s" using skip_space_length [of s] 6 by simp
  ultimately show ?case by simp
qed auto

declare parse_value.simps [simp del] parse_elements.simps [simp del] parse_members.simps [simp del]

definition parse_json :: "string \<Rightarrow> json option" where
  "parse_json s = (case parse_value 10000 s of None \<Rightarrow> None | Some (v, t) \<Rightarrow> if skip_space t = [] then Some v else None)"

text \<open>A document that parses within a small nesting parses the same within a larger one, so evaluation tries
  a small one first.\<close>

lemma parse_mono:
  "parse_value n s = Some r \<Longrightarrow> n \<le> m \<Longrightarrow> parse_value m s = Some r"
  "parse_elements n s = Some r' \<Longrightarrow> n \<le> m \<Longrightarrow> parse_elements m s = Some r'"
  "parse_members n s = Some r'' \<Longrightarrow> n \<le> m \<Longrightarrow> parse_members m s = Some r''"
proof (induction n s and n s and n s arbitrary: r m and r' m and r'' m
    rule: parse_value_parse_elements_parse_members.induct)
  case (1 n s)
  show ?case
  proof (cases "skip_space s")
    case Nil
    with 1(3) show ?thesis by (simp add: parse_value.simps [of n])
  next
    case (Cons c u)
    show ?thesis
    proof (cases n)
      case 0
      from 1(3) Cons show ?thesis
        unfolding 0 parse_value.simps [of 0] parse_value.simps [of m] by (simp split: if_splits) auto
    next
      case (Suc k)
      with 1(4) obtain j where m: "m = Suc j" "k \<le> j" by (cases m) auto
      have E: "parse_elements j u = Some x"
        if "c = CHR ''[''" "take 1 (skip_space u) \<noteq> '']''" "parse_elements k u = Some x" for x
        by (rule 1(1) [OF Cons _ _ Suc _ _ m(2)]) (use that in auto)
      have M: "parse_members j u = Some x"
        if "c = CHR ''{''" "take 1 (skip_space u) \<noteq> ''}''" "parse_members k u = Some x" for x
        by (rule 1(2) [OF Cons _ _ _ Suc _ _ m(2)]) (use that in auto)
      from 1(3) Cons Suc m show ?thesis
        unfolding parse_value.simps [of n] parse_value.simps [of m]
        by (simp split: if_splits del: One_nat_def) (auto intro: E M simp del: One_nat_def)
    qed
  qed
next
  case (2 n s)
  from 2(3) obtain v t c u where vt: "parse_value n s = Some (v, t)" "skip_space t = c # u"
    and r: "(if c = CHR '']'' then Some ([v], u)
      else if c = CHR '','' \<and> length u < length s then map_option (apfst ((#) v)) (parse_elements n u) else None) = Some r'"
    unfolding parse_elements.simps [of n s] by (auto split: option.splits list.splits)
  have "parse_elements m u = Some x" if "c = CHR '',''" "length u < length s" "parse_elements n u = Some x" for x
    by (rule 2(2) [OF vt(1) refl vt(2) _ _ that(3) 2(4)]) (use that in auto)
  with r 2(1) [OF vt(1) 2(4)] vt(2) show ?case
    unfolding parse_elements.simps [of m s] by (auto split: if_splits)
next
  case (3 n s)
  from 3(3) obtain a k b d v t c u where kv: "skip_space s = CHR 0x22 # a" "json_unquote a = Some (k, b)"
      "skip_space b = CHR '':'' # d" "parse_value n d = Some (v, t)" "skip_space t = c # u"
    and r: "(if c = CHR ''}'' then Some ([(k, v)], u)
      else if c = CHR '','' \<and> length u < length s then map_option (apfst ((#) (k, v))) (parse_members n u) else None) = Some r''"
    unfolding parse_members.simps [of n s] by (auto split: option.splits list.splits if_splits)
  have pv: "parse_value m d = Some (v, t)"
    by (rule 3(1) [OF kv(1) _ kv(2) refl kv(3) _ kv(4) 3(4)]) simp_all
  have "parse_members m u = Some x" if "c = CHR '',''" "length u < length s" "parse_members n u = Some x" for x
    by (rule 3(2) [OF kv(1) _ kv(2) refl kv(3) _ kv(4) refl kv(5) _ _ that(3) 3(4)]) (use that in auto)
  with r pv kv show ?case
    unfolding parse_members.simps [of m s] by (auto split: if_splits)
qed

lemma parse_json_shallow [code]:
  "parse_json s =
     (case parse_value 4 s of Some (v, t) \<Rightarrow> if skip_space t = [] then Some v else None
      | None \<Rightarrow> (case parse_value 10000 s of None \<Rightarrow> None | Some (v, t) \<Rightarrow> if skip_space t = [] then Some v else None))"
  using parse_mono(1) [of 4 s _ 10000] by (auto simp: parse_json_def split: option.split)

end
