(* ===== verification/Go_Decode.thy ===== *)
theory Go_Decode
  imports Go_Value Redaction
begin

text \<open>
  \<open>json.Unmarshal\<close> into Go structs: the members of an object in order, a key matched to its field
  without regard to case, \<open>null\<close> leaving the field as it is, any type mismatch an error. A field of
  type \<open>json.RawMessage\<close> keeps the bytes of its value. A repeated key of a list field replaces the
  list; Go decodes its elements into the old ones, which differs when an element is \<open>null\<close>.
\<close>

section \<open>Letters\<close>

text \<open>
  \<open>strings.ToLower\<close> as far as ASCII results are concerned: besides the ASCII capitals, the Kelvin
  sign becomes a k and the dotted capital I an i.
\<close>

definition dotted_i :: string where "dotted_i = [CHR 0xC4, CHR 0xB0]"

function lower_ascii :: "string \<Rightarrow> string" where
  "lower_ascii [] = []"
| "lower_ascii (c # s) =
     (if starts_with kelvin (c # s) then CHR ''k'' # lower_ascii (drop 2 s)
      else if starts_with dotted_i (c # s) then CHR ''i'' # lower_ascii (drop 1 s)
      else lower_byte c # lower_ascii s)"
  by pat_completeness auto
termination by (relation "measure length") auto

text \<open>Keys are compared under simple case folding, where the long s is an s and the Kelvin sign a k.\<close>

function fold_key :: "string \<Rightarrow> string" where
  "fold_key [] = []"
| "fold_key (c # s) =
     (if starts_with kelvin (c # s) then CHR ''k'' # fold_key (drop 2 s)
      else if starts_with long_s (c # s) then CHR ''s'' # fold_key (drop 1 s)
      else lower_byte c # fold_key s)"
  by pat_completeness auto
termination by (relation "measure length") auto

section \<open>Numbers\<close>

text \<open>
  A number literal is decoded with \<open>strconv.ParseFloat\<close>, which fails when the value rounds to
  infinity; the exponent saturates after five digits.
\<close>

definition digits_value :: "string \<Rightarrow> int" where
  "digits_value ds = foldl (\<lambda>n c. 10 * n + int (byte_of c - 48)) 0 ds"

definition exponent_value :: "string \<Rightarrow> int" where
  "exponent_value ds = foldl (\<lambda>n c. if n < 10000 then 10 * n + int (byte_of c - 48) else n) 0 ds"

definition float_overflows :: "string \<Rightarrow> bool" where
  "float_overflows lit =
     (let s = (if take 1 lit = ''-'' then drop 1 lit else lit);
          mant = takeWhile (\<lambda>c. c \<noteq> CHR ''e'' \<and> c \<noteq> CHR ''E'') s;
          ex = drop 1 (dropWhile (\<lambda>c. c \<noteq> CHR ''e'' \<and> c \<noteq> CHR ''E'') s);
          e = (if take 1 ex = ''-'' then - exponent_value (drop 1 ex)
               else if take 1 ex = ''+'' then exponent_value (drop 1 ex) else exponent_value ex);
          frac = drop 1 (dropWhile (\<lambda>c. c \<noteq> CHR ''.'') mant);
          m = digits_value (filter (\<lambda>c. c \<noteq> CHR ''.'') mant);
          x = e - int (length frac);
          limit = 2 ^ 1024 - 2 ^ 970
      in if 0 \<le> x then limit \<le> m * 10 ^ nat x else limit * 10 ^ nat (- x) \<le> m)"

text \<open>\<open>strconv.ParseInt\<close> of a number literal: no fraction, no exponent, within 64 bits.\<close>

definition ParseInt64 :: "string \<Rightarrow> int option" where
  "ParseInt64 lit =
     (let neg = take 1 lit = ''-''; ds = (if neg then drop 1 lit else lit);
          n = (if neg then - digits_value ds else digits_value ds)
      in if ds \<noteq> [] \<and> list_all digit_byte ds \<and> - (2 ^ 63) \<le> n \<and> n < 2 ^ 63 then Some n else None)"

section \<open>The bytes of a value\<close>

text \<open>The first value of a text and the text after it.\<close>

definition raw_value :: "string \<Rightarrow> (string \<times> string) option" where
  "raw_value s =
     (case parse_value 10000 (skip_space s) of None \<Rightarrow> None
      | Some (v, t) \<Rightarrow> Some (take (length (skip_space s) - length t) (skip_space s), t))"

lemma raw_value_shallow [code]:
  "raw_value s =
     (case parse_value 4 (skip_space s) of Some (v, t) \<Rightarrow> Some (take (length (skip_space s) - length t) (skip_space s), t)
      | None \<Rightarrow> (case parse_value 10000 (skip_space s) of None \<Rightarrow> None
          | Some (v, t) \<Rightarrow> Some (take (length (skip_space s) - length t) (skip_space s), t)))"
  using parse_mono(1) [of 4 "skip_space s" _ 10000] by (auto simp: raw_value_def split: option.split)

function raw_elements :: "string \<Rightarrow> string list" where
  "raw_elements s =
     (case raw_value s of None \<Rightarrow> []
      | Some (r, t) \<Rightarrow>
          (case skip_space t of [] \<Rightarrow> [r]
           | c # u \<Rightarrow> if c = CHR '','' \<and> length u < length s then r # raw_elements u else [r]))"
  by pat_completeness auto
termination by (relation "measure length") auto

function raw_members :: "string \<Rightarrow> (string \<times> string) list" where
  "raw_members s =
     (case skip_space s of [] \<Rightarrow> []
      | q # a \<Rightarrow>
          (case json_unquote a of None \<Rightarrow> []
           | Some (k, b) \<Rightarrow>
               (case raw_value (drop 1 (skip_space b)) of None \<Rightarrow> []
                | Some (r, t) \<Rightarrow>
                    (case skip_space t of [] \<Rightarrow> [(k, r)]
                     | c # u \<Rightarrow> if c = CHR '','' \<and> length u < length s then (k, r) # raw_members u else [(k, r)]))))"
  by pat_completeness auto
termination by (relation "measure length") auto

declare raw_elements.simps [simp del] raw_members.simps [simp del]

text \<open>The parts of a text that is an array, or an object.\<close>

definition elements_of :: "string \<Rightarrow> string list" where
  "elements_of raw =
     (let u = drop 1 (skip_space raw) in if take 1 (skip_space u) = '']'' then [] else raw_elements u)"

definition members_of :: "string \<Rightarrow> (string \<times> string) list" where
  "members_of raw =
     (let u = drop 1 (skip_space raw) in if take 1 (skip_space u) = ''}'' then [] else raw_members u)"

section \<open>Fields\<close>

definition to_string :: "string \<Rightarrow> string \<Rightarrow> string option" where
  "to_string raw old = (case parse_json raw of Some (JString s) \<Rightarrow> Some s | Some JNull \<Rightarrow> Some old | _ \<Rightarrow> None)"

definition to_bool :: "string \<Rightarrow> bool \<Rightarrow> bool option" where
  "to_bool raw old = (case parse_json raw of Some (JBool b) \<Rightarrow> Some b | Some JNull \<Rightarrow> Some old | _ \<Rightarrow> None)"

definition to_int64 :: "string \<Rightarrow> int \<Rightarrow> int option" where
  "to_int64 raw old = (case parse_json raw of Some (JNumber n) \<Rightarrow> ParseInt64 n | Some JNull \<Rightarrow> Some old | _ \<Rightarrow> None)"

text \<open>A \<open>float64\<close> is kept as its literal.\<close>

definition to_float :: "string \<Rightarrow> string \<Rightarrow> string option" where
  "to_float raw old =
     (case parse_json raw of
        Some (JNumber n) \<Rightarrow> if float_overflows n then None else Some n
      | Some JNull \<Rightarrow> Some old
      | _ \<Rightarrow> None)"

definition to_list :: "(string \<Rightarrow> 'a option) \<Rightarrow> string \<Rightarrow> 'a list option" where
  "to_list f raw =
     (case parse_json raw of
        Some (JArray vs) \<Rightarrow> those (map f (elements_of raw))
      | Some JNull \<Rightarrow> Some []
      | _ \<Rightarrow> None)"

text \<open>A handler gets a folded key, the bytes of its value and the struct so far; keys it does not know it
  ignores.\<close>

fun decode_fields :: "(string \<Rightarrow> string \<Rightarrow> 'r \<Rightarrow> 'r option) \<Rightarrow> (string \<times> string) list \<Rightarrow> 'r \<Rightarrow> 'r option" where
  "decode_fields h [] r = Some r"
| "decode_fields h ((k, v) # ms) r =
     (case h (fold_key k) v r of None \<Rightarrow> None | Some r1 \<Rightarrow> decode_fields h ms r1)"

definition to_struct :: "(string \<Rightarrow> string \<Rightarrow> 'r \<Rightarrow> 'r option) \<Rightarrow> string \<Rightarrow> 'r \<Rightarrow> 'r option" where
  "to_struct h raw r =
     (case parse_json raw of
        Some (JObject ms) \<Rightarrow> decode_fields h (members_of raw) r
      | Some JNull \<Rightarrow> Some r
      | _ \<Rightarrow> None)"

end
