(* ===== verification/Store_Binding.thy ===== *)
theory Store_Binding
  imports Store_Reconcile Go_Decode
begin

text \<open>
  The native binding of a session, \<open>SetNativeBinding\<close> of \<open>internal/storage/transitions.go\<close>: which
  harness session stands behind a logical session, with its tooling configuration. The
  configuration is checked before it is stored: a JSON object of known keys with values of their
  types, or a plain identifier, and nothing in it that looks like a credential.
\<close>

record NativeBinding =
  nb_LogicalSessionID :: string
  nb_NativeSessionID :: string
  nb_Harness :: string
  nb_Model :: string
  nb_WorkspaceMode :: string
  nb_ToolingConfig :: string

section \<open>Identifiers and suspicious names\<close>

definition identifier_chars :: string where "identifier_chars = upper_letters @ lower_letters @ digit_chars @ ''_-.''"

definition safeProfileIdentifierRegex :: "string \<Rightarrow> bool" where
  "safeProfileIdentifierRegex s \<longleftrightarrow> s \<noteq> [] \<and> list_all (\<lambda>c. c \<in> set identifier_chars) s"

definition ValidateSafeIdentifier :: "string \<Rightarrow> store_error option" where
  "ValidateSafeIdentifier id_text =
     (let trimmed = TrimSpace id_text in
      if trimmed = [] then Some (ErrMsg ''is empty'')
      else if 128 < length trimmed then Some (ErrMsg ''exceeds 128 bytes'')
      else if \<not> safeProfileIdentifierRegex trimmed then Some (ErrMsg ''contains characters outside [A-Za-z0-9_.-]'')
      else if trimmed = ''.'' \<or> trimmed = ''..'' then Some (ErrMsg ''is a reserved path component'')
      else None)"

definition envVarNameRegex :: "string \<Rightarrow> bool" where
  "envVarNameRegex s \<longleftrightarrow>
     (case s of [] \<Rightarrow> False
      | c # t \<Rightarrow> c \<in> set (upper_letters @ lower_letters @ ''_'') \<and> list_all (\<lambda>x. x \<in> set word_chars) t)"

definition sensitive_terms :: "string list" where
  "sensitive_terms = [''key'', ''token'', ''secret'', ''password'', ''passwd'', ''bearer'', ''auth'',
     ''credential'', ''api_key'', ''privkey'']"

definition isSensitiveKey :: "string \<Rightarrow> bool" where
  "isSensitiveKey k \<longleftrightarrow> list_ex (Contains (lower_ascii k)) sensitive_terms"

text \<open>
  \<open>(?i)[a-z0-9_]*(key|token|secret|password|bearer|auth)[a-z0-9_]*\s*=\<close>, searched for: the leading run
  may be empty, so a match is a term in any case, a run of word characters, white space and the sign.
  The longest runs lose no match, since the three classes are disjoint.
\<close>

definition folded_letter :: "char \<Rightarrow> string \<Rightarrow> nat" where
  "folded_letter c s =
     (case s of [] \<Rightarrow> 0
      | d # t \<Rightarrow> if lower_byte d = c then 1
                 else if c = CHR ''s'' \<and> starts_with long_s s then 2
                 else if c = CHR ''k'' \<and> starts_with kelvin s then 3 else 0)"

fun folded_term :: "string \<Rightarrow> string \<Rightarrow> string option" where
  "folded_term [] s = Some s"
| "folded_term (c # cs) s = (let n = folded_letter c s in if n = 0 then None else folded_term cs (drop n s))"

definition assignment_rest :: "string \<Rightarrow> bool" where
  "assignment_rest s \<longleftrightarrow>
     take 1 (dropWhile (\<lambda>c. c \<in> set regexp_spaces) (drop (snd (class_run (folded_member word_chars) s)) s)) = ''=''"

definition assignment_terms :: "string list" where
  "assignment_terms = [''key'', ''token'', ''secret'', ''password'', ''bearer'', ''auth'']"

definition assignment_here :: "string \<Rightarrow> bool" where
  "assignment_here s \<longleftrightarrow>
     list_ex (\<lambda>w. case folded_term w s of None \<Rightarrow> False | Some t \<Rightarrow> assignment_rest t) assignment_terms"

fun envAssignmentRegex :: "string \<Rightarrow> bool" where
  "envAssignmentRegex [] \<longleftrightarrow> assignment_here []"
| "envAssignmentRegex (c # s) \<longleftrightarrow> assignment_here (c # s) \<or> envAssignmentRegex s"

section \<open>Decoding into \<open>map[string]any\<close>\<close>

fun number_overflow :: "json \<Rightarrow> bool" where
  "number_overflow (JNumber lit) = float_overflows lit"
| "number_overflow (JArray vs) = list_ex number_overflow vs"
| "number_overflow (JObject ms) = list_ex (\<lambda>(k, v). number_overflow v) ms"
| "number_overflow v = False"

text \<open>The entries of the decoded map: a later duplicate of a key replaces the value.\<close>

fun last_entries :: "(string \<times> json) list \<Rightarrow> (string \<times> json) list" where
  "last_entries [] = []"
| "last_entries ((k, v) # ms) = (if k \<in> set (map fst ms) then last_entries ms else (k, v) # last_entries ms)"

definition Unmarshal_object :: "string \<Rightarrow> (string \<times> json) list option" where
  "Unmarshal_object s =
     (case parse_json s of
        Some JNull \<Rightarrow> Some []
      | Some (JObject ms) \<Rightarrow> if number_overflow (JObject ms) then None else Some (last_entries ms)
      | v \<Rightarrow> None)"

section \<open>The configuration\<close>

text \<open>\<open>True\<close> is Go's \<open>nil\<close>; every error wraps \<open>ErrDisallowedToolingConfig\<close>, whichever entry of
  the map is visited first.\<close>

lemma last_entries_subset: "set (last_entries ms) \<subseteq> set ms"
  by (induction ms rule: last_entries.induct) auto

lemma member_size: "(k, v) \<in> set ms \<Longrightarrow> size v < Suc (size_list (size_prod (\<lambda>x. 0) size) ms)"
  by (induction ms) auto

function validateConfigValue :: "json \<Rightarrow> bool" where
  "validateConfigValue (JString s) \<longleftrightarrow> \<not> containsDisallowedCredential s \<and> \<not> envAssignmentRegex s"
| "validateConfigValue (JArray vs) \<longleftrightarrow> (\<forall>v \<in> set vs. validateConfigValue v)"
| "validateConfigValue (JObject ms) \<longleftrightarrow>
     (\<forall>x \<in> set (last_entries ms).
        \<not> (isSensitiveKey (fst x) \<or> containsDisallowedCredential (fst x) \<or> envAssignmentRegex (fst x)) \<and>
        validateConfigValue (snd x))"
| "validateConfigValue JNull \<longleftrightarrow> True"
| "validateConfigValue (JBool b) \<longleftrightarrow> True"
| "validateConfigValue (JNumber n) \<longleftrightarrow> True"
  by pat_completeness auto
termination
proof (relation "measure size", goal_cases)
  case (2 vs v)
  then show ?case by (induction vs) auto
next
  case (3 ms x)
  then have "(fst x, snd x) \<in> set ms" using last_entries_subset by fastforce
  from member_size [OF this] show ?case by simp
qed auto

definition allowed_key :: "string \<Rightarrow> json \<Rightarrow> bool" where
  "allowed_key k v =
     (if k \<in> {''workspace_root'', ''model'', ''permission_mode'', ''log_level''}
        then (case v of JString s \<Rightarrow> True | _ \<Rightarrow> False)
      else if k \<in> {''timeout'', ''max_iterations''} then (case v of JNumber n \<Rightarrow> True | _ \<Rightarrow> False)
      else if k = ''read_only'' then (case v of JBool b \<Rightarrow> True | _ \<Rightarrow> False)
      else if k = ''env_allowlist'' then
        (case v of
           JArray items \<Rightarrow> list_all (\<lambda>i. case i of JString s \<Rightarrow> envVarNameRegex s \<and> \<not> isSensitiveKey s | _ \<Rightarrow> False) items
         | _ \<Rightarrow> False)
      else if k \<in> {''tooling'', ''tools''} then
        (case v of JString s \<Rightarrow> safeProfileIdentifierRegex s | JArray vs \<Rightarrow> True | JObject ms \<Rightarrow> True | _ \<Rightarrow> False)
      else False)"

definition validateToolingConfig :: "string \<Rightarrow> store_error option" where
  "validateToolingConfig configStr =
     (let trimmed = TrimSpace configStr in
      if trimmed = [] \<or> trimmed = ''{}'' then None
      else if containsDisallowedCredential trimmed then Some ErrDisallowedToolingConfig
      else if envAssignmentRegex trimmed then Some ErrDisallowedToolingConfig
      else case Unmarshal_object trimmed of
        None \<Rightarrow> if safeProfileIdentifierRegex trimmed then None else Some ErrDisallowedToolingConfig
      | Some ms \<Rightarrow>
          if list_all (\<lambda>x. allowed_key (fst x) (snd x) \<and> validateConfigValue (snd x)) ms then None
          else Some ErrDisallowedToolingConfig)"

section \<open>Setting the binding\<close>

definition binding_fingerprint :: "string \<Rightarrow> NativeBinding \<Rightarrow> string" where
  "binding_fingerprint sid b =
     computeFingerprint [''set_native_binding'', sid, nb_NativeSessionID b, nb_Harness b, nb_Model b,
       nb_WorkspaceMode b, nb_ToolingConfig b]"

text \<open>\<open>INSERT ... ON CONFLICT(session_id) DO UPDATE\<close>, with the foreign key.\<close>

definition upsert_binding :: "string \<Rightarrow> NativeBinding \<Rightarrow> time \<Rightarrow> DB \<Rightarrow> store_error + DB" where
  "upsert_binding sid b now d =
     (if session_row sid d = None then Inl (ErrConstraint ''FOREIGN KEY'')
      else if sel (\<lambda>r. b_session_id r = sid) (bindings d) = None then
        Inr (d\<lparr>bindings := bindings d @ [\<lparr>b_session_id = sid, b_native_session_id = nb_NativeSessionID b,
          b_harness = nb_Harness b, b_model = nb_Model b, b_workspace_mode = nb_WorkspaceMode b,
          b_config_json = nb_ToolingConfig b, b_created_at = now, b_updated_at = now\<rparr>]\<rparr>)
      else
        Inr (d\<lparr>bindings := upd (\<lambda>r. b_session_id r = sid)
          (\<lambda>r. r\<lparr>b_native_session_id := nb_NativeSessionID b, b_harness := nb_Harness b,
             b_model := nb_Model b, b_workspace_mode := nb_WorkspaceMode b,
             b_config_json := nb_ToolingConfig b, b_updated_at := now\<rparr>) (bindings d)\<rparr>))"

definition SetNativeBinding ::
  "string \<Rightarrow> string \<Rightarrow> string \<Rightarrow> int \<Rightarrow> NativeBinding \<Rightarrow> time \<Rightarrow> DB \<Rightarrow> store_error + OperationReceipt \<times> DB"
where
  "SetNativeBinding opID callerLease sessionID expectedVersion binding now d =
     (if expectedVersion \<le> 0 then Inl ErrInvalidExpectedVersion
      else case validateToolingConfig (nb_ToolingConfig binding) of Some e \<Rightarrow> Inl e | None \<Rightarrow>
      let fp = binding_fingerprint sessionID binding in
      and_then (authorizeSessionController sessionID callerLease False d) (\<lambda>g.
      and_then (checkOrRecordIdempotency opID ''set_native_binding'' fp d) (\<lambda>replay.
      case replay of Some receipt \<Rightarrow> Inr (receipt, d) | None \<Rightarrow>
      case joined_session sessionID d of None \<Rightarrow> Inl ErrNoRows | Some s \<Rightarrow>
      if s_row_version s \<noteq> expectedVersion then Inl ErrStaleUpdate
      else if s_lifecycle s = ''archived'' then Inl ErrSessionArchived
      else
        and_then (upsert_binding sessionID binding now d) (\<lambda>d1.
        and_then (update_session sessionID (bump (s_row_version s + 1) now) d1) (\<lambda>d2.
        let receipt = session_receipt opID ''set_native_binding'' sessionID [] (s_row_version s + 1) now []
        in and_then (recordJournalEntry opID ''set_native_binding'' fp (s_run_id s) sessionID []
              ''native_binding_set'' receipt callerLease now d2)
             (\<lambda>d3. Inr (receipt, d3)))))))"

end
