(* ===== verification/Store_Artifacts.thy ===== *)
theory Store_Artifacts
  imports Store_Binding "HOL-Library.Product_Lexorder"
begin

text \<open>
  The transactions on artifact revisions and proposal sets: the commit of a published artifact
  (\<open>PublishArtifact\<close> of \<open>internal/storage/artifact_store.go\<close>) and the sealing of a proposal set
  (\<open>ReleaseArtifacts\<close> of \<open>internal/storage/proposal_sets.go\<close>). The blobs are in \<open>Store_Archive\<close>.
\<close>

section \<open>Statements\<close>

definition is_artifact :: "string \<Rightarrow> int \<Rightarrow> ArtifactRow \<Rightarrow> bool" where
  "is_artifact aid rv a \<longleftrightarrow> a_artifact_id a = aid \<and> a_revision a = rv"

definition artifact_row :: "string \<Rightarrow> int \<Rightarrow> DB \<Rightarrow> ArtifactRow option" where
  "artifact_row aid rv d = sel (is_artifact aid rv) (artifacts d)"

definition insert_artifact :: "ArtifactRow \<Rightarrow> DB \<Rightarrow> store_error + DB" where
  "insert_artifact a d =
     (if a_revision a < 1 \<or> a_byte_size a < 0 then Inl (ErrConstraint ''artifact_revisions CHECK'')
      else if artifact_row (a_artifact_id a) (a_revision a) d \<noteq> None then Inl (ErrConstraint ''artifact_revisions'')
      else if run_row (a_run_id a) d = None then Inl (ErrConstraint ''FOREIGN KEY'')
      else if (case a_session_id a of None \<Rightarrow> False | Some sid \<Rightarrow> session_row sid d = None)
        then Inl (ErrConstraint ''FOREIGN KEY'')
      else Inr (d\<lparr>artifacts := artifacts d @ [a]\<rparr>))"

definition is_set :: "string \<Rightarrow> ProposalSetRow \<Rightarrow> bool" where
  "is_set dg q \<longleftrightarrow> q_digest q = dg"

definition set_row :: "string \<Rightarrow> DB \<Rightarrow> ProposalSetRow option" where
  "set_row dg d = sel (is_set dg) (proposal_sets d)"

definition insert_set :: "ProposalSetRow \<Rightarrow> DB \<Rightarrow> store_error + DB" where
  "insert_set q d =
     (if set_row (q_digest q) d \<noteq> None then Inl (ErrConstraint ''proposal_sets'')
      else if run_row (q_run_id q) d = None then Inl (ErrConstraint ''FOREIGN KEY'')
      else Inr (d\<lparr>proposal_sets := proposal_sets d @ [q]\<rparr>))"

definition is_member :: "string \<Rightarrow> string \<Rightarrow> int \<Rightarrow> MemberRow \<Rightarrow> bool" where
  "is_member dg aid rv m \<longleftrightarrow> m_set_digest m = dg \<and> m_artifact_id m = aid \<and> m_revision m = rv"

definition insert_member :: "MemberRow \<Rightarrow> DB \<Rightarrow> store_error + DB" where
  "insert_member m d =
     (if sel (is_member (m_set_digest m) (m_artifact_id m) (m_revision m)) (members d) \<noteq> None
        then Inl (ErrConstraint ''proposal_set_members'')
      else if set_row (m_set_digest m) d = None then Inl (ErrConstraint ''FOREIGN KEY'')
      else Inr (d\<lparr>members := members d @ [m]\<rparr>))"

text \<open>\<open>UPDATE artifact_revisions SET released = 1, proposal_set_digest = ?\<close>\<close>

definition release_row :: "string \<Rightarrow> ArtifactRow \<Rightarrow> ArtifactRow" where
  "release_row dg a = a\<lparr>a_released := True, a_proposal_set_digest := Some dg\<rparr>"

definition release_artifact :: "string \<Rightarrow> string \<Rightarrow> string \<Rightarrow> int \<Rightarrow> DB \<Rightarrow> DB" where
  "release_artifact dg rid aid rv d =
     d\<lparr>artifacts := upd (\<lambda>a. is_artifact aid rv a \<and> a_run_id a = rid) (release_row dg) (artifacts d)\<rparr>"

lemmas artifact_statement_defs = insert_artifact_def insert_set_def insert_member_def

definition next_revision :: "string \<Rightarrow> DB \<Rightarrow> int" where
  "next_revision aid d =
     foldr (\<lambda>a n. if a_artifact_id a = aid then max (a_revision a) n else n) (artifacts d) 0 + 1"

section \<open>Publishing\<close>

definition maxArtifactSize :: nat where "maxArtifactSize = 100 * 1024 * 1024"

definition publish_fingerprint :: "ArtifactMetadata \<Rightarrow> string \<Rightarrow> string" where
  "publish_fingerprint meta sanitized =
     computeFingerprint [''publish_artifact'', am_ID meta, am_RunID meta, am_SessionID meta, am_TurnKey meta,
       am_Name meta, sha256_hex sanitized, fmt_d (int (length sanitized))]"

text \<open>The committed metadata of an earlier publication, when the entry's payload has it.\<close>

definition published_entry :: "JournalRow \<Rightarrow> (string \<times> ArtifactMetadata) option" where
  "published_entry j =
     (case j_payload j of PayArtifact lease r m \<Rightarrow> if am_ID m \<noteq> [] then Some (lease, m) else None | _ \<Rightarrow> None)"

definition earlier_publication :: "string \<Rightarrow> DB \<Rightarrow> (string \<times> string \<times> string \<times> ArtifactMetadata) option" where
  "earlier_publication opID d =
     (case journal_row opID d of None \<Rightarrow> None
      | Some j \<Rightarrow> map_option (\<lambda>(lease, m). (j_command_type j, j_fingerprint j, lease, m)) (published_entry j))"

text \<open>The transaction at the end of a publication, once the blob is installed.\<close>

definition commit_publication ::
  "string \<Rightarrow> string \<Rightarrow> ArtifactMetadata \<Rightarrow> string \<Rightarrow> time \<Rightarrow> DB \<Rightarrow> store_error + ArtifactMetadata \<times> DB"
where
  "commit_publication opID callerLease meta content now d =
     (let sanitized = SanitizeText content; digest = sha256_hex sanitized;
          fp = publish_fingerprint meta sanitized
      in case earlier_publication opID d of
           Some (cmd, fp0, lease, m) \<Rightarrow>
             if lease \<noteq> callerLease then Inl ErrUnauthorizedOperation
             else if cmd \<noteq> ''publish_artifact'' \<or> fp0 \<noteq> fp then Inl ErrIdempotencyConflict
             else Inr (m, d)
         | None \<Rightarrow>
             let rv = next_revision (am_ID meta) d;
                 m = meta\<lparr>am_Digest := digest, am_ByteCount := int (length sanitized), am_Revision := rv,
                       am_CreatedAt := now\<rparr>;
                 receipt = session_receipt opID ''publish_artifact'' (am_SessionID meta) (am_TurnKey meta) rv now digest
             in and_then (insert_artifact
                  \<lparr>a_artifact_id = am_ID meta, a_revision = rv, a_run_id = am_RunID meta, a_kind = ''patch'',
                   a_digest = digest, a_byte_size = int (length sanitized), a_created_at = now,
                   a_session_id = None, a_attempt_id = None, a_released = False, a_proposal_set_digest = None\<rparr> d) (\<lambda>d1.
                and_then (insert_journal
                  \<lparr>j_op_id = opID, j_command_type = ''publish_artifact'', j_fingerprint = fp, j_run_id = am_RunID meta,
                   j_session_id = nonempty (am_SessionID meta), j_turn_key = nonempty (am_TurnKey meta),
                   j_event_kind = ''artifact_published'', j_payload = PayArtifact callerLease receipt m,
                   j_created_at = now\<rparr> d1) (\<lambda>d2. Inr (m, d2))))"

section \<open>Sealing\<close>

record ProposalMemberRef =
  pm_ArtifactID :: string
  pm_Revision :: int
  pm_Digest :: string

record canonicalMemberRecord =
  cm_ArtifactID :: string
  cm_AuthorContributor :: string
  cm_AuthorSessionID :: string
  cm_Digest :: string
  cm_Revision :: int

definition member_key :: "ProposalMemberRef \<Rightarrow> string \<times> int" where
  "member_key m = (pm_ArtifactID m, pm_Revision m)"

fun validate_members :: "(string \<times> int) set \<Rightarrow> ProposalMemberRef list \<Rightarrow> store_error option" where
  "validate_members seen [] = None"
| "validate_members seen (m # ms) =
     (if blank (pm_ArtifactID m) then Some (ErrMsg ''empty artifact id in member reference'')
      else if pm_Revision m \<le> 0 then Some (ErrMsg ''invalid revision in member reference'')
      else if blank (pm_Digest m) then Some (ErrMsg ''empty digest in member reference'')
      else if member_key m \<in> seen then Some (ErrMsg ''duplicate proposal member'')
      else validate_members (insert (member_key m) seen) ms)"

text \<open>The artifact of a reference in the run, with its author by the left join on sessions.\<close>

definition artifact_author :: "ArtifactRow \<Rightarrow> DB \<Rightarrow> string" where
  "artifact_author a d =
     (case a_session_id a of None \<Rightarrow> []
      | Some sid \<Rightarrow> (case session_row sid d of None \<Rightarrow> [] | Some s \<Rightarrow> s_contributor s))"

definition resolve_member :: "string \<Rightarrow> ProposalMemberRef \<Rightarrow> DB \<Rightarrow> store_error + canonicalMemberRecord" where
  "resolve_member rid m d =
     (case sel (\<lambda>a. is_artifact (pm_ArtifactID m) (pm_Revision m) a \<and> a_run_id a = rid) (artifacts d) of
        None \<Rightarrow> Inl ErrArtifactNotFound
      | Some a \<Rightarrow>
          if a_digest a \<noteq> pm_Digest m then Inl (ErrMsg ''digest mismatch for artifact'')
          else if artifact_author a d = [] then Inl (ErrMsg ''missing author contributor for artifact'')
          else Inr \<lparr>cm_ArtifactID = pm_ArtifactID m, cm_AuthorContributor = artifact_author a d,
            cm_AuthorSessionID = text_or_empty (a_session_id a), cm_Digest = a_digest a, cm_Revision = pm_Revision m\<rparr>)"

fun resolve_members ::
  "string \<Rightarrow> string set \<Rightarrow> string set \<Rightarrow> ProposalMemberRef list \<Rightarrow> DB \<Rightarrow> store_error + canonicalMemberRecord list"
where
  "resolve_members rid contributors authors [] d = Inr []"
| "resolve_members rid contributors authors (m # ms) d =
     and_then (resolve_member rid m d) (\<lambda>r.
       if cm_AuthorContributor r \<in> contributors
         then Inl (ErrMsg ''duplicate contributor proposal member: contributor already has a member'')
       else if cm_AuthorSessionID r \<noteq> [] \<and> cm_AuthorSessionID r \<in> authors
         then Inl (ErrMsg ''duplicate contributor proposal member: session already has a member'')
       else and_then (resolve_members rid (insert (cm_AuthorContributor r) contributors)
              (if cm_AuthorSessionID r \<noteq> [] then insert (cm_AuthorSessionID r) authors else authors) ms d)
              (\<lambda>rs. Inr (r # rs)))"

text \<open>The canonical order, the canonical JSON and the digest of a set.\<close>

definition canonical_key :: "canonicalMemberRecord \<Rightarrow> string \<times> string \<times> int" where
  "canonical_key r = (cm_AuthorContributor r, cm_ArtifactID r, cm_Revision r)"

definition canonical_members :: "canonicalMemberRecord list \<Rightarrow> canonicalMemberRecord list" where
  "canonical_members rs = sort_key canonical_key rs"

definition json_field :: "string \<Rightarrow> string \<Rightarrow> string" where
  "json_field name v = json_string False name @ '':'' @ v"

definition member_json :: "canonicalMemberRecord \<Rightarrow> string" where
  "member_json r =
     ''{'' @ comma_join
       [json_field ''artifact_id'' (json_string False (cm_ArtifactID r)),
        json_field ''author_contributor'' (json_string False (cm_AuthorContributor r)),
        json_field ''author_session_id'' (json_string False (cm_AuthorSessionID r)),
        json_field ''digest'' (json_string False (cm_Digest r)),
        json_field ''revision'' (fmt_d (cm_Revision r))] @ ''}''"

definition proposal_set_digest :: "canonicalMemberRecord list \<Rightarrow> string" where
  "proposal_set_digest rs =
     ''propset-v1:sha256:'' @ sha256_hex (''['' @ comma_join (map member_json rs) @ '']'')"

definition seal_fingerprint :: "string \<Rightarrow> string \<Rightarrow> string" where
  "seal_fingerprint runID digest = computeFingerprint [''release_artifacts'', runID, digest]"

definition member_row :: "string \<Rightarrow> canonicalMemberRecord \<Rightarrow> MemberRow" where
  "member_row dg r = \<lparr>m_set_digest = dg, m_artifact_id = cm_ArtifactID r, m_revision = cm_Revision r,
     m_digest = cm_Digest r, m_author_session_id = cm_AuthorSessionID r, m_author_contributor = cm_AuthorContributor r\<rparr>"

fun insert_members :: "string \<Rightarrow> canonicalMemberRecord list \<Rightarrow> DB \<Rightarrow> store_error + DB" where
  "insert_members dg [] d = Inr d"
| "insert_members dg (r # rs) d =
     and_then (insert_member (member_row dg r) d) (insert_members dg rs)"

fun release_members :: "string \<Rightarrow> string \<Rightarrow> canonicalMemberRecord list \<Rightarrow> DB \<Rightarrow> DB" where
  "release_members dg rid [] d = d"
| "release_members dg rid (r # rs) d =
     release_members dg rid rs (release_artifact dg rid (cm_ArtifactID r) (cm_Revision r) d)"

definition seal_replay :: "string \<Rightarrow> string \<Rightarrow> DB \<Rightarrow> store_error + ProposalSetReceipt option" where
  "seal_replay opID fp d =
     (case journal_row opID d of None \<Rightarrow> Inr None
      | Some j \<Rightarrow>
          if j_command_type j \<noteq> ''release_artifacts'' \<or> j_fingerprint j \<noteq> fp then Inl ErrIdempotencyConflict
          else case j_payload j of
            PayProposal lease r \<Rightarrow> if ps_ProposalSetDigest r = [] then Inl (ErrMsg ''unreadable committed receipt'') else Inr (Some r)
          | _ \<Rightarrow> Inl (ErrMsg ''unreadable committed receipt''))"

text \<open>The receipt a proposal set is sealed under, known once its members are resolved.\<close>

definition seal_records :: "string \<Rightarrow> ProposalMemberRef list \<Rightarrow> DB \<Rightarrow> store_error + canonicalMemberRecord list" where
  "seal_records runID ms d =
     and_then (resolve_members runID {} {} ms d) (\<lambda>rs. Inr (canonical_members rs))"

definition ReleaseArtifacts ::
  "string \<Rightarrow> string \<Rightarrow> string \<Rightarrow> ProposalMemberRef list \<Rightarrow> time \<Rightarrow> DB \<Rightarrow> store_error + ProposalSetReceipt \<times> DB"
where
  "ReleaseArtifacts opID callerLease runID ms now d =
     (if blank opID then Inl (ErrMsg ''empty operation id'')
      else if blank runID then Inl (ErrMsg ''empty run id'')
      else if ms = [] then Inl (ErrMsg ''empty proposal members'')
      else case validate_members {} ms of Some e \<Rightarrow> Inl e | None \<Rightarrow>
      and_then (classifyRunController runID callerLease d) (\<lambda>activeGen.
      and_then (seal_records runID ms d) (\<lambda>rs.
      let dg = proposal_set_digest rs; fp = seal_fingerprint runID dg in
      and_then (seal_replay opID fp d) (\<lambda>replay.
      case replay of Some receipt \<Rightarrow> Inr (receipt, d) | None \<Rightarrow>
      and_then (insert_set \<lparr>q_digest = dg, q_run_id = runID, q_released_by = opID,
        q_issuing_generation = activeGen, q_sealed_at = now\<rparr> d) (\<lambda>d1.
      and_then (insert_members dg rs d1) (\<lambda>d2.
      let d3 = release_members dg runID rs d2;
          receipt = \<lparr>ps_ProposalSetDigest = dg, ps_RunID = runID, ps_SealedAt = now\<rparr>
      in and_then (insert_journal
           \<lparr>j_op_id = opID, j_command_type = ''release_artifacts'', j_fingerprint = fp, j_run_id = runID,
            j_session_id = None, j_turn_key = None, j_event_kind = ''artifacts_released'',
            j_payload = PayProposal callerLease receipt, j_created_at = now\<rparr> d3)
           (\<lambda>d4. Inr (receipt, d4))))))))"

section \<open>What the transactions touch\<close>

lemma artifact_statements:
  "insert_artifact a d = Inr d' \<Longrightarrow> artifact_row (a_artifact_id a) (a_revision a) d = None \<and>
     run_row (a_run_id a) d \<noteq> None \<and> d' = d\<lparr>artifacts := artifacts d @ [a]\<rparr>"
  "insert_set q d = Inr d' \<Longrightarrow> set_row (q_digest q) d = None \<and> d' = d\<lparr>proposal_sets := proposal_sets d @ [q]\<rparr>"
  "insert_member m d = Inr d' \<Longrightarrow> set_row (m_set_digest m) d \<noteq> None \<and> d' = d\<lparr>members := members d @ [m]\<rparr>"
  by (auto simp: artifact_statement_defs split: if_splits)

lemma insert_members_Inr:
  "insert_members dg rs d = Inr d' \<Longrightarrow> d' = d\<lparr>members := members d @ map (member_row dg) rs\<rparr>"
proof (induction rs arbitrary: d)
  case (Cons r rs)
  then obtain d1 where d: "insert_member (member_row dg r) d = Inr d1" "insert_members dg rs d1 = Inr d'"
    by (auto simp: and_then_Inr_iff)
  from Cons.IH [OF d(2)] artifact_statements(3) [OF d(1)] show ?case by simp
qed simp

text \<open>The released rows, in one pass.\<close>

definition sealed_in :: "string \<Rightarrow> canonicalMemberRecord list \<Rightarrow> ArtifactRow \<Rightarrow> bool" where
  "sealed_in rid rs a \<longleftrightarrow> a_run_id a = rid \<and> (\<exists>r \<in> set rs. is_artifact (cm_ArtifactID r) (cm_Revision r) a)"

lemma release_row_simps [simp]:
  "is_artifact i v (release_row dg a) = is_artifact i v a" "a_run_id (release_row dg a) = a_run_id a"
  "a_artifact_id (release_row dg a) = a_artifact_id a" "a_revision (release_row dg a) = a_revision a"
  "a_digest (release_row dg a) = a_digest a" "a_session_id (release_row dg a) = a_session_id a"
  "a_byte_size (release_row dg a) = a_byte_size a" "a_attempt_id (release_row dg a) = a_attempt_id a"
  "a_kind (release_row dg a) = a_kind a" "a_created_at (release_row dg a) = a_created_at a"
  "release_row dg (release_row dg a) = release_row dg a"
  by (simp_all add: release_row_def is_artifact_def)

lemma release_members_rows:
  "release_members dg rid rs d = d\<lparr>artifacts := upd (sealed_in rid rs) (release_row dg) (artifacts d)\<rparr>"
proof (induction rs arbitrary: d)
  case Nil
  have "upd (sealed_in rid []) (release_row dg) (artifacts d) = artifacts d"
    by (simp add: upd_def sealed_in_def)
  then show ?case by simp
next
  case (Cons r rs)
  let ?p = "\<lambda>a. is_artifact (cm_ArtifactID r) (cm_Revision r) a \<and> a_run_id a = rid"
  have "sealed_in rid (r # rs) a \<longleftrightarrow> ?p a \<or> sealed_in rid rs a" for a
    by (auto simp: sealed_in_def)
  moreover have "sealed_in rid rs (release_row dg a) = sealed_in rid rs a" for a
    by (simp add: sealed_in_def)
  ultimately have "upd (sealed_in rid rs) (release_row dg) (upd ?p (release_row dg) (artifacts d)) =
    upd (sealed_in rid (r # rs)) (release_row dg) (artifacts d)"
    by (simp add: upd_def)
  then show ?case by (simp add: Cons.IH release_artifact_def)
qed

lemma upsert_binding_touches: "upsert_binding sid b now d = Inr d' \<Longrightarrow> \<exists>bs. d' = d\<lparr>bindings := bs\<rparr>"
  by (auto simp: upsert_binding_def split: if_splits)

lemma insert_journal_touches: "insert_journal j d = Inr d' \<Longrightarrow> d' = d\<lparr>journal := journal d @ [j]\<rparr>"
  by (auto simp: insert_journal_def split: if_splits)

lemma commit_publication_touches:
  assumes "commit_publication op l m c now d = Inr (r, d')"
  shows "\<exists>as js. d' = d\<lparr>artifacts := as, journal := js\<rparr>"
proof (cases "earlier_publication op d")
  case None
  then show ?thesis using assms
    by (auto simp: commit_publication_def Let_def and_then_Inr_iff dest!: artifact_statements(1) insert_journal_touches)
next
  case (Some x)
  then have "d' = d" using assms
    by (auto simp: commit_publication_def split: option.splits prod.splits if_splits)
  then show ?thesis by (intro exI [of _ "artifacts d"] exI [of _ "journal d"]) simp
qed

text \<open>What a successful sealing that is no replay has done.\<close>

lemma ReleaseArtifacts_cases:
  assumes "ReleaseArtifacts op l rid ms now d = Inr (r, d')"
  obtains (replay) "d' = d" "journal_row op d \<noteq> None"
  | (sealed) g rs j where "journal_row op d = None" "classifyRunController rid l d = Inr g"
      "validate_members {} ms = None" "ms \<noteq> []" "seal_records rid ms d = Inr rs"
      "r = \<lparr>ps_ProposalSetDigest = proposal_set_digest rs, ps_RunID = rid, ps_SealedAt = now\<rparr>"
      "set_row (proposal_set_digest rs) d = None"
      "d' = d\<lparr>proposal_sets := proposal_sets d @ [\<lparr>q_digest = proposal_set_digest rs, q_run_id = rid,
           q_released_by = op, q_issuing_generation = g, q_sealed_at = now\<rparr>],
         members := members d @ map (member_row (proposal_set_digest rs)) rs,
         artifacts := upd (sealed_in rid rs) (release_row (proposal_set_digest rs)) (artifacts d),
         journal := journal d @ [j]\<rparr>"
proof -
  have *: ?thesis if h: "ms \<noteq> []" "validate_members {} ms = None" "classifyRunController rid l d = Inr g"
    "seal_records rid ms d = Inr rs" "seal_replay op (seal_fingerprint rid (proposal_set_digest rs)) d = Inr rp"
    "(case rp of Some receipt \<Rightarrow> Inr (receipt, d) | None \<Rightarrow>
      and_then (insert_set \<lparr>q_digest = proposal_set_digest rs, q_run_id = rid, q_released_by = op,
        q_issuing_generation = g, q_sealed_at = now\<rparr> d) (\<lambda>d1.
      and_then (insert_members (proposal_set_digest rs) rs d1) (\<lambda>d2.
      and_then (insert_journal
           \<lparr>j_op_id = op, j_command_type = ''release_artifacts'',
            j_fingerprint = seal_fingerprint rid (proposal_set_digest rs), j_run_id = rid,
            j_session_id = None, j_turn_key = None, j_event_kind = ''artifacts_released'',
            j_payload = PayProposal l \<lparr>ps_ProposalSetDigest = proposal_set_digest rs, ps_RunID = rid, ps_SealedAt = now\<rparr>,
            j_created_at = now\<rparr> (release_members (proposal_set_digest rs) rid rs d2))
           (\<lambda>d4. Inr (\<lparr>ps_ProposalSetDigest = proposal_set_digest rs, ps_RunID = rid, ps_SealedAt = now\<rparr>, d4))))) = Inr (r, d')"
    for g rs rp
  proof (cases rp)
    case None
    have "journal_row op d = None"
      using h(5) None by (auto simp: seal_replay_def split: option.splits if_splits payload.splits)
    moreover obtain d1 d2 j where d: "insert_set \<lparr>q_digest = proposal_set_digest rs, q_run_id = rid,
        q_released_by = op, q_issuing_generation = g, q_sealed_at = now\<rparr> d = Inr d1"
      "insert_members (proposal_set_digest rs) rs d1 = Inr d2"
      "insert_journal j (release_members (proposal_set_digest rs) rid rs d2) = Inr d'"
      "r = \<lparr>ps_ProposalSetDigest = proposal_set_digest rs, ps_RunID = rid, ps_SealedAt = now\<rparr>"
      using h(6) None by (simp add: and_then_Inr_iff) blast
    ultimately show ?thesis
      using artifact_statements(2) [OF d(1)] insert_members_Inr [OF d(2)] insert_journal_touches [OF d(3)]
      by (intro sealed [OF _ h(3,2,1,4)]) (simp_all add: release_members_rows)
  next
    case (Some x)
    then show ?thesis
      using h(5,6) replay by (auto simp: seal_replay_def split: option.splits if_splits)
  qed
  have "ms \<noteq> [] \<and> validate_members {} ms = None"
    using assms by (cases "validate_members {} ms") (auto simp: ReleaseArtifacts_def split: if_splits)
  then have v: "ms \<noteq> []" "validate_members {} ms = None" by simp_all
  from assms show ?thesis
    unfolding ReleaseArtifacts_def Let_def v(2) option.case
    by (elim and_then_InrE guard_InrE) (erule (3) * [OF v])
qed

lemma ReleaseArtifacts_touches:
  "ReleaseArtifacts op l rid ms now d = Inr (r, d') \<Longrightarrow>
   \<exists>as qs ws js. d' = d\<lparr>proposal_sets := qs, members := ws, artifacts := as, journal := js\<rparr>"
  by (erule ReleaseArtifacts_cases; simp?; blast?)
    (rule exI [of _ "artifacts d"], rule exI [of _ "proposal_sets d"], rule exI [of _ "members d"],
     rule exI [of _ "journal d"], simp)

end
