(* ===== verification/Store_Journal.thy ===== *)
theory Store_Journal
  imports Store_Artifacts
begin

text \<open>
  The journal protocol every write command follows, as an interface: a command that succeeds
  either finds its operation in the journal, with the same fingerprint, and returns the recorded
  receipt without changing anything, or appends exactly one entry, with its operation identifier
  and fingerprint, whose receipt is the one it returns. Replay, append-only growth and conflict
  detection are proved from that once; each command of the store is an instance.
\<close>

lemma insert_journal_Inr:
  "insert_journal j d = Inr d' \<Longrightarrow> journal_row (j_op_id j) d = None \<and> d' = d\<lparr>journal := journal d @ [j]\<rparr>"
  by (auto simp: insert_journal_def split: if_splits)

lemma recordJournalEntry_Inr:
  "recordJournalEntry opID cmd fp runID sid k kind receipt lease now d = Inr d' \<Longrightarrow>
   journal_row opID d = None \<and>
   d' = d\<lparr>journal := journal d @
     [\<lparr>j_op_id = opID, j_command_type = cmd, j_fingerprint = fp, j_run_id = runID,
       j_session_id = nonempty sid, j_turn_key = nonempty k, j_event_kind = kind,
       j_payload = PayReceipt lease receipt, j_created_at = now\<rparr>]\<rparr>"
  unfolding recordJournalEntry_def by (drule insert_journal_Inr) simp

lemma update_session_Inr:
  "update_session sid f d = Inr d' \<Longrightarrow>
   d' = d\<lparr>sessions := upd (\<lambda>s. s_session_id s = sid) f (sessions d)\<rparr> \<and>
   (\<forall>s \<in> set (sessions d). s_session_id s = sid \<longrightarrow> session_check (f s))"
  by (auto simp: update_session_def list_all_iff split: if_splits)

lemma checkOrRecordIdempotency_None:
  "checkOrRecordIdempotency opID cmd fp d = Inr None \<Longrightarrow> journal_row opID d = None"
  by (auto simp: checkOrRecordIdempotency_def split: option.splits if_splits)

lemma checkOrRecordIdempotency_Some:
  "checkOrRecordIdempotency opID cmd fp d = Inr (Some r) \<Longrightarrow>
   \<exists>j. journal_row opID d = Some j \<and> j_command_type j = cmd \<and> j_fingerprint j = fp
     \<and> r = decode_receipt (j_payload j)"
  by (auto simp: checkOrRecordIdempotency_def split: option.splits if_splits)

lemmas step_dests = insert_journal_Inr recordJournalEntry_Inr update_session_Inr
  checkOrRecordIdempotency_None checkOrRecordIdempotency_Some

section \<open>The protocol as an interface\<close>

locale journaled =
  fixes exec :: "'a \<Rightarrow> time \<Rightarrow> DB \<Rightarrow> store_error + 'r \<times> DB"
    and op :: "'a \<Rightarrow> string"
    and fingerprint :: "'a \<Rightarrow> DB \<Rightarrow> string"
    and view :: "'r \<Rightarrow> 'v"
    and decode :: "'a \<Rightarrow> payload \<Rightarrow> 'v"
    and replays :: "'a \<Rightarrow> bool"
  assumes commit: "exec a now d = Inr (r, d') \<Longrightarrow>
    (case journal_row (op a) d of
       Some j \<Rightarrow> d' = d \<and> j_fingerprint j = fingerprint a d \<and> (replays a \<longrightarrow> view r = decode a (j_payload j))
     | None \<Rightarrow> \<exists>j. journal d' = journal d @ [j] \<and> j_op_id j = op a \<and>
         j_fingerprint j = fingerprint a d \<and> (replays a \<longrightarrow> view r = decode a (j_payload j)))"
begin

lemma known_operation_changes_nothing:
  "exec a now d = Inr (r, d') \<Longrightarrow> journal_row (op a) d \<noteq> None \<Longrightarrow> d' = d"
  by (drule commit) (auto split: option.splits)

lemma fresh_operation_is_recorded:
  assumes "exec a now d = Inr (r, d')" "journal_row (op a) d = None"
  obtains j where "journal d' = journal d @ [j]" "j_op_id j = op a" "j_fingerprint j = fingerprint a d"
    "replays a \<longrightarrow> view r = decode a (j_payload j)"
  using commit [OF assms(1)] assms(2) by auto

lemma recorded_afterwards:
  assumes "exec a now d = Inr (r, d')"
  shows "\<exists>j. journal_row (op a) d' = Some j \<and> (replays a \<longrightarrow> view r = decode a (j_payload j))"
proof (cases "journal_row (op a) d")
  case None
  with assms obtain j where "journal d' = journal d @ [j]" "j_op_id j = op a"
    "replays a \<longrightarrow> view r = decode a (j_payload j)"
    by (rule fresh_operation_is_recorded)
  with None show ?thesis by (auto simp: journal_row_def)
next
  case (Some j)
  then show ?thesis using commit [OF assms] by auto
qed

lemma append_only:
  assumes "exec a now d = Inr (r, d')"
  shows "journal d' = journal d \<or> (\<exists>j. journal d' = journal d @ [j] \<and> journal_row (j_op_id j) d = None)"
  using commit [OF assms] by (cases "journal_row (op a) d") auto

lemma retry:
  assumes "exec a now d = Inr (r, d')" "journal_row (op a) d2 = journal_row (op a) d'"
    "exec a now2 d2 = Inr (r2, d3)"
  shows "d3 = d2 \<and> (replays a \<longrightarrow> view r2 = view r)"
proof -
  obtain j where "journal_row (op a) d2 = Some j" "replays a \<longrightarrow> view r = decode a (j_payload j)"
    using recorded_afterwards [OF assms(1)] assms(2) by auto
  then show ?thesis using commit [OF assms(3)] by auto
qed

lemma conflicting_reuse:
  assumes "journal_row (op a) d = Some j" "j_fingerprint j \<noteq> fingerprint a d"
  shows "\<exists>e. exec a now d = Inl e"
proof (cases "exec a now d")
  case (Inr p)
  then show ?thesis using commit [of a now d "fst p" "snd p"] assms by auto
qed blast

end

end
