(* ===== verification/Store_System.thy ===== *)
theory Store_System
  imports Store_Journal
begin

text \<open>
  The store as a whole: the modelled write commands as one datatype, what each does to the
  database, and runs of commands from the empty database. Every command obeys the journal
  protocol; replay and append-only growth hold for the store by interpretation.
\<close>

section \<open>Commands\<close>

datatype store_op =
    CmdCreateRun string string string string string string
  | CmdCreateSession string string SessionRecord
  | CmdQueue string string string int PendingPrompt
  | CmdReplace string string string int PendingPrompt
  | CmdDiscard string string string int string
  | CmdRelease string string string int string
  | CmdCancel string string string int string
  | CmdTerminal string string string int string TurnStatus string
  | CmdHostLoss string string string int
  | CmdReconcile string ExecutionRef RecoveryRef ReconciliationOutcome
  | CmdObservation string string string string string
  | CmdConnection string string string int ControllerConnection
  | CmdArchive string string string int
  | CmdDecision string string string string int string
  | CmdOutcome string ExecutionRef TurnStatus string
  | CmdAcknowledge string ExecutionRef string
  | CmdAdopt string string string string string "OperatorRecovery option" string
  | CmdHandoff string string string nat string string string
  | CmdRevoke string string string "OperatorRecovery option"
  | CmdRecover string string string nat
  | CmdConnect string string string nat string string
  | CmdDisconnect string string string string nat
  | CmdBinding string string string int NativeBinding
  | CmdPublish string string ArtifactMetadata string
  | CmdSeal string string string "ProposalMemberRef list"

datatype store_result =
    ResReceipt OperationReceipt | ResRelease ReleaseResult | ResGrant ControllerGrantReceipt
  | ResConnect ConnectReceipt | ResArtifact ArtifactMetadata | ResProposal ProposalSetReceipt

definition as_result :: "('r \<Rightarrow> store_result) \<Rightarrow> store_error + 'r \<times> DB \<Rightarrow> store_error + store_result \<times> DB" where
  "as_result c x = (case x of Inl e \<Rightarrow> Inl e | Inr (r, d) \<Rightarrow> Inr (c r, d))"

fun store_exec :: "store_op \<Rightarrow> time \<Rightarrow> DB \<Rightarrow> store_error + store_result \<times> DB" where
  "store_exec (CmdCreateRun op rid bd sd pd l) now d = as_result ResReceipt (CreateRun op rid bd sd pd l now d)"
| "store_exec (CmdCreateSession op l s) now d = as_result ResReceipt (CreateSession op l s now d)"
| "store_exec (CmdQueue op l sid v p) now d = as_result ResReceipt (QueuePrompt op l sid v p now d)"
| "store_exec (CmdReplace op l sid v p) now d = as_result ResReceipt (ReplacePendingPrompt op l sid v p now d)"
| "store_exec (CmdDiscard op l sid v k) now d = as_result ResReceipt (DiscardPendingPrompt op l sid v k now d)"
| "store_exec (CmdRelease op l sid v k) now d = as_result ResRelease (ReleaseTurn op l sid v k now d)"
| "store_exec (CmdCancel op l sid v k) now d = as_result ResReceipt (StoreRequestCancel op l sid v k now d)"
| "store_exec (CmdTerminal op l sid v k st r) now d =
     as_result ResReceipt (RecordTerminalOutcome op l sid v k st r now d)"
| "store_exec (CmdHostLoss op l sid v) now d = as_result ResReceipt (StoreRecordHostLoss op l sid v now d)"
| "store_exec (CmdReconcile op er rr oc) now d = as_result ResReceipt (ReconcileSession op er rr oc now d)"
| "store_exec (CmdObservation op l sid k ph) now d =
     as_result ResReceipt (RecordDispatchObservation op l sid k ph now d)"
| "store_exec (CmdConnection op l sid v c) now d = as_result ResReceipt (SetControllerConnection op l sid v c now d)"
| "store_exec (CmdArchive op l sid v) now d = as_result ResReceipt (ArchiveSession op l sid v now d)"
| "store_exec (CmdDecision op l rid a n p) now d = as_result ResReceipt (RecordDecision op l rid a n p now d)"
| "store_exec (CmdOutcome op er st r) now d =
     as_result ResReceipt (RecordObservedExecutionOutcome op er st r now d)"
| "store_exec (CmdAcknowledge op er ph) now d =
     as_result ResReceipt (RecordObservedDispatchAcknowledgement op er ph now d)"
| "store_exec (CmdAdopt op rid h c b rv l) now d = as_result ResGrant (AdoptController op rid h c b rv l now d)"
| "store_exec (CmdHandoff op rid l g h c n) now d = as_result ResGrant (HandoffController op rid l g h c n now d)"
| "store_exec (CmdRevoke op rid l rv) now d = as_result ResReceipt (RevokeController op rid l rv now d)"
| "store_exec (CmdRecover op rid src g) now d = as_result ResGrant (RecoverControllerCredential op rid src g now d)"
| "store_exec (CmdConnect op rid l g inst att) now d =
     as_result ResConnect (ConnectRunController op rid l g inst att now d)"
| "store_exec (CmdDisconnect op rid l att g) now d =
     as_result ResReceipt (DisconnectRunController op rid l att g now d)"
| "store_exec (CmdBinding op l sid v b) now d = as_result ResReceipt (SetNativeBinding op l sid v b now d)"
| "store_exec (CmdPublish op l m c) now d = as_result ResArtifact (commit_publication op l m c now d)"
| "store_exec (CmdSeal op l rid ms) now d = as_result ResProposal (ReleaseArtifacts op l rid ms now d)"

fun op_id :: "store_op \<Rightarrow> string" where
  "op_id (CmdCreateRun op rid bd sd pd l) = op"
| "op_id (CmdCreateSession op l s) = op"
| "op_id (CmdQueue op l sid v p) = op"
| "op_id (CmdReplace op l sid v p) = op"
| "op_id (CmdDiscard op l sid v k) = op"
| "op_id (CmdRelease op l sid v k) = op"
| "op_id (CmdCancel op l sid v k) = op"
| "op_id (CmdTerminal op l sid v k st r) = op"
| "op_id (CmdHostLoss op l sid v) = op"
| "op_id (CmdReconcile op er rr oc) = op"
| "op_id (CmdObservation op l sid k ph) = op"
| "op_id (CmdConnection op l sid v c) = op"
| "op_id (CmdArchive op l sid v) = op"
| "op_id (CmdDecision op l rid a n p) = op"
| "op_id (CmdOutcome op er st r) = op"
| "op_id (CmdAcknowledge op er ph) = op"
| "op_id (CmdAdopt op rid h c b rv l) = op"
| "op_id (CmdHandoff op rid l g h c n) = op"
| "op_id (CmdRevoke op rid l rv) = op"
| "op_id (CmdRecover op rid src g) = op"
| "op_id (CmdConnect op rid l g inst att) = op"
| "op_id (CmdDisconnect op rid l att g) = op"
| "op_id (CmdBinding op l sid v b) = op"
| "op_id (CmdPublish op l m c) = op"
| "op_id (CmdSeal op l rid ms) = op"

text \<open>The fingerprint a command is recorded under; a revocation's names the generation it revokes, a
  sealing's the digest of the members as they are stored.\<close>

definition revoke_command_fingerprint ::
  "string \<Rightarrow> string \<Rightarrow> OperatorRecovery option \<Rightarrow> DB \<Rightarrow> string"
where
  "revoke_command_fingerprint rid l rv d =
     (case revoke_target rid l rv d of Inl e \<Rightarrow> [] | Inr (g, t, m) \<Rightarrow> revoke_fingerprint rid t m)"

definition seal_command_fingerprint :: "string \<Rightarrow> ProposalMemberRef list \<Rightarrow> DB \<Rightarrow> string" where
  "seal_command_fingerprint rid ms d =
     (case seal_records rid ms d of Inl e \<Rightarrow> [] | Inr rs \<Rightarrow> seal_fingerprint rid (proposal_set_digest rs))"

fun terminal_command_text :: "TurnStatus \<Rightarrow> string" where
  "terminal_command_text st = text_or_empty (terminal_text st)"

fun fingerprint_of :: "store_op \<Rightarrow> DB \<Rightarrow> string" where
  "fingerprint_of (CmdCreateRun op rid bd sd pd l) d = computeFingerprint [''create_run'', rid, bd, sd, pd, l]"
| "fingerprint_of (CmdCreateSession op l s) d = create_session_fingerprint s"
| "fingerprint_of (CmdQueue op l sid v p) d = queue_fingerprint sid p"
| "fingerprint_of (CmdReplace op l sid v p) d = replace_fingerprint sid p"
| "fingerprint_of (CmdDiscard op l sid v k) d = discard_fingerprint sid k"
| "fingerprint_of (CmdRelease op l sid v k) d = release_fingerprint sid k"
| "fingerprint_of (CmdCancel op l sid v k) d = cancel_fingerprint sid k"
| "fingerprint_of (CmdTerminal op l sid v k st r) d =
     terminal_fingerprint sid k (terminal_command_text st) (SanitizeText r)"
| "fingerprint_of (CmdHostLoss op l sid v) d = host_loss_fingerprint sid"
| "fingerprint_of (CmdReconcile op er rr oc) d = reconcile_fingerprint er rr oc"
| "fingerprint_of (CmdObservation op l sid k ph) d = observation_fingerprint sid k ph"
| "fingerprint_of (CmdConnection op l sid v c) d = connection_fingerprint sid c"
| "fingerprint_of (CmdArchive op l sid v) d = archive_fingerprint sid"
| "fingerprint_of (CmdDecision op l rid a n p) d = decision_fingerprint rid a n (SanitizeText p)"
| "fingerprint_of (CmdOutcome op er st r) d = outcome_fingerprint er (terminal_command_text st) (SanitizeText r)"
| "fingerprint_of (CmdAcknowledge op er ph) d = acknowledgement_fingerprint er ph"
| "fingerprint_of (CmdAdopt op rid h c b rv l) d = adopt_fingerprint rid h c rv"
| "fingerprint_of (CmdHandoff op rid l g h c n) d = handoff_fingerprint rid h c g"
| "fingerprint_of (CmdRevoke op rid l rv) d = revoke_command_fingerprint rid l rv d"
| "fingerprint_of (CmdRecover op rid src g) d = recover_fingerprint rid src g"
| "fingerprint_of (CmdConnect op rid l g inst att) d = connect_fingerprint rid g"
| "fingerprint_of (CmdDisconnect op rid l att g) d = disconnect_fingerprint rid att g"
| "fingerprint_of (CmdBinding op l sid v b) d = binding_fingerprint sid b"
| "fingerprint_of (CmdPublish op l m c) d = publish_fingerprint m (SanitizeText c)"
| "fingerprint_of (CmdSeal op l rid ms) d = seal_command_fingerprint rid ms d"

text \<open>The command type a command is recorded under.\<close>

fun command_type :: "store_op \<Rightarrow> string" where
  "command_type (CmdCreateRun op rid bd sd pd l) = ''create_run''"
| "command_type (CmdCreateSession op l s) = ''create_session''"
| "command_type (CmdQueue op l sid v p) = ''queue_prompt''"
| "command_type (CmdReplace op l sid v p) = ''replace_pending_prompt''"
| "command_type (CmdDiscard op l sid v k) = ''discard_pending_prompt''"
| "command_type (CmdRelease op l sid v k) = ''release_turn''"
| "command_type (CmdCancel op l sid v k) = ''request_cancel''"
| "command_type (CmdTerminal op l sid v k st r) = ''record_terminal_outcome''"
| "command_type (CmdHostLoss op l sid v) = ''record_host_loss''"
| "command_type (CmdReconcile op er rr oc) = ''reconcile_session''"
| "command_type (CmdObservation op l sid k ph) = ''record_dispatch_observation''"
| "command_type (CmdConnection op l sid v c) = ''set_controller_connection''"
| "command_type (CmdArchive op l sid v) = ''archive_session''"
| "command_type (CmdDecision op l rid a n p) = ''record_decision''"
| "command_type (CmdOutcome op er st r) = ''record_observed_execution_outcome''"
| "command_type (CmdAcknowledge op er ph) = ''record_dispatch_observation''"
| "command_type (CmdAdopt op rid h c b rv l) = ''adopt_controller''"
| "command_type (CmdHandoff op rid l g h c n) = ''handoff_controller''"
| "command_type (CmdRevoke op rid l rv) = ''revoke_controller''"
| "command_type (CmdRecover op rid src g) = ''recover_controller_credential''"
| "command_type (CmdConnect op rid l g inst att) = ''connect_run_controller''"
| "command_type (CmdDisconnect op rid l att g) = ''disconnect_run_controller''"
| "command_type (CmdBinding op l sid v b) = ''set_native_binding''"
| "command_type (CmdPublish op l m c) = ''publish_artifact''"
| "command_type (CmdSeal op l rid ms) = ''release_artifacts''"

text \<open>The operation receipt inside a result, if it has one.\<close>

fun receipt_of :: "store_result \<Rightarrow> OperationReceipt" where
  "receipt_of (ResReceipt r) = r"
| "receipt_of (ResRelease r) = rr_Operation (rl_Receipt r)"
| "receipt_of (ResGrant r) = cg_Operation r"
| "receipt_of (ResConnect r) = cn_Operation r"
| "receipt_of (ResArtifact m) = zero_receipt"
| "receipt_of (ResProposal p) = zero_receipt"

text \<open>What a command answers with, and what a replay reads back from the journal. A credential
  recovery resolves its source anew on every call and does not replay an answer.\<close>

datatype answer = AnsOperation OperationReceipt | AnsArtifact ArtifactMetadata | AnsProposal ProposalSetReceipt

fun answer_of :: "store_result \<Rightarrow> answer" where
  "answer_of (ResArtifact m) = AnsArtifact m"
| "answer_of (ResProposal p) = AnsProposal p"
| "answer_of r = AnsOperation (receipt_of r)"

fun decode_metadata :: "payload \<Rightarrow> ArtifactMetadata" where
  "decode_metadata (PayArtifact l r m) = m"
| "decode_metadata p = \<lparr>am_ID = [], am_RunID = [], am_SessionID = [], am_TurnKey = [], am_Name = [],
     am_Digest = [], am_ByteCount = 0, am_Revision = 0, am_CreatedAt = 0\<rparr>"

fun decode_proposal :: "payload \<Rightarrow> ProposalSetReceipt" where
  "decode_proposal (PayProposal l r) = r"
| "decode_proposal p = \<lparr>ps_ProposalSetDigest = [], ps_RunID = [], ps_SealedAt = 0\<rparr>"

fun decode_answer :: "store_op \<Rightarrow> payload \<Rightarrow> answer" where
  "decode_answer (CmdPublish op l m c) p = AnsArtifact (decode_metadata p)"
| "decode_answer (CmdSeal op l rid ms) p = AnsProposal (decode_proposal p)"
| "decode_answer c p = AnsOperation (decode_receipt p)"

fun replays_receipt :: "store_op \<Rightarrow> bool" where
  "replays_receipt (CmdRecover op rid src g) = False"
| "replays_receipt c = True"

section \<open>Every command obeys the journal protocol\<close>

definition committed :: "string \<Rightarrow> string \<Rightarrow> string \<Rightarrow> OperationReceipt \<Rightarrow> DB \<Rightarrow> DB \<Rightarrow> bool" where
  "committed opID cmd fp r d d' \<longleftrightarrow>
     (case journal_row opID d of
        Some j \<Rightarrow> d' = d \<and> j_fingerprint j = fp \<and> r = decode_receipt (j_payload j)
      | None \<Rightarrow> \<exists>j. journal d' = journal d @ [j] \<and> j_op_id j = opID \<and> j_command_type j = cmd \<and>
          j_fingerprint j = fp \<and> r = decode_receipt (j_payload j))"

lemma projection_journal [simp]:
  "journal (projectSessionConnection rid st now d) = journal d"
  "journal (update_leases p f d) = journal d" "journal (update_run rid g d) = journal d"
  "journal (update_turn sid k h d) = journal d" "journal (update_intent sid k i d) = journal d"
  by (simp_all add: projectSessionConnection_def update_leases_def update_run_def update_turn_def
      update_intent_def)

lemma journal_row_cong: "journal d' = journal d \<Longrightarrow> journal_row op d' = journal_row op d"
  by (simp add: journal_row_def)

lemma insert_journals:
  "insert_run r d = Inr d' \<Longrightarrow> journal d' = journal d"
  "insert_session s d = Inr d' \<Longrightarrow> journal d' = journal d"
  "insert_pending p d = Inr d' \<Longrightarrow> journal d' = journal d"
  "insert_turn t d = Inr d' \<Longrightarrow> journal d' = journal d"
  "insert_intent i d = Inr d' \<Longrightarrow> journal d' = journal d"
  "insert_lease l d = Inr d' \<Longrightarrow> journal d' = journal d"
  "update_session sid f d = Inr d' \<Longrightarrow> journal d' = journal d"
  "insert_decision x d = Inr d' \<Longrightarrow> journal d' = journal d"
  "upsert_binding sid b now d = Inr d' \<Longrightarrow> journal d' = journal d"
  "insert_artifact a d = Inr d' \<Longrightarrow> journal d' = journal d"
  "insert_set q d = Inr d' \<Longrightarrow> journal d' = journal d"
  "insert_member m d = Inr d' \<Longrightarrow> journal d' = journal d"
  by (auto simp: statement_defs artifact_statement_defs insert_decision_def upsert_binding_def split: if_splits)

lemma insert_members_journal: "insert_members dg rs d = Inr d' \<Longrightarrow> journal d' = journal d"
  by (induction rs arbitrary: d) (auto simp: and_then_Inr_iff dest: insert_journals)

lemma release_members_journal [simp]: "journal (release_members dg rid rs d) = journal d"
  by (induction rs arbitrary: d) (simp_all add: release_artifact_def)

lemma record_commits:
  assumes "recordJournalEntry opID cmd fp rid sid k kind r l now d1 = Inr d'" "journal d1 = journal d"
  shows "committed opID cmd fp r d d'"
  using recordJournalEntry_Inr [OF assms(1)] assms(2)
  by (auto simp: committed_def journal_row_cong [of d1 d])

lemma replay_commits:
  "checkOrRecordIdempotency opID cmd fp d = Inr (Some r) \<Longrightarrow> committed opID cmd fp r d d"
  by (drule checkOrRecordIdempotency_Some) (auto simp: committed_def)

lemmas commit_rules = record_commits replay_commits

lemma CreateRun_commits: "CreateRun op rid bd sd pd l now d = Inr (r, d') \<Longrightarrow>
    committed op ''create_run'' (computeFingerprint [''create_run'', rid, bd, sd, pd, l]) r d d'"
  unfolding CreateRun_def Let_def
  by (elim success_elims; simp; fastforce intro: commit_rules dest!: insert_journals)

lemma CreateSession_commits:
  "CreateSession op l s now d = Inr (r, d') \<Longrightarrow> committed op ''create_session'' (create_session_fingerprint s) r d d'"
  unfolding CreateSession_def Let_def
  by (elim success_elims; simp; fastforce intro: commit_rules dest!: insert_journals)

lemma QueuePrompt_commits:
  "QueuePrompt op l sid v p now d = Inr (r, d') \<Longrightarrow> committed op ''queue_prompt'' (queue_fingerprint sid p) r d d'"
  unfolding QueuePrompt_def Let_def
  by (elim success_elims; simp; fastforce intro: commit_rules dest!: insert_journals)

lemma ReplacePendingPrompt_commits:
  "ReplacePendingPrompt op l sid v p now d = Inr (r, d') \<Longrightarrow> committed op ''replace_pending_prompt'' (replace_fingerprint sid p) r d d'"
  unfolding ReplacePendingPrompt_def Let_def
  by (elim success_elims; simp; fastforce intro: commit_rules dest!: insert_journals)

lemma DiscardPendingPrompt_commits:
  "DiscardPendingPrompt op l sid v k now d = Inr (r, d') \<Longrightarrow> committed op ''discard_pending_prompt'' (discard_fingerprint sid k) r d d'"
  unfolding DiscardPendingPrompt_def Let_def
  by (elim success_elims; simp; fastforce intro: commit_rules dest!: insert_journals)

lemma StoreRequestCancel_commits:
  "StoreRequestCancel op l sid v k now d = Inr (r, d') \<Longrightarrow> committed op ''request_cancel'' (cancel_fingerprint sid k) r d d'"
  unfolding StoreRequestCancel_def Let_def
  by (elim success_elims; simp; fastforce intro: commit_rules dest!: insert_journals)

lemma end_turn_journal: "end_turn sid k st res s now d = Inr d' \<Longrightarrow> journal d' = journal d"
  unfolding end_turn_def Let_def by (drule insert_journals) simp

lemma RecordTerminalOutcome_commits:
  "RecordTerminalOutcome op l sid v k st res now d = Inr (r, d') \<Longrightarrow>
   committed op ''record_terminal_outcome'' (terminal_fingerprint sid k (terminal_command_text st) (SanitizeText res)) r d d'"
  unfolding RecordTerminalOutcome_def Let_def
  by (elim success_elims; simp add: text_or_empty_def;
      fastforce intro: commit_rules dest!: insert_journals end_turn_journal)

lemma StoreRecordHostLoss_commits:
  "StoreRecordHostLoss op l sid v now d = Inr (r, d') \<Longrightarrow> committed op ''record_host_loss'' (host_loss_fingerprint sid) r d d'"
  unfolding StoreRecordHostLoss_def Let_def
  by (elim success_elims; simp; fastforce intro: commit_rules dest!: insert_journals)

lemma reconcile_journal:
  "reconcile_active sid k s oc now d = Inr (p, d') \<Longrightarrow> journal d' = journal d"
  "reconcile_parked sid s oc now d = Inr (p, d') \<Longrightarrow> journal d' = journal d"
  unfolding reconcile_active_def reconcile_parked_def Let_def
  by (auto split: ReconciliationStatus.splits option.splits elim!: and_then_InrE dest!: insert_journals)

lemma ReconcileSession_commits:
  "ReconcileSession op er ref oc now d = Inr (r, d') \<Longrightarrow> committed op ''reconcile_session'' (reconcile_fingerprint er ref oc) r d d'"
  unfolding ReconcileSession_def Let_def
  by (elim success_elims; simp; fastforce intro: commit_rules dest!: reconcile_journal)

lemma RecordDispatchObservation_commits:
  "RecordDispatchObservation op l sid k ph now d = Inr (r, d') \<Longrightarrow>
   committed op ''record_dispatch_observation'' (observation_fingerprint sid k ph) r d d'"
  unfolding RecordDispatchObservation_def Let_def
  by (elim success_elims; simp; fastforce intro: commit_rules dest!: insert_journals)

lemma SetControllerConnection_commits:
  "SetControllerConnection op l sid v c now d = Inr (r, d') \<Longrightarrow> committed op ''set_controller_connection'' (connection_fingerprint sid c) r d d'"
  unfolding SetControllerConnection_def Let_def
  by (elim success_elims; simp; fastforce intro: commit_rules dest!: insert_journals)

lemma ArchiveSession_commits:
  "ArchiveSession op l sid v now d = Inr (r, d') \<Longrightarrow> committed op ''archive_session'' (archive_fingerprint sid) r d d'"
  unfolding ArchiveSession_def Let_def
  by (elim success_elims; simp; fastforce intro: commit_rules dest!: insert_journals)

lemma insert_commits:
  "insert_journal j d1 = Inr d2 \<Longrightarrow> journal d1 = journal d \<Longrightarrow> journal d' = journal d2 \<Longrightarrow>
   r = decode_receipt (j_payload j) \<Longrightarrow> committed (j_op_id j) (j_command_type j) (j_fingerprint j) r d d'"
  by (drule insert_journal_Inr) (auto simp: committed_def journal_row_cong [of d1 d])

lemma RecordDecision_commits:
  assumes "RecordDecision op l rid a n p now d = Inr (r, d')"
  shows "committed op ''record_decision'' (decision_fingerprint rid a n (SanitizeText p)) r d d'"
  using assms unfolding RecordDecision_def Let_def
  by (elim success_elims; simp; force intro: commit_rules dest!: insert_journals dest: insert_commits)

lemma RecordObservedExecutionOutcome_commits:
  "RecordObservedExecutionOutcome op er st res now d = Inr (r, d') \<Longrightarrow>
   committed op ''record_observed_execution_outcome'' (outcome_fingerprint er (terminal_command_text st) (SanitizeText res)) r d d'"
  unfolding RecordObservedExecutionOutcome_def Let_def
  by (elim success_elims; simp add: text_or_empty_def;
      fastforce intro: commit_rules dest!: insert_journals end_turn_journal)

lemma RecordObservedDispatchAcknowledgement_commits:
  "RecordObservedDispatchAcknowledgement op er ph now d = Inr (r, d') \<Longrightarrow>
   committed op ''record_dispatch_observation'' (acknowledgement_fingerprint er ph) r d d'"
  unfolding RecordObservedDispatchAcknowledgement_def Let_def
  by (elim success_elims; simp; fastforce intro: commit_rules dest!: insert_journals)

lemma release_replay_Inr:
  "release_replay op fp d = Inr (Some rr) \<Longrightarrow>
     \<exists>j. journal_row op d = Some j \<and> j_command_type j = ''release_turn'' \<and> j_fingerprint j = fp
       \<and> rr = restored_release (j_payload j)"
  by (auto simp: release_replay_def split: option.splits if_splits)

lemma restored_release_receipt: "rr_Operation (restored_release p) = decode_receipt p"
  by (cases p) (auto simp: restored_release_def Let_def)

lemma release_effect_journal: "release_effect sid k p s g now d = Inr d' \<Longrightarrow> journal d' = journal d"
  unfolding release_effect_def Let_def by (auto elim!: and_then_InrE dest!: insert_journals)

lemma ReleaseTurn_commits:
  assumes "ReleaseTurn op l sid v k now d = Inr (r, d')"
  shows "committed op ''release_turn'' (release_fingerprint sid k) (rr_Operation (rl_Receipt r)) d d'"
  using assms unfolding ReleaseTurn_def Let_def
  by (elim success_elims; simp)
    (auto simp: committed_def restored_release_receipt session_receipt_def journal_row_def
      dest!: release_replay_Inr insert_journal_Inr release_effect_journal)

lemma resolveGrantReplay_Some:
  "resolveGrantReplay op cmd fp d = Inr (Some g) \<Longrightarrow>
     \<exists>j. journal_row op d = Some j \<and> j_command_type j = cmd \<and> j_fingerprint j = fp \<and>
       cg_Operation g = decode_receipt (j_payload j)"
  by (auto simp: resolveGrantReplay_def split: option.splits if_splits)

lemma installGrant_journal:
  "installGrant op rid h c n cmd fp kind mode now d = Inr (g, d') \<Longrightarrow> journal d = journal d0 \<Longrightarrow>
   committed op cmd fp (cg_Operation g) d0 d'"
  unfolding installGrant_def Let_def
  by (elim success_elims; simp; fastforce intro: commit_rules dest!: insert_journals)

lemma grant_replay_commits:
  "resolveGrantReplay op cmd fp d = Inr (Some g) \<Longrightarrow> committed op cmd fp (cg_Operation g) d d"
  by (drule resolveGrantReplay_Some) (auto simp: committed_def)

lemma AdoptController_commits:
  "AdoptController op rid h c b rv n now d = Inr (g, d') \<Longrightarrow>
   committed op ''adopt_controller'' (adopt_fingerprint rid h c rv) (cg_Operation g) d d'"
  unfolding AdoptController_def Let_def
  by (elim success_elims; simp; blast intro: grant_replay_commits installGrant_journal)

lemma HandoffController_commits:
  "HandoffController op rid l ge h c n now d = Inr (g, d') \<Longrightarrow>
   committed op ''handoff_controller'' (handoff_fingerprint rid h c ge) (cg_Operation g) d d'"
  unfolding HandoffController_def Let_def
  by (elim success_elims; simp; fastforce intro: grant_replay_commits installGrant_journal)

lemma revoke_effect_journal [simp]: "journal (revoke_effect rid g now d) = journal d"
  by (simp add: revoke_effect_def Let_def)

lemma RevokeController_commits:
  assumes "RevokeController op rid l rv now d = Inr (r, d')"
  shows "committed op ''revoke_controller'' (revoke_command_fingerprint rid l rv d) r d d'"
  using assms unfolding RevokeController_def Let_def
  by (elim success_elims; simp add: revoke_command_fingerprint_def)
    (auto simp: committed_def journal_row_def dest!: recordJournalEntry_Inr)

lemma RecoverControllerCredential_commits:
  assumes "RecoverControllerCredential op rid src ge now d = Inr (g, d')"
  shows "case journal_row op d of
      Some j \<Rightarrow> d' = d \<and> j_fingerprint j = recover_fingerprint rid src ge
    | None \<Rightarrow> \<exists>j. journal d' = journal d @ [j] \<and> j_op_id j = op \<and>
        j_command_type j = ''recover_controller_credential'' \<and> j_fingerprint j = recover_fingerprint rid src ge"
  using assms unfolding RecoverControllerCredential_def Let_def
  by (elim success_elims; simp) (auto dest!: recordJournalEntry_Inr)

lemma ConnectRunController_commits:
  assumes "ConnectRunController op rid l g inst att now d = Inr (r, d')"
  shows "committed op ''connect_run_controller'' (connect_fingerprint rid g) (cn_Operation r) d d'"
  using assms unfolding ConnectRunController_def Let_def
  by (elim success_elims; simp)
    (auto simp: committed_def journal_row_def split: prod.splits dest!: recordJournalEntry_Inr)

lemma DisconnectRunController_commits:
  assumes "DisconnectRunController op rid l att g now d = Inr (r, d')"
  shows "committed op ''disconnect_run_controller'' (disconnect_fingerprint rid att g) r d d'"
  using assms unfolding DisconnectRunController_def Let_def
  by (elim success_elims; simp)
    (auto simp: committed_def journal_row_def split: if_splits dest!: recordJournalEntry_Inr)

lemma SetNativeBinding_commits:
  "SetNativeBinding op l sid v b now d = Inr (r, d') \<Longrightarrow> committed op ''set_native_binding'' (binding_fingerprint sid b) r d d'"
  unfolding SetNativeBinding_def Let_def
  by (elim success_elims; simp; fastforce intro: commit_rules dest!: insert_journals)

text \<open>Artifacts answer with their metadata, sealed sets with their own receipt.\<close>

lemma commit_publication_commits:
  assumes "commit_publication op l m c now d = Inr (r, d')"
  shows "case journal_row op d of
       Some j \<Rightarrow> d' = d \<and> j_fingerprint j = publish_fingerprint m (SanitizeText c) \<and> r = decode_metadata (j_payload j)
     | None \<Rightarrow> \<exists>j. journal d' = journal d @ [j] \<and> j_op_id j = op \<and> j_command_type j = ''publish_artifact'' \<and>
         j_fingerprint j = publish_fingerprint m (SanitizeText c) \<and> r = decode_metadata (j_payload j)"
proof (cases "earlier_publication op d")
  case None
  then obtain d1 j where h: "journal d1 = journal d" "insert_journal j d1 = Inr d'" "j_op_id j = op"
    "j_command_type j = ''publish_artifact''"
    "j_fingerprint j = publish_fingerprint m (SanitizeText c)" "decode_metadata (j_payload j) = r"
    using assms by (auto simp: commit_publication_def Let_def and_then_Inr_iff dest!: insert_journals(10))
  then show ?thesis using insert_journal_Inr [OF h(2)] journal_row_cong [of d1 d op] by auto
next
  case (Some x)
  then show ?thesis using assms
    by (auto simp: commit_publication_def earlier_publication_def published_entry_def
        split: option.splits payload.splits if_splits)
qed

lemma ReleaseArtifacts_commits:
  assumes "ReleaseArtifacts op l rid ms now d = Inr (r, d')"
  shows "case journal_row op d of
       Some j \<Rightarrow> d' = d \<and> j_fingerprint j = seal_command_fingerprint rid ms d \<and> r = decode_proposal (j_payload j)
     | None \<Rightarrow> \<exists>j. journal d' = journal d @ [j] \<and> j_op_id j = op \<and> j_command_type j = ''release_artifacts'' \<and>
         j_fingerprint j = seal_command_fingerprint rid ms d \<and> r = decode_proposal (j_payload j)"
  using assms unfolding ReleaseArtifacts_def Let_def
  by (elim success_elims; simp)
    (auto simp: seal_replay_def seal_command_fingerprint_def journal_row_def split: option.splits if_splits payload.splits
       dest!: insert_journal_Inr insert_journals(11) insert_members_journal)

lemmas command_commits = CreateRun_commits CreateSession_commits QueuePrompt_commits
  ReplacePendingPrompt_commits DiscardPendingPrompt_commits ReleaseTurn_commits
  StoreRequestCancel_commits RecordTerminalOutcome_commits StoreRecordHostLoss_commits
  ReconcileSession_commits RecordDispatchObservation_commits SetControllerConnection_commits
  ArchiveSession_commits RecordDecision_commits RecordObservedExecutionOutcome_commits
  RecordObservedDispatchAcknowledgement_commits AdoptController_commits HandoffController_commits
  RevokeController_commits ConnectRunController_commits DisconnectRunController_commits
  SetNativeBinding_commits

lemma as_result_Inr: "as_result c x = Inr (r, d) \<longleftrightarrow> (\<exists>r0. x = Inr (r0, d) \<and> r = c r0)"
  by (auto simp: as_result_def split: sum.splits prod.splits)

fun artifact_command :: "store_op \<Rightarrow> bool" where
  "artifact_command (CmdPublish op l m c) = True"
| "artifact_command (CmdSeal op l rid ms) = True"
| "artifact_command c = False"

lemma store_exec_commits:
  "replays_receipt c \<Longrightarrow> \<not> artifact_command c \<Longrightarrow> store_exec c now d = Inr (r, d') \<Longrightarrow>
   committed (op_id c) (command_type c) (fingerprint_of c d) (receipt_of r) d d'"
  by (cases c) (auto simp: as_result_Inr dest: command_commits simp del: terminal_command_text.simps)

lemma answers_with_receipt:
  "store_exec c now d = Inr (r, d') \<Longrightarrow> \<not> artifact_command c \<Longrightarrow>
   answer_of r = AnsOperation (receipt_of r) \<and> decode_answer c p = AnsOperation (decode_receipt p)"
  by (cases c) (auto simp: as_result_Inr)

interpretation store: journaled store_exec op_id fingerprint_of answer_of decode_answer replays_receipt
proof
  fix c now d r d'
  assume ok: "store_exec c now d = Inr (r, d')"
  show "case journal_row (op_id c) d of
       Some j \<Rightarrow> d' = d \<and> j_fingerprint j = fingerprint_of c d \<and>
         (replays_receipt c \<longrightarrow> answer_of r = decode_answer c (j_payload j))
     | None \<Rightarrow> \<exists>j. journal d' = journal d @ [j] \<and> j_op_id j = op_id c \<and>
         j_fingerprint j = fingerprint_of c d \<and> (replays_receipt c \<longrightarrow> answer_of r = decode_answer c (j_payload j))"
  proof (cases "artifact_command c")
    case True
    then consider op l m x where "c = CmdPublish op l m x" | op l rid ms where "c = CmdSeal op l rid ms"
      by (cases c) auto
    then show ?thesis
      using ok by cases (auto simp: as_result_Inr dest!: commit_publication_commits ReleaseArtifacts_commits
          split: option.splits)
  next
    case plain: False
    show ?thesis
    proof (cases "replays_receipt c")
      case True
      then show ?thesis
        using store_exec_commits [OF True plain ok] answers_with_receipt [OF ok plain]
        by (auto simp: committed_def split: option.splits)
    next
      case False
      then obtain op rid src g where c: "c = CmdRecover op rid src g" by (cases c) auto
      then show ?thesis
        using ok by (auto simp: as_result_Inr dest!: RecoverControllerCredential_commits split: option.splits)
    qed
  qed
qed

section \<open>Runs of the store\<close>

text \<open>A run: each command at its own instant; a command that fails leaves the database alone.\<close>

fun store_step :: "store_op \<times> time \<Rightarrow> DB \<Rightarrow> DB" where
  "store_step (c, now) d = (case store_exec c now d of Inl e \<Rightarrow> d | Inr (r, d') \<Rightarrow> d')"

definition store_run :: "(store_op \<times> time) list \<Rightarrow> DB \<Rightarrow> DB" where
  "store_run cs d = fold store_step cs d"

lemma store_run_Nil [simp]: "store_run [] d = d"
  by (simp add: store_run_def)

lemma store_run_Cons [simp]: "store_run (c # cs) d = store_run cs (store_step c d)"
  by (simp add: store_run_def)

lemma store_run_append: "store_run (xs @ ys) d = store_run ys (store_run xs d)"
  by (simp add: store_run_def)

lemma store_step_cases:
  obtains (fails) e where "store_exec c now d = Inl e" "store_step (c, now) d = d"
    | (succeeds) r d' where "store_exec c now d = Inr (r, d')" "store_step (c, now) d = d'"
  by (cases "store_exec c now d") auto

lemma store_run_invariant:
  assumes "I d" "\<And>c now d r d'. I d \<Longrightarrow> store_exec c now d = Inr (r, d') \<Longrightarrow> I d'"
  shows "I (store_run cs d)"
  using assms(1)
proof (induction cs arbitrary: d)
  case (Cons c cs)
  obtain cmd now where c: "c = (cmd, now)" by (cases c)
  have "I (store_step c d)"
    unfolding c using Cons.prems assms(2) by (cases rule: store_step_cases [of cmd now d]) auto
  then show ?case using Cons.IH by simp
qed simp

lemma store_run_journal:
  "\<exists>js. journal (store_run cs d) = journal d @ js \<and>
     (distinct (map j_op_id (journal d)) \<longrightarrow> distinct (map j_op_id (journal d @ js)))"
proof -
  let ?I = "\<lambda>x. \<exists>js. journal x = journal d @ js \<and>
     (distinct (map j_op_id (journal d)) \<longrightarrow> distinct (map j_op_id (journal d @ js)))"
  have "?I (store_run cs d)"
  proof (rule store_run_invariant [where I = ?I])
    show "?I d" by (rule exI [of _ "[]"]) simp
    fix c now x r x'
    assume "?I x" "store_exec c now x = Inr (r, x')"
    then obtain js where js: "journal x = journal d @ js"
      "distinct (map j_op_id (journal d)) \<longrightarrow> distinct (map j_op_id (journal d @ js))" by blast
    from store.append_only [OF \<open>store_exec c now x = Inr (r, x')\<close>] show "?I x'"
    proof
      assume "journal x' = journal x"
      with js show ?thesis by auto
    next
      assume "\<exists>j. journal x' = journal x @ [j] \<and> journal_row (j_op_id j) x = None"
      then obtain j where j: "journal x' = journal x @ [j]" "journal_row (j_op_id j) x = None" by blast
      then have "j_op_id j \<notin> set (map j_op_id (journal x))"
        by (auto simp: journal_row_def sel_None_iff)
      then show ?thesis using js j(1) by (intro exI [of _ "js @ [j]"]) auto
    qed
  qed
  then show ?thesis .
qed

lemma store_run_keeps_entry:
  "journal_row op d = Some j \<Longrightarrow> journal_row op (store_run cs d) = Some j"
  using store_run_journal [of cs d] by (auto simp: journal_row_def)


text \<open>C7 The journal is append-only with unique operation identifiers: whatever runs, from a
  database with unique identifiers the old entries stay a prefix and identifiers stay unique; and
  reusing an identifier for a command with another fingerprint fails.\<close>

theorem journal_is_append_only:
  "(\<exists>js. journal (store_run cs d) = journal d @ js) \<and>
   (distinct (map j_op_id (journal d)) \<longrightarrow> distinct (map j_op_id (journal (store_run cs d)))) \<and>
   (\<forall>j. journal_row (op_id c) d = Some j \<and> j_fingerprint j \<noteq> fingerprint_of c d \<longrightarrow>
      (\<exists>e. store_exec c now d = Inl e))"
  using store_run_journal [of cs d] store.conflicting_reuse [of c d _ now] by auto

end
