(* ===== verification/Store_Scenario.thy ===== *)
theory Store_Scenario
  imports Store_System
begin

text \<open>
  A concrete run of the store, from the empty database: a run is created and adopted, its
  controller connects, opens a session, queues a prompt and releases it. The properties of the
  store are applied to it; \<open>store_eval\<close> unfolds commands on concrete rows, with the operation
  fingerprints left as they are.
\<close>

definition demo_session :: SessionRecord where
  "demo_session = \<lparr>sr_ID = ''s'', sr_RunID = ''r'', sr_Contributor = ''claude'',
     sr_IsActiveContributor = True, sr_State = ''parked'', sr_Visibility = ''reachable'',
     sr_RecoveryGeneration = 0\<rparr>"

definition demo_prompt :: PendingPrompt where
  "demo_prompt = \<lparr>pp_TurnKey = ''t'', pp_Prompt = ''go'', pp_RequiredTools = None\<rparr>"

text \<open>The commands of the run; its prefixes stop after adoption, connection, queueing.\<close>

definition demo_adopted :: "(store_op \<times> time) list" where
  "demo_adopted =
     [(CmdCreateRun ''o1'' ''r'' ''x'' ''y'' ''z'' ''b'', 1),
      (CmdAdopt ''o2'' ''r'' ''claude'' ''c'' ''b'' None ''k'', 2)]"

definition demo_queued :: "(store_op \<times> time) list" where
  "demo_queued = demo_adopted @
     [(CmdConnect ''o3'' ''r'' ''k'' 1 ''i'' ''a'', 3),
      (CmdCreateSession ''o4'' ''k'' demo_session, 4),
      (CmdQueue ''o5'' ''k'' ''s'' 1 demo_prompt, 5)]"

definition demo_release :: store_op where
  "demo_release = CmdRelease ''o6'' ''k'' ''s'' 2 ''t''"

definition demo_running :: "(store_op \<times> time) list" where
  "demo_running = demo_queued @ [(demo_release, 6)]"

lemma demo_text [simp]:
  "SanitizeText ''go'' = ''go''" "SanitizeText ''ok'' = ''ok''" "SanitizeText [] = []"
  "fmt_d 0 = ''0''" "fmt_d 1 = ''1''" "fmt_d 2 = ''2''" "fmt_d 3 = ''3''" "fmt_d 4 = ''4''"
  "marshalStrings [] = ''[]''"
  by code_simp+

lemmas demo_defs = demo_session_def demo_prompt_def demo_adopted_def demo_queued_def
  demo_running_def demo_release_def empty_db_def

lemmas store_eval = as_result_def Let_def row_defs is_row_defs statement_defs nonempty_def
  recordJournalEntry_def checkOrRecordIdempotency_def session_receipt_def bump_def text_or_empty_def
  session_check_def max_int64_def turn_statuses_def intent_phases_def Roster_def contributor_names
  CreateRun_def CreateSession_def new_session_row_def run_connected_def
  QueuePrompt_def prompt_preconditions_def joined_session_def tools_list_def runIDOfSession_def
  requireRunConnected_def authorizeSessionController_def classifyCredential_def
  ReleaseTurn_def release_replay_def release_preconditions_def release_effect_def attempt_id_def
  AdoptController_def grant_arguments_def ValidContributor_def resolveGrantReplay_def
  adopt_authority_def adopt_auth_mode_def installGrant_def next_generation_def update_leases_def
  update_run_def legacy_lease_def ConnectRunController_def classifyRunController_def
  active_generation_def projectSessionConnection_def attachment_payload_def

text \<open>The rows after queueing, written out, and what the release makes of them.\<close>

definition demo_entry ::
  "string \<Rightarrow> string \<Rightarrow> string \<Rightarrow> string \<Rightarrow> string \<Rightarrow> string \<Rightarrow> string \<Rightarrow> int \<Rightarrow> time \<Rightarrow> string \<Rightarrow> JournalRow"
where
  "demo_entry op cmd fp sid k kind lease ver now body =
     \<lparr>j_op_id = op, j_command_type = cmd, j_fingerprint = fp, j_run_id = ''r'', j_session_id = nonempty sid,
      j_turn_key = nonempty k, j_event_kind = kind,
      j_payload = PayReceipt lease (session_receipt op cmd sid k ver now body), j_created_at = now\<rparr>"

definition demo_db :: DB where
  "demo_db = empty_db\<lparr>
     runs := [\<lparr>r_run_id = ''r'', r_brief_digest = ''x'', r_source_digest = ''y'', r_profile_digest = ''z'',
       r_controller_lease = ''k'', r_lifecycle = ''active'', r_adopted = True, r_created_at = 1, r_updated_at = 2\<rparr>],
     sessions := [\<lparr>s_session_id = ''s'', s_run_id = ''r'', s_contributor = ''claude'', s_is_active = True,
       s_state = ''parked'', s_lifecycle = ''active'', s_controller_status = ''connected'',
       s_visibility = ''reachable'', s_active_key = None, s_recovery_context = None, s_recovery_gen = 0,
       s_active_recovery_gen = 0, s_row_version = 2, s_created_at = 4, s_updated_at = 5\<rparr>],
     pending := [\<lparr>p_session_id = ''s'', p_turn_key = ''t'', p_prompt = ''go'', p_queued_at = 5,
       p_required_tools_json = ''[]''\<rparr>],
     journal :=
       [demo_entry ''o1'' ''create_run'' (computeFingerprint [''create_run'', ''r'', ''x'', ''y'', ''z'', ''b''])
          [] [] ''run_created'' ''b'' 1 1 [],
        demo_entry ''o2'' ''adopt_controller'' (adopt_fingerprint ''r'' ''claude'' ''c'' None)
          [] [] ''controller_adopted'' [] 1 2 ''generation=1:authorized_by=bootstrap'',
        demo_entry ''o3'' ''connect_run_controller'' (connect_fingerprint ''r'' 1)
          [] [] ''controller_connected'' [] 1 3 ''attachment=a:rev=1'',
        demo_entry ''o4'' ''create_session'' (create_session_fingerprint demo_session)
          ''s'' [] ''session_created'' ''k'' 1 4 [],
        demo_entry ''o5'' ''queue_prompt'' (queue_fingerprint ''s'' demo_prompt)
          ''s'' ''t'' ''prompt_queued'' ''k'' 2 5 ''go''],
     leases :=
       [\<lparr>l_run_id = ''r'', l_generation = 0, l_harness = None, l_controller_ref = ''create-run-provenance'',
         l_lease = ''b'', l_status = ''superseded'', l_granted_by = ''o1'', l_attachment_id = None,
         l_instance_id = None, l_attachment_rev = 0, l_connected = False, l_attached_at = 1, l_updated_at = 2\<rparr>,
        \<lparr>l_run_id = ''r'', l_generation = 1, l_harness = Some ''claude'', l_controller_ref = ''c'',
         l_lease = ''k'', l_status = ''active'', l_granted_by = ''o2'', l_attachment_id = Some ''a'',
         l_instance_id = Some ''i'', l_attachment_rev = 1, l_connected = True, l_attached_at = 2, l_updated_at = 3\<rparr>],
     profiles := [\<lparr>f_run_id = ''r'', f_profile_digest = ''z'', f_algorithm_version = ''legacy-unverified'',
       f_workspace_mode = ''none'', f_isolation_strictness = ''permissive_dev'', f_network_mode = ''unrestricted'',
       f_canonical_profile_json = [], f_source_repo_identity = ''legacy'', f_source_commit = [],
       f_source_tree = [], f_brief_artifact_digest = [], f_created_at = 1\<rparr>]\<rparr>"

lemma demo_queued_db: "store_run demo_queued empty_db = demo_db"
  by (simp add: demo_defs store_eval demo_db_def demo_entry_def)

lemmas demo_db_eval = demo_db_def demo_entry_def empty_db_def

definition demo_run :: SessionRow where
  "demo_run = \<lparr>s_session_id = ''s'', s_run_id = ''r'', s_contributor = ''claude'', s_is_active = True,
     s_state = ''running'', s_lifecycle = ''active'', s_controller_status = ''connected'',
     s_visibility = ''reachable'', s_active_key = Some ''t'', s_recovery_context = None, s_recovery_gen = 0,
     s_active_recovery_gen = 0, s_row_version = 3, s_created_at = 4, s_updated_at = 6\<rparr>"

definition demo_receipt :: ReleaseReceipt where
  "demo_receipt =
     \<lparr>rr_Operation = session_receipt ''o6'' ''release_turn'' ''s'' ''t'' 3 6 ''go'',
      rr_SanitizedPrompt = ''go'', rr_TurnKey = ''t'', rr_AttemptID = ''att_3_t''\<rparr>"

definition demo_db2 :: DB where
  "demo_db2 = demo_db\<lparr>sessions := [demo_run], pending := [],
     turns := [\<lparr>t_session_id = ''s'', t_turn_key = ''t'', t_prompt = ''go'', t_status = ''running'',
       t_result = [], t_attempt_id = ''att_3_t'', t_created_at = 6, t_completed_at = None\<rparr>],
     intents := [\<lparr>i_session_id = ''s'', i_turn_key = ''t'', i_attempt_id = ''att_3_t'',
       i_phase = ''intent_recorded'', i_required_tools_json = ''[]'', i_issuing_generation = 1,
       i_recorded_at = 6, i_updated_at = 6\<rparr>],
     journal := journal demo_db @
       [\<lparr>j_op_id = ''o6'', j_command_type = ''release_turn'', j_fingerprint = release_fingerprint ''s'' ''t'',
         j_run_id = ''r'', j_session_id = Some ''s'', j_turn_key = Some ''t'', j_event_kind = ''turn_released'',
         j_payload = PayRelease ''k'' demo_receipt, j_created_at = 6\<rparr>]\<rparr>"

lemmas demo_db2_eval = demo_db2_def demo_run_def demo_receipt_def demo_db_eval

lemma demo_released:
  "store_exec demo_release 6 demo_db =
     Inr (ResRelease \<lparr>rl_Receipt = demo_receipt, rl_Disposition = ReleaseDispositionNew\<rparr>, demo_db2)"
  by (simp add: demo_release_def store_eval demo_db2_eval del_def)

lemma demo_running_db: "store_run demo_running empty_db = demo_db2"
  using demo_queued_db demo_released by (simp add: demo_running_def store_run_append)


text \<open>An entry of an older release, recorded under a fingerprint no command has.\<close>

definition demo_foreign :: DB where
  "demo_foreign = store_run demo_running (empty_db\<lparr>journal :=
     [\<lparr>j_op_id = ''o9'', j_command_type = ''queue_prompt'', j_fingerprint = ''v0'', j_run_id = ''r'',
       j_session_id = None, j_turn_key = None, j_event_kind = ''imported'',
       j_payload = PayReceipt [] zero_receipt, j_created_at = 0\<rparr>]\<rparr>)"

lemma length_computeFingerprint [simp]: "length (computeFingerprint ps) = 64"
  by (simp add: computeFingerprint_def)

lemma journal_is_append_only_witness:
  "\<exists>e. store_exec (CmdQueue ''o9'' ''k'' ''s'' 3 demo_prompt) 9 demo_foreign = Inl e"
proof -
  have row: "\<exists>j. journal_row ''o9'' demo_foreign = Some j \<and> j_fingerprint j = ''v0''"
    using store_run_keeps_entry by (force simp: demo_foreign_def journal_row_def)
  have "length (queue_fingerprint ''s'' demo_prompt) = 64" by (simp add: queue_fingerprint_def)
  then have "''v0'' \<noteq> queue_fingerprint ''s'' demo_prompt" by (auto dest: arg_cong [where f = length])
  then show ?thesis
    using row journal_is_append_only [of "[]" demo_foreign "CmdQueue ''o9'' ''k'' ''s'' 3 demo_prompt" 9] by auto
qed

end
