(* ===== verification/Store_Execution.thy ===== *)
theory Store_Execution
  imports Store_Scenario
begin

text \<open>
  What the store promises about executions, as an abstract machine: sessions, queued prompts and
  turns as maps, one rule per kind of change. Versions, timestamps, connection projections,
  leases and the journal are abstracted from. Every command of the store is a step of the
  machine or leaves it alone; the machine's invariant then holds of every reachable database.
\<close>

section \<open>The machine\<close>

record exec_session =
  x_state :: string
  x_lifecycle :: string
  x_visibility :: string
  x_active :: "string option"
  x_context :: "string option"
  x_gen :: nat
  x_active_gen :: nat

record exec_turn =
  y_prompt :: string
  y_status :: string
  y_result :: string
  y_attempt :: string

record exec =
  xs :: "string \<Rightarrow> exec_session option"
  xp :: "string \<times> string \<Rightarrow> string option"
  xt :: "string \<times> string \<Rightarrow> exec_turn option"
  xi :: "string \<times> string \<Rightarrow> (string \<times> string) option"

definition fresh_session :: exec_session where
  "fresh_session = \<lparr>x_state = ''parked'', x_lifecycle = ''active'', x_visibility = ''reachable'',
     x_active = None, x_context = None, x_gen = 0, x_active_gen = 0\<rparr>"

definition closed_episode :: "exec_session \<Rightarrow> exec_session" where
  "closed_episode s = s\<lparr>x_visibility := ''reachable'', x_active_gen := 0, x_context := Some []\<rparr>"

definition parked_after :: "string \<Rightarrow> exec_session \<Rightarrow> exec_session" where
  "parked_after k s = s\<lparr>x_active := None, x_state := ''parked'',
     x_context := (if x_visibility s = ''host_lost'' then Some k else x_context s)\<rparr>"

text \<open>The turn an outcome may end.\<close>

definition may_end :: "string \<Rightarrow> exec_session \<Rightarrow> bool" where
  "may_end k s \<longleftrightarrow>
     (if x_visibility s = ''host_lost'' then x_active s = Some k \<or> x_context s = Some k
      else x_state s = ''running'' \<and> x_active s = Some k)"

definition end_exec_turn :: "string \<times> string \<Rightarrow> string \<Rightarrow> string \<Rightarrow> exec \<Rightarrow> exec" where
  "end_exec_turn k st res e = e\<lparr>
     xt := (xt e)(k := map_option (\<lambda>t. t\<lparr>y_status := st, y_result := res\<rparr>) (xt e k)),
     xi := (xi e)(k := map_option (\<lambda>i. (fst i, ''resolved'')) (xi e k))\<rparr>"

inductive exec_step :: "exec \<Rightarrow> exec \<Rightarrow> bool" where
  quiet: "exec_step e e"
| open_session: "xs e sid = None \<Longrightarrow> exec_step e (e\<lparr>xs := (xs e)(sid \<mapsto> fresh_session)\<rparr>)"
| queue: "xs e sid = Some s \<Longrightarrow> x_lifecycle s \<noteq> ''archived'' \<Longrightarrow> xt e (sid, k) = None \<Longrightarrow>
    xp e (sid, k) = None \<Longrightarrow> \<not> blank k \<Longrightarrow>
    exec_step e (e\<lparr>xp := (xp e)((sid, k) \<mapsto> SanitizeText raw)\<rparr>)"
| edit: "xs e sid = Some s \<Longrightarrow> x_lifecycle s \<noteq> ''archived'' \<Longrightarrow> xp e (sid, k) = Some p \<Longrightarrow>
    exec_step e (e\<lparr>xp := (xp e)((sid, k) \<mapsto> SanitizeText raw)\<rparr>)"
| discard: "xs e sid = Some s \<Longrightarrow> x_lifecycle s \<noteq> ''archived'' \<Longrightarrow> xp e (sid, k) = Some p \<Longrightarrow>
    exec_step e (e\<lparr>xp := (xp e)((sid, k) := None)\<rparr>)"
| release: "xs e sid = Some s \<Longrightarrow> x_lifecycle s \<noteq> ''archived'' \<Longrightarrow> x_visibility s \<noteq> ''host_lost'' \<Longrightarrow>
    x_state s = ''parked'' \<Longrightarrow> text_or_empty (x_active s) = [] \<Longrightarrow> xp e (sid, k) = Some p \<Longrightarrow>
    xt e (sid, k) = None \<Longrightarrow> xi e (sid, k) = None \<Longrightarrow> \<not> blank k \<Longrightarrow>
    exec_step e (e\<lparr>xs := (xs e)(sid \<mapsto> s\<lparr>x_active := Some k, x_state := ''running''\<rparr>),
      xp := (xp e)((sid, k) := None),
      xt := (xt e)((sid, k) \<mapsto> \<lparr>y_prompt = SanitizeText p, y_status = ''running'', y_result = [], y_attempt = a\<rparr>),
      xi := (xi e)((sid, k) \<mapsto> (a, ''intent_recorded''))\<rparr>)"
| acknowledge: "xi e (sid, k) = Some (a, ph) \<Longrightarrow> ph \<noteq> ''resolved'' \<Longrightarrow> ph' \<noteq> ''resolved'' \<Longrightarrow>
    exec_step e (e\<lparr>xi := (xi e)((sid, k) \<mapsto> (a, ph'))\<rparr>)"
| cancel: "xs e sid = Some s \<Longrightarrow> x_state s = ''running'' \<Longrightarrow> x_active s = Some k \<Longrightarrow>
    xt e (sid, k) = Some t \<Longrightarrow> y_status t = ''running'' \<Longrightarrow>
    exec_step e (e\<lparr>xt := (xt e)((sid, k) \<mapsto> t\<lparr>y_status := ''cancelling''\<rparr>)\<rparr>)"
| finish: "xs e sid = Some s \<Longrightarrow> x_lifecycle s \<noteq> ''archived'' \<Longrightarrow> xt e (sid, k) = Some t \<Longrightarrow>
    \<not> isTerminal (y_status t) \<Longrightarrow> may_end k s \<Longrightarrow> isTerminal st \<Longrightarrow>
    exec_step e (end_exec_turn (sid, k) st (SanitizeText raw) (e\<lparr>xs := (xs e)(sid \<mapsto> parked_after k s)\<rparr>))"
| lose_host: "xs e sid = Some s \<Longrightarrow> x_lifecycle s \<noteq> ''archived'' \<Longrightarrow> x_visibility s \<noteq> ''host_lost'' \<Longrightarrow>
    x_state s = ''running'' \<Longrightarrow> x_active s = Some k \<Longrightarrow> k \<noteq> [] \<Longrightarrow>
    exec_step e (e\<lparr>xs := (xs e)(sid \<mapsto> s\<lparr>x_gen := x_gen s + 1, x_active_gen := x_gen s + 1,
      x_visibility := ''host_lost'', x_context := Some k\<rparr>)\<rparr>)"
| resume: "xs e sid = Some s \<Longrightarrow> x_visibility s = ''host_lost'' \<Longrightarrow> x_active s = Some k \<Longrightarrow> k \<noteq> [] \<Longrightarrow>
    exec_step e (e\<lparr>xs := (xs e)(sid \<mapsto> closed_episode s)\<rparr>)"
| resolve: "xs e sid = Some s \<Longrightarrow> x_visibility s = ''host_lost'' \<Longrightarrow> x_active s = Some k \<Longrightarrow> k \<noteq> [] \<Longrightarrow>
    isTerminal st \<Longrightarrow>
    exec_step e (end_exec_turn (sid, k) st (SanitizeText raw)
      (e\<lparr>xs := (xs e)(sid \<mapsto> (closed_episode s)\<lparr>x_active := None, x_state := ''parked''\<rparr>)\<rparr>))"
| close: "xs e sid = Some s \<Longrightarrow> x_visibility s = ''host_lost'' \<Longrightarrow> text_or_empty (x_active s) = [] \<Longrightarrow>
    exec_step e (e\<lparr>xs := (xs e)(sid \<mapsto> closed_episode s)\<rparr>)"
| archive: "xs e sid = Some s \<Longrightarrow> x_state s \<noteq> ''running'' \<Longrightarrow> text_or_empty (x_active s) = [] \<Longrightarrow>
    x_visibility s \<noteq> ''host_lost'' \<Longrightarrow>
    exec_step e (e\<lparr>xs := (xs e)(sid \<mapsto> s\<lparr>x_lifecycle := ''archived'', x_state := ''archived''\<rparr>)\<rparr>)"

section \<open>Its invariant\<close>

definition live_status :: "string \<Rightarrow> bool" where
  "live_status st \<longleftrightarrow> st = ''running'' \<or> st = ''cancelling''"

text \<open>The shape of a row by itself: running means an active key, archived is a state of its own, and a
  lost host has an open episode with the current generation.\<close>

definition shape_ok :: "exec_session \<Rightarrow> bool" where
  "shape_ok s \<longleftrightarrow>
     x_state s \<in> {''parked'', ''running'', ''archived''} \<and> x_visibility s \<in> {''reachable'', ''host_lost''} \<and>
     (x_state s = ''running'' \<longleftrightarrow> x_active s \<noteq> None) \<and>
     (x_state s = ''archived'' \<longleftrightarrow> x_lifecycle s = ''archived'') \<and>
     (x_state s = ''archived'' \<longrightarrow> x_visibility s = ''reachable'') \<and>
     x_active_gen s = (if x_visibility s = ''host_lost'' then x_gen s else 0) \<and>
     (x_visibility s = ''host_lost'' \<longrightarrow> 0 < x_gen s)"

definition episode_ok :: "exec \<Rightarrow> string \<Rightarrow> exec_session \<Rightarrow> bool" where
  "episode_ok e sid s \<longleftrightarrow>
     (\<exists>k. x_context s = Some k \<and> k \<noteq> [] \<and> xt e (sid, k) \<noteq> None \<and> (x_active s = None \<or> x_active s = Some k))"

definition active_ok :: "exec \<Rightarrow> string \<Rightarrow> string \<Rightarrow> bool" where
  "active_ok e sid k \<longleftrightarrow> \<not> blank k \<and> (\<exists>t. xt e (sid, k) = Some t \<and> live_status (y_status t))"

definition session_ok :: "exec \<Rightarrow> string \<Rightarrow> exec_session \<Rightarrow> bool" where
  "session_ok e sid s \<longleftrightarrow> shape_ok s \<and>
     (x_visibility s = ''host_lost'' \<longrightarrow> episode_ok e sid s) \<and>
     (\<forall>k. x_active s = Some k \<longrightarrow> active_ok e sid k)"

definition turn_ok :: "exec \<Rightarrow> string \<Rightarrow> string \<Rightarrow> exec_turn \<Rightarrow> bool" where
  "turn_ok e sid k t \<longleftrightarrow>
     (\<exists>s. xs e sid = Some s \<and> (live_status (y_status t) \<longrightarrow> x_active s = Some k)) \<and>
     (live_status (y_status t) \<or> isTerminal (y_status t)) \<and> xp e (sid, k) = None \<and>
     (\<exists>ph. xi e (sid, k) = Some (y_attempt t, ph) \<and> (ph = ''resolved'' \<longleftrightarrow> isTerminal (y_status t)))"

definition exec_inv :: "exec \<Rightarrow> bool" where
  "exec_inv e \<longleftrightarrow>
     (\<forall>sid s. xs e sid = Some s \<longrightarrow> session_ok e sid s) \<and>
     (\<forall>sid k t. xt e (sid, k) = Some t \<longrightarrow> turn_ok e sid k t) \<and>
     (\<forall>sid k. xi e (sid, k) \<noteq> None \<longrightarrow> xt e (sid, k) \<noteq> None) \<and>
     (\<forall>sid k. xp e (sid, k) \<noteq> None \<longrightarrow> \<not> blank k \<and> xs e sid \<noteq> None)"

lemma exec_invI:
  assumes "\<And>sid s. xs e sid = Some s \<Longrightarrow> session_ok e sid s"
    "\<And>sid k t. xt e (sid, k) = Some t \<Longrightarrow> turn_ok e sid k t"
    "\<And>sid k. xi e (sid, k) \<noteq> None \<Longrightarrow> xt e (sid, k) \<noteq> None"
    "\<And>sid k. xp e (sid, k) \<noteq> None \<Longrightarrow> \<not> blank k \<and> xs e sid \<noteq> None"
  shows "exec_inv e"
  using assms unfolding exec_inv_def by blast

lemma exec_invD:
  assumes "exec_inv e"
  shows "xs e sid = Some s \<Longrightarrow> session_ok e sid s" "xt e (sid, k) = Some t \<Longrightarrow> turn_ok e sid k t"
    "xi e (sid, k) = Some i \<Longrightarrow> \<exists>t. xt e (sid, k) = Some t"
    "xp e (sid, k) = Some p \<Longrightarrow> \<not> blank k \<and> xs e sid \<noteq> None"
  using assms unfolding exec_inv_def by blast+

lemma terminal_not_live: "isTerminal st \<Longrightarrow> \<not> live_status st"
  by (auto simp: isTerminal_def live_status_def)

lemma session_okD:
  assumes "session_ok e sid s"
  shows "shape_ok s" "x_visibility s = ''host_lost'' \<Longrightarrow> episode_ok e sid s"
    "x_active s = Some k \<Longrightarrow> active_ok e sid k"
  using assms by (simp_all add: session_ok_def)

lemma session_okI:
  "shape_ok s \<Longrightarrow> (x_visibility s = ''host_lost'' \<Longrightarrow> episode_ok e sid s) \<Longrightarrow>
   (\<And>k. x_active s = Some k \<Longrightarrow> active_ok e sid k) \<Longrightarrow> session_ok e sid s"
  by (simp add: session_ok_def)

lemma session_ok_cong:
  assumes ok: "session_ok e sid s"
    and ctx: "\<And>k. xt e (sid, k) \<noteq> None \<Longrightarrow> xt e' (sid, k) \<noteq> None"
    and act: "\<And>k. x_active s = Some k \<Longrightarrow> active_ok e sid k \<Longrightarrow> active_ok e' sid k"
  shows "session_ok e' sid s"
proof (rule session_okI)
  show "episode_ok e' sid s" if "x_visibility s = ''host_lost''"
    using session_okD(2) [OF ok that] ctx unfolding episode_ok_def by blast
qed (use session_okD(1,3) [OF ok] act in blast)+

lemma session_ok_same: "session_ok e sid s \<Longrightarrow> xt e' = xt e \<Longrightarrow> session_ok e' sid s"
  by (simp add: session_ok_def episode_ok_def active_ok_def)

lemma turn_ok_cong:
  "turn_ok e sid k t \<Longrightarrow> (\<And>s. xs e sid = Some s \<Longrightarrow> \<exists>s'. xs e' sid = Some s' \<and> (x_active s = Some k \<longrightarrow> x_active s' = Some k)) \<Longrightarrow>
   xp e' (sid, k) = None \<Longrightarrow> xi e' (sid, k) = xi e (sid, k) \<Longrightarrow> turn_ok e' sid k t"
  unfolding turn_ok_def by metis

lemma turn_okD:
  assumes "turn_ok e sid k t"
  obtains s ph where "xs e sid = Some s" "live_status (y_status t) \<Longrightarrow> x_active s = Some k"
    "live_status (y_status t) \<or> isTerminal (y_status t)" "xp e (sid, k) = None"
    "xi e (sid, k) = Some (y_attempt t, ph)" "ph = ''resolved'' \<longleftrightarrow> isTerminal (y_status t)"
  using assms unfolding turn_ok_def by blast

lemma open_session_inv:
  assumes inv: "exec_inv e" and new: "xs e sid = None"
  shows "exec_inv (e\<lparr>xs := (xs e)(sid \<mapsto> fresh_session)\<rparr>)" (is "exec_inv ?e")
proof (rule exec_invI)
  fix x s assume s: "xs ?e x = Some s"
  show "session_ok ?e x s"
  proof (cases "x = sid")
    case True
    then show ?thesis using s by (auto simp: session_ok_def shape_ok_def fresh_session_def)
  next
    case False
    then have "session_ok e x s" using s exec_invD(1) [OF inv] by simp
    then show ?thesis by (rule session_ok_same) simp
  qed
next
  fix x k t assume "xt ?e (x, k) = Some t"
  then have t: "turn_ok e x k t" using exec_invD(2) [OF inv] by simp
  then have "x \<noteq> sid" using new by (auto simp: turn_ok_def)
  then show "turn_ok ?e x k t" using t by (simp add: turn_ok_def)
qed (use exec_invD(3,4) [OF inv] in auto)

lemma queue_inv:
  assumes inv: "exec_inv e" and new: "xs e sid = Some s" "xt e (sid, k) = None" "\<not> blank k"
  shows "exec_inv (e\<lparr>xp := (xp e)((sid, k) \<mapsto> p)\<rparr>)" (is "exec_inv ?e")
proof (rule exec_invI)
  fix x s assume s: "xs ?e x = Some s"
  show "session_ok ?e x s" by (rule session_ok_same [of e]) (use s exec_invD(1) [OF inv] in simp_all)
next
  fix x l t assume t: "xt ?e (x, l) = Some t"
  then show "turn_ok ?e x l t" using exec_invD(2) [OF inv, of x l t] new by (auto simp: turn_ok_def)
next
  fix x l assume "xp ?e (x, l) \<noteq> None"
  then show "\<not> blank l \<and> xs ?e x \<noteq> None"
    using exec_invD(4) [OF inv, of x l] new by (cases "(x, l) = (sid, k)") auto
qed (use exec_invD(3) [OF inv] in auto)

lemma discard_inv:
  assumes inv: "exec_inv e"
  shows "exec_inv (e\<lparr>xp := (xp e)(k := None)\<rparr>)" (is "exec_inv ?e")
proof (rule exec_invI)
  fix x s assume s: "xs ?e x = Some s"
  show "session_ok ?e x s" by (rule session_ok_same [of e]) (use s exec_invD(1) [OF inv] in simp_all)
next
  fix x l t assume t: "xt ?e (x, l) = Some t"
  then show "turn_ok ?e x l t" using exec_invD(2) [OF inv, of x l t] by (auto simp: turn_ok_def)
next
  fix x l assume "xp ?e (x, l) \<noteq> None"
  then show "\<not> blank l \<and> xs ?e x \<noteq> None" using exec_invD(4) [OF inv, of x l] by (auto split: if_splits)
qed (use exec_invD(3) [OF inv] in auto)

lemma release_inv:
  assumes inv: "exec_inv e" and s: "xs e sid = Some s" "x_lifecycle s \<noteq> ''archived''"
      "x_visibility s \<noteq> ''host_lost''" "x_state s = ''parked''"
    and k: "xt e (sid, k) = None" "\<not> blank k"
    and e': "e' = e\<lparr>xs := (xs e)(sid \<mapsto> s\<lparr>x_active := Some k, x_state := ''running''\<rparr>),
      xp := (xp e)((sid, k) := None),
      xt := (xt e)((sid, k) \<mapsto> \<lparr>y_prompt = p, y_status = ''running'', y_result = [], y_attempt = a\<rparr>),
      xi := (xi e)((sid, k) \<mapsto> (a, ''intent_recorded''))\<rparr>"
  shows "exec_inv e'"
proof (rule exec_invI)
  have ok: "session_ok e sid s" using exec_invD(1) [OF inv s(1)] .
  have shape: "shape_ok s" using session_okD(1) [OF ok] .
  have idle: "x_active s = None" using shape s(4) by (auto simp: shape_ok_def)
  {
    fix x s' assume x: "xs e' x = Some s'"
    show "session_ok e' x s'"
    proof (cases "x = sid")
      case True
      then have s': "s' = s\<lparr>x_active := Some k, x_state := ''running''\<rparr>" using x by (simp add: e')
      show ?thesis unfolding True
      proof (rule session_okI)
        show "shape_ok s'" using shape s by (auto simp: s' shape_ok_def)
      qed (use s(3) k(2) in \<open>auto simp: s' e' active_ok_def live_status_def\<close>)
    next
      case False
      then have "session_ok e x s'" using x exec_invD(1) [OF inv] by (simp add: e')
      then show ?thesis by (rule session_ok_cong) (use False in \<open>auto simp: e' active_ok_def\<close>)
    qed
  next
    fix x l t assume t: "xt e' (x, l) = Some t"
    show "turn_ok e' x l t"
    proof (cases "(x, l) = (sid, k)")
      case True
      then show ?thesis using t by (auto simp: e' turn_ok_def live_status_def isTerminal_def)
    next
      case False
      then have t0: "turn_ok e x l t" using t exec_invD(2) [OF inv] by (auto simp: e')
      then have "xp e (x, l) = None" by (rule turn_okD)
      then show ?thesis
        by (intro turn_ok_cong [OF t0]) (use False s(1) idle in \<open>auto simp: e'\<close>)
    qed
  next
    fix x l assume i: "xi e' (x, l) \<noteq> None"
    show "xt e' (x, l) \<noteq> None"
      using i exec_invD(3) [OF inv, of x l] by (cases "(x, l) = (sid, k)") (auto simp: e')
  next
    fix x l assume p: "xp e' (x, l) \<noteq> None"
    then have "xp e (x, l) \<noteq> None" by (auto simp: e' split: if_splits)
    then show "\<not> blank l \<and> xs e' x \<noteq> None" using exec_invD(4) [OF inv, of x l] by (auto simp: e')
  }
qed

lemma session_update_inv:
  assumes inv: "exec_inv e" and s: "xs e sid = Some s" and s': "session_ok e sid s'" "x_active s' = x_active s"
  shows "exec_inv (e\<lparr>xs := (xs e)(sid \<mapsto> s')\<rparr>)" (is "exec_inv ?e")
proof (rule exec_invI)
  fix x r assume "xs ?e x = Some r"
  then have "session_ok e x r" using s'(1) exec_invD(1) [OF inv] by (auto split: if_splits)
  then show "session_ok ?e x r" by (rule session_ok_same) simp
next
  fix x l t assume "xt ?e (x, l) = Some t"
  then have t: "turn_ok e x l t" using exec_invD(2) [OF inv] by simp
  then have "xp e (x, l) = None" by (rule turn_okD)
  then show "turn_ok ?e x l t" by (intro turn_ok_cong [OF t]) (use s s'(2) in auto)
next
  fix x l assume "xp ?e (x, l) \<noteq> None"
  then show "\<not> blank l \<and> xs ?e x \<noteq> None" using exec_invD(4) [OF inv, of x l] by auto
qed (use exec_invD(3) [OF inv] in auto)

text \<open>Changes of a turn that keep it live, and of an intent that is not resolved.\<close>

lemma acknowledge_inv:
  assumes inv: "exec_inv e" and i: "xi e (sid, k) = Some (a, ph)" "ph \<noteq> ''resolved''" "ph' \<noteq> ''resolved''"
  shows "exec_inv (e\<lparr>xi := (xi e)((sid, k) \<mapsto> (a, ph'))\<rparr>)" (is "exec_inv ?e")
proof (rule exec_invI)
  fix x r assume "xs ?e x = Some r"
  then show "session_ok ?e x r" by (intro session_ok_same [OF exec_invD(1) [OF inv]]) simp_all
next
  fix x l t assume t: "xt ?e (x, l) = Some t"
  then have "turn_ok e x l t" using exec_invD(2) [OF inv] by simp
  then show "turn_ok ?e x l t" using i by (cases "(x, l) = (sid, k)") (auto simp: turn_ok_def)
next
  fix x l assume "xi ?e (x, l) \<noteq> None"
  then show "xt ?e (x, l) \<noteq> None" using exec_invD(3) [OF inv, of x l] i by (cases "(x, l) = (sid, k)") auto
next
  fix x l assume "xp ?e (x, l) \<noteq> None"
  then show "\<not> blank l \<and> xs ?e x \<noteq> None" using exec_invD(4) [OF inv, of x l] by auto
qed

lemma cancel_inv:
  assumes inv: "exec_inv e" and t: "xt e (sid, k) = Some t" "y_status t = ''running''"
  shows "exec_inv (e\<lparr>xt := (xt e)((sid, k) \<mapsto> t\<lparr>y_status := ''cancelling''\<rparr>)\<rparr>)" (is "exec_inv ?e")
proof (rule exec_invI)
  fix x r assume "xs ?e x = Some r"
  then have "session_ok e x r" using exec_invD(1) [OF inv] by simp
  then show "session_ok ?e x r" by (rule session_ok_cong) (use t in \<open>auto simp: active_ok_def live_status_def\<close>)
next
  have st: "live_status ''running''" "live_status ''cancelling''" "\<not> isTerminal ''running''" "\<not> isTerminal ''cancelling''"
    by (simp_all add: live_status_def isTerminal_def)
  fix x l u assume u: "xt ?e (x, l) = Some u"
  show "turn_ok ?e x l u"
  proof (cases "(x, l) = (sid, k)")
    case True
    have "turn_ok e sid k t" using exec_invD(2) [OF inv t(1)] .
    then obtain s ph where h: "xs e sid = Some s" "x_active s = Some k" "xp e (sid, k) = None"
      "xi e (sid, k) = Some (y_attempt t, ph)" "ph \<noteq> ''resolved''"
      by (rule turn_okD) (simp add: t(2) st)
    have "u = t\<lparr>y_status := ''cancelling''\<rparr>" using u True by simp
    then show ?thesis using True h st by (simp add: turn_ok_def)
  next
    case False
    then have "turn_ok e x l u" using u exec_invD(2) [OF inv] by (auto split: if_splits)
    then show ?thesis by (simp add: turn_ok_def)
  qed
next
  fix x l assume "xi ?e (x, l) \<noteq> None"
  then show "xt ?e (x, l) \<noteq> None" using exec_invD(3) [OF inv, of x l] by auto
next
  fix x l assume "xp ?e (x, l) \<noteq> None"
  then show "\<not> blank l \<and> xs ?e x \<noteq> None" using exec_invD(4) [OF inv, of x l] by auto
qed

text \<open>The end of the active turn: the session that keeps no key is in order afterwards.\<close>

lemma end_turn_inv:
  assumes inv: "exec_inv e" and s: "xs e sid = Some s" "x_active s = Some k" and st: "isTerminal st"
    and s': "shape_ok s'" "x_active s' = None" "x_visibility s' = ''host_lost'' \<Longrightarrow> x_context s' = Some k \<and> k \<noteq> []"
  shows "exec_inv (end_exec_turn (sid, k) st res (e\<lparr>xs := (xs e)(sid \<mapsto> s')\<rparr>))" (is "exec_inv ?e")
proof -
  have "active_ok e sid k" using session_okD(3) [OF exec_invD(1) [OF inv s(1)] s(2)] .
  then obtain t where t: "xt e (sid, k) = Some t" "live_status (y_status t)" by (auto simp: active_ok_def)
  have turn: "xt ?e (x, l) = (if (x, l) = (sid, k) then Some (t\<lparr>y_status := st, y_result := res\<rparr>) else xt e (x, l))" for x l
    using t by (auto simp: end_exec_turn_def)
  obtain ph where i: "xi e (sid, k) = Some (y_attempt t, ph)" "xp e (sid, k) = None"
    using exec_invD(2) [OF inv t(1)] by (rule turn_okD)
  show ?thesis
  proof (rule exec_invI)
    fix x r assume r: "xs ?e x = Some r"
    show "session_ok ?e x r"
    proof (cases "x = sid")
      case True
      then have "r = s'" using r by (simp add: end_exec_turn_def)
      then show ?thesis using s' t True turn by (auto simp: session_ok_def episode_ok_def)
    next
      case False
      then have "session_ok e x r" using r exec_invD(1) [OF inv] by (simp add: end_exec_turn_def)
      then show ?thesis by (rule session_ok_cong) (use turn False in \<open>auto simp: active_ok_def\<close>)
    qed
  next
    fix x l u assume u: "xt ?e (x, l) = Some u"
    show "turn_ok ?e x l u"
    proof (cases "(x, l) = (sid, k)")
      case True
      have "u = t\<lparr>y_status := st, y_result := res\<rparr>" using u turn True by simp
      then show ?thesis
        using True t(1) i s' st terminal_not_live [OF st] by (auto simp: turn_ok_def end_exec_turn_def)
    next
      case False
      then have u0: "turn_ok e x l u" using u exec_invD(2) [OF inv] unfolding turn by (auto split: if_splits)
      have pend: "xp e (x, l) = None" by (rule turn_okD [OF u0])
      have "xs e x = Some r \<Longrightarrow> x_active r = Some l \<Longrightarrow> x \<noteq> sid" for r using s False by auto
      then show ?thesis
        by (intro turn_ok_cong [OF u0]) (use pend False in \<open>auto simp: end_exec_turn_def\<close>)
    qed
  next
    fix x l assume "xi ?e (x, l) \<noteq> None"
    then show "xt ?e (x, l) \<noteq> None"
      using exec_invD(3) [OF inv, of x l] t by (cases "(x, l) = (sid, k)") (auto simp: end_exec_turn_def)
  next
    fix x l assume "xp ?e (x, l) \<noteq> None"
    then show "\<not> blank l \<and> xs ?e x \<noteq> None" using exec_invD(4) [OF inv, of x l] by (auto simp: end_exec_turn_def)
  qed
qed

text \<open>An outcome that may end a turn not yet terminal ends the active one.\<close>

lemma nonterminal_is_active:
  assumes inv: "exec_inv e" and "xs e sid = Some s" "xt e (sid, k) = Some t" "\<not> isTerminal (y_status t)"
  shows "x_active s = Some k"
proof -
  have "turn_ok e sid k t" using exec_invD(2) [OF inv assms(3)] .
  then show ?thesis using assms(2,4) by (auto simp: turn_ok_def)
qed

lemma active_key_nonempty:
  assumes "exec_inv e" "xs e sid = Some s" "x_active s = Some k"
  shows "k \<noteq> []" "\<not> blank k"
  using session_okD(3) [OF exec_invD(1) [OF assms(1,2)] assms(3)] by (auto simp: active_ok_def)

lemma idle_iff:
  assumes "exec_inv e" "xs e sid = Some s"
  shows "text_or_empty (x_active s) = [] \<longleftrightarrow> x_active s = None"
  using active_key_nonempty [OF assms] by (cases "x_active s") (auto simp: text_or_empty_def)

lemma lost_host_inv:
  assumes inv: "exec_inv e" and s: "xs e sid = Some s" "x_lifecycle s \<noteq> ''archived''" "x_active s = Some k"
  shows "session_ok e sid (s\<lparr>x_gen := x_gen s + 1, x_active_gen := x_gen s + 1,
      x_visibility := ''host_lost'', x_context := Some k\<rparr>)" (is "session_ok e sid ?s")
proof -
  have ok: "session_ok e sid s" using exec_invD(1) [OF inv s(1)] .
  have act: "active_ok e sid k" using session_okD(3) [OF ok s(3)] .
  show ?thesis
  proof (rule session_okI)
    show "shape_ok ?s" using session_okD(1) [OF ok] s(2) by (auto simp: shape_ok_def)
    show "episode_ok e sid ?s" using act s(3) by (auto simp: episode_ok_def active_ok_def)
  qed (use session_okD(3) [OF ok] in simp)
qed

lemma closed_episode_inv:
  assumes inv: "exec_inv e" and s: "xs e sid = Some s" "x_visibility s = ''host_lost''"
  shows "session_ok e sid (closed_episode s)"
proof -
  have ok: "session_ok e sid s" using exec_invD(1) [OF inv s(1)] .
  show ?thesis
  proof (rule session_okI)
    show "shape_ok (closed_episode s)"
      using session_okD(1) [OF ok] s(2) by (auto simp: shape_ok_def closed_episode_def)
  qed (use session_okD(3) [OF ok] in \<open>simp_all add: closed_episode_def\<close>)
qed

lemma closed_episode_active [simp]: "x_active (closed_episode s) = x_active s"
  by (simp add: closed_episode_def)

lemma exec_step_inv: "exec_step e e' \<Longrightarrow> exec_inv e \<Longrightarrow> exec_inv e'"
proof (induction rule: exec_step.induct)
  case (finish e sid s k t st raw)
  have a: "x_active s = Some k" using nonterminal_is_active finish by blast
  have ok: "session_ok e sid s" using exec_invD(1) finish by blast
  have ne: "k \<noteq> []" using active_key_nonempty(1) [OF _ _ a] finish by blast
  show ?case
  proof (rule end_turn_inv)
    show "shape_ok (parked_after k s)"
      using session_okD(1) [OF ok] a finish(2) by (auto simp: shape_ok_def parked_after_def)
  qed (use finish a ne in \<open>auto simp: parked_after_def\<close>)
next
  case (resolve e sid s k st raw)
  have "session_ok e sid (closed_episode s)" using closed_episode_inv resolve by blast
  then have "shape_ok (closed_episode s)" by (rule session_okD)
  then have "shape_ok ((closed_episode s)\<lparr>x_active := None, x_state := ''parked''\<rparr>)"
    using resolve(2,3) by (auto simp: shape_ok_def closed_episode_def)
  then show ?case by (intro end_turn_inv) (use resolve in \<open>auto simp: closed_episode_def\<close>)
next
  case (archive e sid s)
  have ok: "session_ok e sid s" using exec_invD(1) archive by blast
  have idle: "x_active s = None" using archive idle_iff by blast
  have "shape_ok (s\<lparr>x_lifecycle := ''archived'', x_state := ''archived''\<rparr>)"
    using session_okD(1) [OF ok] idle archive(4) by (auto simp: shape_ok_def)
  then have "session_ok e sid (s\<lparr>x_lifecycle := ''archived'', x_state := ''archived''\<rparr>)"
    using archive(4) idle by (intro session_okI) auto
  then show ?case using archive by (intro session_update_inv) auto
next
  case (lose_host e sid s k)
  have "session_ok e sid (s\<lparr>x_gen := x_gen s + 1, x_active_gen := x_gen s + 1,
      x_visibility := ''host_lost'', x_context := Some k\<rparr>)"
    using lost_host_inv lose_host by blast
  then show ?case using lose_host by (intro session_update_inv) auto
next
  case (resume e sid s k)
  have "session_ok e sid (closed_episode s)" using closed_episode_inv resume by blast
  then show ?case using resume by (intro session_update_inv) auto
next
  case (close e sid s)
  have "session_ok e sid (closed_episode s)" using closed_episode_inv close by blast
  then show ?case using close by (intro session_update_inv) auto
next
  case (edit e sid s k p raw)
  have "\<not> blank k" using exec_invD(4) edit by blast
  moreover have "xt e (sid, k) = None"
  proof (cases "xt e (sid, k)")
    case (Some t)
    then have "turn_ok e sid k t" using exec_invD(2) edit by blast
    then show ?thesis using edit(3) by (auto simp: turn_ok_def)
  qed
  ultimately show ?case using edit queue_inv by blast
qed (auto intro: open_session_inv queue_inv discard_inv release_inv acknowledge_inv cancel_inv)

end
