(* ===== verification/Store_Refinement.thy ===== *)
theory Store_Refinement
  imports Store_Execution
begin

text \<open>
  Every command of the store refines the execution machine: what a row lookup gives after each
  statement, and from that one simulation lemma per command.
\<close>

section \<open>The abstraction\<close>

definition session_view :: "SessionRow \<Rightarrow> exec_session" where
  "session_view s = \<lparr>x_state = s_state s, x_lifecycle = s_lifecycle s, x_visibility = s_visibility s,
     x_active = s_active_key s, x_context = s_recovery_context s, x_gen = s_recovery_gen s,
     x_active_gen = s_active_recovery_gen s\<rparr>"

definition turn_view :: "TurnRow \<Rightarrow> exec_turn" where
  "turn_view t = \<lparr>y_prompt = t_prompt t, y_status = t_status t, y_result = t_result t, y_attempt = t_attempt_id t\<rparr>"

definition exec_of :: "DB \<Rightarrow> exec" where
  "exec_of d = \<lparr>
     xs = (\<lambda>sid. map_option session_view (session_row sid d)),
     xp = (\<lambda>k. map_option p_prompt (pending_row (fst k) (snd k) d)),
     xt = (\<lambda>k. map_option turn_view (turn_row (fst k) (snd k) d)),
     xi = (\<lambda>k. map_option (\<lambda>i. (i_attempt_id i, i_phase i)) (intent_row (fst k) (snd k) d))\<rparr>"

lemma exec_of_sel:
  "xs (exec_of d) sid = map_option session_view (session_row sid d)"
  "xp (exec_of d) (sid, k) = map_option p_prompt (pending_row sid k d)"
  "xt (exec_of d) (sid, k) = map_option turn_view (turn_row sid k d)"
  "xi (exec_of d) (sid, k) = map_option (\<lambda>i. (i_attempt_id i, i_phase i)) (intent_row sid k d)"
  by (simp_all add: exec_of_def)

lemma session_view_bump [simp]: "session_view (bump v now s) = session_view s"
  by (simp add: session_view_def bump_def)

lemma bump_fields [simp]:
  "s_session_id (bump v now s) = s_session_id s" "s_state (bump v now s) = s_state s"
  by (simp_all add: bump_def)

text \<open>Statements that leave the execution tables alone.\<close>

lemma exec_of_cong:
  "sessions d' = sessions d \<Longrightarrow> pending d' = pending d \<Longrightarrow> turns d' = turns d \<Longrightarrow> intents d' = intents d \<Longrightarrow>
   exec_of d' = exec_of d"
  by (simp add: exec_of_def row_defs)

lemma exec_of_frames:
  "insert_run r d = Inr d' \<Longrightarrow> exec_of d' = exec_of d"
  "insert_lease l d = Inr d' \<Longrightarrow> exec_of d' = exec_of d"
  "insert_journal j d = Inr d' \<Longrightarrow> exec_of d' = exec_of d"
  "recordJournalEntry op cmd fp rid sid k kind rc cl now d = Inr d' \<Longrightarrow> exec_of d' = exec_of d"
  "insert_decision x d = Inr d' \<Longrightarrow> exec_of d' = exec_of d"
  "upsert_binding sid b now d = Inr d' \<Longrightarrow> exec_of d' = exec_of d"
  by (auto simp: statement_defs insert_decision_def upsert_binding_def recordJournalEntry_def split: if_splits
      intro!: exec_of_cong)

lemma exec_of_updates [simp]:
  "exec_of (update_leases p f d) = exec_of d" "exec_of (update_run rid g d) = exec_of d"
  "exec_of (d\<lparr>profiles := ps\<rparr>) = exec_of d"
  by (auto simp: update_leases_def update_run_def intro!: exec_of_cong)

lemma session_row_upd:
  "(\<And>s. s_session_id (f s) = s_session_id s) \<Longrightarrow> sessions d' = upd p f (sessions d) \<Longrightarrow>
   session_row x d' = map_option (\<lambda>s. if p s then f s else s) (session_row x d)"
  unfolding session_row_def by (simp add: sel_upd)

lemma exec_of_project [simp]: "exec_of (projectSessionConnection rid st now d) = exec_of d"
proof -
  have "session_row x (projectSessionConnection rid st now d) =
      map_option (\<lambda>s. if s_run_id s = rid \<and> s_controller_status s \<noteq> st
        then s\<lparr>s_controller_status := st, s_row_version := s_row_version s + 1, s_updated_at := now\<rparr> else s)
        (session_row x d)" for x
    by (rule session_row_upd) (simp_all add: projectSessionConnection_def)
  then have "map_option session_view (session_row x (projectSessionConnection rid st now d)) =
      map_option session_view (session_row x d)" for x
    by (cases "session_row x d") (auto simp: session_view_def)
  then show ?thesis
    by (simp add: exec_of_def) (simp add: projectSessionConnection_def row_defs)
qed

section \<open>Statements on the execution tables\<close>

lemma session_row_id: "session_row sid d = Some s \<Longrightarrow> s_session_id s = sid"
  by (auto simp: session_row_def dest: sel_SomeD)

lemma exec_of_update_session:
  assumes "update_session sid f d = Inr d'" "session_row sid d = Some s" "\<And>s. s_session_id (f s) = s_session_id s"
  shows "exec_of d' = (exec_of d)\<lparr>xs := (xs (exec_of d))(sid \<mapsto> session_view (f s))\<rparr>"
proof -
  have d': "d' = d\<lparr>sessions := upd (\<lambda>s. s_session_id s = sid) f (sessions d)\<rparr>"
    using update_session_Inr [OF assms(1)] by simp
  have "session_row x d' = map_option (\<lambda>s. if s_session_id s = sid then f s else s) (session_row x d)" for x
    by (rule session_row_upd [OF assms(3)]) (simp add: d')
  moreover have "s_session_id r = x" if "session_row x d = Some r" for x r using that by (rule session_row_id)
  ultimately have "map_option session_view (session_row x d') =
      ((xs (exec_of d))(sid \<mapsto> session_view (f s))) x" for x
    using assms(2) by (cases "session_row x d") (auto simp: exec_of_def)
  then have "xs (exec_of d') = (xs (exec_of d))(sid \<mapsto> session_view (f s))"
    by (intro ext) (simp add: exec_of_def)
  moreover have "xp (exec_of d') = xp (exec_of d)" "xt (exec_of d') = xt (exec_of d)" "xi (exec_of d') = xi (exec_of d)"
    by (simp_all add: exec_of_def d' row_defs)
  ultimately show ?thesis by simp
qed

lemma exec_of_insert_session:
  assumes "insert_session s d = Inr d'"
  shows "xs (exec_of d) (s_session_id s) = None"
    "exec_of d' = (exec_of d)\<lparr>xs := (xs (exec_of d))(s_session_id s \<mapsto> session_view s)\<rparr>"
proof -
  have d': "d' = d\<lparr>sessions := sessions d @ [s]\<rparr>" and new: "session_row (s_session_id s) d = None"
    using assms by (auto simp: insert_session_def split: if_splits)
  show "xs (exec_of d) (s_session_id s) = None" using new by (simp add: exec_of_def)
  have "session_row x d' = (if x = s_session_id s then Some s else session_row x d)" for x
    using new by (auto simp: d' session_row_def split: option.splits)
  then show "exec_of d' = (exec_of d)\<lparr>xs := (xs (exec_of d))(s_session_id s \<mapsto> session_view s)\<rparr>"
    by (auto simp: exec_of_def fun_eq_iff) (simp_all add: d' row_defs)
qed

lemma exec_of_pending:
  assumes "d' = d\<lparr>pending := ps\<rparr>" "\<And>x k. sel (is_pending x k) ps = f x k"
  shows "exec_of d' = (exec_of d)\<lparr>xp := (\<lambda>k. map_option p_prompt (f (fst k) (snd k)))\<rparr>"
  by (simp add: assms exec_of_def row_defs)

lemma exec_of_insert_pending:
  assumes "insert_pending p d = Inr d'" "p_session_id p = sid" "p_turn_key p = k"
  shows "exec_of d' = (exec_of d)\<lparr>xp := (xp (exec_of d))((sid, k) \<mapsto> p_prompt p)\<rparr>"
proof -
  have d': "d' = d\<lparr>pending := pending d @ [p]\<rparr>" and new: "pending_row sid k d = None"
    using assms by (auto simp: insert_pending_def split: if_splits)
  have "sel (is_pending x l) (pending d @ [p]) = (if (x, l) = (sid, k) then Some p else pending_row x l d)" for x l
    using new assms(2,3) by (auto simp: pending_row_def is_pending_def split: option.splits)
  from exec_of_pending [OF d' this] show ?thesis
    by (simp add: exec_of_def fun_eq_iff)
qed

lemma exec_of_replace_pending:
  assumes "pending_row sid k d = Some p0"
  shows "exec_of (d\<lparr>pending := upd (is_pending sid k) (\<lambda>p. p\<lparr>p_prompt := txt, p_queued_at := now\<rparr>) (pending d)\<rparr>) =
     (exec_of d)\<lparr>xp := (xp (exec_of d))((sid, k) \<mapsto> txt)\<rparr>"
proof -
  let ?f = "\<lambda>p. p\<lparr>p_prompt := txt, p_queued_at := now\<rparr>"
  have "sel (is_pending x l) (upd (is_pending sid k) ?f (pending d)) =
      (if (x, l) = (sid, k) then map_option ?f (pending_row x l d) else pending_row x l d)" for x l
  proof -
    have "sel (is_pending x l) (upd (is_pending sid k) ?f (pending d)) =
        map_option (\<lambda>r. if is_pending sid k r then ?f r else r) (pending_row x l d)"
      unfolding pending_row_def by (rule sel_upd) (simp add: is_pending_def)
    moreover have "is_pending x l r" if "pending_row x l d = Some r" for r
      using that by (auto simp: pending_row_def dest: sel_SomeD)
    ultimately show ?thesis by (cases "pending_row x l d") (auto simp: is_pending_def)
  qed
  from exec_of_pending [OF refl this] show ?thesis
    using assms by (auto simp: exec_of_def fun_eq_iff)
qed

lemma exec_of_delete_pending:
  "exec_of (d\<lparr>pending := del (is_pending sid k) (pending d)\<rparr>) =
     (exec_of d)\<lparr>xp := (xp (exec_of d))((sid, k) := None)\<rparr>"
proof -
  have "sel (is_pending x l) (del (is_pending sid k) (pending d)) =
      (if (x, l) = (sid, k) then None else pending_row x l d)" for x l
  proof (cases "(x, l) = (sid, k)")
    case True
    then show ?thesis by (simp add: sel_del sel_None_iff)
  next
    case False
    then have "(\<lambda>r. \<not> is_pending sid k r \<and> is_pending x l r) = is_pending x l"
      by (auto simp: is_pending_def fun_eq_iff)
    then show ?thesis using False by (auto simp: sel_del pending_row_def)
  qed
  from exec_of_pending [OF refl this] show ?thesis by (auto simp: exec_of_def fun_eq_iff)
qed

lemma exec_of_insert_turn:
  assumes "insert_turn t d = Inr d'" "t_session_id t = sid" "t_turn_key t = k"
  shows "exec_of d' = (exec_of d)\<lparr>xt := (xt (exec_of d))((sid, k) \<mapsto> turn_view t)\<rparr> \<and> xt (exec_of d) (sid, k) = None"
proof -
  have d': "d' = d\<lparr>turns := turns d @ [t]\<rparr>" and new: "turn_row sid k d = None"
    using assms by (auto simp: insert_turn_def split: if_splits)
  have "turn_row x l d' = (if (x, l) = (sid, k) then Some t else turn_row x l d)" for x l
    using new assms(2,3) by (auto simp: d' turn_row_def is_turn_def split: option.splits)
  then have "xt (exec_of d') = (xt (exec_of d))((sid, k) \<mapsto> turn_view t)"
    by (auto simp: exec_of_def fun_eq_iff)
  moreover have "xs (exec_of d') = xs (exec_of d)" "xp (exec_of d') = xp (exec_of d)" "xi (exec_of d') = xi (exec_of d)"
    by (simp_all add: exec_of_def d' row_defs)
  ultimately show ?thesis using new by (simp add: exec_of_sel)
qed

lemma exec_of_insert_intent:
  assumes "insert_intent i d = Inr d'" "i_session_id i = sid" "i_turn_key i = k"
  shows "exec_of d' = (exec_of d)\<lparr>xi := (xi (exec_of d))((sid, k) \<mapsto> (i_attempt_id i, i_phase i))\<rparr> \<and>
     xi (exec_of d) (sid, k) = None"
proof -
  have d': "d' = d\<lparr>intents := intents d @ [i]\<rparr>" and new: "intent_row sid k d = None"
    using assms by (auto simp: insert_intent_def split: if_splits)
  have "intent_row x l d' = (if (x, l) = (sid, k) then Some i else intent_row x l d)" for x l
    using new assms(2,3) by (auto simp: d' intent_row_def is_intent_def split: option.splits)
  then have "xi (exec_of d') = (xi (exec_of d))((sid, k) \<mapsto> (i_attempt_id i, i_phase i))"
    by (auto simp: exec_of_def fun_eq_iff)
  moreover have "xs (exec_of d') = xs (exec_of d)" "xp (exec_of d') = xp (exec_of d)" "xt (exec_of d') = xt (exec_of d)"
    by (simp_all add: exec_of_def d' row_defs)
  ultimately show ?thesis using new by (simp add: exec_of_sel)
qed

text \<open>An update of the row with a key, in a table whose rows keep their keys.\<close>

lemma sel_upd_key:
  assumes "\<And>r. q x r \<Longrightarrow> p r \<longleftrightarrow> x = k" "\<And>r. p r \<Longrightarrow> q x (f r) \<longleftrightarrow> q x r"
  shows "sel (q x) (upd p f t) = (if x = k then map_option f (sel (q x) t) else sel (q x) t)"
proof -
  have "sel (q x) (upd p f t) = map_option (\<lambda>r. if p r then f r else r) (sel (q x) t)"
    by (rule sel_upd) (use assms(2) in blast)
  moreover have "q x r" if "sel (q x) t = Some r" for r using sel_SomeD [OF that] by simp
  ultimately show ?thesis using assms(1) by (cases "sel (q x) t") auto
qed

lemma turn_row_update:
  assumes "\<And>t. t_session_id (f t) = t_session_id t" "\<And>t. t_turn_key (f t) = t_turn_key t"
  shows "turn_row x l (update_turn sid k f d) =
    (if (x, l) = (sid, k) then map_option f (turn_row x l d) else turn_row x l d)"
  unfolding turn_row_def update_turn_def
  using sel_upd_key [where q = "\<lambda>(x, l). is_turn x l" and x = "(x, l)" and k = "(sid, k)" and p = "is_turn sid k" and f = f and t = "turns d"]
  by (auto simp: is_turn_def assms)

lemma intent_row_update:
  assumes "\<And>i. i_session_id (f i) = i_session_id i" "\<And>i. i_turn_key (f i) = i_turn_key i"
  shows "intent_row x l (update_intent sid k f d) =
    (if (x, l) = (sid, k) then map_option f (intent_row x l d) else intent_row x l d)"
  unfolding intent_row_def update_intent_def
  using sel_upd_key [where q = "\<lambda>(x, l). is_intent x l" and x = "(x, l)" and k = "(sid, k)" and p = "is_intent sid k" and f = f and t = "intents d"]
  by (auto simp: is_intent_def assms)

lemma exec_of_update_turn:
  assumes "\<And>t. t_session_id (f t) = t_session_id t" "\<And>t. t_turn_key (f t) = t_turn_key t"
  shows "exec_of (update_turn sid k f d) = (exec_of d)\<lparr>xt := (xt (exec_of d))((sid, k) :=
      map_option (\<lambda>t. turn_view (f t)) (turn_row sid k d))\<rparr>"
proof -
  have "xt (exec_of (update_turn sid k f d)) = (xt (exec_of d))((sid, k) :=
      map_option (\<lambda>t. turn_view (f t)) (turn_row sid k d))"
    using turn_row_update [OF assms, of _ _ sid k d] by (auto simp: exec_of_def fun_eq_iff option.map_comp comp_def)
  then show ?thesis by (simp add: exec_of_def) (simp add: update_turn_def row_defs)
qed

lemma exec_of_update_intent:
  assumes "\<And>i. i_session_id (f i) = i_session_id i" "\<And>i. i_turn_key (f i) = i_turn_key i"
  shows "exec_of (update_intent sid k f d) = (exec_of d)\<lparr>xi := (xi (exec_of d))((sid, k) :=
      map_option (\<lambda>i. (i_attempt_id (f i), i_phase (f i))) (intent_row sid k d))\<rparr>"
proof -
  have "xi (exec_of (update_intent sid k f d)) = (xi (exec_of d))((sid, k) :=
      map_option (\<lambda>i. (i_attempt_id (f i), i_phase (f i))) (intent_row sid k d))"
    using intent_row_update [OF assms, of _ _ sid k d] by (auto simp: exec_of_def fun_eq_iff option.map_comp comp_def)
  then show ?thesis by (simp add: exec_of_def) (simp add: update_intent_def row_defs)
qed

lemma exec_of_same_view:
  assumes "update_session sid f d = Inr d'" "\<And>s. session_view (f s) = session_view s"
    "\<And>s. s_session_id (f s) = s_session_id s"
  shows "exec_of d' = exec_of d"
proof -
  have d': "d' = d\<lparr>sessions := upd (\<lambda>s. s_session_id s = sid) f (sessions d)\<rparr>"
    using update_session_Inr [OF assms(1)] by simp
  have "session_row x d' = map_option (\<lambda>s. if s_session_id s = sid then f s else s) (session_row x d)" for x
    by (rule session_row_upd [OF assms(3)]) (simp_all add: d')
  then have "map_option session_view (session_row x d') = map_option session_view (session_row x d)" for x
    by (cases "session_row x d") (auto simp: assms(2))
  then show ?thesis by (simp add: exec_of_def) (simp add: d' row_defs)
qed

lemma session_view_connection [simp]: "session_view (s\<lparr>s_controller_status := st\<rparr>) = session_view s"
  by (simp add: session_view_def)

lemma exec_of_bump:
  "update_session sid (bump v now) d = Inr d' \<Longrightarrow> exec_of d' = exec_of d"
  "update_session sid (\<lambda>s. bump (s_row_version s + 1) now s) d = Inr d' \<Longrightarrow> exec_of d' = exec_of d"
  "update_session sid (\<lambda>s. bump v now (s\<lparr>s_controller_status := st\<rparr>)) d = Inr d' \<Longrightarrow> exec_of d' = exec_of d"
  by (erule exec_of_same_view; simp)+

lemma session_row_frames:
  "insert_pending p d = Inr d' \<Longrightarrow> session_row sid d' = session_row sid d"
  "insert_turn t d = Inr d' \<Longrightarrow> session_row sid d' = session_row sid d"
  "insert_intent i d = Inr d' \<Longrightarrow> session_row sid d' = session_row sid d"
  "session_row sid (update_turn x k f d) = session_row sid d"
  "session_row sid (update_intent x k g d) = session_row sid d"
  "session_row sid (d\<lparr>pending := ps\<rparr>) = session_row sid d"
  by (auto simp: statement_defs update_turn_def update_intent_def session_row_def split: if_splits)

lemma joined_session_row: "joined_session sid d = Some s \<Longrightarrow> session_row sid d = Some s"
  by (auto simp: joined_session_def split: option.splits if_splits)

lemma prompt_preconditions_None:
  "prompt_preconditions v s = None \<Longrightarrow> s_row_version s = v \<and> s_lifecycle s \<noteq> ''archived'' \<and> s_controller_status s \<noteq> ''disconnected''"
  by (auto simp: prompt_preconditions_def split: if_splits)

section \<open>Steps over rows\<close>

definition steps_to :: "DB \<Rightarrow> DB \<Rightarrow> bool" where
  "steps_to d d' \<longleftrightarrow> exec_step (exec_of d) (exec_of d')"

lemma steps_quiet: "exec_of d' = exec_of d \<Longrightarrow> steps_to d d'"
  by (simp add: steps_to_def exec_step.quiet)

lemma steps_queue:
  assumes "session_row sid d = Some s" "s_lifecycle s \<noteq> ''archived''" "turn_row sid k d = None"
    "pending_row sid k d = None" "\<not> blank k"
    "exec_of d' = (exec_of d)\<lparr>xp := (xp (exec_of d))((sid, k) \<mapsto> SanitizeText raw)\<rparr>"
  shows "steps_to d d'"
  unfolding steps_to_def assms(6)
  by (rule exec_step.queue [where s = "session_view s"]) (use assms in \<open>simp_all add: exec_of_sel session_view_def\<close>)

lemma steps_edit:
  assumes "session_row sid d = Some s" "s_lifecycle s \<noteq> ''archived''" "pending_row sid k d = Some p"
    "exec_of d' = (exec_of d)\<lparr>xp := (xp (exec_of d))((sid, k) \<mapsto> SanitizeText raw)\<rparr>"
  shows "steps_to d d'"
  unfolding steps_to_def assms(4)
  by (rule exec_step.edit [where s = "session_view s" and p = "p_prompt p"])
    (use assms in \<open>simp_all add: exec_of_sel session_view_def\<close>)

lemma steps_discard:
  assumes "session_row sid d = Some s" "s_lifecycle s \<noteq> ''archived''" "pending_row sid k d = Some p"
    "exec_of d' = (exec_of d)\<lparr>xp := (xp (exec_of d))((sid, k) := None)\<rparr>"
  shows "steps_to d d'"
  unfolding steps_to_def assms(4)
  by (rule exec_step.discard [where s = "session_view s" and p = "p_prompt p"])
    (use assms in \<open>simp_all add: exec_of_sel session_view_def\<close>)

lemmas row_dests = joined_session_row prompt_preconditions_None exec_of_frames exec_of_bump
  exec_of_insert_pending [OF _ refl refl]

lemma steps_refl [simp]: "steps_to d d"
  by (simp add: steps_quiet)

lemma QueuePrompt_steps: "QueuePrompt op l sid v p now d = Inr (r, d') \<Longrightarrow> steps_to d d'"
  unfolding QueuePrompt_def Let_def
  apply (elim success_elims; simp)
   apply ((drule row_dests)+; simp add: steps_quiet)
  apply ((drule row_dests)+; erule steps_queue [where k = "pp_TurnKey p" and raw = "pp_Prompt p"]; simp)
  done

lemma ReplacePendingPrompt_steps: "ReplacePendingPrompt op l sid v p now d = Inr (r, d') \<Longrightarrow> steps_to d d'"
  unfolding ReplacePendingPrompt_def Let_def
  apply (elim success_elims; simp)
  apply ((elim exE)?; (drule row_dests)+;
      erule steps_edit [where k = "pp_TurnKey p" and raw = "pp_Prompt p"]; simp add: exec_of_replace_pending)
  done

lemma DiscardPendingPrompt_steps: "DiscardPendingPrompt op l sid v k now d = Inr (r, d') \<Longrightarrow> steps_to d d'"
  unfolding DiscardPendingPrompt_def Let_def
  apply (elim success_elims; simp)
  apply ((elim exE)?; (drule row_dests)+; erule steps_discard [where k = k]; simp add: exec_of_delete_pending)
  done

text \<open>Creation of a session: the machine starts it parked on a reachable host.\<close>

definition proper_session :: "SessionRecord \<Rightarrow> bool" where
  "proper_session s \<longleftrightarrow> sr_State s = ''parked'' \<and> sr_Visibility s = ''reachable'' \<and> sr_RecoveryGeneration s = 0"

lemma CreateSession_steps:
  assumes "CreateSession op l s now d = Inr (r, d')" "proper_session s"
  shows "steps_to d d'"
proof -
  have "d' = d \<or> (\<exists>st d1. insert_session (new_session_row s st now) d = Inr d1 \<and> exec_of d' = exec_of d1)"
    using assms(1) unfolding CreateSession_def Let_def
    by (elim success_elims; simp) (auto dest!: exec_of_frames)
  then show ?thesis
  proof
    assume "\<exists>st d1. insert_session (new_session_row s st now) d = Inr d1 \<and> exec_of d' = exec_of d1"
    then obtain st d1 where i: "insert_session (new_session_row s st now) d = Inr d1" "exec_of d' = exec_of d1" by blast
    have "session_view (new_session_row s st now) = fresh_session"
      using assms(2) by (simp add: session_view_def new_session_row_def fresh_session_def proper_session_def)
    then show ?thesis
      using exec_of_insert_session [OF i(1)] i(2) by (simp add: steps_to_def exec_step.open_session)
  qed simp
qed

lemma CreateRun_steps: "CreateRun op rid bd sd pd l now d = Inr (r, d') \<Longrightarrow> steps_to d d'"
  unfolding CreateRun_def Let_def
  by (elim success_elims; simp) (auto dest!: exec_of_frames intro!: steps_quiet split: if_splits)

section \<open>Releasing and ending turns\<close>

lemma release_preconditions_None:
  "release_preconditions v s = None \<Longrightarrow> s_row_version s = v \<and> s_lifecycle s \<noteq> ''archived'' \<and>
     s_controller_status s \<noteq> ''disconnected'' \<and> s_visibility s \<noteq> ''host_lost'' \<and> s_state s = ''parked'' \<and>
     text_or_empty (s_active_key s) = []"
  by (auto simp: release_preconditions_def split: if_splits)

lemma exec_of_release:
  assumes s: "session_row sid d = Some s" and rel: "release_effect sid k p s g now d = Inr d'"
  shows "turn_row sid k d = None \<and> intent_row sid k d = None \<and> exec_of d' = (exec_of d)
     \<lparr>xs := (xs (exec_of d))(sid \<mapsto> (session_view s)\<lparr>x_active := Some k, x_state := ''running''\<rparr>),
      xp := (xp (exec_of d))((sid, k) := None),
      xt := (xt (exec_of d))((sid, k) \<mapsto> \<lparr>y_prompt = SanitizeText (p_prompt p), y_status = ''running'', y_result = [],
         y_attempt = attempt_id (s_row_version s + 1) k\<rparr>),
      xi := (xi (exec_of d))((sid, k) \<mapsto> (attempt_id (s_row_version s + 1) k, ''intent_recorded''))\<rparr>"
proof -
  let ?a = "attempt_id (s_row_version s + 1) k"
  let ?d1 = "d\<lparr>pending := del (is_pending sid k) (pending d)\<rparr>"
  obtain d2 d3 where st:
    "insert_turn \<lparr>t_session_id = sid, t_turn_key = k, t_prompt = SanitizeText (p_prompt p), t_status = ''running'',
       t_result = [], t_attempt_id = ?a, t_created_at = now, t_completed_at = None\<rparr> ?d1 = Inr d2" (is "insert_turn ?t _ = _")
    "insert_intent \<lparr>i_session_id = sid, i_turn_key = k, i_attempt_id = ?a, i_phase = ''intent_recorded'',
       i_required_tools_json = p_required_tools_json p, i_issuing_generation = g, i_recorded_at = now,
       i_updated_at = now\<rparr> d2 = Inr d3" (is "insert_intent ?i _ = _")
    "update_session sid (\<lambda>x. bump (s_row_version s + 1) now (x\<lparr>s_active_key := Some k, s_state := ''running''\<rparr>)) d3 = Inr d'"
    using rel unfolding release_effect_def Let_def by (elim and_then_InrE)
  note t = exec_of_insert_turn [OF st(1), of sid k, simplified]
  note i = exec_of_insert_intent [OF st(2), of sid k, simplified]
  have row: "session_row sid d3 = Some s"
    using s session_row_frames(2) [OF st(1)] session_row_frames(3) [OF st(2)] by (simp add: session_row_frames(6))
  note u = exec_of_update_session [OF st(3) row]
  have "turn_row sid k d = None" using t by (simp add: exec_of_sel turn_row_def)
  moreover have "intent_row sid k d = None"
    using st(1,2) by (auto simp: insert_intent_def insert_turn_def intent_row_def split: if_splits)
  moreover have "session_view (bump (s_row_version s + 1) now (s\<lparr>s_active_key := Some k, s_state := ''running''\<rparr>)) =
      (session_view s)\<lparr>x_active := Some k, x_state := ''running''\<rparr>"
    by (simp add: session_view_def bump_def)
  ultimately show ?thesis
    using t i u by (simp add: exec_of_delete_pending turn_view_def)
qed

lemma ReleaseTurn_Inr:
  "ReleaseTurn op l sid v k now d = Inr (r, d') \<Longrightarrow>
     (d' = d \<and> journal_row op d \<noteq> None) \<or> (\<exists>s p g d1. session_row sid d = Some s \<and> release_preconditions v s = None \<and>
       pending_row sid k d = Some p \<and> \<not> blank k \<and> authorizeSessionController sid l True d = Inr g \<and>
       requireRunConnected (s_run_id s) d = None \<and>
       release_effect sid k p s g now d = Inr d1 \<and> exec_of d' = exec_of d1 \<and>
       rl_Receipt r = \<lparr>rr_Operation = session_receipt op ''release_turn'' sid k (v + 1) now (SanitizeText (p_prompt p)),
         rr_SanitizedPrompt = SanitizeText (p_prompt p), rr_TurnKey = k, rr_AttemptID = attempt_id (v + 1) k\<rparr>)"
  unfolding ReleaseTurn_def Let_def
  by (elim success_elims; simp)
    (auto simp: release_replay_def runIDOfSession_def split: option.splits if_splits
      dest!: joined_session_row exec_of_frames dest: release_preconditions_None)

lemma ReleaseTurn_steps:
  assumes "ReleaseTurn op l sid v k now d = Inr (r, d')"
  shows "steps_to d d'"
  using ReleaseTurn_Inr [OF assms]
proof
  assume "\<exists>s p g d1. session_row sid d = Some s \<and> release_preconditions v s = None \<and>
       pending_row sid k d = Some p \<and> \<not> blank k \<and> authorizeSessionController sid l True d = Inr g \<and>
       requireRunConnected (s_run_id s) d = None \<and>
       release_effect sid k p s g now d = Inr d1 \<and> exec_of d' = exec_of d1 \<and>
       rl_Receipt r = \<lparr>rr_Operation = session_receipt op ''release_turn'' sid k (v + 1) now (SanitizeText (p_prompt p)),
         rr_SanitizedPrompt = SanitizeText (p_prompt p), rr_TurnKey = k, rr_AttemptID = attempt_id (v + 1) k\<rparr>"
  then obtain s p g d1 where h: "session_row sid d = Some s" "release_preconditions v s = None"
    "pending_row sid k d = Some p" "\<not> blank k" "release_effect sid k p s g now d = Inr d1" "exec_of d' = exec_of d1"
    by blast
  note e = exec_of_release [OF h(1,5)]
  show ?thesis
    unfolding steps_to_def h(6) e [THEN conjunct2, THEN conjunct2]
    by (rule exec_step.release [where p = "p_prompt p"])
      (use h e release_preconditions_None [OF h(2)] in \<open>simp_all add: exec_of_sel session_view_def\<close>)
qed simp

text \<open>The two row updates that give a turn its end.\<close>

definition ended_rows :: "string \<Rightarrow> string \<Rightarrow> string \<Rightarrow> string \<Rightarrow> time \<Rightarrow> DB \<Rightarrow> DB" where
  "ended_rows sid k st res now d =
     update_intent sid k (\<lambda>i. i\<lparr>i_phase := ''resolved'', i_updated_at := now\<rparr>)
       (update_turn sid k (\<lambda>t. t\<lparr>t_status := st, t_result := res, t_completed_at := Some now\<rparr>) d)"

lemma exec_of_ended_rows: "exec_of (ended_rows sid k st res now d) = end_exec_turn (sid, k) st res (exec_of d)"
proof -
  have "intent_row sid k (update_turn sid k f d) = intent_row sid k d" for f
    by (simp add: intent_row_def update_turn_def)
  then show ?thesis
    unfolding ended_rows_def end_exec_turn_def
    by (simp add: exec_of_update_turn exec_of_update_intent)
      (simp add: exec_of_sel option.map_comp comp_def turn_view_def)
qed

lemma session_row_ended_rows [simp]: "session_row x (ended_rows sid k st res now d) = session_row x d"
  by (simp add: ended_rows_def session_row_frames)

lemma end_exec_turn_xs: "xs (end_exec_turn k st res e) = xs e"
  by (simp add: end_exec_turn_def)

lemma end_exec_turn_sessions:
  "(end_exec_turn k st res e)\<lparr>xs := m\<rparr> = end_exec_turn k st res (e\<lparr>xs := m\<rparr>)"
  by (simp add: end_exec_turn_def)

lemma exec_of_end_turn:
  assumes s: "session_row sid d = Some s" and run: "end_turn sid k st res s now d = Inr d'"
  shows "exec_of d' = end_exec_turn (sid, k) st res
    ((exec_of d)\<lparr>xs := (xs (exec_of d))(sid \<mapsto> parked_after k (session_view s))\<rparr>)"
proof -
  let ?f = "\<lambda>x. bump (s_row_version s + 1) now
             (if s_visibility s = ''host_lost''
              then x\<lparr>s_active_key := None, s_state := ''parked'', s_recovery_context := Some k\<rparr>
              else x\<lparr>s_active_key := None, s_state := ''parked''\<rparr>)"
  have u: "update_session sid ?f (ended_rows sid k st res now d) = Inr d'"
    using run by (simp add: end_turn_def ended_rows_def Let_def)
  have "session_view (?f s) = parked_after k (session_view s)"
    by (simp add: session_view_def bump_def parked_after_def)
  moreover have "s_session_id (?f x) = s_session_id x" for x by simp
  ultimately show ?thesis
    using exec_of_update_session [OF u] s
    by (simp add: exec_of_ended_rows end_exec_turn_xs end_exec_turn_sessions)
qed

lemma outcome_matches_view: "outcome_matches k s \<longleftrightarrow> may_end k (session_view s)"
  by (simp add: outcome_matches_def may_end_def session_view_def)

lemma terminal_text_terminal: "terminal_text st = Some t \<Longrightarrow> isTerminal t"
  by (cases st) (auto simp: terminal_text_def isTerminal_def)

lemma steps_finish:
  assumes "session_row sid d = Some s" "s_lifecycle s \<noteq> ''archived''" "turn_row sid k d = Some t"
    "\<not> isTerminal (t_status t)" "outcome_matches k s" "isTerminal st"
    "end_turn sid k st (SanitizeText raw) s now d = Inr d1" "exec_of d' = exec_of d1"
  shows "steps_to d d'"
  unfolding steps_to_def assms(8) exec_of_end_turn [OF assms(1,7)]
  by (rule exec_step.finish [where t = "turn_view t"])
    (use assms in \<open>simp_all add: exec_of_sel session_view_def turn_view_def outcome_matches_view\<close>)

lemma RecordTerminalOutcome_steps:
  "RecordTerminalOutcome op l sid v k st raw now d = Inr (r, d') \<Longrightarrow> steps_to d d'"
  unfolding RecordTerminalOutcome_def Let_def
  apply (elim success_elims; simp)
   apply ((drule row_dests)+; simp add: steps_quiet)
  apply ((drule row_dests terminal_text_terminal)+; erule steps_finish; simp)
  done

lemma RecordObservedExecutionOutcome_steps:
  "RecordObservedExecutionOutcome op er st raw now d = Inr (r, d') \<Longrightarrow> steps_to d d'"
  unfolding RecordObservedExecutionOutcome_def Let_def
  apply (elim success_elims; simp)
   apply ((drule row_dests)+; simp add: steps_quiet)
  apply ((drule row_dests terminal_text_terminal)+; erule steps_finish; simp)
  done

section \<open>Cancellation, acknowledgement, host loss, archive\<close>

lemma steps_cancel:
  assumes "session_row sid d = Some s" "s_state s = ''running''" "s_active_key s = Some k"
    "turn_row sid k d = Some t" "t_status t = ''running''"
    "exec_of d' = exec_of (update_turn sid k (\<lambda>t. t\<lparr>t_status := ''cancelling''\<rparr>) d)"
  shows "steps_to d d'"
proof -
  have "exec_of d' = (exec_of d)\<lparr>xt := (xt (exec_of d))((sid, k) \<mapsto> (turn_view t)\<lparr>y_status := ''cancelling''\<rparr>)\<rparr>"
    using assms(4,6) by (simp add: exec_of_update_turn turn_view_def)
  then show ?thesis
    unfolding steps_to_def
    by (simp only:) (rule exec_step.cancel [where s = "session_view s"],
      use assms in \<open>simp_all add: exec_of_sel session_view_def turn_view_def\<close>)
qed

lemma StoreRequestCancel_steps: "StoreRequestCancel op l sid v k now d = Inr (r, d') \<Longrightarrow> steps_to d d'"
  unfolding StoreRequestCancel_def Let_def
  apply (elim success_elims; simp)
   apply ((drule row_dests)+; simp add: steps_quiet)
  apply ((drule row_dests)+; erule steps_cancel; simp)
  done

lemma steps_acknowledge:
  assumes "intent_row sid k d = Some i" "i_phase i \<noteq> ''resolved''" "ph \<noteq> ''resolved''"
    "exec_of d' = exec_of (update_intent sid k (\<lambda>i. i\<lparr>i_phase := ph, i_updated_at := now\<rparr>) d)"
  shows "steps_to d d'"
proof -
  have "exec_of d' = (exec_of d)\<lparr>xi := (xi (exec_of d))((sid, k) \<mapsto> (i_attempt_id i, ph))\<rparr>"
    using assms(1,4) by (simp add: exec_of_update_intent)
  then show ?thesis
    unfolding steps_to_def
    by (simp only:) (rule exec_step.acknowledge [where ph = "i_phase i"], use assms in \<open>simp_all add: exec_of_sel\<close>)
qed

lemma RecordObservedDispatchAcknowledgement_steps:
  "RecordObservedDispatchAcknowledgement op er ph now d = Inr (r, d') \<Longrightarrow> steps_to d d'"
  unfolding RecordObservedDispatchAcknowledgement_def Let_def
  apply (elim success_elims; simp)
  apply ((drule row_dests)+; erule steps_acknowledge [where ph = ph and now = now]; force)
  done

lemma RecordDispatchObservation_steps:
  "RecordDispatchObservation op l sid k ph now d = Inr (r, d') \<Longrightarrow> steps_to d d'"
  unfolding RecordDispatchObservation_def Let_def
  apply (elim success_elims; simp)
    apply ((drule row_dests)+; simp add: steps_quiet)
   apply ((drule row_dests)+; simp add: steps_quiet)
  apply ((drule row_dests)+; erule steps_acknowledge [where ph = ph and now = now]; force)
  done

lemma SetControllerConnection_steps:
  "SetControllerConnection op l sid v c now d = Inr (r, d') \<Longrightarrow> steps_to d d'"
  unfolding SetControllerConnection_def Let_def
  apply (elim success_elims; simp)
   apply ((drule row_dests)+; simp add: steps_quiet)
  apply ((drule row_dests)+; simp add: steps_quiet)
  done

lemma steps_session:
  assumes "session_row sid d = Some s" "update_session sid f d = Inr d1" "exec_of d' = exec_of d1"
    "\<And>s. s_session_id (f s) = s_session_id s"
    "exec_step (exec_of d) ((exec_of d)\<lparr>xs := (xs (exec_of d))(sid \<mapsto> session_view (f s))\<rparr>)"
  shows "steps_to d d'"
  using exec_of_update_session [OF assms(2,1,4)] assms(3,5) by (simp add: steps_to_def)

lemma text_nonempty: "text_or_empty x \<noteq> [] \<Longrightarrow> x = Some (text_or_empty x)"
  by (cases x) (simp_all add: text_or_empty_def)

text \<open>The row of a session whose host is lost, at its next generation.\<close>

definition lost_row :: "string \<Rightarrow> SessionRow \<Rightarrow> time \<Rightarrow> SessionRow \<Rightarrow> SessionRow" where
  "lost_row k s now x = bump (s_row_version s + 1) now
     (x\<lparr>s_recovery_gen := s_recovery_gen s + 1, s_active_recovery_gen := s_recovery_gen s + 1,
        s_visibility := ''host_lost'', s_recovery_context := Some k\<rparr>)"

lemma StoreRecordHostLoss_Inr:
  "StoreRecordHostLoss op l sid v now d = Inr (r, d') \<Longrightarrow>
     exec_of d' = exec_of d \<or> (\<exists>s d1. session_row sid d = Some s \<and> s_lifecycle s \<noteq> ''archived'' \<and>
       s_visibility s \<noteq> ''host_lost'' \<and> s_state s = ''running'' \<and> text_or_empty (s_active_key s) \<noteq> [] \<and>
       s_row_version s = v \<and> update_session sid (lost_row (text_or_empty (s_active_key s)) s now) d = Inr d1 \<and>
       exec_of d' = exec_of d1)"
  unfolding StoreRecordHostLoss_def Let_def lost_row_def
  by (elim success_elims; simp) ((drule row_dests)+; simp; fail | (drule row_dests)+; simp; blast)+

lemma StoreRecordHostLoss_steps:
  assumes "StoreRecordHostLoss op l sid v now d = Inr (r, d')"
  shows "steps_to d d'"
  using StoreRecordHostLoss_Inr [OF assms]
proof
  assume "\<exists>s d1. session_row sid d = Some s \<and> s_lifecycle s \<noteq> ''archived'' \<and>
       s_visibility s \<noteq> ''host_lost'' \<and> s_state s = ''running'' \<and> text_or_empty (s_active_key s) \<noteq> [] \<and>
       s_row_version s = v \<and> update_session sid (lost_row (text_or_empty (s_active_key s)) s now) d = Inr d1 \<and>
       exec_of d' = exec_of d1"
  then obtain s d1 where h: "session_row sid d = Some s" "s_lifecycle s \<noteq> ''archived''"
    "s_visibility s \<noteq> ''host_lost''" "s_state s = ''running''" "text_or_empty (s_active_key s) \<noteq> []"
    "update_session sid (lost_row (text_or_empty (s_active_key s)) s now) d = Inr d1" "exec_of d' = exec_of d1" by blast
  let ?k = "text_or_empty (s_active_key s)"
  have "session_view (lost_row ?k s now s) = (session_view s)\<lparr>x_gen := x_gen (session_view s) + 1,
      x_active_gen := x_gen (session_view s) + 1, x_visibility := ''host_lost'', x_context := Some ?k\<rparr>"
    by (simp add: lost_row_def session_view_def bump_def)
  then show ?thesis
    by (intro steps_session [OF h(1,6,7)])
      (simp add: lost_row_def, simp only:, rule exec_step.lose_host,
        use h text_nonempty [OF h(5)] in \<open>simp_all add: exec_of_sel session_view_def\<close>)
qed (simp add: steps_quiet)

definition archived_row :: "SessionRow \<Rightarrow> time \<Rightarrow> SessionRow \<Rightarrow> SessionRow" where
  "archived_row s now x = bump (s_row_version s + 1) now (x\<lparr>s_lifecycle := ''archived'', s_state := ''archived''\<rparr>)"

lemma ArchiveSession_Inr:
  "ArchiveSession op l sid v now d = Inr (r, d') \<Longrightarrow>
     exec_of d' = exec_of d \<or> (\<exists>s d1. session_row sid d = Some s \<and> s_state s \<noteq> ''running'' \<and>
       text_or_empty (s_active_key s) = [] \<and> s_visibility s \<noteq> ''host_lost'' \<and> s_row_version s = v \<and>
       update_session sid (archived_row s now) d = Inr d1 \<and> exec_of d' = exec_of d1)"
  unfolding ArchiveSession_def Let_def archived_row_def
  by (elim success_elims; simp) ((drule row_dests)+; simp; fail | (drule row_dests)+; simp; blast)+

lemma ArchiveSession_steps:
  assumes "ArchiveSession op l sid v now d = Inr (r, d')"
  shows "steps_to d d'"
  using ArchiveSession_Inr [OF assms]
proof
  assume "\<exists>s d1. session_row sid d = Some s \<and> s_state s \<noteq> ''running'' \<and>
       text_or_empty (s_active_key s) = [] \<and> s_visibility s \<noteq> ''host_lost'' \<and> s_row_version s = v \<and>
       update_session sid (archived_row s now) d = Inr d1 \<and> exec_of d' = exec_of d1"
  then obtain s d1 where h: "session_row sid d = Some s" "s_state s \<noteq> ''running''"
    "text_or_empty (s_active_key s) = []" "s_visibility s \<noteq> ''host_lost''"
    "update_session sid (archived_row s now) d = Inr d1" "exec_of d' = exec_of d1" by blast
  have "session_view (archived_row s now s) = (session_view s)\<lparr>x_lifecycle := ''archived'', x_state := ''archived''\<rparr>"
    by (simp add: archived_row_def session_view_def bump_def)
  then show ?thesis
    by (intro steps_session [OF h(1,5,6)])
      (simp add: archived_row_def, simp only:, rule exec_step.archive,
        use h in \<open>simp_all add: exec_of_sel session_view_def\<close>)
qed (simp add: steps_quiet)

section \<open>Reconciliation\<close>

lemma session_view_close [simp]: "session_view (close_recovery s) = closed_episode (session_view s)"
  by (simp add: session_view_def close_recovery_def closed_episode_def)

lemma close_recovery_id [simp]: "s_session_id (close_recovery s) = s_session_id s"
  by (simp add: close_recovery_def)

lemma reconcile_turn_status_terminal: "reconcile_turn_status oc = Some st \<Longrightarrow> isTerminal st"
  by (auto simp: reconcile_turn_status_def isTerminal_def dest: terminal_text_terminal split: if_splits)

lemma reconcile_close_steps:
  assumes s: "session_row sid d = Some s" "s_visibility s = ''host_lost''"
    and run: "update_session sid (\<lambda>x. bump v now (close_recovery x)) d = Inr d1"
  shows "steps_to d d1"
proof (rule steps_session [OF s(1) run refl])
  show "exec_step (exec_of d) ((exec_of d)\<lparr>xs := (xs (exec_of d))(sid \<mapsto> session_view (bump v now (close_recovery s)))\<rparr>)"
  proof (cases "text_or_empty (s_active_key s) = []")
    case True
    then show ?thesis
      unfolding session_view_bump session_view_close
      by (intro exec_step.close) (use s in \<open>simp_all add: exec_of_sel session_view_def\<close>)
  next
    case False
    then show ?thesis
      unfolding session_view_bump session_view_close
      by (intro exec_step.resume [where k = "text_or_empty (s_active_key s)"])
        (use s text_nonempty [OF False] in \<open>simp_all add: exec_of_sel session_view_def\<close>)
  qed
qed simp

lemma reconcile_resolve_steps:
  assumes s: "session_row sid d = Some s" "s_visibility s = ''host_lost''" "s_active_key s = Some k" "k \<noteq> []"
    and st: "isTerminal st"
    and run: "update_session sid (\<lambda>x. bump v now ((close_recovery x)\<lparr>s_active_key := None, s_state := ''parked''\<rparr>))
        (ended_rows sid k st (SanitizeText raw) now d) = Inr d1"
  shows "steps_to d d1"
proof -
  have view: "session_view (bump v now ((close_recovery s)\<lparr>s_active_key := None, s_state := ''parked''\<rparr>)) =
      (closed_episode (session_view s))\<lparr>x_active := None, x_state := ''parked''\<rparr>"
    by (simp add: session_view_def bump_def close_recovery_def closed_episode_def)
  have row: "session_row sid (ended_rows sid k st (SanitizeText raw) now d) = Some s" using s(1) by simp
  have "exec_of d1 = end_exec_turn (sid, k) st (SanitizeText raw)
      ((exec_of d)\<lparr>xs := (xs (exec_of d))(sid \<mapsto> (closed_episode (session_view s))\<lparr>x_active := None, x_state := ''parked''\<rparr>)\<rparr>)"
    using exec_of_update_session [OF run row] view
    by (simp add: exec_of_ended_rows end_exec_turn_xs end_exec_turn_sessions)
  then show ?thesis
    unfolding steps_to_def
    by (simp only:) (rule exec_step.resolve, use s st in \<open>simp_all add: exec_of_sel session_view_def\<close>)
qed

lemma reconcile_active_steps:
  assumes "reconcile_active sid k s oc now d = Inr (p, d1)" "session_row sid d = Some s"
    "s_visibility s = ''host_lost''" "s_active_key s = Some k" "k \<noteq> []"
  shows "steps_to d d1"
  using assms(1) unfolding reconcile_active_def Let_def ended_rows_def [symmetric]
  by (auto split: ReconciliationStatus.splits option.splits elim!: and_then_InrE
      dest!: exec_of_bump intro: steps_quiet reconcile_close_steps [OF assms(2,3)]
        reconcile_resolve_steps [OF assms(2-5)] dest: reconcile_turn_status_terminal)

lemma reconcile_parked_steps:
  assumes "reconcile_parked sid s oc now d = Inr (p, d1)" "session_row sid d = Some s" "s_visibility s = ''host_lost''"
  shows "steps_to d d1"
  using assms(1) unfolding reconcile_parked_def Let_def
  by (auto split: ReconciliationStatus.splits elim!: and_then_InrE
      dest!: exec_of_bump intro: steps_quiet reconcile_close_steps [OF assms(2,3)])

lemma steps_then_record: "steps_to d d1 \<Longrightarrow> exec_of d' = exec_of d1 \<Longrightarrow> steps_to d d'"
  by (simp add: steps_to_def)

end
