(* ===== verification/Store_Simulation.thy ===== *)
theory Store_Simulation
  imports Store_Refinement
begin

text \<open>
  The simulation as a whole: reconciliation, the commands that only move authority, and every
  command of the store as a step of the execution machine.
\<close>

lemma replay_known:
  "checkOrRecordIdempotency op cmd fp d = Inr (Some r) \<Longrightarrow> journal_row op d \<noteq> None"
  by (auto simp: checkOrRecordIdempotency_def split: option.splits)

text \<open>What a reconciliation that is no replay does to the execution tables: the active turn's episode
  or the parked one.\<close>

definition reconcile_rows ::
  "string \<Rightarrow> string \<Rightarrow> SessionRow \<Rightarrow> ReconciliationOutcome \<Rightarrow> time \<Rightarrow> DB \<Rightarrow> DB \<Rightarrow> bool"
where
  "reconcile_rows sid k s oc now d d1 \<longleftrightarrow>
     (if text_or_empty (s_active_key s) \<noteq> []
      then text_or_empty (s_active_key s) = k \<and> (\<exists>p. reconcile_active sid k s oc now d = Inr (p, d1))
      else text_or_empty (s_recovery_context s) = k \<and> (\<exists>p. reconcile_parked sid s oc now d = Inr (p, d1)))"

lemma ReconcileSession_cases:
  assumes run: "ReconcileSession op er rr oc now d = Inr (r, d')"
  obtains (replay) "d' = d" "journal_row op d \<noteq> None"
    | (commit) s d1 where "session_row (ref_SessionID rr) d = Some s" "s_visibility s = ''host_lost''"
      "s_active_recovery_gen s = unat (ref_Generation rr)" "ref_Generation rr \<noteq> 0" "exec_of d' = exec_of d1"
      "reconcile_rows (ref_SessionID rr) (ref_TurnKey rr) s oc now d d1"
  using run unfolding ReconcileSession_def Let_def
  apply (elim success_elims; simp)
    apply (drule replay_known, erule (1) replay)
   apply (drule joined_session_row, drule exec_of_frames(4), elim conjE, erule (4) commit, simp add: reconcile_rows_def)
  apply (drule joined_session_row, drule exec_of_frames(4), elim conjE, erule (4) commit, simp add: reconcile_rows_def)
  done

lemma reconcile_rows_steps:
  assumes "reconcile_rows sid k s oc now d d1" "session_row sid d = Some s" "s_visibility s = ''host_lost''"
  shows "steps_to d d1"
proof (cases "text_or_empty (s_active_key s) = []")
  case True
  then show ?thesis using assms reconcile_parked_steps [OF _ assms(2,3)] by (auto simp: reconcile_rows_def)
next
  case active: False
  then show ?thesis
    using assms(1) reconcile_active_steps [OF _ assms(2,3) text_nonempty [OF active] active]
    by (auto simp: reconcile_rows_def)
qed

lemma ReconcileSession_steps:
  assumes "ReconcileSession op er rr oc now d = Inr (r, d')"
  shows "steps_to d d'"
  using assms
proof (cases rule: ReconcileSession_cases)
  case (commit s d1)
  then show ?thesis using steps_then_record [OF reconcile_rows_steps] by blast
qed simp

section \<open>The simulation\<close>

text \<open>A command that creates no session, or a parked one on a reachable host.\<close>

fun proper_op :: "store_op \<Rightarrow> bool" where
  "proper_op (CmdCreateSession op l s) = proper_session s"
| "proper_op c = True"

lemma grant_frames:
  "installGrant op rid h c n cmd fp kind mode now d = Inr (g, d') \<Longrightarrow> exec_of d' = exec_of d"
  unfolding installGrant_def Let_def by (elim success_elims) (auto dest!: exec_of_frames)

lemma authority_steps:
  "AdoptController op rid h c b rv n now d = Inr (g, d') \<Longrightarrow> exec_of d' = exec_of d"
  "HandoffController op rid cl eg h c n now d = Inr (g, d') \<Longrightarrow> exec_of d' = exec_of d"
  "RecoverControllerCredential op rid src ge now d = Inr (g, d') \<Longrightarrow> exec_of d' = exec_of d"
  unfolding AdoptController_def HandoffController_def RecoverControllerCredential_def Let_def
  by (elim success_elims; simp; fastforce dest!: grant_frames exec_of_frames)+

lemma revoke_steps: "RevokeController op rid cl rv now d = Inr (r, d') \<Longrightarrow> exec_of d' = exec_of d"
  unfolding RevokeController_def Let_def
  by (elim success_elims; simp) (auto simp: revoke_effect_def Let_def dest!: exec_of_frames split: if_splits)

lemma attachment_steps:
  "ConnectRunController op rid cl eg inst att now d = Inr (cr, d') \<Longrightarrow> exec_of d' = exec_of d"
  "DisconnectRunController op rid cl att eg now d = Inr (r, d') \<Longrightarrow> exec_of d' = exec_of d"
  unfolding ConnectRunController_def DisconnectRunController_def Let_def
  by (elim success_elims; simp; fastforce dest!: exec_of_frames split: prod.splits if_splits)+

lemma RecordDecision_steps: "RecordDecision op l rid a n p now d = Inr (r, d') \<Longrightarrow> exec_of d' = exec_of d"
  unfolding RecordDecision_def Let_def
  by (elim success_elims; simp; fastforce dest!: exec_of_frames)

lemma SetNativeBinding_steps: "SetNativeBinding op l sid v b now d = Inr (r, d') \<Longrightarrow> steps_to d d'"
  unfolding SetNativeBinding_def Let_def
  by (elim success_elims; simp) ((drule row_dests)+; simp add: steps_quiet)

lemma artifact_steps:
  "commit_publication op l m c now d = Inr (am, d') \<Longrightarrow> exec_of d' = exec_of d"
  "ReleaseArtifacts op l rid ms now d = Inr (pr, d') \<Longrightarrow> exec_of d' = exec_of d"
  by (auto dest!: commit_publication_touches ReleaseArtifacts_touches intro!: exec_of_cong)

lemmas command_steps = CreateRun_steps CreateSession_steps QueuePrompt_steps ReplacePendingPrompt_steps
  DiscardPendingPrompt_steps ReleaseTurn_steps StoreRequestCancel_steps RecordTerminalOutcome_steps
  StoreRecordHostLoss_steps ReconcileSession_steps RecordDispatchObservation_steps
  SetControllerConnection_steps ArchiveSession_steps RecordObservedExecutionOutcome_steps
  RecordObservedDispatchAcknowledgement_steps
  authority_steps [THEN steps_quiet] revoke_steps [THEN steps_quiet] attachment_steps [THEN steps_quiet]
  RecordDecision_steps [THEN steps_quiet] SetNativeBinding_steps artifact_steps [THEN steps_quiet]

lemma store_exec_steps: "proper_op c \<Longrightarrow> store_exec c now d = Inr (r, d') \<Longrightarrow> steps_to d d'"
  by (cases c) (auto simp: as_result_Inr intro: command_steps)

end
