(* ===== verification/Store_Statements.thy ===== *)
theory Store_Statements
  imports Store_Simulation
begin

text \<open>
  Predicates on the database that every statement preserves, as an interface: a predicate that
  satisfies the laws is preserved by every command of the store. What the laws say of each
  statement is what its proof has to look at; the walk through the commands is done once.
\<close>

definition turn_key :: "TurnRow \<Rightarrow> string \<times> string" where "turn_key t = (t_session_id t, t_turn_key t)"

definition intent_key :: "IntentRow \<Rightarrow> string \<times> string" where "intent_key i = (i_session_id i, i_turn_key i)"

definition pending_key :: "PendingRow \<Rightarrow> string \<times> string" where "pending_key p = (p_session_id p, p_turn_key p)"

definition starts_turn :: "store_op \<Rightarrow> bool" where
  "starts_turn c \<longleftrightarrow> (\<exists>op l sid v k. c = CmdRelease op l sid v k)"

text \<open>Statements other than those on artifacts and the insertion of a turn and its dispatch intent.\<close>

locale core_statements =
  fixes I :: "DB \<Rightarrow> bool"
  assumes new_run: "insert_run r d = Inr d' \<Longrightarrow> I d \<Longrightarrow> I d'"
    and new_session: "insert_session s d = Inr d' \<Longrightarrow> I d \<Longrightarrow> I d'"
    and new_pending: "insert_pending pr d = Inr d' \<Longrightarrow> I d \<Longrightarrow> I d'"
    and new_entry: "insert_journal j d = Inr d' \<Longrightarrow> I d \<Longrightarrow> I d'"
    and new_lease: "insert_lease l d = Inr d' \<Longrightarrow> I d \<Longrightarrow> I d'"
    and new_decision: "insert_decision x d = Inr d' \<Longrightarrow> I d \<Longrightarrow> I d'"
    and leases_updated: "I d \<Longrightarrow> I (update_leases lp g d)"
    and profiles_updated: "I d \<Longrightarrow> I (d\<lparr>profiles := ps\<rparr>)"
    and run_updated: "I d \<Longrightarrow> (\<And>r. r_run_id (h r) = r_run_id r) \<Longrightarrow> I (update_run rid h d)"
    and prompts_updated: "I d \<Longrightarrow> (\<And>p. pending_key (e p) = pending_key p) \<Longrightarrow> I (d\<lparr>pending := upd q e (pending d)\<rparr>)"
    and prompts_deleted: "I d \<Longrightarrow> I (d\<lparr>pending := del q (pending d)\<rparr>)"
    and projected: "st \<in> {''connected'', ''disconnected''} \<Longrightarrow> I d \<Longrightarrow> I (projectSessionConnection rid st now d)"
    and session_updated: "update_session sid f d = Inr d' \<Longrightarrow> (\<And>s. s_session_id (f s) = s_session_id s) \<Longrightarrow>
      (\<And>s. s_run_id (f s) = s_run_id s) \<Longrightarrow> I d \<Longrightarrow> I d'"
    and turn_cancelling: "I d \<Longrightarrow> I (update_turn sid k (\<lambda>t. t\<lparr>t_status := ''cancelling''\<rparr>) d)"
    and turn_ended: "isTerminal tst \<Longrightarrow> I d \<Longrightarrow> I (ended_rows sid k tst res now d)"
    and intent_acknowledged: "ph = ''receipt_acknowledged'' \<or> ph = ''acceptance_unknown'' \<Longrightarrow> I d \<Longrightarrow>
      I (update_intent sid k (\<lambda>i. i\<lparr>i_phase := ph, i_updated_at := now\<rparr>) d)"
    and binding_set: "upsert_binding sid b now d = Inr d' \<Longrightarrow> I d \<Longrightarrow> I d'"
begin

lemma session_writes:
  "update_session sid (bump v now) d = Inr d' \<Longrightarrow> I d \<Longrightarrow> I d'"
  "update_session sid (\<lambda>s. bump (s_row_version s + 1) now s) d = Inr d' \<Longrightarrow> I d \<Longrightarrow> I d'"
  "update_session sid (\<lambda>s. bump v now (s\<lparr>s_controller_status := st\<rparr>)) d = Inr d' \<Longrightarrow> I d \<Longrightarrow> I d'"
  "update_session sid (\<lambda>s. bump v now (s\<lparr>s_active_key := ak, s_state := rn\<rparr>)) d = Inr d' \<Longrightarrow> I d \<Longrightarrow> I d'"
  "update_session sid (\<lambda>s. bump v now (s\<lparr>s_recovery_gen := g, s_active_recovery_gen := ag, s_visibility := vis,
     s_recovery_context := cx\<rparr>)) d = Inr d' \<Longrightarrow> I d \<Longrightarrow> I d'"
  "update_session sid (\<lambda>s. bump v now (s\<lparr>s_lifecycle := lc, s_state := rn\<rparr>)) d = Inr d' \<Longrightarrow> I d \<Longrightarrow> I d'"
  "update_session sid (\<lambda>s. bump v now (close_recovery s)) d = Inr d' \<Longrightarrow> I d \<Longrightarrow> I d'"
  "update_session sid (\<lambda>s. bump v now ((close_recovery s)\<lparr>s_active_key := ak, s_state := rn\<rparr>)) d = Inr d' \<Longrightarrow>
     I d \<Longrightarrow> I d'"
  by (erule session_updated; simp add: bump_def close_recovery_def)+

lemma recorded: "recordJournalEntry op cmd fp rid sid k kind rc l now d = Inr d' \<Longrightarrow> I d \<Longrightarrow> I d'"
  unfolding recordJournalEntry_def by (rule new_entry)

lemma end_turn_keeps:
  "end_turn sid k st res s now d = Inr d' \<Longrightarrow> isTerminal st \<Longrightarrow> I d \<Longrightarrow> I d'"
  unfolding end_turn_def Let_def ended_rows_def [symmetric]
  by (erule session_updated) (auto simp: bump_def intro: turn_ended)

lemmas stmts = new_run new_session new_pending new_entry recorded new_lease new_decision session_writes end_turn_keeps

lemmas edits = leases_updated profiles_updated prompts_deleted turn_cancelling intent_acknowledged turn_ended projected

lemma CreateRun_keeps: "CreateRun op rid bd sd pd l now d = Inr (r, d') \<Longrightarrow> I d \<Longrightarrow> I d'"
  unfolding CreateRun_def Let_def
  by (elim success_elims; simp split: if_splits) (erule stmts | rule edits | assumption)+

lemma CreateSession_keeps: "CreateSession op l s now d = Inr (r, d') \<Longrightarrow> I d \<Longrightarrow> I d'"
  unfolding CreateSession_def Let_def
  by (elim success_elims; simp) (erule stmts | rule edits | assumption)+

lemma QueuePrompt_keeps: "QueuePrompt op l sid v p now d = Inr (r, d') \<Longrightarrow> I d \<Longrightarrow> I d'"
  unfolding QueuePrompt_def Let_def
  by (elim success_elims; simp) (erule stmts | rule edits | assumption)+

lemma ReplacePendingPrompt_keeps:
  "ReplacePendingPrompt op l sid v p now d = Inr (r, d') \<Longrightarrow> I d \<Longrightarrow> I d'"
  unfolding ReplacePendingPrompt_def Let_def
  by (elim success_elims; simp) (erule stmts | rule edits prompts_updated |
      assumption | simp add: pending_key_def)+

lemma DiscardPendingPrompt_keeps:
  "DiscardPendingPrompt op l sid v k now d = Inr (r, d') \<Longrightarrow> I d \<Longrightarrow> I d'"
  unfolding DiscardPendingPrompt_def Let_def
  by (elim success_elims; simp) (erule stmts | rule edits | assumption)+

lemma StoreRequestCancel_keeps:
  "StoreRequestCancel op l sid v k now d = Inr (r, d') \<Longrightarrow> I d \<Longrightarrow> I d'"
  unfolding StoreRequestCancel_def Let_def
  by (elim success_elims; simp) (erule stmts | rule edits | assumption)+

lemma RecordTerminalOutcome_keeps:
  "RecordTerminalOutcome op l sid v k st raw now d = Inr (r, d') \<Longrightarrow> I d \<Longrightarrow> I d'"
  unfolding RecordTerminalOutcome_def Let_def
  by (elim success_elims; simp) (erule stmts terminal_text_terminal | rule edits | assumption)+

lemma RecordObservedExecutionOutcome_keeps:
  "RecordObservedExecutionOutcome op er st raw now d = Inr (r, d') \<Longrightarrow> I d \<Longrightarrow> I d'"
  unfolding RecordObservedExecutionOutcome_def Let_def
  by (elim success_elims; simp) (erule stmts terminal_text_terminal | rule edits | assumption)+

lemma StoreRecordHostLoss_keeps:
  "StoreRecordHostLoss op l sid v now d = Inr (r, d') \<Longrightarrow> I d \<Longrightarrow> I d'"
  unfolding StoreRecordHostLoss_def Let_def
  by (elim success_elims; simp) (erule stmts | rule edits | assumption)+

lemma RecordObservedDispatchAcknowledgement_keeps:
  "RecordObservedDispatchAcknowledgement op er ph now d = Inr (r, d') \<Longrightarrow> I d \<Longrightarrow> I d'"
  unfolding RecordObservedDispatchAcknowledgement_def Let_def
  by (elim success_elims; simp) (erule stmts | rule edits | assumption | blast)+

lemma RecordDispatchObservation_keeps:
  "RecordDispatchObservation op l sid k ph now d = Inr (r, d') \<Longrightarrow> I d \<Longrightarrow> I d'"
  unfolding RecordDispatchObservation_def Let_def
  by (elim success_elims; simp) (erule stmts | rule edits | assumption | blast)+

lemma SetControllerConnection_keeps:
  "SetControllerConnection op l sid v c now d = Inr (r, d') \<Longrightarrow> I d \<Longrightarrow> I d'"
  unfolding SetControllerConnection_def Let_def
  by (elim success_elims; simp) (erule stmts | rule edits | assumption)+

lemma ArchiveSession_keeps:
  "ArchiveSession op l sid v now d = Inr (r, d') \<Longrightarrow> I d \<Longrightarrow> I d'"
  unfolding ArchiveSession_def Let_def
  by (elim success_elims; simp) (erule stmts | rule edits | assumption)+

lemma RecordDecision_keeps:
  "RecordDecision op l rid a n p now d = Inr (r, d') \<Longrightarrow> I d \<Longrightarrow> I d'"
  unfolding RecordDecision_def Let_def
  by (elim success_elims; simp) (erule stmts | rule edits | assumption)+

lemma reconcile_keeps:
  "reconcile_active sid k s oc now d = Inr (p, d') \<Longrightarrow> I d \<Longrightarrow> I d'"
  "reconcile_parked sid s oc now d = Inr (p, d') \<Longrightarrow> I d \<Longrightarrow> I d'"
  unfolding reconcile_active_def reconcile_parked_def Let_def ended_rows_def [symmetric]
  by (auto split: ReconciliationStatus.splits option.splits elim!: and_then_InrE)
    (erule session_writes reconcile_turn_status_terminal | rule turn_ended | assumption)+

lemma ReconcileSession_keeps:
  "ReconcileSession op er rr oc now d = Inr (r, d') \<Longrightarrow> I d \<Longrightarrow> I d'"
  unfolding ReconcileSession_def Let_def
  by (elim success_elims; simp) (erule stmts reconcile_keeps | assumption)+

lemma installGrant_keeps:
  "installGrant op rid h c n cmd fp kind mode now d = Inr (g, d') \<Longrightarrow> I d \<Longrightarrow> I d'"
  unfolding installGrant_def Let_def
  by (elim success_elims; simp) (erule stmts | rule edits run_updated | assumption | simp)+

lemma AdoptController_keeps:
  "AdoptController op rid h c b rv n now d = Inr (g, d') \<Longrightarrow> I d \<Longrightarrow> I d'"
  unfolding AdoptController_def Let_def
  by (elim success_elims; simp) (erule installGrant_keeps | assumption)+

lemma HandoffController_keeps:
  "HandoffController op rid cl eg h c n now d = Inr (g, d') \<Longrightarrow> I d \<Longrightarrow> I d'"
  unfolding HandoffController_def Let_def
  by (elim success_elims; simp) (erule installGrant_keeps | rule edits | assumption | simp)+

lemma RevokeController_keeps:
  "RevokeController op rid cl rv now d = Inr (r, d') \<Longrightarrow> I d \<Longrightarrow> I d'"
  unfolding RevokeController_def revoke_effect_def Let_def
  by (elim success_elims; simp split: if_splits)
    (erule stmts | rule edits run_updated | assumption | simp)+

lemma RecoverControllerCredential_keeps:
  "RecoverControllerCredential op rid src ge now d = Inr (g, d') \<Longrightarrow> I d \<Longrightarrow> I d'"
  unfolding RecoverControllerCredential_def Let_def
  by (elim success_elims; simp) (erule stmts | rule edits | assumption)+

lemma ConnectRunController_keeps:
  "ConnectRunController op rid cl eg inst att now d = Inr (cr, d') \<Longrightarrow> I d \<Longrightarrow> I d'"
  unfolding ConnectRunController_def Let_def
  by (elim success_elims; simp split: prod.splits)
    (erule stmts | rule edits | assumption | simp)+

lemma DisconnectRunController_keeps:
  "DisconnectRunController op rid cl att eg now d = Inr (r, d') \<Longrightarrow> I d \<Longrightarrow> I d'"
  unfolding DisconnectRunController_def Let_def
  by (elim success_elims; simp split: if_splits)
    (erule stmts | rule edits | assumption | simp)+

lemma SetNativeBinding_keeps: "SetNativeBinding op l sid v b now d = Inr (r, d') \<Longrightarrow> I d \<Longrightarrow> I d'"
  unfolding SetNativeBinding_def Let_def
  by (elim success_elims; simp) (erule stmts binding_set | assumption)+

lemmas commands = SetNativeBinding_keeps CreateRun_keeps CreateSession_keeps QueuePrompt_keeps ReplacePendingPrompt_keeps
  DiscardPendingPrompt_keeps StoreRequestCancel_keeps RecordTerminalOutcome_keeps
  StoreRecordHostLoss_keeps ReconcileSession_keeps RecordDispatchObservation_keeps
  SetControllerConnection_keeps ArchiveSession_keeps RecordObservedExecutionOutcome_keeps
  RecordObservedDispatchAcknowledgement_keeps RecordDecision_keeps AdoptController_keeps
  HandoffController_keeps RevokeController_keeps RecoverControllerCredential_keeps
  ConnectRunController_keeps DisconnectRunController_keeps

lemma store_exec_core:
  "store_exec c now d = Inr (r, d') \<Longrightarrow> \<not> starts_turn c \<Longrightarrow> \<not> artifact_command c \<Longrightarrow> I d \<Longrightarrow> I d'"
  by (cases c) (auto simp: as_result_Inr starts_turn_def intro: commands)

end

text \<open>The statements on artifacts.\<close>

locale statements = core_statements +
  assumes new_artifact: "insert_artifact a d = Inr d' \<Longrightarrow> I d \<Longrightarrow> I d'"
    and new_set: "insert_set qr d = Inr d' \<Longrightarrow> I d \<Longrightarrow> I d'"
    and new_member: "insert_member m d = Inr d' \<Longrightarrow> I d \<Longrightarrow> I d'"
    and artifact_released: "I d \<Longrightarrow> I (release_artifact dg rid aid v d)"
begin

lemma commit_publication_keeps: "commit_publication op l m c now d = Inr (r, d') \<Longrightarrow> I d \<Longrightarrow> I d'"
  unfolding commit_publication_def Let_def
  by (elim success_elims; simp split: option.splits prod.splits if_splits)
    (auto simp: and_then_Inr_iff dest: new_artifact new_entry)

lemma members_keep:
  "insert_members dg rs d = Inr d' \<Longrightarrow> I d \<Longrightarrow> I d'"
  "I d \<Longrightarrow> I (release_members dg rid rs d)"
  by (induction rs arbitrary: d) (auto simp: and_then_Inr_iff intro: new_member artifact_released)

lemma ReleaseArtifacts_keeps: "ReleaseArtifacts op l rid ms now d = Inr (r, d') \<Longrightarrow> I d \<Longrightarrow> I d'"
  unfolding ReleaseArtifacts_def Let_def
  by (elim success_elims; simp) (erule stmts new_set members_keep(1) | rule members_keep(2) | assumption)+

lemma store_exec_keeps:
  assumes "store_exec c now d = Inr (r, d')" "\<not> starts_turn c" "I d"
  shows "I d'"
proof (cases "artifact_command c")
  case True
  then show ?thesis
    using assms(1,3) commit_publication_keeps ReleaseArtifacts_keeps by (cases c) (auto simp: as_result_Inr)
qed (rule store_exec_core [OF assms(1,2) _ assms(3)])

end

text \<open>The start of a turn.\<close>

locale turn_statements = core_statements +
  assumes new_turn: "insert_turn t d = Inr d' \<Longrightarrow> I d \<Longrightarrow> I d'"
    and new_intent: "insert_intent i d = Inr d' \<Longrightarrow> I d \<Longrightarrow> I d'"
begin

lemma release_effect_keeps:
  "release_effect sid k p s g now d = Inr d' \<Longrightarrow> I d \<Longrightarrow> I d'"
  unfolding release_effect_def Let_def
  by (elim success_elims) (erule stmts new_turn new_intent | rule edits | assumption)+

lemma ReleaseTurn_keeps: "ReleaseTurn op l sid v k now d = Inr (r, d') \<Longrightarrow> I d \<Longrightarrow> I d'"
  unfolding ReleaseTurn_def Let_def
  by (elim success_elims; simp) (erule stmts release_effect_keeps | rule edits | assumption)+

lemma store_exec_turns:
  "store_exec c now d = Inr (r, d') \<Longrightarrow> \<not> artifact_command c \<Longrightarrow> I d \<Longrightarrow> I d'"
  using store_exec_core [of c now d r d'] ReleaseTurn_keeps
  by (cases "starts_turn c") (auto simp: starts_turn_def as_result_Inr)

end

text \<open>With all of them, every command.\<close>

locale all_statements = statements I + turn_statements I for I
begin

lemma store_exec_all: "store_exec c now d = Inr (r, d') \<Longrightarrow> I d \<Longrightarrow> I d'"
  using store_exec_keeps [of c now d r d'] ReleaseTurn_keeps
  by (cases "starts_turn c") (auto simp: starts_turn_def as_result_Inr)

lemma store_run_all: "I d \<Longrightarrow> I (store_run cs d)"
  by (rule store_run_invariant [where I = I]) (auto intro: store_exec_all)

end

text \<open>Only a release inserts a turn; every other command keeps the key, the prompt and the attempt of
  each turn, in their order.\<close>

definition turn_origin :: "TurnRow \<Rightarrow> (string \<times> string) \<times> string \<times> string" where
  "turn_origin t = (turn_key t, t_prompt t, t_attempt_id t)"

interpretation turn_origins: statements "\<lambda>d. map turn_origin (turns d) = ts" for ts
proof
  fix d d' f sid
  assume "update_session sid f d = Inr d'" "map turn_origin (turns d) = ts"
  then show "map turn_origin (turns d') = ts" using update_session_Inr by fastforce
qed (auto simp: statement_defs artifact_statement_defs upsert_binding_def release_artifact_def insert_decision_def update_leases_def update_run_def projectSessionConnection_def
    update_turn_def update_intent_def ended_rows_def turn_origin_def turn_key_def split: if_splits intro!: map_upd_same)

lemma turns_only_by_release:
  "store_exec c now d = Inr (r, d') \<Longrightarrow> \<not> starts_turn c \<Longrightarrow> map turn_origin (turns d') = map turn_origin (turns d)"
  by (rule turn_origins.store_exec_keeps) auto

text \<open>Other commands leave the artifact tables alone.\<close>

definition artifact_tables :: "DB \<Rightarrow> ArtifactRow list \<times> ProposalSetRow list \<times> MemberRow list" where
  "artifact_tables d = (artifacts d, proposal_sets d, members d)"

interpretation artifact_frames: turn_statements "\<lambda>d. artifact_tables d = x" for x
  by unfold_locales (auto simp: statement_defs insert_decision_def update_leases_def update_run_def
      projectSessionConnection_def update_turn_def update_intent_def ended_rows_def upsert_binding_def
      artifact_tables_def split: if_splits)

lemma artifact_tables_kept:
  "store_exec c now d = Inr (r, d') \<Longrightarrow> \<not> artifact_command c \<Longrightarrow> artifact_tables d' = artifact_tables d"
  by (rule artifact_frames.store_exec_turns) auto

end
