(* ===== verification/Store_Integrity.thy ===== *)
theory Store_Integrity
  imports Store_Statements
begin

text \<open>
  Referential integrity: primary keys, foreign keys and column checks hold of every reachable
  database, also those the model does not test on an update.
\<close>

section \<open>The constraints\<close>

definition artifact_key :: "ArtifactRow \<Rightarrow> string \<times> int" where
  "artifact_key a = (a_artifact_id a, a_revision a)"

definition set_member_key :: "MemberRow \<Rightarrow> string \<times> string \<times> int" where
  "set_member_key m = (m_set_digest m, m_artifact_id m, m_revision m)"

definition keys_ok :: "DB \<Rightarrow> bool" where
  "keys_ok d \<longleftrightarrow> distinct (map r_run_id (runs d)) \<and> distinct (map s_session_id (sessions d)) \<and>
     distinct (map pending_key (pending d)) \<and> distinct (map turn_key (turns d)) \<and>
     distinct (map intent_key (intents d)) \<and> distinct (map j_op_id (journal d)) \<and>
     distinct (map b_session_id (bindings d)) \<and> distinct (map artifact_key (artifacts d)) \<and>
     distinct (map q_digest (proposal_sets d)) \<and> distinct (map set_member_key (members d))"

definition refs_ok :: "DB \<Rightarrow> bool" where
  "refs_ok d \<longleftrightarrow>
     (\<forall>s \<in> set (sessions d). s_run_id s \<in> r_run_id ` set (runs d)) \<and>
     (\<forall>b \<in> set (bindings d). b_session_id b \<in> s_session_id ` set (sessions d)) \<and>
     (\<forall>p \<in> set (pending d). p_session_id p \<in> s_session_id ` set (sessions d)) \<and>
     (\<forall>t \<in> set (turns d). t_session_id t \<in> s_session_id ` set (sessions d)) \<and>
     (\<forall>i \<in> set (intents d). intent_key i \<in> turn_key ` set (turns d)) \<and>
     (\<forall>x \<in> set (decisions d). dr_RunID x \<in> r_run_id ` set (runs d) \<and>
        (dr_ArtifactID x, dr_Revision x) \<in> artifact_key ` set (artifacts d)) \<and>
     (\<forall>a \<in> set (artifacts d). a_run_id a \<in> r_run_id ` set (runs d) \<and>
        (\<forall>sid. a_session_id a = Some sid \<longrightarrow> sid \<in> s_session_id ` set (sessions d))) \<and>
     (\<forall>q \<in> set (proposal_sets d). q_run_id q \<in> r_run_id ` set (runs d)) \<and>
     (\<forall>m \<in> set (members d). m_set_digest m \<in> q_digest ` set (proposal_sets d))"

text \<open>The columns of a session; of the version only the lower bound, because projecting a connection
  increments it in SQL, where the model tests no upper bound.\<close>

definition columns_ok :: "SessionRow \<Rightarrow> bool" where
  "columns_ok s \<longleftrightarrow> 1 \<le> s_row_version s \<and> session_check (s\<lparr>s_row_version := 1\<rparr>)"

lemma session_check_columns: "session_check s \<Longrightarrow> columns_ok s"
  by (simp add: columns_ok_def session_check_def max_int64_def)

definition checks_ok :: "DB \<Rightarrow> bool" where
  "checks_ok d \<longleftrightarrow>
     (\<forall>s \<in> set (sessions d). columns_ok s) \<and>
     (\<forall>t \<in> set (turns d). t_status t \<in> set turn_statuses) \<and>
     (\<forall>i \<in> set (intents d). i_phase i \<in> set intent_phases) \<and>
     (\<forall>a \<in> set (artifacts d). 1 \<le> a_revision a \<and> 0 \<le> a_byte_size a)"

definition tables_ok :: "DB \<Rightarrow> bool" where
  "tables_ok d \<longleftrightarrow> keys_ok d \<and> refs_ok d \<and> checks_ok d"

lemmas tables_defs = tables_ok_def keys_ok_def refs_ok_def checks_ok_def

lemma tables_ok_cong:
  "runs d' = runs d \<Longrightarrow> sessions d' = sessions d \<Longrightarrow> pending d' = pending d \<Longrightarrow> turns d' = turns d \<Longrightarrow>
   intents d' = intents d \<Longrightarrow> journal d' = journal d \<Longrightarrow> decisions d' = decisions d \<Longrightarrow> bindings d' = bindings d \<Longrightarrow>
   artifacts d' = artifacts d \<Longrightarrow> proposal_sets d' = proposal_sets d \<Longrightarrow> members d' = members d \<Longrightarrow>
   tables_ok d \<Longrightarrow> tables_ok d'"
  by (simp add: tables_defs)

section \<open>Statements\<close>

lemma run_row_mem: "run_row rid d = Some r \<Longrightarrow> rid \<in> r_run_id ` set (runs d)"
  by (auto simp: run_row_def dest!: sel_SomeD)

lemma session_row_mem: "session_row sid d = Some s \<Longrightarrow> sid \<in> s_session_id ` set (sessions d)"
  by (auto simp: session_row_def dest!: sel_SomeD)

lemma turn_row_mem: "turn_row sid k d = Some t \<Longrightarrow> (sid, k) \<in> turn_key ` set (turns d)"
  by (force simp: turn_row_def is_turn_def turn_key_def dest!: sel_SomeD)

lemma insert_run_tables:
  assumes "insert_run r d = Inr d'" "tables_ok d"
  shows "tables_ok d'"
proof -
  have new: "run_row (r_run_id r) d = None" and d': "d' = d\<lparr>runs := runs d @ [r]\<rparr>"
    using assms(1) by (auto simp: insert_run_def split: if_splits)
  then have "r_run_id r \<notin> r_run_id ` set (runs d)" by (auto simp: run_row_def sel_None_iff)
  then show ?thesis using assms(2) by (auto simp: d' tables_defs)
qed

lemma insert_session_tables:
  assumes "insert_session s d = Inr d'" "tables_ok d"
  shows "tables_ok d'"
proof -
  obtain r where "run_row (s_run_id s) d = Some r" and new: "session_row (s_session_id s) d = None"
    and d': "d' = d\<lparr>sessions := sessions d @ [s]\<rparr>" and c: "session_check s"
    using assms(1) by (auto simp: insert_session_def split: if_splits)
  then have "s_run_id s \<in> r_run_id ` set (runs d)" using run_row_mem by blast
  moreover have "s_session_id s \<notin> s_session_id ` set (sessions d)"
    using new by (auto simp: session_row_def sel_None_iff)
  ultimately show ?thesis using assms(2) session_check_columns [OF c] by (auto simp: d' tables_defs)
qed

lemma insert_pending_tables:
  assumes "insert_pending p d = Inr d'" "tables_ok d"
  shows "tables_ok d'"
proof -
  obtain s where "session_row (p_session_id p) d = Some s" and new: "pending_row (p_session_id p) (p_turn_key p) d = None"
    and d': "d' = d\<lparr>pending := pending d @ [p]\<rparr>"
    using assms(1) by (auto simp: insert_pending_def split: if_splits)
  then have "p_session_id p \<in> s_session_id ` set (sessions d)" using session_row_mem by blast
  moreover have "pending_key p \<notin> pending_key ` set (pending d)"
    using new by (auto simp: pending_row_def is_pending_def pending_key_def sel_None_iff)
  ultimately show ?thesis using assms(2) by (auto simp: d' tables_defs)
qed

lemma insert_turn_tables:
  assumes "insert_turn t d = Inr d'" "tables_ok d"
  shows "tables_ok d'"
proof -
  obtain s where "session_row (t_session_id t) d = Some s" and new: "turn_row (t_session_id t) (t_turn_key t) d = None"
    and d': "d' = d\<lparr>turns := turns d @ [t]\<rparr>" and c: "t_status t \<in> set turn_statuses"
    using assms(1) by (auto simp: insert_turn_def split: if_splits)
  then have "t_session_id t \<in> s_session_id ` set (sessions d)" using session_row_mem by blast
  moreover have "turn_key t \<notin> turn_key ` set (turns d)"
    using new by (auto simp: turn_row_def is_turn_def turn_key_def sel_None_iff)
  ultimately show ?thesis using assms(2) c by (auto simp: d' tables_defs)
qed

lemma insert_intent_tables:
  assumes "insert_intent i d = Inr d'" "tables_ok d"
  shows "tables_ok d'"
proof -
  obtain t where "turn_row (i_session_id i) (i_turn_key i) d = Some t" and new: "intent_row (i_session_id i) (i_turn_key i) d = None"
    and d': "d' = d\<lparr>intents := intents d @ [i]\<rparr>" and c: "i_phase i \<in> set intent_phases"
    using assms(1) by (auto simp: insert_intent_def split: if_splits)
  then have "intent_key i \<in> turn_key ` set (turns d)" using turn_row_mem by (fastforce simp: intent_key_def)
  moreover have "intent_key i \<notin> intent_key ` set (intents d)"
    using new by (auto simp: intent_row_def is_intent_def intent_key_def sel_None_iff)
  ultimately show ?thesis using assms(2) c by (auto simp: d' tables_defs)
qed

lemma insert_journal_tables:
  assumes "insert_journal j d = Inr d'" "tables_ok d"
  shows "tables_ok d'"
proof -
  have new: "journal_row (j_op_id j) d = None" and d': "d' = d\<lparr>journal := journal d @ [j]\<rparr>"
    using assms(1) by (auto simp: insert_journal_def split: if_splits)
  then have "j_op_id j \<notin> j_op_id ` set (journal d)" by (auto simp: journal_row_def sel_None_iff)
  then show ?thesis using assms(2) by (auto simp: d' tables_defs)
qed

lemma insert_lease_tables:
  assumes "insert_lease l d = Inr d'" "tables_ok d"
  shows "tables_ok d'"
proof -
  have d': "d' = d\<lparr>leases := leases d @ [l]\<rparr>" using assms(1) by (auto simp: insert_lease_def split: if_splits)
  show ?thesis by (rule tables_ok_cong [OF _ _ _ _ _ _ _ _ _ _ _ assms(2)]) (simp_all add: d')
qed

lemma insert_decision_tables:
  assumes "insert_decision x d = Inr d'" "tables_ok d"
  shows "tables_ok d'"
proof -
  obtain r a where "run_row (dr_RunID x) d = Some r" and d': "d' = d\<lparr>decisions := decisions d @ [x]\<rparr>"
    and a: "sel (\<lambda>a. a_artifact_id a = dr_ArtifactID x \<and> a_revision a = dr_Revision x) (artifacts d) = Some a"
    using assms(1) by (auto simp: insert_decision_def split: if_splits)
  then have "dr_RunID x \<in> r_run_id ` set (runs d)" using run_row_mem by blast
  moreover have "(dr_ArtifactID x, dr_Revision x) \<in> artifact_key ` set (artifacts d)"
    using sel_SomeD [OF a] by (auto simp: artifact_key_def image_iff intro!: bexI [of _ a])
  ultimately show ?thesis using assms(2) by (auto simp: d' tables_defs)
qed

text \<open>Updates keep keys and references.\<close>

lemma upd_image:
  assumes "\<And>r. p r \<Longrightarrow> g (f r) = g r"
  shows "g ` set (upd p f t) = g ` set t"
  using map_upd_same [of t p g f] assms by (metis list.set_map)

lemma upd_ball: "(\<forall>r \<in> set t. Q r) \<Longrightarrow> (\<And>r. p r \<Longrightarrow> Q r \<Longrightarrow> Q (f r)) \<Longrightarrow> \<forall>r \<in> set (upd p f t). Q r"
  by (auto simp: set_upd)

lemma update_sessions_tables:
  assumes "tables_ok d" "\<And>s. s_session_id (f s) = s_session_id s" "\<And>s. s_run_id (f s) = s_run_id s"
    "\<And>s. s \<in> set (sessions d) \<Longrightarrow> p s \<Longrightarrow> columns_ok s \<Longrightarrow> columns_ok (f s)"
  shows "tables_ok (d\<lparr>sessions := upd p f (sessions d)\<rparr>)"
proof -
  have "map s_session_id (upd p f (sessions d)) = map s_session_id (sessions d)"
    by (rule map_upd_same) (simp add: assms(2))
  moreover have "s_session_id ` set (upd p f (sessions d)) = s_session_id ` set (sessions d)"
    by (rule upd_image) (simp add: assms(2))
  moreover have "\<forall>s \<in> set (upd p f (sessions d)). s_run_id s \<in> r_run_id ` set (runs d)"
    using assms(1) by (intro upd_ball) (auto simp: tables_defs assms(3))
  moreover have "\<forall>s \<in> set (upd p f (sessions d)). columns_ok s"
    using assms(1,4) by (auto simp: tables_defs set_upd)
  ultimately show ?thesis using assms(1) by (simp add: tables_defs)
qed

lemma update_session_tables:
  assumes "update_session sid f d = Inr d'" "\<And>s. s_session_id (f s) = s_session_id s"
    "\<And>s. s_run_id (f s) = s_run_id s" "tables_ok d"
  shows "tables_ok d'"
  using update_session_Inr [OF assms(1)] session_check_columns
    update_sessions_tables [OF assms(4,2,3), of "\<lambda>s. s_session_id s = sid"] by auto

lemma update_turn_tables:
  assumes "tables_ok d" "\<And>t. turn_key (f t) = turn_key t" "\<And>t. t_status (f t) \<in> set turn_statuses"
  shows "tables_ok (update_turn sid k f d)"
proof -
  let ?ts = "upd (is_turn sid k) f (turns d)"
  have "map turn_key ?ts = map turn_key (turns d)" by (rule map_upd_same) (simp add: assms(2))
  moreover have "turn_key ` set ?ts = turn_key ` set (turns d)" by (rule upd_image) (simp add: assms(2))
  moreover have "t_session_id (f t) = t_session_id t" for t using assms(2) [of t] by (simp add: turn_key_def)
  then have "\<forall>t \<in> set ?ts. t_session_id t \<in> s_session_id ` set (sessions d)"
    using assms(1) by (intro upd_ball) (auto simp: tables_defs)
  moreover have "\<forall>t \<in> set ?ts. t_status t \<in> set turn_statuses"
    using assms(1,3) by (intro upd_ball) (auto simp: tables_defs)
  ultimately show ?thesis using assms(1) by (simp add: tables_defs update_turn_def)
qed

lemma update_intent_tables:
  assumes "tables_ok d" "\<And>i. intent_key (f i) = intent_key i" "\<And>i. i_phase (f i) \<in> set intent_phases"
  shows "tables_ok (update_intent sid k f d)"
proof -
  let ?is = "upd (is_intent sid k) f (intents d)"
  have "map intent_key ?is = map intent_key (intents d)" by (rule map_upd_same) (simp add: assms(2))
  moreover have "\<forall>i \<in> set ?is. intent_key i \<in> turn_key ` set (turns d)"
    using assms(1) by (intro upd_ball) (auto simp: tables_defs assms(2))
  moreover have "\<forall>i \<in> set ?is. i_phase i \<in> set intent_phases"
    using assms(1,3) by (intro upd_ball) (auto simp: tables_defs)
  ultimately show ?thesis using assms(1) by (simp add: tables_defs update_intent_def)
qed

lemma updates_tables:
  "tables_ok d \<Longrightarrow> tables_ok (update_leases p f d)"
  "tables_ok d \<Longrightarrow> tables_ok (d\<lparr>profiles := ps\<rparr>)"
  by (auto simp: update_leases_def intro: tables_ok_cong)

lemma update_run_tables:
  assumes "tables_ok d" "\<And>r. r_run_id (f r) = r_run_id r"
  shows "tables_ok (update_run rid f d)"
proof -
  let ?rs = "upd (\<lambda>r. r_run_id r = rid) f (runs d)"
  have "map r_run_id ?rs = map r_run_id (runs d)" by (rule map_upd_same) (simp add: assms(2))
  moreover have "r_run_id ` set ?rs = r_run_id ` set (runs d)" by (rule upd_image) (simp add: assms(2))
  ultimately show ?thesis using assms(1) by (simp add: tables_defs update_run_def)
qed

lemma project_tables: "st \<in> {''connected'', ''disconnected''} \<Longrightarrow> tables_ok d \<Longrightarrow>
    tables_ok (projectSessionConnection rid st now d)"
  unfolding projectSessionConnection_def
  by (rule update_sessions_tables) (auto simp: columns_ok_def session_check_def)

lemma edit_pending_tables:
  assumes "tables_ok d" "\<And>p. pending_key (f p) = pending_key p"
  shows "tables_ok (d\<lparr>pending := upd q f (pending d)\<rparr>)"
proof -
  have "map pending_key (upd q f (pending d)) = map pending_key (pending d)"
    by (rule map_upd_same) (simp add: assms(2))
  moreover have "p_session_id (f p) = p_session_id p" for p using assms(2) [of p] by (simp add: pending_key_def)
  then have "\<forall>p \<in> set (upd q f (pending d)). p_session_id p \<in> s_session_id ` set (sessions d)"
    using assms(1) by (intro upd_ball) (auto simp: tables_defs)
  ultimately show ?thesis using assms(1) by (simp add: tables_defs)
qed

lemma delete_pending_tables: "tables_ok d \<Longrightarrow> tables_ok (d\<lparr>pending := del q (pending d)\<rparr>)"
  by (auto simp: tables_defs distinct_del)

lemma ended_rows_tables: "isTerminal st \<Longrightarrow> tables_ok d \<Longrightarrow> tables_ok (ended_rows sid k st res now d)"
  unfolding ended_rows_def
  by (intro update_intent_tables update_turn_tables)
    (auto simp: turn_key_def intent_key_def turn_statuses_def intent_phases_def isTerminal_def)

lemma cancelling_tables:
  "tables_ok d \<Longrightarrow> tables_ok (update_turn sid k (\<lambda>t. t\<lparr>t_status := ''cancelling''\<rparr>) d)"
  by (rule update_turn_tables) (auto simp: turn_key_def turn_statuses_def)

lemma acknowledged_tables:
  "ph = ''receipt_acknowledged'' \<or> ph = ''acceptance_unknown'' \<Longrightarrow> tables_ok d \<Longrightarrow>
   tables_ok (update_intent sid k (\<lambda>i. i\<lparr>i_phase := ph, i_updated_at := now\<rparr>) d)"
  by (rule update_intent_tables) (auto simp: intent_key_def intent_phases_def)

lemma bindings_tables:
  assumes "tables_ok d" "distinct (map b_session_id bs)" "\<forall>r \<in> set bs. b_session_id r \<in> s_session_id ` set (sessions d)"
  shows "tables_ok (d\<lparr>bindings := bs\<rparr>)"
  using assms by (simp add: tables_defs)

lemma upsert_binding_tables:
  assumes "upsert_binding sid b now d = Inr d'" "tables_ok d"
  shows "tables_ok d'"
proof -
  from assms(1) obtain s where "session_row sid d = Some s" by (auto simp: upsert_binding_def split: if_splits)
  then have s: "sid \<in> s_session_id ` set (sessions d)" by (rule session_row_mem)
  show ?thesis
  proof (cases "sel (\<lambda>r. b_session_id r = sid) (bindings d)")
    case None
    let ?row = "\<lparr>b_session_id = sid, b_native_session_id = nb_NativeSessionID b, b_harness = nb_Harness b,
      b_model = nb_Model b, b_workspace_mode = nb_WorkspaceMode b, b_config_json = nb_ToolingConfig b,
      b_created_at = now, b_updated_at = now\<rparr>"
    have "d' = d\<lparr>bindings := bindings d @ [?row]\<rparr>"
      using assms(1) None by (simp add: upsert_binding_def split: if_splits)
    moreover have "sid \<notin> b_session_id ` set (bindings d)" using None by (auto simp: sel_None_iff)
    moreover have "distinct (map b_session_id (bindings d))"
      "\<forall>r \<in> set (bindings d). b_session_id r \<in> s_session_id ` set (sessions d)"
      using assms(2) by (simp_all add: tables_defs)
    ultimately show ?thesis using bindings_tables [OF assms(2), of "bindings d @ [?row]"] s by simp
  next
    case (Some r)
    let ?f = "\<lambda>r. r\<lparr>b_native_session_id := nb_NativeSessionID b, b_harness := nb_Harness b, b_model := nb_Model b,
      b_workspace_mode := nb_WorkspaceMode b, b_config_json := nb_ToolingConfig b, b_updated_at := now\<rparr>"
    let ?bs = "upd (\<lambda>r. b_session_id r = sid) ?f (bindings d)"
    have "map b_session_id ?bs = map b_session_id (bindings d)" by (rule map_upd_same) simp
    moreover have "\<forall>r \<in> set ?bs. b_session_id r \<in> s_session_id ` set (sessions d)"
      using assms(2) by (intro upd_ball) (auto simp: tables_defs)
    moreover have "distinct (map b_session_id (bindings d))" using assms(2) by (simp add: tables_defs)
    moreover have "d' = d\<lparr>bindings := ?bs\<rparr>"
      using assms(1) Some by (simp add: upsert_binding_def split: if_splits)
    ultimately show ?thesis using bindings_tables [OF assms(2), of ?bs] by simp
  qed
qed

lemma insert_artifact_tables:
  assumes "insert_artifact a d = Inr d'" "tables_ok d"
  shows "tables_ok d'"
proof -
  have new: "artifact_row (a_artifact_id a) (a_revision a) d = None" and d': "d' = d\<lparr>artifacts := artifacts d @ [a]\<rparr>"
    and c: "1 \<le> a_revision a" "0 \<le> a_byte_size a"
    and s: "\<And>sid. a_session_id a = Some sid \<Longrightarrow> \<exists>s. session_row sid d = Some s"
    using assms(1) by (auto simp: insert_artifact_def split: if_splits option.splits)
  have "artifact_key a \<notin> artifact_key ` set (artifacts d)"
    using new by (auto simp: artifact_row_def is_artifact_def artifact_key_def sel_None_iff)
  moreover have "a_run_id a \<in> r_run_id ` set (runs d)"
    using assms(1) run_row_mem by (auto simp: insert_artifact_def split: if_splits)
  moreover have "a_session_id a = Some sid \<Longrightarrow> sid \<in> s_session_id ` set (sessions d)" for sid
    using s session_row_mem by blast
  ultimately show ?thesis using assms(2) c by (auto simp: d' tables_defs)
qed

lemma insert_set_tables:
  assumes "insert_set q d = Inr d'" "tables_ok d"
  shows "tables_ok d'"
proof -
  have new: "set_row (q_digest q) d = None" and d': "d' = d\<lparr>proposal_sets := proposal_sets d @ [q]\<rparr>"
    and r: "\<exists>r. run_row (q_run_id q) d = Some r"
    using assms(1) by (auto simp: insert_set_def split: if_splits)
  have "q_digest q \<notin> q_digest ` set (proposal_sets d)"
    using new by (auto simp: set_row_def is_set_def sel_None_iff)
  moreover have "q_run_id q \<in> r_run_id ` set (runs d)" using r run_row_mem by blast
  ultimately show ?thesis using assms(2) by (auto simp: d' tables_defs)
qed

lemma insert_member_tables:
  assumes "insert_member m d = Inr d'" "tables_ok d"
  shows "tables_ok d'"
proof -
  have new: "sel (is_member (m_set_digest m) (m_artifact_id m) (m_revision m)) (members d) = None"
    and d': "d' = d\<lparr>members := members d @ [m]\<rparr>" and q: "\<exists>q. set_row (m_set_digest m) d = Some q"
    using assms(1) by (auto simp: insert_member_def split: if_splits)
  have "set_member_key m \<notin> set_member_key ` set (members d)"
    using new by (auto simp: is_member_def set_member_key_def sel_None_iff)
  moreover have "m_set_digest m \<in> q_digest ` set (proposal_sets d)"
    using q by (force simp: set_row_def is_set_def dest!: sel_SomeD)
  ultimately show ?thesis using assms(2) by (auto simp: d' tables_defs)
qed

lemma release_artifact_tables:
  assumes "tables_ok d" shows "tables_ok (release_artifact dg rid aid v d)"
proof -
  let ?as = "upd (\<lambda>a. is_artifact aid v a \<and> a_run_id a = rid) (release_row dg) (artifacts d)"
  have k: "map artifact_key ?as = map artifact_key (artifacts d)"
    by (rule map_upd_same) (simp add: artifact_key_def)
  have "artifact_key ` set ?as = artifact_key ` set (artifacts d)"
    by (rule upd_image) (simp add: artifact_key_def)
  moreover have "\<forall>a \<in> set ?as. a_run_id a \<in> r_run_id ` set (runs d) \<and>
      (\<forall>sid. a_session_id a = Some sid \<longrightarrow> sid \<in> s_session_id ` set (sessions d))"
    using assms by (intro upd_ball) (auto simp: tables_defs)
  moreover have "\<forall>a \<in> set ?as. 1 \<le> a_revision a \<and> 0 \<le> a_byte_size a"
    using assms by (intro upd_ball) (auto simp: tables_defs)
  ultimately show ?thesis using assms k by (simp add: tables_defs release_artifact_def)
qed

interpretation tables: all_statements tables_ok
  by unfold_locales
    (fact insert_run_tables insert_session_tables insert_pending_tables insert_journal_tables
      insert_lease_tables insert_decision_tables updates_tables update_run_tables edit_pending_tables
      delete_pending_tables project_tables update_session_tables cancelling_tables ended_rows_tables
      acknowledged_tables insert_turn_tables insert_intent_tables upsert_binding_tables insert_artifact_tables
      insert_set_tables insert_member_tables release_artifact_tables)+

lemma tables_ok_empty: "tables_ok empty_db"
  by (simp add: tables_defs empty_db_def)


end
