(* ===== verification/Store_Grants.thy ===== *)
theory Store_Grants
  imports Store_System
begin

text \<open>
  Who may act: the invariant of runs and controller leases that every command preserves, and
  what it makes of the credential check. A run is adopted exactly when it has an active grant;
  there is at most one, it carries the run's lease and the highest generation of the run; only an
  active grant is connected; a legacy row is the generation 0 of a run never adopted.
\<close>

definition lease_statuses :: "string list" where
  "lease_statuses = [''active'', ''legacy'', ''superseded'', ''revoked'']"

definition run_grants :: "LeaseRow list \<Rightarrow> RunRow \<Rightarrow> bool" where
  "run_grants ls r \<longleftrightarrow>
     (if r_adopted r
      then (\<exists>l \<in> set ls. is_active_lease (r_run_id r) l \<and> l_lease l = r_controller_lease r)
      else (\<forall>l \<in> set ls. \<not> is_active_lease (r_run_id r) l))"

definition lease_row_ok :: "LeaseRow list \<Rightarrow> LeaseRow \<Rightarrow> bool" where
  "lease_row_ok ls l \<longleftrightarrow>
     l_status l \<in> set lease_statuses \<and>
     (l_status l = ''legacy'' \<longrightarrow> l_generation l = 0) \<and>
     (l_connected l \<longrightarrow> l_status l = ''active'') \<and>
     (l_status l = ''active'' \<longrightarrow> 0 < l_generation l \<and> \<not> blank (l_lease l) \<and>
        (\<forall>m \<in> set ls. l_run_id m = l_run_id l \<longrightarrow>
           l_generation m \<le> l_generation l \<and> l_status m \<noteq> ''legacy'' \<and> (l_status m = ''active'' \<longrightarrow> l_generation m = l_generation l)))"

definition grants_inv :: "DB \<Rightarrow> bool" where
  "grants_inv d \<longleftrightarrow>
     distinct (map r_run_id (runs d)) \<and>
     distinct (map (\<lambda>l. (l_run_id l, l_generation l)) (leases d)) \<and>
     (\<forall>l \<in> set (leases d). l_run_id l \<in> r_run_id ` set (runs d)) \<and>
     (\<forall>l \<in> set (leases d). lease_row_ok (leases d) l) \<and>
     (\<forall>r \<in> set (runs d). run_grants (leases d) r)"

lemma grants_inv_cong: "runs d' = runs d \<Longrightarrow> leases d' = leases d \<Longrightarrow> grants_inv d' \<longleftrightarrow> grants_inv d"
  by (simp add: grants_inv_def)

section \<open>Commands that leave authority alone\<close>

lemma authority_frames:
  "insert_session s d = Inr d' \<Longrightarrow> runs d' = runs d \<and> leases d' = leases d"
  "insert_pending p d = Inr d' \<Longrightarrow> runs d' = runs d \<and> leases d' = leases d"
  "insert_turn t d = Inr d' \<Longrightarrow> runs d' = runs d \<and> leases d' = leases d"
  "insert_intent i d = Inr d' \<Longrightarrow> runs d' = runs d \<and> leases d' = leases d"
  "insert_journal j d = Inr d' \<Longrightarrow> runs d' = runs d \<and> leases d' = leases d"
  "recordJournalEntry op cmd fp rid sid k kind r l now d = Inr d' \<Longrightarrow> runs d' = runs d \<and> leases d' = leases d"
  "update_session sid f d = Inr d' \<Longrightarrow> runs d' = runs d \<and> leases d' = leases d"
  "insert_decision x d = Inr d' \<Longrightarrow> runs d' = runs d \<and> leases d' = leases d"
  by (auto simp: statement_defs recordJournalEntry_def insert_decision_def split: if_splits)

lemma update_frames [simp]:
  "runs (update_turn sid k h d) = runs d" "leases (update_turn sid k h d) = leases d"
  "runs (update_intent sid k i d) = runs d" "leases (update_intent sid k i d) = leases d"
  "runs (projectSessionConnection rid st now d) = runs d"
  "leases (projectSessionConnection rid st now d) = leases d"
  "leases (update_run rid g d) = leases d" "runs (update_leases p f d) = runs d"
  by (simp_all add: update_turn_def update_intent_def projectSessionConnection_def update_run_def
      update_leases_def)

lemma end_turn_frame: "end_turn sid k st res s now d = Inr d' \<Longrightarrow> runs d' = runs d \<and> leases d' = leases d"
  unfolding end_turn_def Let_def by (drule authority_frames) simp

lemma release_effect_frame:
  "release_effect sid k p s g now d = Inr d' \<Longrightarrow> runs d' = runs d \<and> leases d' = leases d"
  unfolding release_effect_def Let_def by (auto elim!: and_then_InrE dest!: authority_frames)

lemma reconcile_frame:
  "reconcile_active sid k s oc now d = Inr (p, d') \<Longrightarrow> runs d' = runs d \<and> leases d' = leases d"
  "reconcile_parked sid s oc now d = Inr (p, d') \<Longrightarrow> runs d' = runs d \<and> leases d' = leases d"
  unfolding reconcile_active_def reconcile_parked_def Let_def
  by (auto split: ReconciliationStatus.splits option.splits elim!: and_then_InrE dest!: authority_frames)

fun moves_authority :: "store_op \<Rightarrow> bool" where
  "moves_authority (CmdCreateRun op rid bd sd pd l) = True"
| "moves_authority (CmdAdopt op rid h c b rv l) = True"
| "moves_authority (CmdHandoff op rid l g h c n) = True"
| "moves_authority (CmdRevoke op rid l rv) = True"
| "moves_authority (CmdConnect op rid l g inst att) = True"
| "moves_authority (CmdDisconnect op rid l att g) = True"
| "moves_authority c = False"

lemmas command_defs = CreateSession_def QueuePrompt_def ReplacePendingPrompt_def
  DiscardPendingPrompt_def ReleaseTurn_def StoreRequestCancel_def RecordTerminalOutcome_def
  StoreRecordHostLoss_def ReconcileSession_def RecordDispatchObservation_def
  SetControllerConnection_def ArchiveSession_def RecordDecision_def
  RecordObservedExecutionOutcome_def RecordObservedDispatchAcknowledgement_def
  RecoverControllerCredential_def SetNativeBinding_def

lemma artifact_frame:
  "commit_publication op l m c now d = Inr (am, d') \<Longrightarrow> runs d' = runs d \<and> leases d' = leases d"
  "ReleaseArtifacts op l rid ms now d = Inr (pr, d') \<Longrightarrow> runs d' = runs d \<and> leases d' = leases d"
  "upsert_binding sid b now d = Inr d' \<Longrightarrow> runs d' = runs d \<and> leases d' = leases d"
  by (auto dest!: commit_publication_touches ReleaseArtifacts_touches upsert_binding_touches)

lemma authority_frame:
  assumes "store_exec c now d = Inr (r, d')" "\<not> moves_authority c"
  shows "runs d' = runs d \<and> leases d' = leases d"
proof (cases "artifact_command c")
  case True
  then show ?thesis using assms(1) by (cases c) (auto simp: as_result_Inr dest: artifact_frame(1,2))
next
  case False
  with assms show ?thesis
    by (cases c; simp add: as_result_Inr; elim exE conjE; unfold command_defs Let_def;
        elim success_elims; simp;
        fastforce dest!: authority_frames end_turn_frame release_effect_frame reconcile_frame artifact_frame(3))
qed

section \<open>The active grant\<close>

lemma grants_invD:
  assumes "grants_inv d"
  shows "distinct (map r_run_id (runs d))"
    "distinct (map (\<lambda>l. (l_run_id l, l_generation l)) (leases d))"
    "l \<in> set (leases d) \<Longrightarrow> l_run_id l \<in> r_run_id ` set (runs d)"
    "l \<in> set (leases d) \<Longrightarrow> lease_row_ok (leases d) l"
    "r \<in> set (runs d) \<Longrightarrow> run_grants (leases d) r"
  using assms by (auto simp: grants_inv_def)

lemma lease_key_unique:
  assumes "grants_inv d" "l \<in> set (leases d)" "m \<in> set (leases d)"
    "l_run_id l = l_run_id m" "l_generation l = l_generation m"
  shows "l = m"
  using key_unique [OF grants_invD(2) [OF assms(1)] assms(2,3)] assms(4,5) by simp

lemma active_unique:
  assumes "grants_inv d" "l \<in> set (leases d)" "m \<in> set (leases d)"
    "is_active_lease rid l" "is_active_lease rid m"
  shows "l = m"
proof -
  have "l_generation m = l_generation l"
    using grants_invD(4) [OF assms(1,2)] assms(3-5) by (auto simp: lease_row_ok_def is_active_lease_def)
  then show ?thesis using lease_key_unique [OF assms(1-3)] assms(4,5) by (simp add: is_active_lease_def)
qed

lemma active_lease_iff:
  assumes "grants_inv d"
  shows "active_lease rid d = Some l \<longleftrightarrow> l \<in> set (leases d) \<and> is_active_lease rid l"
proof
  show "active_lease rid d = Some l \<Longrightarrow> l \<in> set (leases d) \<and> is_active_lease rid l"
    by (auto simp: active_lease_def dest: sel_SomeD)
  assume l: "l \<in> set (leases d) \<and> is_active_lease rid l"
  then obtain m where m: "active_lease rid d = Some m"
    by (cases "active_lease rid d") (auto simp: active_lease_def sel_None_iff)
  then have "m \<in> set (leases d) \<and> is_active_lease rid m"
    by (auto simp: active_lease_def dest: sel_SomeD)
  then show "active_lease rid d = Some l" using m l active_unique [OF assms] by metis
qed

lemma run_row_iff:
  assumes "grants_inv d"
  shows "run_row rid d = Some r \<longleftrightarrow> r \<in> set (runs d) \<and> r_run_id r = rid"
  using sel_key_unique [OF grants_invD(1) [OF assms], of r]
  by (auto simp: run_row_def dest: sel_SomeD)

text \<open>What the controller class of a credential amounts to in a database that satisfies the invariant.\<close>

lemma classify_controller_iff:
  assumes inv: "grants_inv d"
  shows "classifyCredential rid lease True d = Inr g \<longleftrightarrow>
    (\<exists>r l. run_row rid d = Some r \<and> r_lifecycle r \<noteq> ''archived'' \<and> active_lease rid d = Some l \<and>
       l_lease l = lease \<and> l_generation l = g)"
proof
  assume "classifyCredential rid lease True d = Inr g"
  then show "\<exists>r l. run_row rid d = Some r \<and> r_lifecycle r \<noteq> ''archived'' \<and> active_lease rid d = Some l \<and>
       l_lease l = lease \<and> l_generation l = g"
    by (auto simp: classifyCredential_def classify_inactive_def split: option.splits if_splits)
next
  assume "\<exists>r l. run_row rid d = Some r \<and> r_lifecycle r \<noteq> ''archived'' \<and> active_lease rid d = Some l \<and>
       l_lease l = lease \<and> l_generation l = g"
  then obtain r l where r: "run_row rid d = Some r" "r_lifecycle r \<noteq> ''archived''"
    and l: "active_lease rid d = Some l" "l_lease l = lease" "l_generation l = g" by blast
  have lr: "l \<in> set (leases d)" "is_active_lease rid l" using l(1) active_lease_iff [OF inv] by auto
  have rr: "r \<in> set (runs d)" "r_run_id r = rid" using r(1) run_row_iff [OF inv] by auto
  have adopted: "r_adopted r"
    using grants_invD(5) [OF inv rr(1)] rr lr by (auto simp: run_grants_def split: if_splits)
  then obtain m where "m \<in> set (leases d)" "is_active_lease rid m" "l_lease m = r_controller_lease r"
    using grants_invD(5) [OF inv rr(1)] rr by (auto simp: run_grants_def)
  then have "m = l" using active_unique [OF inv lr(1) _ lr(2)] by blast
  then have "r_controller_lease r = lease" using \<open>l_lease m = r_controller_lease r\<close> l(2) by simp
  moreover have "\<not> blank lease"
    using grants_invD(4) [OF inv lr(1)] lr(2) l(2) by (auto simp: lease_row_ok_def is_active_lease_def)
  ultimately show "classifyCredential rid lease True d = Inr g"
    using r l adopted by (simp add: classifyCredential_def)
qed

section \<open>Preservation\<close>

lemma key_upd:
  "(\<And>l. l_run_id (f l) = l_run_id l) \<Longrightarrow> (\<And>l. l_generation (f l) = l_generation l) \<Longrightarrow>
   map (\<lambda>l. (l_run_id l, l_generation l)) (upd p f ls) = map (\<lambda>l. (l_run_id l, l_generation l)) ls"
  by (rule map_upd_same) simp

text \<open>A row is judged by the runs, generations and statuses of the others.\<close>

definition shadow :: "LeaseRow \<Rightarrow> string \<times> nat \<times> string" where
  "shadow l = (l_run_id l, l_generation l, l_status l)"

lemma lease_row_ok_shadow:
  "lease_row_ok ls l \<longleftrightarrow>
     l_status l \<in> set lease_statuses \<and> (l_status l = ''legacy'' \<longrightarrow> l_generation l = 0) \<and>
     (l_connected l \<longrightarrow> l_status l = ''active'') \<and>
     (l_status l = ''active'' \<longrightarrow> 0 < l_generation l \<and> \<not> blank (l_lease l) \<and>
        (\<forall>(rid, g, st) \<in> set (map shadow ls). rid = l_run_id l \<longrightarrow>
           g \<le> l_generation l \<and> st \<noteq> ''legacy'' \<and> (st = ''active'' \<longrightarrow> g = l_generation l)))"
  by (auto simp: lease_row_ok_def shadow_def)

lemma lease_row_ok_cong: "map shadow ls' = map shadow ls \<Longrightarrow> lease_row_ok ls' l \<longleftrightarrow> lease_row_ok ls l"
  by (simp only: lease_row_ok_shadow)

lemma lease_row_ok_other_run:
  "lease_row_ok ls l \<Longrightarrow> l_run_id m \<noteq> l_run_id l \<Longrightarrow> lease_row_ok (ls @ [m]) l"
  by (simp add: lease_row_ok_def)

lemma lease_row_ok_row:
  "lease_row_ok ls l \<Longrightarrow> shadow l' = shadow l \<Longrightarrow> l_lease l' = l_lease l \<Longrightarrow>
   (l_connected l' \<Longrightarrow> l_status l = ''active'') \<Longrightarrow> lease_row_ok ls l'"
  by (auto simp: lease_row_ok_def shadow_def)

lemma retired_row_ok:
  "l_status l \<in> {''superseded'', ''revoked''} \<Longrightarrow> \<not> l_connected l \<Longrightarrow> lease_row_ok ls l"
  by (auto simp: lease_row_ok_def lease_statuses_def)

text \<open>A run is judged by the grants of the rows: run, status and lease.\<close>

definition grant_view :: "LeaseRow \<Rightarrow> string \<times> string \<times> string" where
  "grant_view l = (l_run_id l, l_status l, l_lease l)"

lemma run_grants_view:
  "run_grants ls r \<longleftrightarrow>
     (if r_adopted r then (r_run_id r, ''active'', r_controller_lease r) \<in> set (map grant_view ls)
      else (\<forall>(rid, st, x) \<in> set (map grant_view ls). rid = r_run_id r \<longrightarrow> st \<noteq> ''active''))"
  by (auto simp: run_grants_def grant_view_def is_active_lease_def image_iff) metis

lemma run_grants_cong: "map grant_view ls' = map grant_view ls \<Longrightarrow> run_grants ls' r \<longleftrightarrow> run_grants ls r"
  by (simp only: run_grants_view)

lemma run_grants_append:
  "l_status l \<noteq> ''active'' \<or> l_run_id l \<noteq> r_run_id r \<Longrightarrow> run_grants (ls @ [l]) r \<longleftrightarrow> run_grants ls r"
  by (auto simp: run_grants_def is_active_lease_def)

text \<open>Updates that keep identity, status and lease of every row.\<close>

lemma grants_inv_touch:
  assumes inv: "grants_inv d" and f: "\<And>l. l_run_id (f l) = l_run_id l" "\<And>l. l_generation (f l) = l_generation l"
    "\<And>l. l_status (f l) = l_status l" "\<And>l. l_lease (f l) = l_lease l"
    and conn: "\<And>l. l \<in> set (leases d) \<Longrightarrow> p l \<Longrightarrow> l_connected (f l) \<Longrightarrow> l_status l = ''active''"
  shows "grants_inv (update_leases p f d)"
proof -
  have rows: "lease_row_ok (upd p f (leases d)) l" if "l \<in> set (upd p f (leases d))" for l
  proof -
    from that obtain l0 where l0: "l0 \<in> set (leases d)" "l = (if p l0 then f l0 else l0)" by (rule in_updE)
    have same: "map shadow (upd p f (leases d)) = map shadow (leases d)"
      by (rule map_upd_same) (simp add: shadow_def f)
    have "lease_row_ok (leases d) l"
    proof (rule lease_row_ok_row [OF grants_invD(4) [OF inv l0(1)]])
      show "shadow l = shadow l0" "l_lease l = l_lease l0" by (simp_all add: l0(2) shadow_def f)
      show "l_connected l \<Longrightarrow> l_status l0 = ''active''"
        using conn [OF l0(1)] grants_invD(4) [OF inv l0(1)] by (auto simp: l0(2) lease_row_ok_def split: if_splits)
    qed
    then show ?thesis by (simp only: lease_row_ok_cong [OF same])
  qed
  have same: "map grant_view (upd p f (leases d)) = map grant_view (leases d)"
    by (rule map_upd_same) (simp add: grant_view_def f)
  have "run_grants (upd p f (leases d)) r" if "r \<in> set (runs d)" for r
    using grants_invD(5) [OF inv that] by (simp only: run_grants_cong [OF same])
  moreover have "l_run_id l \<in> r_run_id ` set (runs d)" if l: "l \<in> set (upd p f (leases d))" for l
  proof -
    from l obtain l0 where l0: "l0 \<in> set (leases d)" "l = (if p l0 then f l0 else l0)" by (rule in_updE)
    then show ?thesis using grants_invD(3) [OF inv l0(1)] by (simp add: f)
  qed
  ultimately show ?thesis
    using grants_invD(1,2) [OF inv] rows by (simp add: grants_inv_def update_leases_def key_upd f)
qed

lemma CreateRun_grants:
  assumes inv: "grants_inv d" and run: "CreateRun op rid bd sd pd lease now d = Inr (r, d')"
  shows "grants_inv d'"
proof -
  have eff: "d' = d \<or> (\<exists>l row. runs d' = runs d @ [row] \<and> leases d' = leases d @ [l] \<and> r_run_id row = rid \<and>
      \<not> r_adopted row \<and> l_run_id l = rid \<and> l_generation l = 0 \<and> l_status l = ''legacy'' \<and> \<not> l_connected l \<and>
      run_row rid d = None)"
    using run unfolding CreateRun_def Let_def
    by (elim success_elims; simp)
      (auto simp: insert_run_def insert_lease_def dest!: authority_frames split: if_splits)
  then show ?thesis
  proof
    assume "d' = d" then show ?thesis using inv by simp
  next
    assume "\<exists>l row. runs d' = runs d @ [row] \<and> leases d' = leases d @ [l] \<and> r_run_id row = rid \<and>
      \<not> r_adopted row \<and> l_run_id l = rid \<and> l_generation l = 0 \<and> l_status l = ''legacy'' \<and> \<not> l_connected l \<and>
      run_row rid d = None"
    then obtain l row where e: "runs d' = runs d @ [row]" "leases d' = leases d @ [l]" "r_run_id row = rid"
      "\<not> r_adopted row" "l_run_id l = rid" "l_generation l = 0" "l_status l = ''legacy''" "\<not> l_connected l"
      "run_row rid d = None" by blast
    have fresh: "rid \<notin> r_run_id ` set (runs d)" using e(9) by (auto simp: run_row_def sel_None_iff)
    then have no: "l_run_id m \<noteq> rid" if "m \<in> set (leases d)" for m using grants_invD(3) [OF inv that] by auto
    have "lease_row_ok (leases d @ [l]) m" if "m \<in> set (leases d @ [l])" for m
    proof (cases "m \<in> set (leases d)")
      case True
      then show ?thesis
        using lease_row_ok_other_run [OF grants_invD(4) [OF inv True], of l] no [OF True] e(5) by simp
    next
      case False
      then have "m = l" using that by simp
      then show ?thesis using e(6,7,8) by (simp add: lease_row_ok_def lease_statuses_def)
    qed
    moreover have "run_grants (leases d @ [l]) x" if "x \<in> set (runs d @ [row])" for x
    proof (cases "x \<in> set (runs d)")
      case True
      then show ?thesis using grants_invD(5) [OF inv True] e(7) by (simp add: run_grants_append)
    next
      case False
      then have "x = row" using that by simp
      then show ?thesis using e no by (auto simp: run_grants_def is_active_lease_def)
    qed
    moreover have "distinct (map (\<lambda>l. (l_run_id l, l_generation l)) (leases d @ [l]))"
      using grants_invD(2) [OF inv] e(5) by (auto dest: no)
    ultimately show ?thesis
      using inv fresh e by (auto simp: grants_inv_def)
  qed
qed

text \<open>A run between grants: everything else in order, no active row of its own.\<close>

definition vacant :: "string \<Rightarrow> DB \<Rightarrow> bool" where
  "vacant rid d \<longleftrightarrow>
     distinct (map r_run_id (runs d)) \<and>
     distinct (map (\<lambda>l. (l_run_id l, l_generation l)) (leases d)) \<and>
     (\<forall>l \<in> set (leases d). l_run_id l \<in> r_run_id ` set (runs d)) \<and>
     (\<forall>l \<in> set (leases d). lease_row_ok (leases d) l) \<and>
     (\<forall>r \<in> set (runs d). r_run_id r \<noteq> rid \<longrightarrow> run_grants (leases d) r) \<and>
     (\<forall>l \<in> set (leases d). \<not> is_active_lease rid l)"

lemma vacantD:
  assumes "vacant rid d"
  shows "distinct (map r_run_id (runs d))"
    "distinct (map (\<lambda>l. (l_run_id l, l_generation l)) (leases d))"
    "l \<in> set (leases d) \<Longrightarrow> l_run_id l \<in> r_run_id ` set (runs d)"
    "l \<in> set (leases d) \<Longrightarrow> lease_row_ok (leases d) l"
    "r \<in> set (runs d) \<Longrightarrow> r_run_id r \<noteq> rid \<Longrightarrow> run_grants (leases d) r"
    "l \<in> set (leases d) \<Longrightarrow> \<not> is_active_lease rid l"
  using assms by (auto simp: vacant_def)

lemma vacant_unadopted:
  assumes inv: "grants_inv d" and r: "run_row rid d = Some r" "\<not> r_adopted r"
  shows "vacant rid d"
proof -
  have "r \<in> set (runs d)" "r_run_id r = rid" using run_row_iff [OF inv] r(1) by auto
  then have "\<forall>l \<in> set (leases d). \<not> is_active_lease rid l"
    using grants_invD(5) [OF inv, of r] r(2) by (simp add: run_grants_def)
  then show ?thesis using inv by (simp add: vacant_def grants_inv_def)
qed

lemma lease_row_ok_sub:
  assumes "lease_row_ok ls l"
    "\<And>m. m \<in> set ls' \<Longrightarrow> l_run_id m = l_run_id l \<Longrightarrow> \<exists>m0 \<in> set ls. shadow m0 = shadow m"
  shows "lease_row_ok ls' l"
proof -
  have "l_generation m \<le> l_generation l \<and> l_status m \<noteq> ''legacy'' \<and> (l_status m = ''active'' \<longrightarrow> l_generation m = l_generation l)"
    if m: "m \<in> set ls'" "l_run_id m = l_run_id l" and a: "l_status l = ''active''" for m
  proof -
    obtain m0 where "m0 \<in> set ls" "shadow m0 = shadow m" using assms(2) [OF m] by blast
    then show ?thesis using assms(1) m(2) a by (auto simp: lease_row_ok_def shadow_def)
  qed
  then show ?thesis using assms(1) by (simp add: lease_row_ok_def)
qed

lemma run_grants_same_rows:
  assumes "run_grants ls r" "\<And>l. l_run_id l = r_run_id r \<Longrightarrow> l \<in> set ls' \<longleftrightarrow> l \<in> set ls"
  shows "run_grants ls' r"
  using assms by (auto simp: run_grants_def is_active_lease_def split: if_splits)

text \<open>Retiring rows of one run: the status becomes a retired one and the row is disconnected.\<close>

definition retires :: "(LeaseRow \<Rightarrow> LeaseRow) \<Rightarrow> bool" where
  "retires f \<longleftrightarrow> (\<forall>l. l_run_id (f l) = l_run_id l \<and> l_generation (f l) = l_generation l \<and>
     l_status (f l) \<in> {''superseded'', ''revoked''} \<and> (l_connected (f l) \<longrightarrow> l_connected l))"

lemma vacant_retire:
  assumes inv: "grants_inv d" and f: "retires f" "\<And>l. p l \<Longrightarrow> l_run_id l = rid"
    and off: "\<And>l. l \<in> set (leases d) \<Longrightarrow> p l \<Longrightarrow> \<not> l_connected (f l)"
    and all: "\<And>l. l \<in> set (leases d) \<Longrightarrow> is_active_lease rid l \<Longrightarrow> p l"
  shows "vacant rid (update_leases p f d)"
proof -
  let ?ls = "upd p f (leases d)"
  have keep: "l \<in> set ?ls \<longleftrightarrow> l \<in> set (leases d)" if "l_run_id l \<noteq> rid" for l
    using that f by (auto simp: set_upd image_iff retires_def)
  have noact: "\<not> is_active_lease rid l" if "l \<in> set ?ls" for l
  proof -
    from that obtain l0 where l0: "l0 \<in> set (leases d)" "l = (if p l0 then f l0 else l0)" by (rule in_updE)
    have "l_status (f l0) \<in> {''superseded'', ''revoked''}" using f(1) by (simp add: retires_def)
    then show ?thesis using all [OF l0(1)] l0(2) by (auto simp: is_active_lease_def)
  qed
  have rows: "lease_row_ok ?ls l" if "l \<in> set ?ls" for l
  proof -
    from that obtain l0 where l0: "l0 \<in> set (leases d)" "l = (if p l0 then f l0 else l0)" by (rule in_updE)
    show ?thesis
    proof (cases "p l0")
      case True
      then show ?thesis using l0 off f(1) by (intro retired_row_ok) (auto simp: retires_def)
    next
      case False
      then have l: "l = l0" by (simp add: l0(2))
      show ?thesis
      proof (cases "l_run_id l = rid")
        case True
        then have "l_status l \<noteq> ''active''" using noact that by (auto simp: is_active_lease_def)
        then show ?thesis using grants_invD(4) [OF inv l0(1)] by (simp add: l lease_row_ok_def)
      next
        case False
        show ?thesis
          using grants_invD(4) [OF inv l0(1)] unfolding l
          by (rule lease_row_ok_sub) (use keep False l in auto)
      qed
    qed
  qed
  have "run_grants ?ls r" if "r \<in> set (runs d)" "r_run_id r \<noteq> rid" for r
    by (rule run_grants_same_rows [OF grants_invD(5) [OF inv that(1)]]) (use keep that(2) in auto)
  moreover have "l_run_id l \<in> r_run_id ` set (runs d)" if "l \<in> set ?ls" for l
  proof -
    from that obtain l0 where l0: "l0 \<in> set (leases d)" "l = (if p l0 then f l0 else l0)" by (rule in_updE)
    then show ?thesis using grants_invD(3) [OF inv l0(1)] f(1) by (simp add: retires_def)
  qed
  ultimately show ?thesis
    using grants_invD(1,2) [OF inv] rows noact f(1)
    by (simp add: vacant_def update_leases_def key_upd retires_def)
qed

lemma fold_max_ge: "a \<le> fold max xs (a :: nat)" "x \<in> set xs \<Longrightarrow> x \<le> fold max xs a"
proof (induction xs arbitrary: a)
  case (Cons y ys)
  { case 1 show ?case using Cons.IH(1) [of "max y a"] by simp }
  { case 2 then show ?case using Cons.IH [of "max y a"] by auto }
qed simp_all

lemma next_generation_fresh: "l \<in> set (leases d) \<Longrightarrow> l_run_id l = rid \<Longrightarrow> l_generation l < next_generation rid d"
  using fold_max_ge(2) [of "l_generation l"] by (auto simp: next_generation_def less_Suc_eq_le)

lemma active_row_ok:
  assumes "l_status l = ''active''" "0 < l_generation l" "\<not> blank (l_lease l)"
    "\<And>m. m \<in> set ls \<Longrightarrow> l_run_id m = l_run_id l \<Longrightarrow>
       l_generation m \<le> l_generation l \<and> l_status m \<noteq> ''legacy'' \<and> (l_status m = ''active'' \<longrightarrow> l_generation m = l_generation l)"
  shows "lease_row_ok ls l"
  using assms by (simp add: lease_row_ok_def lease_statuses_def)

definition granted_row :: "string \<Rightarrow> string \<Rightarrow> string \<Rightarrow> string \<Rightarrow> string \<Rightarrow> time \<Rightarrow> DB \<Rightarrow> LeaseRow" where
  "granted_row opID runID harness controllerRef candidate now d =
     \<lparr>l_run_id = runID, l_generation = next_generation runID d, l_harness = Some harness,
      l_controller_ref = controllerRef, l_lease = candidate, l_status = ''active'',
      l_granted_by = opID, l_attachment_id = None, l_instance_id = None, l_attachment_rev = 0,
      l_connected = False, l_attached_at = now, l_updated_at = now\<rparr>"

lemma installGrant_effect:
  "installGrant op rid h c n cmd fp kind mode now d = Inr (g, d') \<Longrightarrow>
     runs d' = upd (\<lambda>r. r_run_id r = rid)
       (\<lambda>r. r\<lparr>r_controller_lease := n, r_adopted := True, r_updated_at := now\<rparr>) (runs d) \<and>
     leases d' = upd (legacy_lease rid) (\<lambda>l. l\<lparr>l_status := ''superseded'', l_updated_at := now\<rparr>)
       (leases d @ [granted_row op rid h c n now d]) \<and>
     rid \<in> r_run_id ` set (runs d) \<and> cg_Generation g = next_generation rid d"
  unfolding installGrant_def Let_def
  by (elim success_elims)
    (auto simp: insert_lease_def update_leases_def update_run_def granted_row_def run_row_def
      dest!: authority_frames dest: sel_SomeD split: if_splits)

lemma installGrant_grants:
  assumes vac: "vacant rid d" and n: "\<not> blank n"
    and run: "installGrant op rid h c n cmd fp kind mode now d = Inr (g, d')"
  shows "grants_inv d'"
proof -
  let ?L = "granted_row op rid h c n now d"
  let ?f = "\<lambda>l. l\<lparr>l_status := ''superseded'', l_updated_at := now\<rparr>"
  let ?ls = "upd (legacy_lease rid) ?f (leases d) @ [?L]"
  have L: "l_run_id ?L = rid" "l_status ?L = ''active''" "l_lease ?L = n" "\<not> l_connected ?L"
    "0 < l_generation ?L" "l_generation ?L = next_generation rid d" "\<not> legacy_lease rid ?L"
    by (simp_all add: granted_row_def next_generation_def legacy_lease_def)
  have eff: "runs d' = upd (\<lambda>r. r_run_id r = rid)
       (\<lambda>r. r\<lparr>r_controller_lease := n, r_adopted := True, r_updated_at := now\<rparr>) (runs d)"
    "leases d' = ?ls" "rid \<in> r_run_id ` set (runs d)"
    using installGrant_effect [OF run] L(7) by auto
  have older: "l_generation l < next_generation rid d" if "l \<in> set (leases d)" "l_run_id l = rid" for l
    using next_generation_fresh that by blast
  have old: "l_run_id l = l_run_id l0 \<and> l_generation l = l_generation l0"
    if "l = (if legacy_lease rid l0 then ?f l0 else l0)" for l l0 using that by simp
  have others: "l \<in> set ?ls \<longleftrightarrow> l \<in> set (leases d)" if "l_run_id l \<noteq> rid" for l
    using that L(1) by (auto simp: set_upd image_iff legacy_lease_def)
  have retired: "l_status l \<noteq> ''legacy'' \<and> l_status l \<noteq> ''active'' \<and> \<not> l_connected l
      \<and> l_status l \<in> set lease_statuses"
    if l: "l \<in> set (upd (legacy_lease rid) ?f (leases d))" "l_run_id l = rid" for l
  proof -
    from l(1) obtain l0 where l0: "l0 \<in> set (leases d)" "l = (if legacy_lease rid l0 then ?f l0 else l0)"
      by (rule in_updE)
    then have "\<not> is_active_lease rid l0" "lease_row_ok (leases d) l0"
      using vacantD(4,6) [OF vac] by auto
    then show ?thesis
      using l0(2) l(2) by (auto simp: legacy_lease_def is_active_lease_def lease_row_ok_def lease_statuses_def
          split: if_splits)
  qed
  have rows: "lease_row_ok ?ls l" if l: "l \<in> set ?ls" for l
  proof (cases "l_run_id l = rid")
    case False
    then have "l \<in> set (leases d)" using others l by blast
    then show ?thesis
      by (rule lease_row_ok_sub [OF vacantD(4) [OF vac]]) (use others False in auto)
  next
    case True
    show ?thesis
    proof (cases "l \<in> set (upd (legacy_lease rid) ?f (leases d))")
      case in_old: True
      then show ?thesis using retired [OF in_old True] by (auto simp: lease_row_ok_def lease_statuses_def)
    next
      case False
      then have l: "l = ?L" using l by simp
      have top: "l_generation m \<le> l_generation ?L \<and> l_status m \<noteq> ''legacy'' \<and> (l_status m = ''active'' \<longrightarrow> l_generation m = l_generation ?L)"
        if m: "m \<in> set ?ls" "l_run_id m = rid" for m
      proof (cases "m \<in> set (upd (legacy_lease rid) ?f (leases d))")
        case in_old: True
        then obtain m0 where "m0 \<in> set (leases d)" "m = (if legacy_lease rid m0 then ?f m0 else m0)"
          by (rule in_updE)
        then have "l_generation m < next_generation rid d" using older m(2) old by metis
        then show ?thesis using retired [OF in_old m(2)] L(6) by simp
      next
        case False
        then have "m = ?L" using m(1) by simp
        then show ?thesis using L by simp
      qed
      show ?thesis
        unfolding l by (rule active_row_ok [OF L(2,5)]) (use n L(1,3) top in simp_all)
    qed
  qed
  have keys: "distinct (map (\<lambda>l. (l_run_id l, l_generation l)) ?ls)"
  proof -
    have "(rid, next_generation rid d) \<noteq> (l_run_id l, l_generation l)" if "l \<in> set (leases d)" for l
      using older [OF that] by auto
    then have "(l_run_id ?L, l_generation ?L) \<notin> (\<lambda>l. (l_run_id l, l_generation l)) ` set (leases d)"
      using L(1,6) by (auto simp: image_iff)
    then show ?thesis using vacantD(2) [OF vac] by (simp add: key_upd)
  qed
  have refs: "l_run_id l \<in> r_run_id ` set (runs d)" if "l \<in> set ?ls" for l
    using that others vacantD(3) [OF vac] eff(3) by (cases "l_run_id l = rid") auto
  have grants: "run_grants ?ls r" if "r \<in> set (runs d')" for r
  proof -
    from that obtain r0 where r0: "r0 \<in> set (runs d)"
      "r = (if r_run_id r0 = rid then r0\<lparr>r_controller_lease := n, r_adopted := True, r_updated_at := now\<rparr> else r0)"
      unfolding eff(1) by (rule in_updE)
    show ?thesis
    proof (cases "r_run_id r0 = rid")
      case True
      then show ?thesis using r0(2) L(1,2,3) by (auto simp: run_grants_def is_active_lease_def)
    next
      case False
      then show ?thesis
        using run_grants_same_rows [OF vacantD(5) [OF vac r0(1) False], of ?ls] others r0(2) by auto
    qed
  qed
  have ids: "map r_run_id (runs d') = map r_run_id (runs d)"
    unfolding eff(1) by (rule map_upd_same) simp
  then have "r_run_id ` set (runs d') = r_run_id ` set (runs d)" by (metis list.set_map)
  then show ?thesis
    using vacantD(1) [OF vac] ids keys refs rows grants by (simp add: grants_inv_def eff(2))
qed

text \<open>Every command that moves authority, from its success.\<close>

lemma vacant_cong: "runs d' = runs d \<Longrightarrow> leases d' = leases d \<Longrightarrow> vacant rid d' \<longleftrightarrow> vacant rid d"
  by (simp add: vacant_def)

lemma AdoptController_Inr:
  "AdoptController op rid h c b rv n now d = Inr (g, d') \<Longrightarrow>
     d' = d \<or> (\<exists>r. run_row rid d = Some r \<and> \<not> r_adopted r \<and> \<not> blank n \<and>
       adopt_authority rid b rv r d = None \<and>
       installGrant op rid h c n ''adopt_controller'' (adopt_fingerprint rid h c rv)
        ''controller_adopted'' (adopt_auth_mode rv) now d = Inr (g, d'))"
  unfolding AdoptController_def Let_def
  by (elim success_elims; simp; fastforce simp: grant_arguments_def split: if_splits)

lemma AdoptController_grants:
  assumes "grants_inv d" "AdoptController op rid h c b rv n now d = Inr (g, d')"
  shows "grants_inv d'"
  using AdoptController_Inr [OF assms(2)] assms(1)
  by (auto intro: installGrant_grants [rotated 2] dest: vacant_unadopted)

definition handoff_retire :: "string \<Rightarrow> time \<Rightarrow> DB \<Rightarrow> DB" where
  "handoff_retire rid now d =
     update_leases (is_active_lease rid)
       (\<lambda>l. l\<lparr>l_status := ''superseded'', l_connected := False, l_attachment_id := None, l_updated_at := now\<rparr>) d"

lemma HandoffController_Inr:
  "HandoffController op rid cl eg h c n now d = Inr (g, d') \<Longrightarrow>
     (d' = d \<and> journal_row op d \<noteq> None) \<or> (\<not> blank n \<and> journal_row op d = None \<and>
       classifyRunController rid cl d = Inr eg \<and>
       installGrant op rid h c n ''handoff_controller'' (handoff_fingerprint rid h c eg)
        ''controller_handed_off'' ''controller'' now
        (projectSessionConnection rid ''disconnected'' now (handoff_retire rid now d)) = Inr (g, d'))"
  unfolding HandoffController_def Let_def handoff_retire_def
  by (elim success_elims; simp; fastforce simp: grant_arguments_def resolveGrantReplay_def
      split: if_splits option.splits)

lemma handoff_vacant:
  assumes "grants_inv d"
  shows "vacant rid (projectSessionConnection rid st now (handoff_retire rid now d))"
proof -
  have "vacant rid (handoff_retire rid now d)"
    unfolding handoff_retire_def
    by (rule vacant_retire [OF assms]) (auto simp: retires_def is_active_lease_def)
  then show ?thesis by (simp add: vacant_cong [of "projectSessionConnection rid st now (handoff_retire rid now d)"])
qed

lemma HandoffController_grants:
  assumes "grants_inv d" "HandoffController op rid cl eg h c n now d = Inr (g, d')"
  shows "grants_inv d'"
  using HandoffController_Inr [OF assms(2)] assms(1)
  by (auto intro: installGrant_grants [rotated 2] dest: handoff_vacant)

text \<open>The generation a revocation targets is that of the active grant, or 0 when there is none.\<close>

lemma latest_generation_Some:
  assumes "latest_generation p d = Some g"
  shows "(\<exists>l \<in> set (leases d). p l \<and> l_generation l = g)"
    "\<And>l. l \<in> set (leases d) \<Longrightarrow> p l \<Longrightarrow> l_generation l \<le> g"
proof -
  obtain x xs where xs: "map l_generation (filter p (leases d)) = x # xs" "g = fold max xs x"
    using assms by (auto simp: latest_generation_def split: list.splits)
  have mem: "fold max ys (y :: nat) \<in> insert y (set ys)" for ys y
    by (induction ys arbitrary: y) (auto simp: max_def)
  have "g \<in> l_generation ` {l \<in> set (leases d). p l}"
    using mem [of xs x] arg_cong [OF xs(1), of set] xs(2) by (simp add: set_eq_iff image_iff)
  then show "\<exists>l \<in> set (leases d). p l \<and> l_generation l = g" by auto
  fix l assume "l \<in> set (leases d)" "p l"
  then have "l_generation l \<in> set (x # xs)" using xs(1) [symmetric] by (simp only:) auto
  then show "l_generation l \<le> g" using fold_max_ge [of x xs] fold_max_ge(2) [of "l_generation l" xs x] xs(2) by auto
qed

lemma RevokeController_Inr:
  "RevokeController op rid cl rv now d = Inr (r, d') \<Longrightarrow>
     (d' = d \<and> journal_row op d \<noteq> None) \<or> (\<exists>tg fpt am. journal_row op d = None \<and>
       revoke_target rid cl rv d = Inr (tg, fpt, am) \<and> revoke_recovery_check rid rv d = None \<and>
       runs d' = runs (revoke_effect rid tg now d) \<and> leases d' = leases (revoke_effect rid tg now d))"
  unfolding RevokeController_def Let_def
  by (elim success_elims; simp; fastforce dest!: authority_frames)

lemma revoke_effect_tables:
  "runs (revoke_effect rid tg now d) = upd (\<lambda>r. r_run_id r = rid)
     (\<lambda>r. r\<lparr>r_controller_lease := [], r_adopted := r_adopted r \<and> tg = 0, r_updated_at := now\<rparr>) (runs d)"
  "leases (revoke_effect rid tg now d) = upd (\<lambda>l. l_run_id l = rid \<and> l_generation l = tg)
     (\<lambda>l. l\<lparr>l_status := ''revoked'', l_connected := False, l_attachment_id := None, l_updated_at := now\<rparr>) (leases d)"
proof -
  have eq: "upd p f (upd p g xs) = upd p (\<lambda>x. f (g x)) xs" if "\<And>x. p x \<Longrightarrow> p (g x)" for p f g and xs :: "RunRow list"
    using that by (induction xs) auto
  have same: "upd p f xs = upd p g xs" if "\<And>x. p x \<Longrightarrow> f x = g x" for p f g and xs :: "RunRow list"
    using that by (induction xs) auto
  show "runs (revoke_effect rid tg now d) = upd (\<lambda>r. r_run_id r = rid)
     (\<lambda>r. r\<lparr>r_controller_lease := [], r_adopted := r_adopted r \<and> tg = 0, r_updated_at := now\<rparr>) (runs d)"
    by (auto simp: revoke_effect_def Let_def update_run_def update_leases_def eq
        projectSessionConnection_def intro!: same)
  show "leases (revoke_effect rid tg now d) = upd (\<lambda>l. l_run_id l = rid \<and> l_generation l = tg)
     (\<lambda>l. l\<lparr>l_status := ''revoked'', l_connected := False, l_attachment_id := None, l_updated_at := now\<rparr>) (leases d)"
    by (simp add: revoke_effect_def Let_def update_run_def update_leases_def projectSessionConnection_def)
qed

lemma revoke_target_active:
  assumes inv: "grants_inv d" and t: "revoke_target rid cl rv d = Inr (tg, fpt, am)"
    and c: "revoke_recovery_check rid rv d = None" and l: "l \<in> set (leases d)" "is_active_lease rid l"
  shows "l_generation l = tg"
proof (cases rv)
  case None
  then have "classifyCredential rid cl True d = Inr tg"
    using t by (auto simp: revoke_target_def classifyRunController_def elim!: and_then_InrE)
  then show ?thesis
    using classify_controller_iff [OF inv] active_lease_iff [OF inv] active_unique [OF inv] l by metis
next
  case (Some x)
  let ?p = "\<lambda>l. l_run_id l = rid \<and> l_status l \<in> {''legacy'', ''active''}"
  have "latest_generation ?p d = Some tg"
    using t c Some by (auto simp: revoke_target_def revoke_recovery_check_def split: option.splits if_splits)
  note latest = latest_generation_Some [OF this]
  obtain m where m: "m \<in> set (leases d)" "l_run_id m = rid" "l_generation m = tg" using latest(1) by auto
  have "l_generation m \<le> l_generation l"
    using grants_invD(4) [OF inv l(1)] l(2) m by (auto simp: lease_row_ok_def is_active_lease_def)
  then show ?thesis using latest(2) [OF l(1)] l(2) m(3) by (auto simp: is_active_lease_def)
qed

lemma RevokeController_grants:
  assumes inv: "grants_inv d" and run: "RevokeController op rid cl rv now d = Inr (r, d')"
  shows "grants_inv d'"
  using RevokeController_Inr [OF run]
proof
  assume "d' = d \<and> journal_row op d \<noteq> None" then show ?thesis using inv by simp
next
  assume "\<exists>tg fpt am. journal_row op d = None \<and>
       revoke_target rid cl rv d = Inr (tg, fpt, am) \<and> revoke_recovery_check rid rv d = None \<and>
       runs d' = runs (revoke_effect rid tg now d) \<and> leases d' = leases (revoke_effect rid tg now d)"
  then obtain tg fpt am where t: "revoke_target rid cl rv d = Inr (tg, fpt, am)"
    "revoke_recovery_check rid rv d = None"
    and d': "runs d' = runs (revoke_effect rid tg now d)" "leases d' = leases (revoke_effect rid tg now d)" by blast
  let ?p = "\<lambda>l. l_run_id l = rid \<and> l_generation l = tg"
  let ?f = "\<lambda>l. l\<lparr>l_status := ''revoked'', l_connected := False, l_attachment_id := None, l_updated_at := now\<rparr>"
  have target: "l_generation l = tg" if "l \<in> set (leases d)" "is_active_lease rid l" for l
    using revoke_target_active [OF inv t that] .
  have vac: "vacant rid (update_leases ?p ?f d)"
    by (rule vacant_retire [OF inv]) (use target in \<open>auto simp: retires_def is_active_lease_def\<close>)
  have ls: "leases d' = leases (update_leases ?p ?f d)"
    by (simp add: d'(2) revoke_effect_tables(2) update_leases_def)
  have rs: "runs d' = upd (\<lambda>r. r_run_id r = rid)
     (\<lambda>r. r\<lparr>r_controller_lease := [], r_adopted := r_adopted r \<and> tg = 0, r_updated_at := now\<rparr>) (runs d)"
    by (simp add: d'(1) revoke_effect_tables(1))
  have ids: "map r_run_id (runs d') = map r_run_id (runs d)" unfolding rs by (rule map_upd_same) simp
  have grants: "run_grants (leases d') x" if "x \<in> set (runs d')" for x
  proof -
    from that obtain r0 where r0: "r0 \<in> set (runs d)"
      "x = (if r_run_id r0 = rid then r0\<lparr>r_controller_lease := [], r_adopted := r_adopted r0 \<and> tg = 0, r_updated_at := now\<rparr> else r0)"
      unfolding rs by (rule in_updE)
    show ?thesis
    proof (cases "r_run_id r0 = rid")
      case True
      have "\<not> (r_adopted r0 \<and> tg = 0)"
      proof
        assume a: "r_adopted r0 \<and> tg = 0"
        then obtain l where l: "l \<in> set (leases d)" "is_active_lease rid l"
          using grants_invD(5) [OF inv r0(1)] True by (auto simp: run_grants_def)
        then show False
          using target [OF l] grants_invD(4) [OF inv l(1)] a by (auto simp: lease_row_ok_def is_active_lease_def)
      qed
      then have "\<not> r_adopted x" "r_run_id x = rid" using r0(2) True by auto
      then show ?thesis using vacantD(6) [OF vac] ls by (simp add: run_grants_def)
    next
      case False
      then show ?thesis using vacantD(5) [OF vac _ False] r0 ls by (simp add: update_leases_def)
    qed
  qed
  have "r_run_id ` set (runs d') = r_run_id ` set (runs d)" using ids by (metis list.set_map)
  then show ?thesis
    using vacantD(1-4) [OF vac] ids grants by (simp add: grants_inv_def ls update_leases_def)
qed

lemma ConnectRunController_Inr:
  "ConnectRunController op rid cl g inst att now d = Inr (r, d') \<Longrightarrow>
     classifyRunController rid cl d = Inr g \<and>
     ((d' = d \<and> journal_row op d \<noteq> None) \<or> (runs d' = runs d \<and> journal_row op d = None \<and>
       leases d' = leases (update_leases (active_generation rid g)
                (\<lambda>l. l\<lparr>l_connected := True, l_attachment_id := Some att, l_instance_id := Some inst,
                       l_attachment_rev := l_attachment_rev l + 1, l_updated_at := now\<rparr>) d)))"
  unfolding ConnectRunController_def Let_def
  by (elim success_elims; simp; fastforce dest!: authority_frames split: prod.splits)

lemma ConnectRunController_grants:
  assumes inv: "grants_inv d" and run: "ConnectRunController op rid cl g inst att now d = Inr (r, d')"
  shows "grants_inv d'"
proof -
  have "grants_inv (update_leases (active_generation rid g)
                (\<lambda>l. l\<lparr>l_connected := True, l_attachment_id := Some att, l_instance_id := Some inst,
                       l_attachment_rev := l_attachment_rev l + 1, l_updated_at := now\<rparr>) d)" (is "grants_inv ?d1")
    by (rule grants_inv_touch [OF inv]) (auto simp: active_generation_def)
  then show ?thesis
    using ConnectRunController_Inr [OF run] inv by (auto intro: grants_inv_cong [THEN iffD2, of d' ?d1])
qed

lemma DisconnectRunController_Inr:
  "DisconnectRunController op rid cl att g now d = Inr (r, d') \<Longrightarrow>
     classifyRunController rid cl d = Inr g \<and> runs d' = runs d \<and>
     (leases d' = leases d \<or>
       leases d' = leases (update_leases (\<lambda>l. l_run_id l = rid \<and> l_generation l = g)
                (\<lambda>l. l\<lparr>l_connected := False, l_attachment_id := None, l_updated_at := now\<rparr>) d))"
  unfolding DisconnectRunController_def Let_def
  by (elim success_elims; simp; fastforce dest!: authority_frames split: if_splits)

lemma DisconnectRunController_grants:
  assumes inv: "grants_inv d" and run: "DisconnectRunController op rid cl att g now d = Inr (r, d')"
  shows "grants_inv d'"
proof -
  have "grants_inv (update_leases (\<lambda>l. l_run_id l = rid \<and> l_generation l = g)
                (\<lambda>l. l\<lparr>l_connected := False, l_attachment_id := None, l_updated_at := now\<rparr>) d)" (is "grants_inv ?d1")
    by (rule grants_inv_touch [OF inv]) auto
  then show ?thesis
    using DisconnectRunController_Inr [OF run] inv
    by (auto intro: grants_inv_cong [THEN iffD2, of d' ?d1] grants_inv_cong [THEN iffD2, of d' d])
qed

lemma store_exec_grants:
  assumes "grants_inv d" "store_exec c now d = Inr (r, d')"
  shows "grants_inv d'"
proof (cases "moves_authority c")
  case True
  then show ?thesis
    using assms by (cases c) (auto simp: as_result_Inr intro: CreateRun_grants AdoptController_grants
        HandoffController_grants RevokeController_grants ConnectRunController_grants DisconnectRunController_grants)
next
  case False
  then show ?thesis using authority_frame [OF assms(2)] assms(1) by (simp add: grants_inv_def)
qed

lemma grants_inv_empty: "grants_inv empty_db"
  by (simp add: grants_inv_def empty_db_def)

lemma store_run_grants: "grants_inv d \<Longrightarrow> grants_inv (store_run cs d)"
  by (rule store_run_invariant [where I = grants_inv]) (auto intro: store_exec_grants)

end
