(* ===== verification/Store_Fencing.thy ===== *)
theory Store_Fencing
  imports Store_Grants Store_Scenario
begin

text \<open>
  Controller authority over whole runs of the store: which credential is current, what adoption,
  handoff and revocation do to the credentials before them, and which commands they stop.
\<close>

section \<open>The history of grants\<close>

definition retired :: "string \<Rightarrow> nat \<Rightarrow> DB \<Rightarrow> bool" where
  "retired rid g d \<longleftrightarrow> (\<exists>l \<in> set (leases d). l_run_id l = rid \<and> l_generation l = g \<and>
     l_status l \<in> {''superseded'', ''revoked''})"

lemma retired_update:
  assumes "retired rid g d" "\<And>l. l_run_id (f l) = l_run_id l" "\<And>l. l_generation (f l) = l_generation l"
    "\<And>l. p l \<Longrightarrow> l_status l \<in> {''superseded'', ''revoked''} \<Longrightarrow> l_status (f l) \<in> {''superseded'', ''revoked''}"
  shows "retired rid g (update_leases p f d)"
proof -
  obtain l where l: "l \<in> set (leases d)" "l_run_id l = rid" "l_generation l = g"
    "l_status l \<in> {''superseded'', ''revoked''}" using assms(1) unfolding retired_def by blast
  then have "(if p l then f l else l) \<in> set (leases (update_leases p f d))"
    by (auto simp: update_leases_def set_upd)
  moreover have "l_status (if p l then f l else l) \<in> {''superseded'', ''revoked''}"
    using l(4) assms(4) by auto
  ultimately show ?thesis
    unfolding retired_def using l(2,3) assms(2,3) by (intro bexI [of _ "if p l then f l else l"]) auto
qed

lemma retired_cong: "leases d' = leases d \<Longrightarrow> retired rid g d' \<longleftrightarrow> retired rid g d"
  by (simp add: retired_def)

lemma retired_same: "retired rid g d \<Longrightarrow> leases d' = leases d \<Longrightarrow> retired rid g d'"
  by (simp add: retired_def)

lemma retired_append: "retired rid g d \<Longrightarrow> leases d' = leases d @ ls \<Longrightarrow> retired rid g d'"
  by (auto simp: retired_def)

lemma installGrant_retired:
  assumes "retired rid g d" "installGrant op x h c n cmd fp kind mode now d = Inr (gr, d')"
  shows "retired rid g d'"
proof -
  let ?f = "\<lambda>l. l\<lparr>l_status := ''superseded'', l_updated_at := now\<rparr>"
  let ?d = "d\<lparr>leases := leases d @ [granted_row op x h c n now d]\<rparr>"
  have "retired rid g (update_leases (legacy_lease x) ?f ?d)"
    by (rule retired_update [OF retired_append [OF assms(1)]]) auto
  moreover have "leases d' = leases (update_leases (legacy_lease x) ?f ?d)"
    using installGrant_effect [OF assms(2)] by (simp add: update_leases_def)
  ultimately show ?thesis using retired_cong by blast
qed

lemma CreateRun_leases:
  "CreateRun op rid bd sd pd lease now d = Inr (r, d') \<Longrightarrow> \<exists>ls. leases d' = leases d @ ls"
  unfolding CreateRun_def Let_def
  by (elim success_elims; simp)
    (auto simp: insert_run_def insert_lease_def dest!: authority_frames split: if_splits)

lemma handoff_retired: "retired rid g d \<Longrightarrow> retired rid g (handoff_retire x now d)"
  unfolding handoff_retire_def by (rule retired_update) auto

lemma AdoptController_retired:
  assumes "retired rid g d" "AdoptController op x h c b rv n now d = Inr (gr, d')"
  shows "retired rid g d'"
  using AdoptController_Inr [OF assms(2)] installGrant_retired [OF assms(1)] assms(1) by blast

lemma HandoffController_retired:
  assumes "retired rid g d" "HandoffController op x cl eg h c n now d = Inr (gr, d')"
  shows "retired rid g d'"
proof -
  have "retired rid g (projectSessionConnection x ''disconnected'' now (handoff_retire x now d))"
    by (rule retired_same [OF handoff_retired [OF assms(1)]]) simp
  note this [THEN installGrant_retired]
  then show ?thesis using HandoffController_Inr [OF assms(2)] assms(1) by blast
qed

lemma RevokeController_retired:
  assumes "retired rid g d" "RevokeController op x cl rv now d = Inr (r, d')"
  shows "retired rid g d'"
proof (cases "d' = d")
  case False
  then obtain tg where "leases d' = leases (revoke_effect x tg now d)"
    using RevokeController_Inr [OF assms(2)] by blast
  moreover have "retired rid g (update_leases (\<lambda>l. l_run_id l = x \<and> l_generation l = tg)
     (\<lambda>l. l\<lparr>l_status := ''revoked'', l_connected := False, l_attachment_id := None, l_updated_at := now\<rparr>) d)"
    by (rule retired_update [OF assms(1)]) auto
  ultimately show ?thesis
    by (intro retired_same [of rid g _ d']) (auto simp: revoke_effect_tables update_leases_def)
qed (use assms(1) in simp)

lemma attachment_retired:
  assumes "retired rid g d"
  shows "ConnectRunController op x cl eg inst att now d = Inr (cr, d') \<Longrightarrow> retired rid g d'"
    "DisconnectRunController op x cl att eg now d = Inr (r, d') \<Longrightarrow> retired rid g d'"
proof -
  have touch: "retired rid g (update_leases p f d)"
    if "\<And>l. l_run_id (f l) = l_run_id l" "\<And>l. l_generation (f l) = l_generation l" "\<And>l. l_status (f l) = l_status l" for p f
    by (rule retired_update [OF assms]) (use that in auto)
  show "retired rid g d'" if c: "ConnectRunController op x cl eg inst att now d = Inr (cr, d')"
  proof (cases "d' = d")
    case False
    then have "leases d' = leases (update_leases (active_generation x eg)
                (\<lambda>l. l\<lparr>l_connected := True, l_attachment_id := Some att, l_instance_id := Some inst,
                       l_attachment_rev := l_attachment_rev l + 1, l_updated_at := now\<rparr>) d)"
      using ConnectRunController_Inr [OF c] by blast
    then show ?thesis by (rule retired_same [rotated]) (rule touch, simp_all)
  qed (use assms in simp)
  show "retired rid g d'" if c: "DisconnectRunController op x cl att eg now d = Inr (r, d')"
  proof (cases "leases d' = leases d")
    case True
    then show ?thesis by (rule retired_same [OF assms])
  next
    case False
    then have "leases d' = leases (update_leases (\<lambda>l. l_run_id l = x \<and> l_generation l = eg)
                (\<lambda>l. l\<lparr>l_connected := False, l_attachment_id := None, l_updated_at := now\<rparr>) d)"
      using DisconnectRunController_Inr [OF c] by blast
    then show ?thesis by (rule retired_same [rotated]) (rule touch, simp_all)
  qed
qed

lemma store_exec_retired:
  assumes "retired rid g d" "store_exec c now d = Inr (r, d')"
  shows "retired rid g d'"
proof (cases "moves_authority c")
  case True
  then show ?thesis
    using assms by (cases c) (auto simp: as_result_Inr intro: retired_append AdoptController_retired
        HandoffController_retired RevokeController_retired attachment_retired dest!: CreateRun_leases)
next
  case False
  then show ?thesis using authority_frame [OF assms(2)] assms(1) by (simp add: retired_def)
qed

lemma store_run_retired: "retired rid g d \<Longrightarrow> retired rid g (store_run cs d)"
  by (rule store_run_invariant [where I = "retired rid g"]) (auto intro: store_exec_retired)

lemma reachable_grants: "grants_inv (store_run cs empty_db)"
  using store_run_grants [OF grants_inv_empty] .

lemma classify_retired:
  assumes "run_row rid d = Some r" "r_lifecycle r \<noteq> ''archived''" "\<not> blank cl"
    "l \<in> set (leases d)" "retired_lease rid cl l"
    "\<And>a. active_lease rid d = Some a \<Longrightarrow> l_lease a \<noteq> cl"
  shows "classifyCredential rid cl req d = Inl ErrLeaseSuperseded"
proof -
  have "r_run_id r = rid" using assms(1) by (auto simp: run_row_def dest: sel_SomeD)
  then have "sel (retired_lease (r_run_id r) cl) (leases d) \<noteq> None" using assms(4,5) by (auto simp: sel_None_iff)
  then have "classify_inactive r cl req d = Inl ErrLeaseSuperseded" by (simp add: classify_inactive_def)
  then show ?thesis using assms by (auto simp: classifyCredential_def split: option.splits)
qed

text \<open>What a grant installed over a vacant run amounts to.\<close>

lemma installed_grant:
  assumes vac: "vacant rid d" and n: "\<not> blank n" and r: "run_row rid d = Some r" "r_lifecycle r \<noteq> ''archived''"
    and run: "installGrant op rid h c n cmd fp kind mode now d = Inr (g, d')"
  shows "active_lease rid d' = Some (granted_row op rid h c n now d)"
    "classifyCredential rid n True d' = Inr (cg_Generation g)"
    "\<exists>r'. run_row rid d' = Some r' \<and> r_lifecycle r' \<noteq> ''archived''"
    "requireRunConnected rid d' = Some ErrControllerDisconnected"
proof -
  let ?L = "granted_row op rid h c n now d"
  have inv: "grants_inv d'" by (rule installGrant_grants [OF vac n run])
  have L: "l_run_id ?L = rid" "l_status ?L = ''active''" "l_lease ?L = n" "\<not> l_connected ?L"
    "l_generation ?L = next_generation rid d"
    by (simp_all add: granted_row_def)
  note eff = installGrant_effect [OF run]
  have "\<not> legacy_lease rid ?L" using L(2) by (simp add: legacy_lease_def)
  then have "?L \<in> set (leases d')" using eff by simp
  then show act: "active_lease rid d' = Some ?L"
    using active_lease_iff [OF inv] L(1,2) by (auto simp: is_active_lease_def)
  have "r \<in> set (runs d)" "r_run_id r = rid" using r(1) by (auto simp: run_row_def dest: sel_SomeD)
  then have "r\<lparr>r_controller_lease := n, r_adopted := True, r_updated_at := now\<rparr> \<in> set (runs d')" (is "?r \<in> _")
    using eff by (auto simp: set_upd image_iff)
  then have row: "run_row rid d' = Some ?r" using run_row_iff [OF inv] \<open>r_run_id r = rid\<close> by simp
  then show "\<exists>r'. run_row rid d' = Some r' \<and> r_lifecycle r' \<noteq> ''archived''" using r(2) by simp
  show "classifyCredential rid n True d' = Inr (cg_Generation g)"
    using classify_controller_iff [OF inv] row r(2) act L(3,5) eff by auto
  show "requireRunConnected rid d' = Some ErrControllerDisconnected"
    using act L(4) by (simp add: requireRunConnected_def)
qed

section \<open>Properties\<close>

text \<open>C8 The controller credential of a run, after any commands on an empty database: a lease is
  accepted exactly when the run exists unarchived and its one active grant, of the accepted
  generation, carries that lease. A string alone authorizes nothing.\<close>

theorem authority_is_the_one_active_grant:
  "classifyCredential rid lease True (store_run cs empty_db) = Inr g \<longleftrightarrow>
     (\<exists>r l. run_row rid (store_run cs empty_db) = Some r \<and> r_lifecycle r \<noteq> ''archived'' \<and>
        {m \<in> set (leases (store_run cs empty_db)). is_active_lease rid m} = {l} \<and>
        l_lease l = lease \<and> l_generation l = g)"
proof -
  let ?d = "store_run cs empty_db"
  have "active_lease rid ?d = Some l \<longleftrightarrow> {m \<in> set (leases ?d). is_active_lease rid m} = {l}" for l
    using active_lease_iff [OF reachable_grants, of rid cs l] active_unique [OF reachable_grants, of l cs _ rid] by auto
  then show ?thesis using classify_controller_iff [OF reachable_grants] by simp
qed

text \<open>C9 A handoff that takes effect fences the old controller at once: its lease is answered
  superseded, the new lease holds the run under a higher generation, and until the new
  controller connects no decision is accepted.\<close>

theorem handoff_fences_the_predecessor:
  assumes "HandoffController op rid old eg h c new now (store_run cs empty_db) = Inr (g, d')"
    "journal_row op (store_run cs empty_db) = None" "new \<noteq> old"
  shows "classifyCredential rid old True d' = Inl ErrLeaseSuperseded \<and>
    classifyCredential rid new True d' = Inr (cg_Generation g) \<and> eg < cg_Generation g \<and>
    requireRunConnected rid d' = Some ErrControllerDisconnected"
proof -
  let ?d = "store_run cs empty_db"
  let ?d1 = "projectSessionConnection rid ''disconnected'' now (handoff_retire rid now ?d)"
  have h: "\<not> blank new" "classifyCredential rid old True ?d = Inr eg"
    "installGrant op rid h c new ''handoff_controller'' (handoff_fingerprint rid h c eg)
        ''controller_handed_off'' ''controller'' now ?d1 = Inr (g, d')"
    using HandoffController_Inr [OF assms(1)] assms(2) by (auto simp: classifyRunController_def)
  obtain r l where rl: "run_row rid ?d = Some r" "r_lifecycle r \<noteq> ''archived''"
    "active_lease rid ?d = Some l" "l_lease l = old" "l_generation l = eg"
    using h(2) classify_controller_iff [OF reachable_grants] by blast
  have l: "l \<in> set (leases ?d)" "is_active_lease rid l" using rl(3) active_lease_iff [OF reachable_grants] by auto
  have row: "run_row rid ?d1 = Some r" using rl(1) by (simp add: run_row_def handoff_retire_def)
  note new = installed_grant [OF handoff_vacant [OF reachable_grants] h(1) row rl(2) h(3)]
  let ?l = "l\<lparr>l_status := ''superseded'', l_connected := False, l_attachment_id := None, l_updated_at := now\<rparr>"
  have l1: "?l \<in> set (leases ?d1)"
    using l by (force simp: handoff_retire_def update_leases_def set_upd image_iff)
  have "?l \<in> set (leases d')"
    using installGrant_effect [OF h(3)] l1 by (auto simp: set_upd image_iff legacy_lease_def intro!: bexI [of _ ?l])
  moreover have "retired_lease rid old ?l" using l(2) rl(4) by (simp add: retired_lease_def is_active_lease_def)
  moreover obtain r' where "run_row rid d' = Some r'" "r_lifecycle r' \<noteq> ''archived''" using new(3) by blast
  moreover have "\<not> blank old" using h(2) by (auto simp: classifyCredential_def)
  moreover have "l_lease a \<noteq> old" if "active_lease rid d' = Some a" for a
    using that new(1) assms(3) by (auto simp: granted_row_def)
  ultimately have "classifyCredential rid old True d' = Inl ErrLeaseSuperseded" by (blast intro: classify_retired)
  moreover have "eg < next_generation rid ?d1"
    using next_generation_fresh [OF l1] l(2) rl(5) by (simp add: is_active_lease_def)
  ultimately show ?thesis using new(2,4) installGrant_effect [OF h(3)] by simp
qed

text \<open>C10 A generation that was superseded or revoked never authorizes anyone again, whatever runs
  afterwards.\<close>

theorem retired_generation_never_returns:
  assumes "l \<in> set (leases (store_run cs empty_db))" "l_status l \<in> {''superseded'', ''revoked''}"
  shows "classifyCredential (l_run_id l) lease True (store_run (cs @ later) empty_db) \<noteq> Inr (l_generation l)"
proof
  let ?d = "store_run (cs @ later) empty_db"
  assume "classifyCredential (l_run_id l) lease True ?d = Inr (l_generation l)"
  then obtain m where m: "active_lease (l_run_id l) ?d = Some m" "l_generation m = l_generation l"
    using classify_controller_iff [OF reachable_grants, of "l_run_id l" lease "cs @ later"] by blast
  then have act: "m \<in> set (leases ?d)" "is_active_lease (l_run_id l) m"
    using active_lease_iff [OF reachable_grants] by auto
  have "retired (l_run_id l) (l_generation l) (store_run cs empty_db)" using assms by (auto simp: retired_def)
  then have "retired (l_run_id l) (l_generation l) ?d" by (simp add: store_run_append store_run_retired)
  then obtain x where x: "x \<in> set (leases ?d)" "l_run_id x = l_run_id l" "l_generation x = l_generation l"
    "l_status x \<in> {''superseded'', ''revoked''}" unfolding retired_def by blast
  then have "x = m"
    using lease_key_unique [OF reachable_grants x(1) act(1)] act(2) m(2) by (simp add: is_active_lease_def)
  then show False using x(4) act(2) by (simp add: is_active_lease_def)
qed

lemma revoked_no_active:
  assumes inv: "grants_inv d" and run: "RevokeController op rid cl rv now d = Inr (r, d')"
    and fresh: "journal_row op d = None"
  shows "active_lease rid d' = None"
proof -
  obtain tg fpt am where t: "revoke_target rid cl rv d = Inr (tg, fpt, am)" "revoke_recovery_check rid rv d = None"
    "leases d' = leases (revoke_effect rid tg now d)"
    using RevokeController_Inr [OF run] fresh by blast
  have "\<not> is_active_lease rid l" if "l \<in> set (leases d')" for l
  proof -
    from that obtain l0 where l0: "l0 \<in> set (leases d)"
      "l = (if l_run_id l0 = rid \<and> l_generation l0 = tg
            then l0\<lparr>l_status := ''revoked'', l_connected := False, l_attachment_id := None, l_updated_at := now\<rparr>
            else l0)"
      unfolding t(3) revoke_effect_tables by (rule in_updE)
    then show ?thesis using revoke_target_active [OF inv t(1,2) l0(1)] by (auto simp: is_active_lease_def)
  qed
  then show ?thesis by (simp add: active_lease_def sel_None_iff)
qed


text \<open>The decisions of a controller: the run and the lease each is made under.\<close>

fun decision_of :: "store_op \<Rightarrow> DB \<Rightarrow> (string \<times> string) option" where
  "decision_of (CmdQueue op l sid v p) d = Some (runIDOfSession sid d, l)"
| "decision_of (CmdReplace op l sid v p) d = Some (runIDOfSession sid d, l)"
| "decision_of (CmdDiscard op l sid v k) d = Some (runIDOfSession sid d, l)"
| "decision_of (CmdRelease op l sid v k) d = Some (runIDOfSession sid d, l)"
| "decision_of (CmdCancel op l sid v k) d = Some (runIDOfSession sid d, l)"
| "decision_of (CmdDecision op l rid a n p) d = Some (rid, l)"
| "decision_of c d = None"

lemma authorizeSession_run:
  "authorizeSessionController sid l True d = Inr g \<Longrightarrow> classifyCredential (runIDOfSession sid d) l True d = Inr g"
  by (auto simp: authorizeSessionController_def runIDOfSession_def split: option.splits)

lemma decision_gate:
  assumes "decision_of c d = Some (rid, l)" "store_exec c now d = Inr (r, d')"
  shows "(\<exists>g. classifyCredential rid l True d = Inr g) \<and> (d' = d \<or> requireRunConnected rid d = None)"
  using assms
  by (cases c; simp add: as_result_Inr; elim exE conjE;
      unfold QueuePrompt_def ReplacePendingPrompt_def DiscardPendingPrompt_def ReleaseTurn_def
        StoreRequestCancel_def RecordDecision_def Let_def;
      elim success_elims; force dest: authorizeSession_run)

text \<open>C12 Queueing, replacing, discarding and releasing a prompt, cancelling a turn and recording a
  decision succeed only under the lease of the run's active grant, and change something only
  while that grant is connected.\<close>

theorem decisions_need_a_connected_controller:
  assumes "decision_of c (store_run cs empty_db) = Some (rid, lease)"
    "store_exec c now (store_run cs empty_db) = Inr (r, d')"
  shows "\<exists>l. active_lease rid (store_run cs empty_db) = Some l \<and> l_lease l = lease \<and>
    (d' \<noteq> store_run cs empty_db \<longrightarrow> l_connected l)"
  using decision_gate [OF assms] classify_controller_iff [OF reachable_grants, of rid lease cs]
  by (auto simp: requireRunConnected_def split: if_splits)

section \<open>On the example run\<close>

lemma handoff_fences_the_predecessor_witness:
  "\<exists>g d'. HandoffController ''o7'' ''r'' ''k'' 1 ''codex'' ''c2'' ''k2'' 7 (store_run demo_running empty_db) = Inr (g, d') \<and>
     classifyCredential ''r'' ''k'' True d' = Inl ErrLeaseSuperseded"
proof -
  have "\<exists>y. HandoffController ''o7'' ''r'' ''k'' 1 ''codex'' ''c2'' ''k2'' 7 demo_db2 = Inr y"
    by (simp add: HandoffController_def store_eval demo_db2_eval)
  moreover have "journal_row ''o7'' demo_db2 = None" by (simp add: store_eval demo_db2_eval)
  ultimately show ?thesis
    using handoff_fences_the_predecessor [of "''o7''" "''r''" "''k''" 1 "''codex''" "''c2''" "''k2''" 7 demo_running]
    by (auto simp: demo_running_db)
qed

lemma retired_generation_never_returns_witness:
  "classifyCredential ''r'' ''b'' True (store_run (demo_running @ [(CmdConnect ''o9'' ''r'' ''k'' 1 ''i'' ''a2'', 9)]) empty_db) \<noteq> Inr 0"
proof -
  have "\<exists>l \<in> set (leases (store_run demo_running empty_db)).
      l_status l = ''superseded'' \<and> l_run_id l = ''r'' \<and> l_generation l = 0"
    unfolding demo_running_db by (simp add: demo_db2_eval)
  then obtain l where "l \<in> set (leases (store_run demo_running empty_db))" "l_status l = ''superseded''"
    "l_run_id l = ''r''" "l_generation l = 0" by blast
  then show ?thesis
    using retired_generation_never_returns [of l demo_running "''b''" "[(CmdConnect ''o9'' ''r'' ''k'' 1 ''i'' ''a2'', 9)]"]
    by simp
qed


lemma decisions_need_a_connected_controller_witness:
  "\<exists>l. active_lease ''r'' (store_run demo_queued empty_db) = Some l \<and> l_lease l = ''k'' \<and> l_connected l"
proof -
  have gate: "decision_of demo_release (store_run demo_queued empty_db) = Some (''r'', ''k'')"
    unfolding demo_queued_db by (simp add: demo_release_def store_eval demo_db_eval)
  have "turns demo_db2 \<noteq> turns demo_db" by (simp add: demo_db2_eval)
  then have "demo_db2 \<noteq> demo_db" by auto
  then show ?thesis
    using decisions_need_a_connected_controller [OF gate, of 6] demo_released by (auto simp: demo_queued_db)
qed


end
