(* ===== verification/Store_Guarantees.thy ===== *)
theory Store_Guarantees
  imports Store_Integrity Store_Fencing
begin

text \<open>
  What the store guarantees of executions over whole runs of commands: the refinement of the
  execution machine, one live turn per session, final outcomes, release as the only start of a
  turn, outcomes under the exact attempt, and recovery episodes that close for good. A run is
  proper when the sessions it creates are parked on a reachable host, as the service creates them.
\<close>

definition proper_run :: "(store_op \<times> time) list \<Rightarrow> bool" where
  "proper_run cs \<longleftrightarrow> list_all (\<lambda>c. proper_op (fst c)) cs"

lemma proper_run_simps [simp]:
  "proper_run []" "proper_run (c # cs) \<longleftrightarrow> proper_op (fst c) \<and> proper_run cs"
  "proper_run (as @ bs) \<longleftrightarrow> proper_run as \<and> proper_run bs"
  by (simp_all add: proper_run_def)

lemma proper_run_invariant:
  assumes "proper_run cs" "I (exec_of d)" "\<And>e e'. exec_step e e' \<Longrightarrow> I e \<Longrightarrow> I e'"
  shows "I (exec_of (store_run cs d))"
  using assms(1,2)
proof (induction cs arbitrary: d)
  case (Cons c cs)
  obtain cmd now where c: "c = (cmd, now)" by (cases c)
  have "I (exec_of (store_step c d))"
    unfolding c using Cons.prems store_exec_steps [of cmd now d] assms(3)
    by (cases rule: store_step_cases [of cmd now d]) (auto simp: c steps_to_def)
  then show ?case using Cons by simp
qed simp

lemma exec_inv_empty: "exec_inv (exec_of empty_db)"
  by (rule exec_invI) (simp_all add: exec_of_def row_defs empty_db_def)

lemma reachable_exec_inv: "proper_run cs \<Longrightarrow> exec_inv (exec_of (store_run cs empty_db))"
  by (rule proper_run_invariant [where I = exec_inv]) (auto intro: exec_step_inv exec_inv_empty)

lemma reachable_tables: "tables_ok (store_run cs empty_db)"
  by (rule tables.store_run_all [OF tables_ok_empty])

lemma demo_proper [simp]: "proper_run demo_running"
  by (simp add: demo_running_def demo_queued_def demo_adopted_def demo_release_def demo_session_def proper_session_def)

text \<open>C15 The store refines the execution machine: any proper run of commands, failing ones
  included, is a sequence of machine steps between the abstractions of its databases.\<close>

theorem store_refines_the_machine:
  assumes "proper_run cs"
  shows "exec_step\<^sup>*\<^sup>* (exec_of d) (exec_of (store_run cs d))"
  using assms
  by (rule proper_run_invariant) (auto intro: rtranclp.rtrancl_into_rtrancl)

lemma store_refines_the_machine_witness:
  "exec_step\<^sup>*\<^sup>* (exec_of empty_db) (exec_of demo_db2)"
  using store_refines_the_machine [of demo_running empty_db]
  unfolding demo_running_db
  by (simp add: demo_running_def demo_queued_def demo_adopted_def demo_release_def demo_session_def proper_session_def)

section \<open>Rows of a consistent database\<close>

lemma session_row_iff:
  "tables_ok d \<Longrightarrow> session_row sid d = Some s \<longleftrightarrow> s \<in> set (sessions d) \<and> s_session_id s = sid"
  unfolding session_row_def tables_defs
  using sel_key_unique [of s_session_id "sessions d" s]
    sel_SomeD [of "\<lambda>s. s_session_id s = sid" "sessions d" s] by auto

lemma turn_row_iff:
  assumes "tables_ok d"
  shows "turn_row sid k d = Some t \<longleftrightarrow> t \<in> set (turns d) \<and> turn_key t = (sid, k)"
proof
  assume "turn_row sid k d = Some t"
  then show "t \<in> set (turns d) \<and> turn_key t = (sid, k)"
    by (auto simp: turn_row_def is_turn_def turn_key_def dest: sel_SomeD)
next
  assume t: "t \<in> set (turns d) \<and> turn_key t = (sid, k)"
  moreover have "is_turn sid k = (\<lambda>x. turn_key x = turn_key t)"
    using t by (auto simp: is_turn_def turn_key_def fun_eq_iff)
  moreover have "distinct (map turn_key (turns d))" using assms by (simp add: tables_defs)
  ultimately show "turn_row sid k d = Some t"
    unfolding turn_row_def using sel_key_unique [of turn_key "turns d" t] by simp
qed

lemma turn_exec:
  "tables_ok d \<Longrightarrow> t \<in> set (turns d) \<Longrightarrow> xt (exec_of d) (turn_key t) = Some (turn_view t)"
  using turn_row_iff [of d "t_session_id t" "t_turn_key t" t] by (simp add: turn_key_def exec_of_sel)

lemma session_exec:
  "tables_ok d \<Longrightarrow> s \<in> set (sessions d) \<Longrightarrow> xs (exec_of d) (s_session_id s) = Some (session_view s)"
  using session_row_iff [of d "s_session_id s" s] by (simp add: exec_of_sel)

lemma exec_turn_row:
  assumes "tables_ok d" "xt (exec_of d) key = Some y"
  obtains t where "t \<in> set (turns d)" "turn_key t = key" "turn_view t = y"
proof -
  obtain sid k where key: "key = (sid, k)" by (cases key)
  with assms(2) obtain t where "turn_row sid k d = Some t" "turn_view t = y" by (auto simp: exec_of_sel)
  then show ?thesis using that turn_row_iff [OF assms(1)] key by blast
qed

lemma view_simps [simp]:
  "y_status (turn_view t) = t_status t" "y_prompt (turn_view t) = t_prompt t"
  "y_result (turn_view t) = t_result t" "y_attempt (turn_view t) = t_attempt_id t"
  "x_state (session_view s) = s_state s" "x_active (session_view s) = s_active_key s"
  "x_lifecycle (session_view s) = s_lifecycle s" "x_visibility (session_view s) = s_visibility s"
  "x_context (session_view s) = s_recovery_context s" "x_gen (session_view s) = s_recovery_gen s"
  "x_active_gen (session_view s) = s_active_recovery_gen s"
  by (simp_all add: turn_view_def session_view_def)

text \<open>C16 One live turn per session: after any proper run, the live (running or cancelling) turns of
  a session are exactly its active key's, so there is at most one, and there is one exactly when
  the session's state is running.\<close>

theorem one_live_turn_per_session:
  assumes "proper_run cs" "s \<in> set (sessions (store_run cs empty_db))"
  shows "(\<forall>t \<in> set (turns (store_run cs empty_db)).
       t_session_id t = s_session_id s \<and> live_status (t_status t) \<longrightarrow> s_active_key s = Some (t_turn_key t)) \<and>
     (s_state s = ''running'' \<longleftrightarrow>
       (\<exists>t \<in> set (turns (store_run cs empty_db)). t_session_id t = s_session_id s \<and> live_status (t_status t)))"
proof -
  let ?d = "store_run cs empty_db"
  note ok = reachable_tables [of cs] and inv = reachable_exec_inv [OF assms(1)]
  note s = session_exec [OF ok assms(2)]
  have active: "s_active_key s = Some (t_turn_key t)"
    if t: "t \<in> set (turns ?d)" "t_session_id t = s_session_id s" "live_status (t_status t)" for t
  proof -
    have "turn_ok (exec_of ?d) (s_session_id s) (t_turn_key t) (turn_view t)"
      using exec_invD(2) [OF inv] turn_exec [OF ok t(1)] t(2) by (simp add: turn_key_def)
    then show ?thesis using s t(3) by (auto simp: turn_ok_def)
  qed
  have "session_ok (exec_of ?d) (s_session_id s) (session_view s)" by (rule exec_invD(1) [OF inv s])
  then have shape: "s_state s = ''running'' \<longleftrightarrow> s_active_key s \<noteq> None"
    and live: "\<And>k. s_active_key s = Some k \<Longrightarrow> active_ok (exec_of ?d) (s_session_id s) k"
    by (auto simp: session_ok_def shape_ok_def)
  have "\<exists>t \<in> set (turns ?d). t_session_id t = s_session_id s \<and> live_status (t_status t)"
    if run: "s_active_key s = Some k" for k
  proof -
    obtain y where "xt (exec_of ?d) (s_session_id s, k) = Some y" "live_status (y_status y)"
      using live [OF run] by (auto simp: active_ok_def)
    then show ?thesis using exec_turn_row [OF ok] by (metis turn_key_def fst_conv view_simps(1))
  qed
  then show ?thesis using active shape by blast
qed

lemma one_live_turn_per_session_witness:
  "\<exists>s \<in> set (sessions demo_db2). s_state s = ''running'' \<and>
     (\<exists>t \<in> set (turns demo_db2). t_session_id t = s_session_id s \<and> live_status (t_status t))"
proof -
  have run: "proper_run demo_running" by simp
  have "demo_run \<in> set (sessions (store_run demo_running empty_db))"
    unfolding demo_running_db by (simp add: demo_db2_def)
  then show ?thesis
    using one_live_turn_per_session [OF run, of demo_run] unfolding demo_running_db
    by (auto simp: demo_db2_def demo_run_def)
qed

section \<open>Final outcomes\<close>

definition demo_ref :: ExecutionRef where
  "demo_ref = \<lparr>er_SessionID = ''s'', er_TurnKey = ''t'', er_AttemptID = ''att_3_t''\<rparr>"

lemma exec_turn_final:
  assumes "exec_step e e'" "exec_inv e" "xt e (x, l) = Some t" "isTerminal (y_status t)"
  shows "xt e' (x, l) = Some t"
  using assms
proof (induction rule: exec_step.induct)
  case (resolve e sid s k st raw)
  then have "active_ok e sid k" using exec_invD(1) session_okD(3) by blast
  then have "(x, l) \<noteq> (sid, k)" using resolve.prems terminal_not_live by (auto simp: active_ok_def)
  then show ?case using resolve by (auto simp: end_exec_turn_def)
next
  case (cancel e sid s k t')
  then have "(x, l) \<noteq> (sid, k)" by (auto simp: isTerminal_def)
  then show ?case using cancel by auto
qed (auto simp: end_exec_turn_def)

text \<open>C17 A recorded outcome is final: a turn that is completed, cancelled, failed or interrupted
  keeps its status, result, prompt and attempt whatever commands follow.\<close>

theorem recorded_outcome_is_final:
  assumes "proper_run cs" "proper_run rest" "t \<in> set (turns (store_run cs empty_db))" "isTerminal (t_status t)"
  shows "\<exists>t' \<in> set (turns (store_run (cs @ rest) empty_db)). turn_key t' = turn_key t \<and>
     t_status t' = t_status t \<and> t_result t' = t_result t \<and> t_prompt t' = t_prompt t \<and>
     t_attempt_id t' = t_attempt_id t"
proof -
  let ?d = "store_run cs empty_db"
  let ?I = "\<lambda>e. exec_inv e \<and> xt e (turn_key t) = Some (turn_view t)"
  have "?I (exec_of (store_run rest ?d))"
  proof (rule proper_run_invariant [OF assms(2)])
    show "?I (exec_of ?d)"
      using reachable_exec_inv [OF assms(1)] turn_exec [OF reachable_tables assms(3)] by simp
    show "?I e'" if "exec_step e e'" "?I e" for e e'
      using that exec_step_inv exec_turn_final assms(4) by (cases "turn_key t") auto
  qed
  then have "xt (exec_of (store_run (cs @ rest) empty_db)) (turn_key t) = Some (turn_view t)"
    by (simp add: store_run_append)
  then obtain t' where "t' \<in> set (turns (store_run (cs @ rest) empty_db))" "turn_key t' = turn_key t"
    "turn_view t' = turn_view t" using exec_turn_row [OF reachable_tables] by blast
  then show ?thesis by (auto simp: turn_view_def)
qed

lemma recorded_outcome_is_final_witness:
  "\<exists>t \<in> set (turns (store_run (demo_running @ [(CmdOutcome ''o7'' demo_ref TurnCompleted ''ok'', 7),
      (CmdOutcome ''o8'' demo_ref TurnFailed ''no'', 8)]) empty_db)). t_status t = ''completed'' \<and> t_result t = ''ok''"
proof -
  let ?cs = "demo_running @ [(CmdOutcome ''o7'' demo_ref TurnCompleted ''ok'', 7)]"
  have "\<exists>t \<in> set (turns (store_run ?cs empty_db)). t_status t = ''completed'' \<and> t_result t = ''ok''"
    unfolding store_run_append demo_running_db
    by (simp add: RecordObservedExecutionOutcome_def resolveExecutionRef_def ExecutionRef_validate_def demo_ref_def
        terminal_text_def isTerminal_def outcome_matches_def end_turn_def update_turn_def update_intent_def
        store_eval demo_db2_eval)
  then obtain t where "t \<in> set (turns (store_run ?cs empty_db))" "t_status t = ''completed''" "t_result t = ''ok''"
    by blast
  then show ?thesis
    using recorded_outcome_is_final [of ?cs "[(CmdOutcome ''o8'' demo_ref TurnFailed ''no'', 8)]" t]
    by (auto simp: isTerminal_def)
qed

section \<open>Starting a turn\<close>

lemma release_inserts:
  assumes "release_effect sid k p s g now d = Inr d1"
  shows "\<exists>t. turns d1 = turns d @ [t] \<and> turn_key t = (sid, k) \<and> t_prompt t = SanitizeText (p_prompt p) \<and>
    t_status t = ''running'' \<and> t_attempt_id t = attempt_id (s_row_version s + 1) k"
  using assms unfolding release_effect_def Let_def
  by (elim success_elims) (auto simp: insert_turn_def insert_intent_def turn_key_def
      dest!: update_session_Inr split: if_splits)

lemma release_turns:
  assumes "ReleaseTurn op l sid v k now d = Inr (r, d')" "turns d' \<noteq> turns d"
  shows "\<exists>s p t. session_row sid d = Some s \<and> pending_row sid k d = Some p \<and> s_row_version s = v \<and>
    s_state s = ''parked'' \<and> s_visibility s \<noteq> ''host_lost'' \<and> s_lifecycle s \<noteq> ''archived'' \<and>
    requireRunConnected (s_run_id s) d = None \<and>
    turns d' = turns d @ [t] \<and> turn_key t = (sid, k) \<and> t_prompt t = SanitizeText (p_prompt p) \<and>
    t_status t = ''running'' \<and> t_attempt_id t = attempt_id (v + 1) k"
  using assms unfolding ReleaseTurn_def Let_def
  by (elim success_elims; simp)
    (auto simp: runIDOfSession_def dest!: joined_session_row release_preconditions_None release_inserts
      insert_journal_Inr)

lemma turn_key_new:
  assumes "t \<in> set (turns d')" "turn_key t \<notin> turn_key ` set (turns d)" "store_exec c now d = Inr (r, d')"
  obtains op l sid v k rl where "c = CmdRelease op l sid v k" "ReleaseTurn op l sid v k now d = Inr (rl, d')"
    "r = ResRelease rl"
proof -
  have "starts_turn c"
  proof (rule ccontr)
    assume "\<not> starts_turn c"
    then have "map turn_origin (turns d') = map turn_origin (turns d)" using turns_only_by_release assms(3) by blast
    then have "map fst (map turn_origin (turns d')) = map fst (map turn_origin (turns d))" by simp
    then have "map turn_key (turns d') = map turn_key (turns d)" by (simp add: turn_origin_def comp_def)
    then have "turn_key ` set (turns d') = turn_key ` set (turns d)" by (metis list.set_map)
    then show False using assms(1,2) by auto
  qed
  then show ?thesis using assms(3) that by (auto simp: starts_turn_def as_result_Inr)
qed

text \<open>C18 Only an explicit release starts a turn: if any command adds a turn to a reachable database,
  it is the release, for that session and turn key, of a queued prompt under the lease of the
  run's active and connected grant, at the session's current version, on a parked session of a
  reachable host; the turn carries exactly the queued prompt and the attempt of that release.\<close>

theorem only_a_release_starts_a_turn:
  assumes "store_exec c now (store_run cs empty_db) = Inr (r, d')" "t \<in> set (turns d')"
    "turn_key t \<notin> turn_key ` set (turns (store_run cs empty_db))"
  shows "\<exists>op lease s p g. c = CmdRelease op lease (t_session_id t) (s_row_version s) (t_turn_key t) \<and>
     session_row (t_session_id t) (store_run cs empty_db) = Some s \<and>
     s_state s = ''parked'' \<and> s_visibility s \<noteq> ''host_lost'' \<and> s_lifecycle s \<noteq> ''archived'' \<and>
     active_lease (s_run_id s) (store_run cs empty_db) = Some g \<and> l_lease g = lease \<and> l_connected g \<and>
     pending_row (t_session_id t) (t_turn_key t) (store_run cs empty_db) = Some p \<and>
     t_prompt t = SanitizeText (p_prompt p) \<and> t_status t = ''running'' \<and>
     t_attempt_id t = attempt_id (s_row_version s + 1) (t_turn_key t)"
proof -
  let ?d = "store_run cs empty_db"
  obtain op l sid v k rl where c: "c = CmdRelease op l sid v k" and
    rel: "ReleaseTurn op l sid v k now ?d = Inr (rl, d')"
    using turn_key_new [OF assms(2,3,1)] by metis
  have "turns d' \<noteq> turns ?d" using assms(2,3) by auto
  then obtain s p u where s: "session_row sid ?d = Some s" "pending_row sid k ?d = Some p" "s_row_version s = v"
      "s_state s = ''parked''" "s_visibility s \<noteq> ''host_lost''" "s_lifecycle s \<noteq> ''archived''"
      "requireRunConnected (s_run_id s) ?d = None"
    and u: "turns d' = turns ?d @ [u]" "turn_key u = (sid, k)" "t_prompt u = SanitizeText (p_prompt p)"
      "t_status u = ''running''" "t_attempt_id u = attempt_id (v + 1) k"
    using release_turns [OF rel] by metis
  have t: "t = u" using assms(2,3) u(1) by auto
  have "\<exists>g. classifyCredential (s_run_id s) l True ?d = Inr g"
    using decision_gate [of c ?d _ _ now r d'] assms(1) s(1) by (simp add: c runIDOfSession_def)
  then obtain g where g: "active_lease (s_run_id s) ?d = Some g" "l_lease g = l"
    using classify_controller_iff [OF reachable_grants, of "s_run_id s" l cs] by auto
  then have "l_connected g" using s(7) by (auto simp: requireRunConnected_def split: if_splits)
  then show ?thesis using c s u g t by (auto simp: turn_key_def)
qed

lemma only_a_release_starts_a_turn_witness:
  "\<exists>p. pending_row ''s'' ''t'' (store_run demo_queued empty_db) = Some p \<and>
     t_prompt (hd (turns demo_db2)) = SanitizeText (p_prompt p)"
proof -
  have run: "store_exec demo_release 6 (store_run demo_queued empty_db) =
      Inr (ResRelease \<lparr>rl_Receipt = demo_receipt, rl_Disposition = ReleaseDispositionNew\<rparr>, demo_db2)"
    unfolding demo_queued_db by (rule demo_released)
  have none: "turns (store_run demo_queued empty_db) = []"
    unfolding demo_queued_db by (simp add: demo_db_eval)
  obtain t where t: "turns demo_db2 = [t]" "t_session_id t = ''s''" "t_turn_key t = ''t''"
    by (auto simp: demo_db2_def)
  then show ?thesis
    using only_a_release_starts_a_turn [OF run, of t] none by auto
qed

end
