(* ===== verification/Store_Evidence.thy ===== *)
theory Store_Evidence
  imports Store_Guarantees
begin

text \<open>
  What the store guarantees of the text it keeps and of the evidence about executions: nothing
  stored holds a credential, an outcome ends exactly the turn whose attempt it names, a recovery
  episode that was closed never reopens under its generation, and a running turn can always be
  ended by the evidence the store itself holds about it.
\<close>

section \<open>Stored text\<close>

definition text_ok :: "exec \<Rightarrow> bool" where
  "text_ok e \<longleftrightarrow>
     (\<forall>k p. xp e k = Some p \<longrightarrow> \<not> containsDisallowedCredential p) \<and>
     (\<forall>k t. xt e k = Some t \<longrightarrow>
        \<not> containsDisallowedCredential (y_prompt t) \<and> \<not> containsDisallowedCredential (y_result t))"

lemma no_credential_Nil [simp]: "\<not> containsDisallowedCredential []"
  using sanitized_clean [of "[]"] by simp

lemma end_exec_turn_text: "text_ok e \<Longrightarrow> xp e' = xp e \<Longrightarrow> xt e' = xt e \<Longrightarrow>
    text_ok (end_exec_turn k st (SanitizeText raw) e')"
  by (auto simp: text_ok_def end_exec_turn_def sanitized_clean)

lemma exec_step_text: "exec_step e e' \<Longrightarrow> text_ok e \<Longrightarrow> text_ok e'"
proof (induction rule: exec_step.induct)
  case (finish e sid s k t st raw)
  then show ?case by (intro end_exec_turn_text [of e]) simp_all
next
  case (resolve e sid s k st raw)
  then show ?case by (intro end_exec_turn_text [of e]) simp_all
qed (auto simp: text_ok_def sanitized_clean)

lemma pending_exec:
  assumes "tables_ok d" "p \<in> set (pending d)"
  shows "xp (exec_of d) (pending_key p) = Some (p_prompt p)"
proof -
  have "is_pending (p_session_id p) (p_turn_key p) = (\<lambda>x. pending_key x = pending_key p)"
    by (auto simp: is_pending_def pending_key_def fun_eq_iff)
  moreover have "distinct (map pending_key (pending d))" using assms by (simp add: tables_defs)
  ultimately have "pending_row (p_session_id p) (p_turn_key p) d = Some p"
    unfolding pending_row_def using sel_key_unique [of pending_key "pending d" p] assms(2) by simp
  then show ?thesis by (simp add: pending_key_def exec_of_sel)
qed

text \<open>C19 No credential is stored: after any proper run, the queued prompts, the prompts of the turns
  and their results hold none of the five credential formats, whatever the commands carried.\<close>

theorem no_credential_is_stored:
  assumes "proper_run cs"
  shows "(\<forall>p \<in> set (pending (store_run cs empty_db)). \<not> containsDisallowedCredential (p_prompt p)) \<and>
    (\<forall>t \<in> set (turns (store_run cs empty_db)).
       \<not> containsDisallowedCredential (t_prompt t) \<and> \<not> containsDisallowedCredential (t_result t))"
proof -
  have "text_ok (exec_of (store_run cs empty_db))"
  proof (rule proper_run_invariant [OF assms, where I = text_ok])
    show "text_ok (exec_of empty_db)" by (simp add: text_ok_def exec_of_def row_defs empty_db_def)
  qed (rule exec_step_text)
  then have clean: "\<And>k p. xp (exec_of (store_run cs empty_db)) k = Some p \<Longrightarrow> \<not> containsDisallowedCredential p"
    "\<And>k t. xt (exec_of (store_run cs empty_db)) k = Some t \<Longrightarrow>
        \<not> containsDisallowedCredential (y_prompt t) \<and> \<not> containsDisallowedCredential (y_result t)"
    unfolding text_ok_def by blast+
  show ?thesis
    using clean(1) [OF pending_exec [OF reachable_tables]] clean(2) [OF turn_exec [OF reachable_tables]] by simp
qed

lemma no_credential_is_stored_witness:
  "\<not> containsDisallowedCredential (t_prompt (hd (turns demo_db2)))"
proof -
  have "hd (turns demo_db2) \<in> set (turns demo_db2)" by (simp add: demo_db2_def)
  then show ?thesis using no_credential_is_stored [OF demo_proper] unfolding demo_running_db by blast
qed

section \<open>Outcomes\<close>

lemma resolved_attempt:
  "resolveExecutionRef er d = Inr g \<Longrightarrow>
    \<exists>i. intent_row (er_SessionID er) (er_TurnKey er) d = Some i \<and> i_attempt_id i = er_AttemptID er"
  by (auto simp: resolveExecutionRef_def split: option.splits if_splits)

lemma outcome_resolves:
  "RecordObservedExecutionOutcome op er st raw now d = Inr (r, d') \<Longrightarrow>
    \<exists>i. intent_row (er_SessionID er) (er_TurnKey er) d = Some i \<and> i_attempt_id i = er_AttemptID er"
  unfolding RecordObservedExecutionOutcome_def Let_def
  by (elim success_elims; drule resolved_attempt; simp)

lemma outcome_ends:
  assumes "RecordObservedExecutionOutcome op er st raw now d = Inr (r, d')" "d' \<noteq> d"
    "turn_row (er_SessionID er) (er_TurnKey er) d = Some t" "\<not> isTerminal (t_status t)"
  obtains status s d1 where "terminal_text st = Some status" "session_row (er_SessionID er) d = Some s"
    "s_lifecycle s \<noteq> ''archived''" "outcome_matches (er_TurnKey er) s"
    "end_turn (er_SessionID er) (er_TurnKey er) status (SanitizeText raw) s now d = Inr d1"
    "turns d' = turns d1" "sessions d' = sessions d1" "pending d' = pending d1" "leases d' = leases d1"
  using assms unfolding RecordObservedExecutionOutcome_def Let_def
  apply (elim success_elims; simp)
  apply (drule recordJournalEntry_Inr, elim conjE)
  apply (erule that; simp)
  done

lemma end_turn_effect:
  assumes "end_turn sid k st res s now d = Inr d'"
  obtains f where "d' = (ended_rows sid k st res now d)\<lparr>sessions := upd (\<lambda>x. s_session_id x = sid) f (sessions d)\<rparr>"
    "\<forall>x. s_state (f x) = ''parked'' \<and> s_active_key (f x) = None \<and> s_session_id (f x) = s_session_id x"
proof -
  let ?f = "\<lambda>x. bump (s_row_version s + 1) now
             (if s_visibility s = ''host_lost''
              then x\<lparr>s_active_key := None, s_state := ''parked'', s_recovery_context := Some k\<rparr>
              else x\<lparr>s_active_key := None, s_state := ''parked''\<rparr>)"
  have "d' = (ended_rows sid k st res now d)\<lparr>sessions := upd (\<lambda>x. s_session_id x = sid) ?f
      (sessions (ended_rows sid k st res now d))\<rparr>"
    using update_session_Inr assms unfolding end_turn_def Let_def ended_rows_def by blast
  then show ?thesis by (intro that [of ?f]) (simp_all add: bump_def ended_rows_def update_turn_def update_intent_def)
qed

lemma end_turn_tables_of:
  assumes "end_turn sid k st res s now d = Inr d'"
  shows "turns d' = upd (is_turn sid k) (\<lambda>t. t\<lparr>t_status := st, t_result := res, t_completed_at := Some now\<rparr>) (turns d)"
    "pending d' = pending d" "leases d' = leases d"
    "x \<in> set (sessions d') \<Longrightarrow> if s_session_id x = sid then s_state x = ''parked'' \<and> s_active_key x = None
       else x \<in> set (sessions d)"
proof -
  obtain f where d': "d' = (ended_rows sid k st res now d)\<lparr>sessions := upd (\<lambda>x. s_session_id x = sid) f (sessions d)\<rparr>"
    and f: "\<forall>x. s_state (f x) = ''parked'' \<and> s_active_key (f x) = None \<and> s_session_id (f x) = s_session_id x"
    by (rule end_turn_effect [OF assms])
  show "if s_session_id x = sid then s_state x = ''parked'' \<and> s_active_key x = None else x \<in> set (sessions d)"
    if "x \<in> set (sessions d')"
    using that f by (auto simp: d' set_upd)
  show "turns d' = upd (is_turn sid k) (\<lambda>t. t\<lparr>t_status := st, t_result := res, t_completed_at := Some now\<rparr>) (turns d)"
    "pending d' = pending d" "leases d' = leases d"
    by (simp_all add: d' ended_rows_def update_turn_def update_intent_def)
qed


lemmas outcome_eval = RecordObservedExecutionOutcome_def resolveExecutionRef_def ExecutionRef_validate_def
  demo_ref_def terminal_text_def isTerminal_def outcome_matches_def end_turn_def update_turn_def update_intent_def


section \<open>Recovery episodes\<close>

text \<open>Generation \<open>g\<close> of a session is over: it was used, and no open episode has it.\<close>

definition episode_over :: "string \<Rightarrow> nat \<Rightarrow> exec \<Rightarrow> bool" where
  "episode_over sid g e \<longleftrightarrow> 0 < g \<and>
     (\<exists>s. xs e sid = Some s \<and> g \<le> x_gen s \<and> x_active_gen s \<noteq> g)"

lemma end_exec_turn_sel [simp]: "xs (end_exec_turn k st res e) = xs e" "xp (end_exec_turn k st res e) = xp e"
  by (simp_all add: end_exec_turn_def)

lemma exec_step_episode: "exec_step e e' \<Longrightarrow> episode_over sid g e \<Longrightarrow> episode_over sid g e'"
proof (induction rule: exec_step.induct)
  case (open_session e x)
  then show ?case by (cases "x = sid") (auto simp: episode_over_def)
qed (auto simp: episode_over_def parked_after_def closed_episode_def)


text \<open>C21 A recovery generation that is over stays over: once a generation of a session was used and its
  episode closed, or superseded by a later loss, every new reconciliation that names it is
  refused, whatever happened since and whatever it claims to have observed.\<close>

theorem closed_episode_never_reopens:
  assumes "proper_run cs" "proper_run rest" "s \<in> set (sessions (store_run cs empty_db))"
    "ref_SessionID rr = s_session_id s" "unat (ref_Generation rr) \<le> s_recovery_gen s"
    "unat (ref_Generation rr) \<noteq> s_active_recovery_gen s"
    "journal_row op (store_run (cs @ rest) empty_db) = None"
  shows "\<exists>e. ReconcileSession op er rr oc now (store_run (cs @ rest) empty_db) = Inl e"
proof (cases "ReconcileSession op er rr oc now (store_run (cs @ rest) empty_db)")
  case (Inr y)
  let ?d = "store_run (cs @ rest) empty_db" and ?g = "unat (ref_Generation rr)"
  from Inr have run: "ReconcileSession op er rr oc now ?d = Inr (fst y, snd y)" by simp
  then show ?thesis
  proof (cases rule: ReconcileSession_cases)
    case (commit u d1)
    have "0 < ?g" using commit(4) by (simp add: unat_gt_0)
    then have "episode_over (s_session_id s) ?g (exec_of (store_run cs empty_db))"
      using session_exec [OF reachable_tables assms(3)] assms(5,6) by (simp add: episode_over_def)
    then have "episode_over (s_session_id s) ?g (exec_of (store_run rest (store_run cs empty_db)))"
      by (rule proper_run_invariant [OF assms(2)]) (rule exec_step_episode)
    then show ?thesis
      using commit(1,3) assms(4) by (auto simp: episode_over_def exec_of_sel store_run_append)
  qed (use assms(7) in simp)
qed simp

section \<open>Running turns can be ended\<close>

definition attempts_named :: "DB \<Rightarrow> bool" where
  "attempts_named d \<longleftrightarrow> (\<forall>x \<in> set (map turn_origin (turns d)). \<not> blank (snd (snd x)))"

lemma attempt_not_blank [simp]: "\<not> blank (attempt_id v k)"
  by (simp add: attempt_id_def)

lemma store_exec_attempts:
  assumes "store_exec c now d = Inr (r, d')" "attempts_named d"
  shows "attempts_named d'"
proof (cases "starts_turn c")
  case False
  then show ?thesis using turns_only_by_release [OF assms(1)] assms(2) by (simp add: attempts_named_def)
next
  case True
  then obtain op l sid v k x where x: "ReleaseTurn op l sid v k now d = Inr (x, d')"
    using assms(1) by (auto simp: starts_turn_def as_result_Inr)
  show ?thesis
  proof (cases "turns d' = turns d")
    case False
    then obtain t where "turns d' = turns d @ [t]" "t_attempt_id t = attempt_id (v + 1) k"
      using release_turns [OF x] by metis
    then show ?thesis using assms(2) by (simp add: attempts_named_def turn_origin_def)
  qed (use assms(2) in \<open>simp add: attempts_named_def\<close>)
qed

lemma reachable_attempts: "attempts_named (store_run cs empty_db)"
proof (rule store_run_invariant [where I = attempts_named])
  show "attempts_named empty_db" by (simp add: attempts_named_def empty_db_def)
qed (rule store_exec_attempts)

lemma update_session_succeeds:
  assumes "tables_ok d" "s \<in> set (sessions d)" "session_check (f s)"
  shows "\<exists>d'. update_session (s_session_id s) f d = Inr d'"
proof -
  have "x = s" if "x \<in> set (sessions d)" "s_session_id x = s_session_id s" for x
    using that assms(2) session_row_iff [OF assms(1)] by (metis option.inject)
  then show ?thesis using assms(3) by (auto simp: update_session_def list_all_iff)
qed

lemma end_turn_succeeds:
  assumes "tables_ok d" "s \<in> set (sessions d)" "s_row_version s < max_int64" "isTerminal st"
  shows "\<exists>d'. end_turn (s_session_id s) k st res s now d = Inr d'"
proof -
  have "tables_ok (ended_rows (s_session_id s) k st res now d)" by (rule ended_rows_tables [OF assms(4,1)])
  moreover have "s \<in> set (sessions (ended_rows (s_session_id s) k st res now d))"
    using assms(2) by (simp add: ended_rows_def update_turn_def update_intent_def)
  moreover have "columns_ok s" using assms(1,2) by (simp add: tables_defs)
  then have "session_check (bump (s_row_version s + 1) now
      (if s_visibility s = ''host_lost''
       then s\<lparr>s_active_key := None, s_state := ''parked'', s_recovery_context := Some k\<rparr>
       else s\<lparr>s_active_key := None, s_state := ''parked''\<rparr>))"
    using assms(3) by (auto simp: columns_ok_def session_check_def bump_def)
  ultimately show ?thesis
    unfolding end_turn_def Let_def ended_rows_def [symmetric] by (intro update_session_succeeds)
qed

lemma end_turn_keeps_rows:
  assumes "end_turn sid k st res s now d = Inr d'"
  shows "journal d' = journal d" "runs d' = runs d" "session_row x d' = None \<longleftrightarrow> session_row x d = None"
proof -
  obtain f where d': "d' = (ended_rows sid k st res now d)\<lparr>sessions := upd (\<lambda>x. s_session_id x = sid) f (sessions d)\<rparr>"
    and f: "\<forall>x. s_state (f x) = ''parked'' \<and> s_active_key (f x) = None \<and> s_session_id (f x) = s_session_id x"
    by (rule end_turn_effect [OF assms])
  show "journal d' = journal d" "runs d' = runs d"
    by (simp_all add: d' ended_rows_def update_turn_def update_intent_def)
  have "session_row x d' = map_option (\<lambda>s. if s_session_id s = sid then f s else s) (session_row x d)"
    by (rule session_row_upd) (simp_all add: d' f)
  then show "session_row x d' = None \<longleftrightarrow> session_row x d = None" by simp
qed

lemma record_succeeds:
  assumes "journal_row op d = None" "run_row rid d \<noteq> None" "session_row sid d \<noteq> None"
  shows "\<exists>d'. recordJournalEntry op cmd fp rid sid k kind rc l now d = Inr d' \<and> sessions d' = sessions d"
  using assms by (auto simp: recordJournalEntry_def insert_journal_def nonempty_def)

text \<open>What the store holds about a running turn: its row, its intent, and a reference that resolves.\<close>

lemma running_turn_evidence:
  assumes "proper_run cs" "s \<in> set (sessions (store_run cs empty_db))" "s_state s = ''running''"
    "\<not> blank (s_session_id s)" "s_active_key s = Some k"
  obtains t i where "turn_row (s_session_id s) k (store_run cs empty_db) = Some t" "\<not> isTerminal (t_status t)"
    "intent_row (s_session_id s) k (store_run cs empty_db) = Some i" "\<not> blank (i_attempt_id i)" "\<not> blank k"
proof -
  let ?d = "store_run cs empty_db" and ?sid = "s_session_id s"
  note ok = reachable_tables [of cs] and inv = reachable_exec_inv [OF assms(1)]
  note x = session_exec [OF ok assms(2)]
  have "active_ok (exec_of ?d) ?sid k"
    using session_okD(3) [OF exec_invD(1) [OF inv x]] assms(5) by simp
  then obtain y where y: "\<not> blank k" "xt (exec_of ?d) (?sid, k) = Some y" "live_status (y_status y)"
    by (auto simp: active_ok_def)
  then obtain t where t: "turn_row ?sid k ?d = Some t" "turn_view t = y" by (auto simp: exec_of_sel)
  obtain ph where "xi (exec_of ?d) (?sid, k) = Some (y_attempt y, ph)"
    using exec_invD(2) [OF inv y(2)] by (auto simp: turn_ok_def)
  then obtain i where i: "intent_row ?sid k ?d = Some i" "i_attempt_id i = t_attempt_id t"
    using t(2) by (auto simp: exec_of_sel turn_view_def)
  have "t \<in> set (turns ?d)" using t(1) turn_row_iff [OF ok] by blast
  then have "\<not> blank (t_attempt_id t)"
    using reachable_attempts [of cs] by (auto simp: attempts_named_def turn_origin_def)
  moreover have "\<not> isTerminal (t_status t)" using y(3) t(2) terminal_not_live by (auto simp: turn_view_def)
  ultimately show ?thesis using that t(1) i y(1) by metis
qed

text \<open>C22 A running turn can always be ended: for a running session of a database reached by a proper
  run, the execution reference the store returns for its active turn is accepted as evidence of
  any terminal status under any unused operation, without a controller, and parks the session.
  The version counter must not be exhausted and the session must have a non-blank name.\<close>

theorem running_turn_can_be_ended:
  assumes "proper_run cs" "s \<in> set (sessions (store_run cs empty_db))" "s_state s = ''running''"
    "\<not> blank (s_session_id s)" "s_row_version s < max_int64" "s_active_key s = Some k"
    "\<not> blank op" "journal_row op (store_run cs empty_db) = None" "terminal_text st = Some status"
  shows "\<exists>r d'. RecordObservedExecutionOutcome op
       (ExecutionRefForTurn (s_session_id s) k (store_run cs empty_db)) st raw now (store_run cs empty_db) = Inr (r, d') \<and>
     (\<forall>x \<in> set (sessions d'). s_session_id x = s_session_id s \<longrightarrow> s_state x = ''parked'')"
proof -
  let ?d = "store_run cs empty_db" and ?sid = "s_session_id s"
  note ok = reachable_tables [of cs]
  obtain t i where t: "turn_row ?sid k ?d = Some t" "\<not> isTerminal (t_status t)"
    and i: "intent_row ?sid k ?d = Some i" "\<not> blank (i_attempt_id i)" "\<not> blank k"
    by (rule running_turn_evidence [OF assms(1-4,6)])
  have "i_attempt_id i \<noteq> []" using i(2) by auto
  then have er: "ExecutionRefForTurn ?sid k ?d = \<lparr>er_SessionID = ?sid, er_TurnKey = k, er_AttemptID = i_attempt_id i\<rparr>"
    by (simp add: ExecutionRefForTurn_def i(1))
  have row: "session_row ?sid ?d = Some s" using session_row_iff [OF ok] assms(2) by blast
  have "shape_ok (session_view s)"
    using exec_invD(1) [OF reachable_exec_inv [OF assms(1)] session_exec [OF ok assms(2)]] by (rule session_okD)
  then have alive: "s_lifecycle s \<noteq> ''archived''" using assms(3) by (auto simp: shape_ok_def)
  have match: "outcome_matches k s" using assms(3,6) by (simp add: outcome_matches_def)
  have run: "run_row (s_run_id s) ?d \<noteq> None"
  proof -
    obtain r where "r \<in> set (runs ?d)" "r_run_id r = s_run_id s" using ok assms(2) by (auto simp: tables_defs image_iff)
    then show ?thesis by (auto simp: run_row_def sel_None_iff)
  qed
  obtain d1 where d1: "end_turn ?sid k status (SanitizeText raw) s now ?d = Inr d1"
    using end_turn_succeeds [OF ok assms(2,5) terminal_text_terminal [OF assms(9)]] by blast
  note kept = end_turn_keeps_rows [OF d1]
  have rec: "\<exists>r d'. and_then (recordJournalEntry op cmd fp (s_run_id s) ?sid k kind rc l now d1) (\<lambda>d2. Inr (rc, d2)) =
        Inr (r, d') \<and> (\<forall>x \<in> set (sessions d'). s_session_id x = ?sid \<longrightarrow> s_state x = ''parked'')"
    for cmd fp kind rc l
  proof -
    have "journal_row op d1 = None" "run_row (s_run_id s) d1 \<noteq> None" "session_row ?sid d1 \<noteq> None"
      using kept assms(8) run row by (simp_all add: journal_row_def run_row_def)
    from record_succeeds [OF this]
    obtain d2 where "recordJournalEntry op cmd fp (s_run_id s) ?sid k kind rc l now d1 = Inr d2" "sessions d2 = sessions d1"
      by blast
    then show ?thesis using end_turn_tables_of(4) [OF d1] by auto
  qed
  show ?thesis
    unfolding RecordObservedExecutionOutcome_def Let_def er
    using d1 t i match alive row assms(4,7,8,9)
    by (simp add: resolveExecutionRef_def ExecutionRef_validate_def checkOrRecordIdempotency_def rec)
qed

lemma running_turn_can_be_ended_witness:
  "\<exists>r d'. RecordObservedExecutionOutcome ''o7'' (ExecutionRefForTurn ''s'' ''t'' demo_db2) TurnInterrupted ''ok'' 7 demo_db2 =
     Inr (r, d')"
proof -
  have "demo_run \<in> set (sessions (store_run demo_running empty_db))"
    unfolding demo_running_db by (simp add: demo_db2_def)
  moreover have "journal_row ''o7'' (store_run demo_running empty_db) = None"
    unfolding demo_running_db by (simp add: store_eval demo_db2_eval)
  ultimately show ?thesis
    using running_turn_can_be_ended [OF demo_proper, of demo_run "''t''" "''o7''" TurnInterrupted "''interrupted''" "''ok''" 7]
    unfolding demo_running_db by (auto simp: demo_run_def max_int64_def terminal_text_def)
qed

text \<open>The example host is lost and recovered; a second reconciliation of the same episode.\<close>

definition demo_recovery :: RecoveryRef where
  "demo_recovery = \<lparr>ref_SessionID = ''s'', ref_TurnKey = ''t'', ref_Generation = 1\<rparr>"

definition demo_reachable :: ReconciliationOutcome where
  "demo_reachable = \<lparr>ro_Ref = demo_recovery, ro_Reachability = VisibilityReachable,
     ro_Status = ReconciliationReachableActive, ro_Observed = TurnRunning, ro_Result = []\<rparr>"

definition demo_recovered :: "(store_op \<times> time) list" where
  "demo_recovered = demo_running @
     [(CmdHostLoss ''o7'' ''k'' ''s'' 3, 7), (CmdReconcile ''o8'' demo_ref demo_recovery demo_reachable, 8)]"

lemma demo_recovered_session:
  "\<exists>s \<in> set (sessions (store_run demo_recovered empty_db)). s_session_id s = ''s'' \<and> s_recovery_gen s = 1 \<and>
     s_active_recovery_gen s = 0 \<and> s_visibility s = ''reachable''"
  "journal_row ''o9'' (store_run demo_recovered empty_db) = None"
  unfolding demo_recovered_def store_run_append demo_running_db
  by (simp_all add: StoreRecordHostLoss_def ReconcileSession_def outcome_validations demo_recovery_def demo_reachable_def
      demo_ref_def resolveExecutionRef_def ExecutionRef_validate_def reconcile_active_def close_recovery_def
      store_eval demo_db2_eval)

lemma closed_episode_never_reopens_witness:
  "\<exists>e. ReconcileSession ''o9'' demo_ref demo_recovery demo_reachable 9 (store_run demo_recovered empty_db) = Inl e"
proof -
  obtain s where "s \<in> set (sessions (store_run demo_recovered empty_db))" "s_session_id s = ''s''"
    "s_recovery_gen s = 1" "s_active_recovery_gen s = 0"
    using demo_recovered_session(1) by blast
  moreover have "proper_run demo_recovered" by (simp add: demo_recovered_def)
  ultimately show ?thesis
    using closed_episode_never_reopens [of demo_recovered "[]" s demo_recovery "''o9''"] demo_recovered_session(2)
    by (simp add: demo_recovery_def)
qed

end
