(* ===== verification/Store_Hydrate.thy ===== *)
theory Store_Hydrate
  imports Store_Evidence "HOL-Library.AList"
begin

text \<open>
  Start-up hydration, \<open>internal/storage/recovery.go\<close>: \<open>HydrateState\<close> reads every table in one
  read transaction, builds the in-memory sessions and refuses a database whose rows contradict
  each other; the daemon does not start when it fails. Go maps are association lists with unique
  keys. Every proper run of commands leaves a database that hydrates.
\<close>

section \<open>Records\<close>

record RunRecord =
  rn_RunID :: string
  rn_BriefDigest :: string
  rn_SourceDigest :: string
  rn_ProfileDigest :: string
  rn_ControllerLease :: string
  rn_Lifecycle :: string
  rn_CreatedAt :: time
  rn_UpdatedAt :: time

record StoredTurn =
  st_SessionID :: string
  st_TurnKey :: string
  st_Prompt :: string
  st_Status :: string
  st_Result :: string
  st_AttemptID :: string
  st_CreatedAt :: time
  st_CompletedAt :: "time option"

record DispatchIntentRecord =
  di_SessionID :: string
  di_TurnKey :: string
  di_AttemptID :: string
  di_Phase :: string
  di_RecordedAt :: time
  di_UpdatedAt :: time

record QueuedPrompt =
  qp_SessionID :: string
  qp_TurnKey :: string
  qp_Prompt :: string
  qp_CreatedAt :: time

record HydratedSession =
  hs_ID :: string
  hs_RunID :: string
  hs_Contributor :: string
  hs_IsActiveContributor :: bool
  hs_State :: string
  hs_Visibility :: string
  hs_RecoveryGeneration :: nat
  hs_ActiveTurnKey :: "string option"
  hs_Lifecycle :: string
  hs_ControllerStatus :: string
  hs_RecoveryContext :: string
  hs_ActiveRecoveryGen :: nat
  hs_RowVersion :: int
  hs_PendingPrompts :: "(string \<times> QueuedPrompt) list"
  hs_Turns :: "(string \<times> StoredTurn) list"
  hs_DispatchIntents :: "(string \<times> DispatchIntentRecord) list"
  hs_NativeBinding :: "NativeBinding option"
  hs_ActiveTurn :: "StoredTurn option"
  hs_ActiveIntent :: "DispatchIntentRecord option"

record HydratedState =
  Runs :: "(string \<times> RunRecord) list"
  Sessions :: "(string \<times> HydratedSession) list"
  Journals :: "OperationReceipt list"
  Decisions :: "DecisionRecord list"

section \<open>Loading\<close>

text \<open>A loop over the rows of a query, with early return.\<close>

fun each_row :: "('r \<Rightarrow> 's \<Rightarrow> 'e + 's) \<Rightarrow> 'r list \<Rightarrow> 's \<Rightarrow> 'e + 's" where
  "each_row f [] st = Inr st"
| "each_row f (r # rs) st = (case f r st of Inl e \<Rightarrow> Inl e | Inr st' \<Rightarrow> each_row f rs st')"

definition load_run :: "RunRow \<Rightarrow> HydratedState \<Rightarrow> store_error + HydratedState" where
  "load_run r st = Inr (st\<lparr>Runs := AList.update (r_run_id r)
     \<lparr>rn_RunID = r_run_id r, rn_BriefDigest = r_brief_digest r, rn_SourceDigest = r_source_digest r,
      rn_ProfileDigest = r_profile_digest r, rn_ControllerLease = r_controller_lease r,
      rn_Lifecycle = r_lifecycle r, rn_CreatedAt = r_created_at r, rn_UpdatedAt = r_updated_at r\<rparr> (Runs st)\<rparr>)"

definition scanned_session :: "SessionRow \<Rightarrow> HydratedSession" where
  "scanned_session s =
     \<lparr>hs_ID = s_session_id s, hs_RunID = s_run_id s, hs_Contributor = s_contributor s,
      hs_IsActiveContributor = s_is_active s, hs_State = s_state s, hs_Visibility = s_visibility s,
      hs_RecoveryGeneration = s_recovery_gen s, hs_ActiveTurnKey = s_active_key s,
      hs_Lifecycle = s_lifecycle s, hs_ControllerStatus = s_controller_status s,
      hs_RecoveryContext = text_or_empty (s_recovery_context s),
      hs_ActiveRecoveryGen = s_active_recovery_gen s, hs_RowVersion = s_row_version s,
      hs_PendingPrompts = [], hs_Turns = [], hs_DispatchIntents = [], hs_NativeBinding = None,
      hs_ActiveTurn = None, hs_ActiveIntent = None\<rparr>"

definition load_session :: "SessionRow \<Rightarrow> HydratedState \<Rightarrow> store_error + HydratedState" where
  "load_session s st =
     (if map_of (Runs st) (s_run_id s) = None
      then Inl (ErrInconsistentStorage ''session references nonexistent run'')
      else Inr (st\<lparr>Sessions := AList.update (s_session_id s) (scanned_session s) (Sessions st)\<rparr>))"

text \<open>Read the session a row belongs to, change it, write it back.\<close>

definition with_session ::
  "string \<Rightarrow> string \<Rightarrow> (HydratedSession \<Rightarrow> store_error + HydratedSession) \<Rightarrow> HydratedState
   \<Rightarrow> store_error + HydratedState"
where
  "with_session sid what f st =
     (case map_of (Sessions st) sid of
        None \<Rightarrow> Inl (ErrInconsistentStorage what)
      | Some hs \<Rightarrow> and_then (f hs) (\<lambda>hs'. Inr (st\<lparr>Sessions := AList.update sid hs' (Sessions st)\<rparr>)))"

definition load_binding :: "BindingRow \<Rightarrow> HydratedState \<Rightarrow> store_error + HydratedState" where
  "load_binding b = with_session (b_session_id b) ''native binding references nonexistent session''
     (\<lambda>hs. Inr (hs\<lparr>hs_NativeBinding := Some
        \<lparr>nb_LogicalSessionID = b_session_id b, nb_NativeSessionID = b_native_session_id b,
         nb_Harness = b_harness b, nb_Model = b_model b, nb_WorkspaceMode = b_workspace_mode b,
         nb_ToolingConfig = b_config_json b\<rparr>\<rparr>))"

definition load_prompt :: "PendingRow \<Rightarrow> HydratedState \<Rightarrow> store_error + HydratedState" where
  "load_prompt p = with_session (p_session_id p) ''pending prompt references nonexistent session''
     (\<lambda>hs. Inr (hs\<lparr>hs_PendingPrompts := AList.update (p_turn_key p)
        \<lparr>qp_SessionID = p_session_id p, qp_TurnKey = p_turn_key p, qp_Prompt = p_prompt p,
         qp_CreatedAt = p_queued_at p\<rparr> (hs_PendingPrompts hs)\<rparr>))"

definition scanned_turn :: "TurnRow \<Rightarrow> StoredTurn" where
  "scanned_turn t =
     \<lparr>st_SessionID = t_session_id t, st_TurnKey = t_turn_key t, st_Prompt = t_prompt t,
      st_Status = t_status t, st_Result = t_result t, st_AttemptID = t_attempt_id t,
      st_CreatedAt = t_created_at t, st_CompletedAt = t_completed_at t\<rparr>"

definition load_turn :: "TurnRow \<Rightarrow> HydratedState \<Rightarrow> store_error + HydratedState" where
  "load_turn t = with_session (t_session_id t) ''turn references nonexistent session''
     (\<lambda>hs. Inr (hs\<lparr>hs_Turns := AList.update (t_turn_key t) (scanned_turn t) (hs_Turns hs)\<rparr>))"

definition scanned_intent :: "IntentRow \<Rightarrow> DispatchIntentRecord" where
  "scanned_intent i =
     \<lparr>di_SessionID = i_session_id i, di_TurnKey = i_turn_key i, di_AttemptID = i_attempt_id i,
      di_Phase = i_phase i, di_RecordedAt = i_recorded_at i, di_UpdatedAt = i_updated_at i\<rparr>"

definition load_intent :: "IntentRow \<Rightarrow> HydratedState \<Rightarrow> store_error + HydratedState" where
  "load_intent i = with_session (i_session_id i) ''dispatch intent references nonexistent session''
     (\<lambda>hs. if map_of (hs_Turns hs) (i_turn_key i) = None
           then Inl (ErrInconsistentStorage ''dispatch intent references nonexistent turn'')
           else Inr (hs\<lparr>hs_DispatchIntents :=
             AList.update (i_turn_key i) (scanned_intent i) (hs_DispatchIntents hs)\<rparr>))"

text \<open>A release's journal entry yields the embedded receipt, whose turn key the outer field hides.\<close>

definition load_entry :: "JournalRow \<Rightarrow> HydratedState \<Rightarrow> store_error + HydratedState" where
  "load_entry j st = Inr (st\<lparr>Journals := Journals st @
     [if j_command_type j = ''release_turn'' then rr_Operation (decode_release (j_payload j))
      else decode_receipt (j_payload j)]\<rparr>)"

definition load_decision :: "DecisionRecord \<Rightarrow> HydratedState \<Rightarrow> store_error + HydratedState" where
  "load_decision x st =
     (if map_of (Runs st) (dr_RunID x) = None
      then Inl (ErrInconsistentStorage ''decision references nonexistent run'')
      else Inr (st\<lparr>Decisions := Decisions st @ [x]\<rparr>))"

section \<open>Active turns and relational invariants\<close>

definition establish :: "HydratedSession \<Rightarrow> store_error + HydratedSession" where
  "establish hs =
     (if hs_State hs = ''running'' then
        (case hs_ActiveTurnKey hs of
           None \<Rightarrow> Inl (ErrInconsistentStorage ''running session has no active turn key'')
         | Some k \<Rightarrow>
             if k = [] then Inl (ErrInconsistentStorage ''running session has no active turn key'')
             else case map_of (hs_Turns hs) k of
               None \<Rightarrow> Inl (ErrInconsistentStorage ''active turn not found in turns'')
             | Some turn \<Rightarrow>
                 if st_Status turn \<noteq> ''running'' \<and> st_Status turn \<noteq> ''cancelling''
                   then Inl (ErrInconsistentStorage ''active turn has non-active status'')
                 else case map_of (hs_DispatchIntents hs) k of
                   None \<Rightarrow> Inl (ErrInconsistentStorage ''active turn has missing dispatch intent'')
                 | Some intent \<Rightarrow>
                     if di_Phase intent = ''resolved''
                       then Inl (ErrInconsistentStorage ''active turn has resolved dispatch intent'')
                     else Inr (hs\<lparr>hs_ActiveTurn := Some turn, hs_ActiveIntent := Some intent\<rparr>))
      else if hs_State hs = ''parked'' then
        (if text_or_empty (hs_ActiveTurnKey hs) \<noteq> []
           then Inl (ErrInconsistentStorage ''parked session has active turn key'')
         else if list_ex (\<lambda>(k, t). st_Status t = ''running'' \<or> st_Status t = ''cancelling'') (hs_Turns hs)
           then Inl (ErrInconsistentStorage ''parked session has a turn of active status'')
         else Inr hs)
      else if hs_State hs = ''archived'' then
        (if text_or_empty (hs_ActiveTurnKey hs) \<noteq> []
           then Inl (ErrInconsistentStorage ''archived session has active turn key'')
         else Inr hs)
      else Inr hs)"

fun establish_all :: "(string \<times> HydratedSession) list \<Rightarrow> store_error + (string \<times> HydratedSession) list" where
  "establish_all [] = Inr []"
| "establish_all ((sid, hs) # rest) =
     and_then (establish hs) (\<lambda>hs'. and_then (establish_all rest) (\<lambda>rest'. Inr ((sid, hs') # rest')))"

definition empty_state :: HydratedState where
  "empty_state = \<lparr>Runs = [], Sessions = [], Journals = [], Decisions = []\<rparr>"

definition HydrateState :: "DB \<Rightarrow> store_error + HydratedState" where
  "HydrateState d =
     and_then (each_row load_run (runs d) empty_state) (\<lambda>st1.
     and_then (each_row load_session (sessions d) st1) (\<lambda>st2.
     and_then (each_row load_binding (bindings d) st2) (\<lambda>st3.
     and_then (each_row load_prompt (pending d) st3) (\<lambda>st4.
     and_then (each_row load_turn (turns d) st4) (\<lambda>st5.
     and_then (each_row load_intent (intents d) st5) (\<lambda>st6.
     and_then (each_row load_entry (journal d) st6) (\<lambda>st7.
     and_then (each_row load_decision (decisions d) st7) (\<lambda>st8.
     and_then (establish_all (Sessions st8)) (\<lambda>ss. Inr (st8\<lparr>Sessions := ss\<rparr>))))))))))"

section \<open>What a load leaves in memory\<close>

lemma each_row_append: "each_row f (as @ bs) st = and_then (each_row f as st) (each_row f bs)"
  by (induction as arbitrary: st) (auto split: sum.splits)

lemma each_row_snoc: "each_row f as st = Inr st' \<Longrightarrow> each_row f (as @ [b]) st = f b st'"
  by (auto simp: each_row_append split: sum.splits)

definition unloaded :: "HydratedSession \<Rightarrow> HydratedSession" where
  "unloaded hs = hs\<lparr>hs_PendingPrompts := [], hs_Turns := [], hs_DispatchIntents := [],
     hs_NativeBinding := None, hs_ActiveTurn := None, hs_ActiveIntent := None\<rparr>"

definition scanned_prompt :: "PendingRow \<Rightarrow> QueuedPrompt" where
  "scanned_prompt p = \<lparr>qp_SessionID = p_session_id p, qp_TurnKey = p_turn_key p, qp_Prompt = p_prompt p,
     qp_CreatedAt = p_queued_at p\<rparr>"

text \<open>A session in memory that holds exactly the rows of \<open>ps\<close>, \<open>ts\<close> and \<open>ins\<close> about it.\<close>

definition holds :: "PendingRow list \<Rightarrow> TurnRow list \<Rightarrow> IntentRow list \<Rightarrow> SessionRow \<Rightarrow> HydratedSession \<Rightarrow> bool" where
  "holds ps ts ins s hs \<longleftrightarrow> unloaded hs = scanned_session s \<and> hs_ActiveTurn hs = None \<and> distinct (map fst (hs_Turns hs)) \<and>
     (\<forall>k. map_of (hs_PendingPrompts hs) k = map_option scanned_prompt (sel (is_pending (s_session_id s) k) ps)) \<and>
     (\<forall>k. map_of (hs_Turns hs) k = map_option scanned_turn (sel (is_turn (s_session_id s) k) ts)) \<and>
     (\<forall>k. map_of (hs_DispatchIntents hs) k = map_option scanned_intent (sel (is_intent (s_session_id s) k) ins))"

definition in_memory ::
  "DB \<Rightarrow> PendingRow list \<Rightarrow> TurnRow list \<Rightarrow> IntentRow list \<Rightarrow> HydratedState \<Rightarrow> bool"
where
  "in_memory d ps ts ins st \<longleftrightarrow> distinct (map fst (Sessions st)) \<and>
     (\<forall>rid. map_of (Runs st) rid = None \<longleftrightarrow> run_row rid d = None) \<and>
     (\<forall>sid. session_row sid d = None \<longrightarrow> map_of (Sessions st) sid = None) \<and>
     (\<forall>sid s. session_row sid d = Some s \<longrightarrow> (\<exists>hs. map_of (Sessions st) sid = Some hs \<and> holds ps ts ins s hs))"

lemma in_memoryD:
  assumes "in_memory d ps ts ins st" "session_row sid d = Some s"
  obtains hs where "map_of (Sessions st) sid = Some hs" "holds ps ts ins s hs"
  using assms unfolding in_memory_def by blast

lemma in_memory_update:
  assumes mem: "in_memory d ps ts ins st" and s: "session_row sid d = Some s" and hs: "holds ps' ts' ins' s hs"
    and rest: "\<And>x s hs. session_row x d = Some s \<Longrightarrow> x \<noteq> sid \<Longrightarrow> holds ps ts ins s hs \<Longrightarrow> holds ps' ts' ins' s hs"
  shows "in_memory d ps' ts' ins' (st\<lparr>Sessions := AList.update sid hs (Sessions st)\<rparr>)"
proof -
  have "\<exists>h. map_of (AList.update sid hs (Sessions st)) x = Some h \<and> holds ps' ts' ins' r h"
    if r: "session_row x d = Some r" for x r
  proof (cases "x = sid")
    case True
    then show ?thesis using s hs r by (simp add: update_conv')
  next
    case False
    obtain h where "map_of (Sessions st) x = Some h" "holds ps ts ins r h" by (rule in_memoryD [OF mem r])
    then show ?thesis using rest [OF r False] False by (simp add: update_conv')
  qed
  moreover have "map_of (AList.update sid hs (Sessions st)) x = None" if "session_row x d = None" for x
    using that mem s by (cases "x = sid") (auto simp: in_memory_def update_conv')
  ultimately show ?thesis using mem by (simp add: in_memory_def distinct_update)
qed

lemma with_session_memory:
  assumes mem: "in_memory d ps ts ins st" and s: "session_row sid d = Some s"
    and step: "\<And>hs. holds ps ts ins s hs \<Longrightarrow> \<exists>hs'. f hs = Inr hs' \<and> holds ps' ts' ins' s hs'"
    and rest: "\<And>x s hs. session_row x d = Some s \<Longrightarrow> x \<noteq> sid \<Longrightarrow> holds ps ts ins s hs \<Longrightarrow> holds ps' ts' ins' s hs"
  shows "\<exists>st'. with_session sid what f st = Inr st' \<and> in_memory d ps' ts' ins' st'"
proof -
  obtain hs where hs: "map_of (Sessions st) sid = Some hs" "holds ps ts ins s hs" by (rule in_memoryD [OF mem s])
  then obtain hs' where "f hs = Inr hs'" "holds ps' ts' ins' s hs'" using step by blast
  then show ?thesis using hs(1) in_memory_update [OF mem s _ rest] by (simp add: with_session_def)
qed

lemma other_session:
  "session_row x d = Some s \<Longrightarrow> x \<noteq> p_session_id p \<Longrightarrow> \<not> is_pending (s_session_id s) k p"
  "session_row x d = Some s \<Longrightarrow> x \<noteq> t_session_id t \<Longrightarrow> \<not> is_turn (s_session_id s) k t"
  "session_row x d = Some s \<Longrightarrow> x \<noteq> i_session_id i \<Longrightarrow> \<not> is_intent (s_session_id s) k i"
  using session_row_id [of x d s] by (auto simp: is_row_defs)

text \<open>A new row of a table goes to its session only.\<close>

lemma load_turn_memory:
  assumes "in_memory d ps ts ins st" "session_row (t_session_id t) d \<noteq> None" "turn_key t \<notin> turn_key ` set ts"
  shows "\<exists>st'. load_turn t st = Inr st' \<and> in_memory d ps (ts @ [t]) ins st'"
proof -
  obtain s where s: "session_row (t_session_id t) d = Some s" using assms(2) by auto
  then have sid: "s_session_id s = t_session_id t" by (rule session_row_id)
  have new: "sel (is_turn (t_session_id t) (t_turn_key t)) ts = None"
    using assms(3) by (auto simp: sel_None_iff is_turn_def turn_key_def image_iff)
  show ?thesis
    unfolding load_turn_def
  proof (rule with_session_memory [OF assms(1) s])
    fix hs assume hs: "holds ps ts ins s hs"
    have "map_of (AList.update (t_turn_key t) (scanned_turn t) (hs_Turns hs)) k =
        map_option scanned_turn (sel (is_turn (s_session_id s) k) (ts @ [t]))" for k
      using hs new by (auto simp: holds_def update_conv' sid is_turn_def split: option.splits)
    then show "\<exists>hs'. Inr (hs\<lparr>hs_Turns := AList.update (t_turn_key t) (scanned_turn t) (hs_Turns hs)\<rparr>) = Inr hs' \<and>
        holds ps (ts @ [t]) ins s hs'"
      using hs by (auto simp: holds_def unloaded_def distinct_update)
  next
    fix x s hs assume "session_row x d = Some s" "x \<noteq> t_session_id t" "holds ps ts ins s hs"
    then show "holds ps (ts @ [t]) ins s hs"
      using other_session(2) [of x d s t] by (simp add: holds_def option.case_eq_if)
  qed
qed

lemma load_prompt_memory:
  assumes "in_memory d ps ts ins st" "session_row (p_session_id p) d \<noteq> None" "pending_key p \<notin> pending_key ` set ps"
  shows "\<exists>st'. load_prompt p st = Inr st' \<and> in_memory d (ps @ [p]) ts ins st'"
proof -
  obtain s where s: "session_row (p_session_id p) d = Some s" using assms(2) by auto
  then have sid: "s_session_id s = p_session_id p" by (rule session_row_id)
  have new: "sel (is_pending (p_session_id p) (p_turn_key p)) ps = None"
    using assms(3) by (auto simp: sel_None_iff is_pending_def pending_key_def image_iff)
  show ?thesis
    unfolding load_prompt_def scanned_prompt_def [symmetric]
  proof (rule with_session_memory [OF assms(1) s])
    fix hs assume hs: "holds ps ts ins s hs"
    have "map_of (AList.update (p_turn_key p) (scanned_prompt p) (hs_PendingPrompts hs)) k =
        map_option scanned_prompt (sel (is_pending (s_session_id s) k) (ps @ [p]))" for k
      using hs new by (auto simp: holds_def update_conv' sid is_pending_def split: option.splits)
    then show "\<exists>hs'. Inr (hs\<lparr>hs_PendingPrompts := AList.update (p_turn_key p) (scanned_prompt p) (hs_PendingPrompts hs)\<rparr>) =
        Inr hs' \<and> holds (ps @ [p]) ts ins s hs'"
      using hs by (auto simp: holds_def unloaded_def)
  next
    fix x s hs assume "session_row x d = Some s" "x \<noteq> p_session_id p" "holds ps ts ins s hs"
    then show "holds (ps @ [p]) ts ins s hs"
      using other_session(1) [of x d s p] by (simp add: holds_def option.case_eq_if)
  qed
qed

lemma load_intent_memory:
  assumes "in_memory d ps ts ins st" "sel (is_turn (i_session_id i) (i_turn_key i)) ts \<noteq> None"
    "session_row (i_session_id i) d \<noteq> None" "intent_key i \<notin> intent_key ` set ins"
  shows "\<exists>st'. load_intent i st = Inr st' \<and> in_memory d ps ts (ins @ [i]) st'"
proof -
  obtain s where s: "session_row (i_session_id i) d = Some s" using assms(3) by auto
  then have sid: "s_session_id s = i_session_id i" by (rule session_row_id)
  have new: "sel (is_intent (i_session_id i) (i_turn_key i)) ins = None"
    using assms(4) by (auto simp: sel_None_iff is_intent_def intent_key_def image_iff)
  show ?thesis
    unfolding load_intent_def
  proof (rule with_session_memory [OF assms(1) s])
    fix hs assume hs: "holds ps ts ins s hs"
    have "map_of (AList.update (i_turn_key i) (scanned_intent i) (hs_DispatchIntents hs)) k =
        map_option scanned_intent (sel (is_intent (s_session_id s) k) (ins @ [i]))" for k
      using hs new by (auto simp: holds_def update_conv' sid is_intent_def split: option.splits)
    moreover have "map_of (hs_Turns hs) (i_turn_key i) \<noteq> None" using hs assms(2) by (simp add: holds_def sid)
    ultimately show "\<exists>hs'. (if map_of (hs_Turns hs) (i_turn_key i) = None
        then Inl (ErrInconsistentStorage ''dispatch intent references nonexistent turn'')
        else Inr (hs\<lparr>hs_DispatchIntents := AList.update (i_turn_key i) (scanned_intent i) (hs_DispatchIntents hs)\<rparr>)) =
        Inr hs' \<and> holds ps ts (ins @ [i]) s hs'"
      using hs by (auto simp: holds_def unloaded_def)
  next
    fix x s hs assume "session_row x d = Some s" "x \<noteq> i_session_id i" "holds ps ts ins s hs"
    then show "holds ps ts (ins @ [i]) s hs"
      using other_session(3) [of x d s i] by (simp add: holds_def option.case_eq_if)
  qed
qed

lemma load_binding_memory:
  assumes "in_memory d ps ts ins st" "session_row (b_session_id b) d \<noteq> None"
  shows "\<exists>st'. load_binding b st = Inr st' \<and> in_memory d ps ts ins st'"
proof -
  obtain s where s: "session_row (b_session_id b) d = Some s" using assms(2) by auto
  show ?thesis
    unfolding load_binding_def
    by (rule with_session_memory [OF assms(1) s]) (auto simp: holds_def unloaded_def)
qed

text \<open>Loading a whole table, row by row.\<close>

lemma load_table:
  assumes "M [] st" "\<And>as b st. \<exists>bs. t = as @ b # bs \<Longrightarrow> M as st \<Longrightarrow> \<exists>st'. f b st = Inr st' \<and> M (as @ [b]) st'"
  shows "\<exists>st'. each_row f t st = Inr st' \<and> M t st'"
proof -
  have "\<exists>st'. each_row f u st = Inr st' \<and> M u st'" if "\<exists>v. t = u @ v" for u
    using that
  proof (induction u rule: rev_induct)
    case Nil
    then show ?case using assms(1) by simp
  next
    case (snoc b as)
    then obtain st' where "each_row f as st = Inr st'" "M as st'" by auto
    then show ?case using assms(2) [of as b st'] snoc.prems each_row_snoc [of f as st st' b] by auto
  qed
  then show ?thesis by auto
qed

lemma keys_before: "distinct (map g t) \<Longrightarrow> \<exists>bs. t = as @ b # bs \<Longrightarrow> g b \<notin> g ` set as"
  by (auto simp: image_iff)

lemma load_turns:
  assumes "tables_ok d" "in_memory d ps [] ins st"
  shows "\<exists>st'. each_row load_turn (turns d) st = Inr st' \<and> in_memory d ps (turns d) ins st'"
proof (rule load_table [where M = "\<lambda>ts. in_memory d ps ts ins"])
  fix as b st assume b: "\<exists>bs. turns d = as @ b # bs" "in_memory d ps as ins st"
  then have "b \<in> set (turns d)" by auto
  then have "t_session_id b \<in> s_session_id ` set (sessions d)" using assms(1) by (simp add: tables_defs)
  then have "session_row (t_session_id b) d \<noteq> None" using session_row_iff [OF assms(1)] by fastforce
  moreover have "distinct (map turn_key (turns d))" using assms(1) by (simp add: tables_defs)
  ultimately show "\<exists>st'. load_turn b st = Inr st' \<and> in_memory d ps (as @ [b]) ins st'"
    using load_turn_memory [OF b(2)] keys_before [OF _ b(1)] by blast
qed (rule assms(2))

lemma load_prompts:
  assumes "tables_ok d" "in_memory d [] ts ins st"
  shows "\<exists>st'. each_row load_prompt (pending d) st = Inr st' \<and> in_memory d (pending d) ts ins st'"
proof (rule load_table [where M = "\<lambda>ps. in_memory d ps ts ins"])
  fix as b st assume b: "\<exists>bs. pending d = as @ b # bs" "in_memory d as ts ins st"
  then have "b \<in> set (pending d)" by auto
  then have "p_session_id b \<in> s_session_id ` set (sessions d)" using assms(1) by (simp add: tables_defs)
  then have "session_row (p_session_id b) d \<noteq> None" using session_row_iff [OF assms(1)] by fastforce
  moreover have "distinct (map pending_key (pending d))" using assms(1) by (simp add: tables_defs)
  ultimately show "\<exists>st'. load_prompt b st = Inr st' \<and> in_memory d (as @ [b]) ts ins st'"
    using load_prompt_memory [OF b(2)] keys_before [OF _ b(1)] by blast
qed (rule assms(2))

lemma load_intents:
  assumes "tables_ok d" "in_memory d ps (turns d) [] st"
  shows "\<exists>st'. each_row load_intent (intents d) st = Inr st' \<and> in_memory d ps (turns d) (intents d) st'"
proof (rule load_table [where M = "\<lambda>ins. in_memory d ps (turns d) ins"])
  fix as b st assume b: "\<exists>bs. intents d = as @ b # bs" "in_memory d ps (turns d) as st"
  then have "b \<in> set (intents d)" by auto
  then have "intent_key b \<in> turn_key ` set (turns d)" using assms(1) by (simp add: tables_defs)
  then obtain t where t: "t \<in> set (turns d)" "turn_key t = (i_session_id b, i_turn_key b)"
    by (auto simp: intent_key_def)
  then have "turn_row (i_session_id b) (i_turn_key b) d = Some t" using turn_row_iff [OF assms(1)] by blast
  moreover have "t_session_id t \<in> s_session_id ` set (sessions d)" using assms(1) t(1) by (simp add: tables_defs)
  then have "session_row (i_session_id b) d \<noteq> None"
    using session_row_iff [OF assms(1)] t(2) by (fastforce simp: turn_key_def)
  moreover have "distinct (map intent_key (intents d))" using assms(1) by (simp add: tables_defs)
  ultimately show "\<exists>st'. load_intent b st = Inr st' \<and> in_memory d ps (turns d) (as @ [b]) st'"
    using keys_before [OF _ b(1)] by (intro load_intent_memory [OF b(2)]) (simp_all add: turn_row_def)
qed (rule assms(2))

lemma load_bindings:
  assumes "tables_ok d" "in_memory d ps ts ins st"
  shows "\<exists>st'. each_row load_binding (bindings d) st = Inr st' \<and> in_memory d ps ts ins st'"
proof (rule load_table [where M = "\<lambda>bs. in_memory d ps ts ins"])
  fix as b st assume b: "\<exists>bs. bindings d = as @ b # bs" "in_memory d ps ts ins st"
  then have "b \<in> set (bindings d)" by auto
  then have "b_session_id b \<in> s_session_id ` set (sessions d)" using assms(1) by (simp add: tables_defs)
  then have "session_row (b_session_id b) d \<noteq> None" using session_row_iff [OF assms(1)] by fastforce
  then show "\<exists>st'. load_binding b st = Inr st' \<and> in_memory d ps ts ins st'" using load_binding_memory [OF b(2)] by blast
qed (rule assms(2))

lemma in_memory_cong:
  assumes "in_memory d ps ts ins st" "Runs st' = Runs st" "Sessions st' = Sessions st"
  shows "in_memory d ps ts ins st'"
  using assms(1) unfolding in_memory_def assms(2,3) .

lemma load_runs: "\<exists>st. each_row load_run (runs d) empty_state = Inr st \<and> Sessions st = [] \<and>
    (\<forall>rid. map_of (Runs st) rid = None \<longleftrightarrow> run_row rid d = None)"
proof -
  have "\<exists>st. each_row load_run (runs d) empty_state = Inr st \<and> Sessions st = [] \<and>
      (\<forall>rid. map_of (Runs st) rid = None \<longleftrightarrow> rid \<notin> r_run_id ` set (runs d))"
    by (rule load_table [where M = "\<lambda>rs st. Sessions st = [] \<and> (\<forall>rid. map_of (Runs st) rid = None \<longleftrightarrow> rid \<notin> r_run_id ` set rs)"])
      (auto simp: empty_state_def load_run_def update_conv')
  then show ?thesis by (auto simp: run_row_def sel_None_iff image_iff)
qed

lemma load_sessions:
  assumes "tables_ok d" "Sessions st = []" "\<forall>rid. map_of (Runs st) rid = None \<longleftrightarrow> run_row rid d = None"
  shows "\<exists>st'. each_row load_session (sessions d) st = Inr st' \<and> in_memory d [] [] [] st'"
proof -
  let ?M = "\<lambda>ss. in_memory (d\<lparr>sessions := ss\<rparr>) [] [] []"
  have "\<exists>st'. each_row load_session (sessions d) st = Inr st' \<and> ?M (sessions d) st'"
  proof (rule load_table)
    show "?M [] st" using assms(2,3) by (simp add: in_memory_def row_defs)
    fix as b st assume b: "\<exists>bs. sessions d = as @ b # bs" and M: "?M as st"
    have "s_run_id b \<in> r_run_id ` set (runs d)" using assms(1) b by (auto simp: tables_defs)
    then have run: "map_of (Runs st) (s_run_id b) \<noteq> None"
      using M by (auto simp: in_memory_def run_row_def sel_None_iff)
    have new: "s_session_id b \<notin> s_session_id ` set as"
      using assms(1) b by (auto simp: tables_defs image_iff)
    have row: "session_row x (d\<lparr>sessions := as @ [b]\<rparr>) =
        (if x = s_session_id b then Some b else session_row x (d\<lparr>sessions := as\<rparr>))" for x
    proof -
      have "sel (\<lambda>s. s_session_id s = s_session_id b) as = None" using new by (auto simp: sel_None_iff image_iff)
      then show ?thesis by (auto simp: session_row_def split: option.splits)
    qed
    have "holds [] [] [] b (scanned_session b)" by (simp add: holds_def unloaded_def scanned_session_def)
    then have "?M (as @ [b]) (st\<lparr>Sessions := AList.update (s_session_id b) (scanned_session b) (Sessions st)\<rparr>)"
      using M row by (auto simp: in_memory_def distinct_update update_conv' run_row_def)
    then show "\<exists>st'. load_session b st = Inr st' \<and> ?M (as @ [b]) st'" using run by (simp add: load_session_def)
  qed
  then show ?thesis by simp
qed

lemma load_journal:
  assumes "in_memory d ps ts ins st"
  shows "\<exists>st'. each_row load_entry js st = Inr st' \<and> in_memory d ps ts ins st'"
  by (rule load_table [where M = "\<lambda>_. in_memory d ps ts ins"])
    (use assms in \<open>auto simp: load_entry_def intro: in_memory_cong\<close>)

lemma load_decisions:
  assumes "tables_ok d" "in_memory d ps ts ins st"
  shows "\<exists>st'. each_row load_decision (decisions d) st = Inr st' \<and> in_memory d ps ts ins st'"
proof (rule load_table [where M = "\<lambda>_. in_memory d ps ts ins"])
  fix as b st assume b: "\<exists>bs. decisions d = as @ b # bs" "in_memory d ps ts ins st"
  then have "dr_RunID b \<in> r_run_id ` set (runs d)" using assms(1) by (auto simp: tables_defs)
  then have "map_of (Runs st) (dr_RunID b) \<noteq> None"
    using b(2) by (auto simp: in_memory_def run_row_def sel_None_iff)
  then show "\<exists>st'. load_decision b st = Inr st' \<and> in_memory d ps ts ins st'"
    using in_memory_cong [OF b(2)] by (simp add: load_decision_def)
qed (rule assms(2))

section \<open>Hydration of reachable databases\<close>

lemma establish_all_ok:
  assumes "\<forall>x \<in> set ss. \<exists>hs'. establish (snd x) = Inr hs'"
  shows "\<exists>ss'. establish_all ss = Inr ss' \<and> map fst ss' = map fst ss \<and>
     (\<forall>sid hs. map_of ss sid = Some hs \<longrightarrow> (\<exists>hs'. map_of ss' sid = Some hs' \<and> establish hs = Inr hs'))"
  using assms
proof (induction ss)
  case (Cons p ss)
  obtain sid hs where p: "p = (sid, hs)" by (cases p)
  obtain hs' where "establish hs = Inr hs'" using Cons.prems p by auto
  moreover obtain ss' where "establish_all ss = Inr ss'" "map fst ss' = map fst ss"
    "\<forall>sid hs. map_of ss sid = Some hs \<longrightarrow> (\<exists>hs'. map_of ss' sid = Some hs' \<and> establish hs = Inr hs')"
    using Cons.IH Cons.prems by (metis list.set_intros(2))
  ultimately show ?case by (auto simp: p)
qed simp

text \<open>What hydration makes of a session.\<close>

definition restored :: "DB \<Rightarrow> SessionRow \<Rightarrow> HydratedSession \<Rightarrow> bool" where
  "restored d s hs \<longleftrightarrow> unloaded hs = scanned_session s \<and>
     (\<forall>k. map_of (hs_PendingPrompts hs) k = map_option scanned_prompt (pending_row (s_session_id s) k d)) \<and>
     (\<forall>k. map_of (hs_Turns hs) k = map_option scanned_turn (turn_row (s_session_id s) k d)) \<and>
     (\<forall>k. map_of (hs_DispatchIntents hs) k = map_option scanned_intent (intent_row (s_session_id s) k d)) \<and>
     hs_ActiveTurn hs = (case s_active_key s of None \<Rightarrow> None
       | Some k \<Rightarrow> map_option scanned_turn (turn_row (s_session_id s) k d))"

lemma establish_restores:
  assumes inv: "exec_inv (exec_of d)" and ok: "tables_ok d" and s: "s \<in> set (sessions d)"
    and hs: "holds (pending d) (turns d) (intents d) s hs"
  shows "\<exists>hs'. establish hs = Inr hs' \<and> restored d s hs'"
proof -
  let ?e = "exec_of d" and ?sid = "s_session_id s"
  note x = session_exec [OF ok s]
  have so: "session_ok ?e ?sid (session_view s)" by (rule exec_invD(1) [OF inv x])
  have shape: "s_state s \<in> {''parked'', ''running'', ''archived''}" "s_state s = ''running'' \<longleftrightarrow> s_active_key s \<noteq> None"
    using session_okD(1) [OF so] unfolding shape_ok_def view_simps by blast+
  have rows: "map_of (hs_Turns hs) k = map_option scanned_turn (turn_row ?sid k d)"
    "map_of (hs_DispatchIntents hs) k = map_option scanned_intent (intent_row ?sid k d)"
    "map_of (hs_PendingPrompts hs) k = map_option scanned_prompt (pending_row ?sid k d)" for k
    using hs by (simp_all add: holds_def turn_row_def intent_row_def pending_row_def)
  have base: "unloaded hs = scanned_session s" "hs_ActiveTurn hs = None" using hs by (simp_all add: holds_def)
  have "hs_State (unloaded hs) = s_state s" "hs_ActiveTurnKey (unloaded hs) = s_active_key s"
    unfolding base(1) by (simp_all add: scanned_session_def)
  then have fields: "hs_State hs = s_state s" "hs_ActiveTurnKey hs = s_active_key s" by (simp_all add: unloaded_def)
  show ?thesis
  proof (cases "s_active_key s")
    case (Some k)
    obtain t where t: "turn_row ?sid k d = Some t" "t_status t = ''running'' \<or> t_status t = ''cancelling''" "k \<noteq> []"
      using session_okD(3) [OF so] Some by (auto simp: active_ok_def live_status_def exec_of_sel dest: not_blank_nonempty)
    have "turn_ok ?e ?sid k (turn_view t)" by (rule exec_invD(2) [OF inv]) (simp add: exec_of_sel t(1))
    then obtain i where i: "intent_row ?sid k d = Some i" "i_phase i \<noteq> ''resolved''"
      using t(2) by (auto simp: turn_ok_def exec_of_sel isTerminal_def)
    have "establish hs = Inr (hs\<lparr>hs_ActiveTurn := Some (scanned_turn t), hs_ActiveIntent := Some (scanned_intent i)\<rparr>)"
      using Some shape t i rows fields by (auto simp: establish_def scanned_turn_def scanned_intent_def)
    then show ?thesis using rows base t(1) Some by (simp add: restored_def unloaded_def)
  next
    case None
    have quiet: "\<not> list_ex (\<lambda>(k, t). st_Status t = ''running'' \<or> st_Status t = ''cancelling'') (hs_Turns hs)"
    proof -
      have False if "(k, u) \<in> set (hs_Turns hs)" "st_Status u = ''running'' \<or> st_Status u = ''cancelling''" for k u
      proof -
        have "distinct (map fst (hs_Turns hs))" using hs unfolding holds_def by blast
        then have "map_of (hs_Turns hs) k = Some u" using that(1) by (rule map_of_is_SomeI)
        then obtain t where t: "turn_row ?sid k d = Some t" "u = scanned_turn t" using rows(1) by auto
        have "turn_ok ?e ?sid k (turn_view t)" by (rule exec_invD(2) [OF inv]) (simp add: exec_of_sel t(1))
        then show False using that(2) x t(2) None by (auto simp: turn_ok_def live_status_def scanned_turn_def)
      qed
      then show ?thesis by (auto simp: list_ex_iff)
    qed
    have "establish hs = Inr hs" using None shape fields quiet by (auto simp: establish_def text_or_empty_def)
    then show ?thesis using rows base None by (simp add: restored_def)
  qed
qed

text \<open>C23 The daemon can always be restarted: hydration of a database that any proper run left behind
  succeeds, and gives back every session with its own fields, its queued prompts, its turns, its
  dispatch intents and, exactly while it is running, its active turn.\<close>

theorem reachable_state_hydrates:
  assumes "proper_run cs"
  shows "\<exists>st. HydrateState (store_run cs empty_db) = Inr st \<and>
    (\<forall>s \<in> set (sessions (store_run cs empty_db)).
       \<exists>hs. map_of (Sessions st) (s_session_id s) = Some hs \<and> restored (store_run cs empty_db) s hs)"
proof -
  let ?d = "store_run cs empty_db"
  note ok = reachable_tables [of cs] and inv = reachable_exec_inv [OF assms]
  obtain st1 where st1: "each_row load_run (runs ?d) empty_state = Inr st1" "Sessions st1 = []"
    "\<forall>rid. map_of (Runs st1) rid = None \<longleftrightarrow> run_row rid ?d = None" using load_runs by blast
  obtain st2 where st2: "each_row load_session (sessions ?d) st1 = Inr st2" "in_memory ?d [] [] [] st2"
    using load_sessions [OF ok st1(2,3)] by blast
  obtain st3 where st3: "each_row load_binding (bindings ?d) st2 = Inr st3" "in_memory ?d [] [] [] st3"
    using load_bindings [OF ok st2(2)] by blast
  obtain st4 where st4: "each_row load_prompt (pending ?d) st3 = Inr st4" "in_memory ?d (pending ?d) [] [] st4"
    using load_prompts [OF ok st3(2)] by blast
  obtain st5 where st5: "each_row load_turn (turns ?d) st4 = Inr st5" "in_memory ?d (pending ?d) (turns ?d) [] st5"
    using load_turns [OF ok st4(2)] by blast
  obtain st6 where st6: "each_row load_intent (intents ?d) st5 = Inr st6"
    "in_memory ?d (pending ?d) (turns ?d) (intents ?d) st6" using load_intents [OF ok st5(2)] by blast
  obtain st7 where st7: "each_row load_entry (journal ?d) st6 = Inr st7"
    "in_memory ?d (pending ?d) (turns ?d) (intents ?d) st7" using load_journal [OF st6(2)] by blast
  obtain st8 where st8: "each_row load_decision (decisions ?d) st7 = Inr st8"
    "in_memory ?d (pending ?d) (turns ?d) (intents ?d) st8" using load_decisions [OF ok st7(2)] by blast
  have sess: "\<exists>s. session_row sid ?d = Some s \<and> holds (pending ?d) (turns ?d) (intents ?d) s hs"
    if "(sid, hs) \<in> set (Sessions st8)" for sid hs
  proof -
    have m: "map_of (Sessions st8) sid = Some hs" using that st8(2) by (simp add: in_memory_def)
    then have "session_row sid ?d \<noteq> None" using st8(2) unfolding in_memory_def by (metis option.distinct(1))
    then obtain s where s: "session_row sid ?d = Some s" by auto
    then show ?thesis using in_memoryD [OF st8(2) s] m by auto
  qed
  have "\<forall>x \<in> set (Sessions st8). \<exists>hs'. establish (snd x) = Inr hs'"
  proof
    fix x assume "x \<in> set (Sessions st8)"
    then have "(fst x, snd x) \<in> set (Sessions st8)" by simp
    from sess [OF this] obtain s where "session_row (fst x) ?d = Some s"
      "holds (pending ?d) (turns ?d) (intents ?d) s (snd x)" by blast
    then show "\<exists>hs'. establish (snd x) = Inr hs'"
      using establish_restores [OF inv ok] session_row_iff [OF ok] by blast
  qed
  from establish_all_ok [OF this] obtain ss where ss: "establish_all (Sessions st8) = Inr ss"
    "\<forall>sid hs. map_of (Sessions st8) sid = Some hs \<longrightarrow> (\<exists>hs'. map_of ss sid = Some hs' \<and> establish hs = Inr hs')"
    by blast
  have "\<exists>hs. map_of ss (s_session_id s) = Some hs \<and> restored ?d s hs" if s: "s \<in> set (sessions ?d)" for s
  proof -
    have "session_row (s_session_id s) ?d = Some s" using session_row_iff [OF ok] s by blast
    then obtain hs where hs: "map_of (Sessions st8) (s_session_id s) = Some hs"
      "holds (pending ?d) (turns ?d) (intents ?d) s hs" by (rule in_memoryD [OF st8(2)])
    then obtain hs' where "map_of ss (s_session_id s) = Some hs'" "establish hs = Inr hs'" using ss(2) by blast
    then show ?thesis using establish_restores [OF inv ok s hs(2)] by auto
  qed
  moreover have "HydrateState ?d = Inr (st8\<lparr>Sessions := ss\<rparr>)"
    using st1(1) st2(1) st3(1) st4(1) st5(1) st6(1) st7(1) st8(1) ss(1) by (simp add: HydrateState_def)
  ultimately show ?thesis by simp
qed

lemma reachable_state_hydrates_witness: "\<exists>st. HydrateState demo_db2 = Inr st"
  using reachable_state_hydrates [OF demo_proper] unfolding demo_running_db by blast

text \<open>\<open>CreateSession\<close> takes the caller's state as it is: a session created as running has no active
  turn key, and hydration then refuses the whole database, so that one such call keeps the daemon
  from starting.\<close>

theorem session_created_running_blocks_startup:
  "HydrateState (store_run (demo_adopted @
     [(CmdCreateSession ''o4'' ''k'' (demo_session\<lparr>sr_State := ''running''\<rparr>), 4)]) empty_db) =
     Inl (ErrInconsistentStorage ''running session has no active turn key'')"
  by (simp add: demo_defs store_eval HydrateState_def load_run_def load_session_def load_entry_def
      scanned_session_def empty_state_def establish_def)

end
