(* ===== verification/Store_Archive.thy ===== *)
theory Store_Archive
  imports Store_Integrity Store_Grants
begin

text \<open>
  Artifacts: the content-addressed blobs of the state directory together with the database
  (\<open>internal/storage/artifact_store.go\<close>, \<open>worker_artifacts.go\<close>). A blob is written before the
  transaction that names it, so a failed call may leave a blob without a row, never a row without
  its blob. The directory is a map from digests to bytes; its writes are atomic and nothing else
  writes there, symbolic links and failing disks are left out. A publication is three steps, with
  commands of others in between; an observed artifact is one, since its blob is written inside the
  write transaction.
\<close>

section \<open>Blobs\<close>

record archive =
  ar_db :: DB
  ar_blobs :: "string \<Rightarrow> string option"

definition empty_archive :: archive where
  "empty_archive = \<lparr>ar_db = empty_db, ar_blobs = (\<lambda>dg. None)\<rparr>"

definition isValidDigest :: "string \<Rightarrow> bool" where
  "isValidDigest digest \<longleftrightarrow> length digest = 64 \<and>
     list_all (\<lambda>c. CHR ''0'' \<le> c \<and> c \<le> CHR ''9'' \<or> CHR ''a'' \<le> c \<and> c \<le> CHR ''f'') digest"

definition ReadArtifact :: "string \<Rightarrow> archive \<Rightarrow> store_error + string" where
  "ReadArtifact digest ar =
     (if \<not> isValidDigest digest then Inl ErrArtifactCorrupt
      else case ar_blobs ar digest of
        None \<Rightarrow> Inl ErrArtifactNotFound
      | Some c \<Rightarrow>
          if maxArtifactSize < length c then Inl ErrArtifactCorrupt
          else if sha256_hex c \<noteq> digest then Inl ErrArtifactCorrupt else Inr c)"

text \<open>No blob is overwritten: an existing one must read back as the bytes to be written.\<close>

definition writeCASBlob :: "string \<Rightarrow> string \<Rightarrow> archive \<Rightarrow> store_error + archive" where
  "writeCASBlob sanitized digest ar =
     (case ar_blobs ar digest of
        None \<Rightarrow> Inr (ar\<lparr>ar_blobs := (ar_blobs ar)(digest \<mapsto> sanitized)\<rparr>)
      | Some old \<Rightarrow> if ReadArtifact digest ar = Inr sanitized then Inr ar else Inl ErrArtifactCorrupt)"

definition unsafe_name :: "string \<Rightarrow> bool" where
  "unsafe_name name \<longleftrightarrow> Contains name ''/'' \<or> Contains name [CHR 0x5C] \<or> Contains name ''..''"

section \<open>Publishing\<close>

text \<open>Before any file work: the name, the size, the credential, an earlier publication.\<close>

definition check_publication ::
  "string \<Rightarrow> string \<Rightarrow> ArtifactMetadata \<Rightarrow> string \<Rightarrow> DB \<Rightarrow> store_error + ArtifactMetadata option"
where
  "check_publication opID callerLease meta content d =
     (if unsafe_name (am_Name meta) then Inl ErrInvalidPath
      else if maxArtifactSize < length content then Inl ErrArtifactOversized
      else and_then (classifyCredential (am_RunID meta) callerLease False d) (\<lambda>g.
        case earlier_publication opID d of
          Some (cmd, fp, lease, m) \<Rightarrow>
            if cmd \<noteq> ''publish_artifact'' \<or> fp \<noteq> publish_fingerprint meta (SanitizeText content)
            then Inl ErrIdempotencyConflict else Inr (Some m)
        | None \<Rightarrow> Inr None))"

text \<open>An uninterrupted call.\<close>

definition PublishArtifact ::
  "string \<Rightarrow> string \<Rightarrow> ArtifactMetadata \<Rightarrow> string \<Rightarrow> time \<Rightarrow> archive \<Rightarrow> (store_error + ArtifactMetadata) \<times> archive"
where
  "PublishArtifact opID callerLease meta content now ar =
     (case check_publication opID callerLease meta content (ar_db ar) of
        Inl e \<Rightarrow> (Inl e, ar)
      | Inr (Some m) \<Rightarrow> (Inr m, ar)
      | Inr None \<Rightarrow>
          (let sanitized = SanitizeText content in
           case writeCASBlob sanitized (sha256_hex sanitized) ar of
             Inl e \<Rightarrow> (Inl e, ar)
           | Inr ar1 \<Rightarrow>
               (case commit_publication opID callerLease meta content now (ar_db ar1) of
                  Inl e \<Rightarrow> (Inl e, ar1)
                | Inr (m, d) \<Rightarrow> (Inr m, ar1\<lparr>ar_db := d\<rparr>))))"

section \<open>Observed artifacts\<close>

definition artifact_turn_statuses :: "string list" where
  "artifact_turn_statuses = [''running'', ''completed'', ''failed'', ''cancelling'', ''cancelled'', ''interrupted'']"

text \<open>The execution an artifact is recorded for: the persisted attempt of a turn that has started. The
  answer is the run.\<close>

definition artifact_execution :: "ExecutionRef \<Rightarrow> DB \<Rightarrow> store_error + string" where
  "artifact_execution r d =
     (case session_row (er_SessionID r) d of
        None \<Rightarrow> Inl ErrInvalidAttempt
      | Some s \<Rightarrow>
          if s_lifecycle s = ''archived'' then Inl ErrSessionArchived
          else case turn_row (er_SessionID r) (er_TurnKey r) d of
            None \<Rightarrow> Inl ErrInvalidAttempt
          | Some t \<Rightarrow>
              if t_attempt_id t \<noteq> er_AttemptID r then Inl ErrInvalidAttempt
              else if t_status t \<notin> set artifact_turn_statuses then Inl ErrInvalidAttempt
              else case intent_row (er_SessionID r) (er_TurnKey r) d of
                None \<Rightarrow> Inl ErrInvalidAttempt
              | Some i \<Rightarrow> if i_attempt_id i \<noteq> er_AttemptID r then Inl ErrInvalidAttempt else Inr (s_run_id s))"

definition observed_artifact :: "ExecutionRef \<Rightarrow> string \<Rightarrow> DB \<Rightarrow> ArtifactRow option" where
  "observed_artifact r name d =
     sel (\<lambda>a. a_session_id a = Some (er_SessionID r) \<and> a_attempt_id a = Some (er_AttemptID r) \<and>
       a_artifact_id a = name) (artifacts d)"

definition observed_metadata :: "ExecutionRef \<Rightarrow> string \<Rightarrow> string \<Rightarrow> ArtifactRow \<Rightarrow> ArtifactMetadata" where
  "observed_metadata r name rid a =
     \<lparr>am_ID = name, am_RunID = rid, am_SessionID = er_SessionID r, am_TurnKey = er_TurnKey r, am_Name = name,
      am_Digest = a_digest a, am_ByteCount = a_byte_size a, am_Revision = a_revision a, am_CreatedAt = a_created_at a\<rparr>"

definition observed_row :: "ExecutionRef \<Rightarrow> string \<Rightarrow> string \<Rightarrow> string \<Rightarrow> time \<Rightarrow> DB \<Rightarrow> ArtifactRow" where
  "observed_row r name rid sanitized now d =
     \<lparr>a_artifact_id = name, a_revision = next_revision name d, a_run_id = rid, a_kind = name,
      a_digest = sha256_hex sanitized, a_byte_size = int (length sanitized), a_created_at = now,
      a_session_id = Some (er_SessionID r), a_attempt_id = Some (er_AttemptID r), a_released = False,
      a_proposal_set_digest = None\<rparr>"

definition RecordObservedArtifact ::
  "ExecutionRef \<Rightarrow> string \<Rightarrow> string \<Rightarrow> time \<Rightarrow> archive \<Rightarrow> (store_error + ArtifactMetadata) \<times> archive"
where
  "RecordObservedArtifact r name content now ar =
     (if ExecutionRef_validate r \<noteq> None then (Inl ErrInvalidAttempt, ar)
      else if blank name then (Inl (ErrMsg ''empty artifact name''), ar)
      else if unsafe_name name then (Inl ErrInvalidPath, ar)
      else if maxArtifactSize < length content then (Inl ErrArtifactOversized, ar)
      else
        let sanitized = SanitizeText content; digest = sha256_hex sanitized in
      case artifact_execution r (ar_db ar) of
        Inl e \<Rightarrow> (Inl e, ar)
      | Inr rid \<Rightarrow>
          (case observed_artifact r name (ar_db ar) of
             Some a \<Rightarrow>
               if a_digest a = digest then (Inr (observed_metadata r name rid a), ar) else (Inl ErrConflictingArtifact, ar)
           | None \<Rightarrow>
               (case writeCASBlob sanitized digest ar of
                  Inl e \<Rightarrow> (Inl e, ar)
                | Inr ar1 \<Rightarrow>
                    let a = observed_row r name rid sanitized now (ar_db ar1) in
                    (case insert_artifact a (ar_db ar1) of
                       Inl e \<Rightarrow> (Inl e, ar1)
                     | Inr d \<Rightarrow> (Inr (observed_metadata r name rid a), ar1\<lparr>ar_db := d\<rparr>)))))"

section \<open>Reads\<close>

definition row_metadata :: "ArtifactRow \<Rightarrow> string \<Rightarrow> string \<Rightarrow> ArtifactMetadata" where
  "row_metadata a sid k =
     \<lparr>am_ID = a_artifact_id a, am_RunID = a_run_id a, am_SessionID = sid, am_TurnKey = k, am_Name = a_kind a,
      am_Digest = a_digest a, am_ByteCount = a_byte_size a, am_Revision = a_revision a, am_CreatedAt = a_created_at a\<rparr>"

definition read_row :: "ArtifactRow \<Rightarrow> archive \<Rightarrow> store_error + string" where
  "read_row a ar =
     and_then (ReadArtifact (a_digest a) ar) (\<lambda>c.
       if int (length c) \<noteq> a_byte_size a then Inl ErrArtifactCorrupt else Inr c)"

definition ReadArtifactRevision :: "string \<Rightarrow> int \<Rightarrow> archive \<Rightarrow> store_error + ArtifactMetadata \<times> string" where
  "ReadArtifactRevision aid v ar =
     (if blank aid \<or> v \<le> 0 then Inl (ErrMsg ''invalid artifact id or revision'')
      else case artifact_row aid v (ar_db ar) of
        None \<Rightarrow> Inl ErrArtifactNotFound
      | Some a \<Rightarrow> and_then (read_row a ar) (\<lambda>c. Inr (row_metadata a [] [], c)))"

text \<open>\<open>ORDER BY revision DESC LIMIT 1\<close>.\<close>

fun newest :: "ArtifactRow list \<Rightarrow> ArtifactRow option" where
  "newest [] = None"
| "newest (a # as) =
     (case newest as of None \<Rightarrow> Some a
      | Some b \<Rightarrow> if a_revision b \<le> a_revision a then Some a else Some b)"

text \<open>\<open>LEFT JOIN turns\<close> on the session and the attempt.\<close>

definition row_turn_key :: "ArtifactRow \<Rightarrow> DB \<Rightarrow> string" where
  "row_turn_key a d =
     (case sel (\<lambda>t. a_session_id a = Some (t_session_id t) \<and> a_attempt_id a = Some (t_attempt_id t)) (turns d) of
        None \<Rightarrow> [] | Some t \<Rightarrow> t_turn_key t)"

definition read_newest :: "(ArtifactRow \<Rightarrow> bool) \<Rightarrow> archive \<Rightarrow> store_error + string \<times> ArtifactMetadata" where
  "read_newest p ar =
     (case newest (filter p (artifacts (ar_db ar))) of
        None \<Rightarrow> Inl ErrArtifactNotFound
      | Some a \<Rightarrow> and_then (read_row a ar) (\<lambda>c.
          Inr (c, row_metadata a (text_or_empty (a_session_id a)) (row_turn_key a (ar_db ar)))))"

definition ReadAuthorArtifact :: "ExecutionRef \<Rightarrow> string \<Rightarrow> archive \<Rightarrow> store_error + string \<times> ArtifactMetadata" where
  "ReadAuthorArtifact r aid ar =
     (case ExecutionRef_validate r of Some e \<Rightarrow> Inl e | None \<Rightarrow>
      if blank aid then Inl (ErrMsg ''empty artifact id'')
      else read_newest (\<lambda>a. a_artifact_id a = aid \<and> a_session_id a = Some (er_SessionID r)) ar)"

definition set_of_run :: "string \<Rightarrow> string \<Rightarrow> DB \<Rightarrow> bool" where
  "set_of_run dg rid d \<longleftrightarrow> (case set_row dg d of None \<Rightarrow> False | Some q \<Rightarrow> q_run_id q = rid)"

definition ReadReleasedArtifact ::
  "string \<Rightarrow> string \<Rightarrow> string \<Rightarrow> archive \<Rightarrow> store_error + string \<times> ArtifactMetadata"
where
  "ReadReleasedArtifact reviewer dg aid ar =
     (if blank reviewer then Inl (ErrMsg ''empty reviewer session id'')
      else if blank dg then Inl (ErrMsg ''empty proposal set digest'')
      else if blank aid then Inl (ErrMsg ''empty artifact id'')
      else case session_row reviewer (ar_db ar) of
        None \<Rightarrow> Inl ErrSessionNotFound
      | Some s \<Rightarrow>
          read_newest (\<lambda>a. a_artifact_id a = aid \<and> a_released a \<and> a_run_id a = s_run_id s \<and>
            set_of_run dg (s_run_id s) (ar_db ar) \<and>
            sel (is_member dg (a_artifact_id a) (a_revision a)) (members (ar_db ar)) \<noteq> None) ar)"

section \<open>Runs of the archive\<close>

text \<open>Calls of all kinds in any order; the steps of a publication are separate, and it commits only what
  it has installed.\<close>

datatype archive_op =
    ArStore store_op
  | ArInstall string
  | ArCommit string string ArtifactMetadata string
  | ArObserve ExecutionRef string string

fun publishes :: "store_op \<Rightarrow> bool" where
  "publishes (CmdPublish op l m c) = True"
| "publishes c = False"

definition installed :: "string \<Rightarrow> archive \<Rightarrow> bool" where
  "installed content ar \<longleftrightarrow> ar_blobs ar (sha256_hex (SanitizeText content)) = Some (SanitizeText content)"

fun archive_step :: "archive_op \<times> time \<Rightarrow> archive \<Rightarrow> archive" where
  "archive_step (ArStore c, now) ar =
     (if publishes c then ar else ar\<lparr>ar_db := store_step (c, now) (ar_db ar)\<rparr>)"
| "archive_step (ArInstall content, now) ar =
     (case writeCASBlob (SanitizeText content) (sha256_hex (SanitizeText content)) ar of Inl e \<Rightarrow> ar | Inr ar1 \<Rightarrow> ar1)"
| "archive_step (ArCommit op l m content, now) ar =
     (if installed content ar then ar\<lparr>ar_db := store_step (CmdPublish op l m content, now) (ar_db ar)\<rparr> else ar)"
| "archive_step (ArObserve r name content, now) ar = snd (RecordObservedArtifact r name content now ar)"

definition archive_run :: "(archive_op \<times> time) list \<Rightarrow> archive \<Rightarrow> archive" where
  "archive_run cs ar = fold archive_step cs ar"

lemma archive_run_simps [simp]:
  "archive_run [] ar = ar" "archive_run (c # cs) ar = archive_run cs (archive_step c ar)"
  "archive_run (as @ bs) ar = archive_run bs (archive_run as ar)"
  by (simp_all add: archive_run_def)

lemma archive_run_invariant:
  assumes "I ar" "\<And>c ar. I ar \<Longrightarrow> I (archive_step c ar)"
  shows "I (archive_run cs ar)"
  using assms by (induction cs arbitrary: ar) auto

text \<open>A publication that is not interrupted is these steps.\<close>

lemma publication_steps:
  assumes "PublishArtifact op l m content now ar = (Inr m', ar')"
  shows "ar' = ar \<or> ar' = archive_run [(ArInstall content, now), (ArCommit op l m content, now)] ar"
proof (cases "check_publication op l m content (ar_db ar)")
  case (Inr x)
  let ?s = "SanitizeText content"
  show ?thesis
  proof (cases x)
    case None
    then obtain ar1 d where w: "writeCASBlob ?s (sha256_hex ?s) ar = Inr ar1"
      and c: "commit_publication op l m content now (ar_db ar1) = Inr (m', d)" "ar' = ar1\<lparr>ar_db := d\<rparr>"
      using assms Inr by (auto simp: PublishArtifact_def Let_def split: sum.splits)
    have "installed content ar1"
      using w by (auto simp: writeCASBlob_def installed_def ReadArtifact_def split: option.splits if_splits)
    then show ?thesis using w c by (simp add: as_result_def)
  qed (use assms Inr in \<open>simp add: PublishArtifact_def\<close>)
qed (use assms in \<open>simp add: PublishArtifact_def\<close>)

end
