(* ===== verification/Store_Sealing.thy ===== *)
theory Store_Sealing
  imports Store_Archive Store_Scenario "HOL-Library.Multiset"
begin

text \<open>
  What the artifact archive guarantees: sealing is independent of the order of the members named,
  rows and blobs stay consistent in every run, what was accepted reads back unchanged, and a peer
  reads only what was sealed for its run.
\<close>

section \<open>Sealing and the order of the members\<close>

definition well_referenced :: "ProposalMemberRef \<Rightarrow> bool" where
  "well_referenced m \<longleftrightarrow> \<not> blank (pm_ArtifactID m) \<and> 0 < pm_Revision m \<and> \<not> blank (pm_Digest m)"

lemma validate_members_None:
  "validate_members seen ms = None \<longleftrightarrow>
     list_all well_referenced ms \<and> distinct (map member_key ms) \<and> set (map member_key ms) \<inter> seen = {}"
  by (induction ms arbitrary: seen) (auto simp: well_referenced_def)

text \<open>Who already has a member: the contributors, and the sessions that have a name.\<close>

definition named_sessions :: "canonicalMemberRecord list \<Rightarrow> string list" where
  "named_sessions rs = filter (\<lambda>x. x \<noteq> []) (map cm_AuthorSessionID rs)"

lemma resolve_members_Inr:
  "resolve_members rid C A ms d = Inr rs \<longleftrightarrow>
     list_all2 (\<lambda>m r. resolve_member rid m d = Inr r) ms rs \<and>
     distinct (map cm_AuthorContributor rs) \<and> set (map cm_AuthorContributor rs) \<inter> C = {} \<and>
     distinct (named_sessions rs) \<and> set (named_sessions rs) \<inter> A = {}"
proof (induction ms arbitrary: C A rs)
  case Nil
  then show ?case by (auto simp: named_sessions_def)
next
  case (Cons m ms)
  show ?case
  proof (cases rs)
    case Nil
    then show ?thesis by (auto simp: and_then_Inr_iff split: if_splits)
  next
    case rs: (Cons r rs0)
    let ?A = "if cm_AuthorSessionID r \<noteq> [] then insert (cm_AuthorSessionID r) A else A"
    have "resolve_members rid C A (m # ms) d = Inr rs \<longleftrightarrow>
        resolve_member rid m d = Inr r \<and> cm_AuthorContributor r \<notin> C \<and>
        (cm_AuthorSessionID r \<noteq> [] \<longrightarrow> cm_AuthorSessionID r \<notin> A) \<and>
        resolve_members rid (insert (cm_AuthorContributor r) C) ?A ms d = Inr rs0"
      by (auto simp: rs and_then_Inr_iff split: if_splits)
    also have "\<dots> \<longleftrightarrow> list_all2 (\<lambda>m r. resolve_member rid m d = Inr r) (m # ms) rs \<and>
     distinct (map cm_AuthorContributor rs) \<and> set (map cm_AuthorContributor rs) \<inter> C = {} \<and>
     distinct (named_sessions rs) \<and> set (named_sessions rs) \<inter> A = {}"
      unfolding Cons.IH by (auto simp: rs named_sessions_def)
    finally show ?thesis .
  qed
qed

definition resolved :: "string \<Rightarrow> DB \<Rightarrow> ProposalMemberRef \<Rightarrow> canonicalMemberRecord" where
  "resolved rid d m = projr (resolve_member rid m d)"

lemma resolved_list:
  "list_all2 (\<lambda>m r. resolve_member rid m d = Inr r) ms rs \<longleftrightarrow>
     rs = map (resolved rid d) ms \<and> (\<forall>m \<in> set ms. \<not> isl (resolve_member rid m d))"
proof (induction ms arbitrary: rs)
  case (Cons m ms)
  show ?case
    by (cases rs; cases "resolve_member rid m d") (auto simp: Cons resolved_def)
qed simp

lemma canonical_members_unique:
  assumes "mset rs = mset rs'" "distinct (map cm_AuthorContributor rs)"
  shows "canonical_members rs = canonical_members rs'"
  unfolding canonical_members_def
proof (rule sort_key_inj_key_eq)
  show "mset rs = mset (sort_key canonical_key rs')" by (simp add: assms(1))
  show "inj_on canonical_key (set rs)"
    using assms(2) by (auto simp: inj_on_def canonical_key_def distinct_map)
qed simp

lemma seal_records_order:
  assumes "seal_records rid ms d = Inr rs" "mset ms = mset ms'"
  shows "seal_records rid ms' d = Inr rs"
proof -
  let ?f = "resolved rid d"
  have rs: "resolve_members rid {} {} ms d = Inr (map ?f ms)" "rs = canonical_members (map ?f ms)"
    using assms(1) by (auto simp: seal_records_def and_then_Inr_iff resolve_members_Inr resolved_list)
  have p: "mset (map ?f ms) = mset (map ?f ms')" by (simp add: assms(2))
  have "mset (map cm_AuthorContributor (map ?f ms)) = mset (map cm_AuthorContributor (map ?f ms'))"
    using assms(2) by simp
  moreover have "mset (named_sessions (map ?f ms)) = mset (named_sessions (map ?f ms'))"
    by (simp only: named_sessions_def mset_filter mset_map assms(2))
  moreover have "set ms' = set ms" using assms(2) by (metis set_mset_mset)
  ultimately have "resolve_members rid {} {} ms' d = Inr (map ?f ms')"
    using rs(1) unfolding resolve_members_Inr resolved_list by (metis inf_bot_right mset_eq_imp_distinct_iff)
  moreover have "canonical_members (map ?f ms') = rs"
    using canonical_members_unique [OF p] rs by (simp add: resolve_members_Inr)
  ultimately show ?thesis by (simp add: seal_records_def)
qed

text \<open>C38 (equivalence). A proposal set is its members: named in any other order they are sealed all the
  same, with the same receipt and the same database, and the digest is that of one canonical list.\<close>

theorem sealing_ignores_the_order:
  assumes "ReleaseArtifacts op lease rid ms now d = Inr (r, d')" "mset ms' = mset ms"
  shows "ReleaseArtifacts op lease rid ms' now d = Inr (r, d')"
proof -
  have "validate_members {} ms = None"
    using assms(1) by (cases "validate_members {} ms") (auto simp: ReleaseArtifacts_def split: if_splits)
  moreover have "mset (map member_key ms') = mset (map member_key ms)" by (simp add: assms(2))
  then have "distinct (map member_key ms') = distinct (map member_key ms)" by (rule mset_eq_imp_distinct_iff)
  moreover have "set ms' = set ms" using assms(2) by (metis set_mset_mset)
  ultimately have v: "validate_members {} ms = None" "validate_members {} ms' = None"
    by (auto simp: validate_members_None list_all_iff)
  obtain rs where rs: "seal_records rid ms d = Inr rs"
    using assms(1) v(1) by (auto simp: ReleaseArtifacts_def and_then_Inr_iff split: if_splits)
  then have "seal_records rid ms' d = seal_records rid ms d" using seal_records_order assms(2) by metis
  moreover have "ms' = [] \<longleftrightarrow> ms = []" using \<open>set ms' = set ms\<close> by auto
  ultimately have "ReleaseArtifacts op lease rid ms' now d = ReleaseArtifacts op lease rid ms now d"
    by (simp only: ReleaseArtifacts_def v)
  then show ?thesis using assms(1) by simp
qed

section \<open>What a member of a sealed set is\<close>

lemma resolve_member_artifact:
  assumes "resolve_member rid m d = Inr r"
  obtains a where "a \<in> set (artifacts d)" "is_artifact (cm_ArtifactID r) (cm_Revision r) a" "a_run_id a = rid"
    "a_digest a = cm_Digest r" "a_session_id a = Some (cm_AuthorSessionID r)"
    "pm_ArtifactID m = cm_ArtifactID r" "pm_Revision m = cm_Revision r" "pm_Digest m = cm_Digest r"
proof -
  obtain a where a: "sel (\<lambda>a. is_artifact (pm_ArtifactID m) (pm_Revision m) a \<and> a_run_id a = rid) (artifacts d) = Some a"
    "a_digest a = pm_Digest m" "artifact_author a d \<noteq> []"
    "r = \<lparr>cm_ArtifactID = pm_ArtifactID m, cm_AuthorContributor = artifact_author a d,
       cm_AuthorSessionID = text_or_empty (a_session_id a), cm_Digest = a_digest a, cm_Revision = pm_Revision m\<rparr>"
    using assms by (auto simp: resolve_member_def split: option.splits if_splits)
  obtain sid where "a_session_id a = Some sid" using a(3) by (auto simp: artifact_author_def split: option.splits)
  with a(4) have r: "cm_ArtifactID r = pm_ArtifactID m" "cm_Revision r = pm_Revision m" "cm_Digest r = a_digest a"
    "a_session_id a = Some (cm_AuthorSessionID r)"
    by (simp_all add: text_or_empty_def)
  have "a \<in> set (artifacts d)" "is_artifact (pm_ArtifactID m) (pm_Revision m) a" "a_run_id a = rid"
    using sel_SomeD [OF a(1)] by simp_all
  then show thesis by (rule that [of a, unfolded r(1-3)]) (use a(2) r(4) in simp_all)
qed

lemma list_all2_right: "list_all2 P as bs \<Longrightarrow> b \<in> set bs \<Longrightarrow> \<exists>a \<in> set as. P a b"
  by (induction rule: list_all2_induct) auto

lemma seal_records_members:
  assumes "seal_records rid ms d = Inr rs"
  shows "distinct (map cm_AuthorContributor rs)" "length rs = length ms"
    "r \<in> set rs \<Longrightarrow> \<exists>m \<in> set ms. resolve_member rid m d = Inr r"
proof -
  obtain rs0 where h: "resolve_members rid {} {} ms d = Inr rs0" "rs = canonical_members rs0"
    using assms by (auto simp: seal_records_def and_then_Inr_iff)
  have m: "mset rs = mset rs0" by (simp add: h(2) canonical_members_def)
  then have "mset (map cm_AuthorContributor rs) = mset (map cm_AuthorContributor rs0)" by simp
  then show "distinct (map cm_AuthorContributor rs)"
    using h(1) mset_eq_imp_distinct_iff unfolding resolve_members_Inr by blast
  show "length rs = length ms"
    using h(1) mset_eq_length [OF m] by (auto simp: resolve_members_Inr dest: list_all2_lengthD)
  show "\<exists>m \<in> set ms. resolve_member rid m d = Inr r" if "r \<in> set rs"
  proof -
    have "r \<in> set rs0" using that m by (metis set_mset_mset)
    then show ?thesis using h(1) list_all2_right unfolding resolve_members_Inr by fast
  qed
qed

section \<open>The invariant\<close>

definition member_sealed :: "DB \<Rightarrow> MemberRow \<Rightarrow> bool" where
  "member_sealed d m \<longleftrightarrow>
     (\<exists>a \<in> set (artifacts d). \<exists>q \<in> set (proposal_sets d).
        q_digest q = m_set_digest m \<and> is_artifact (m_artifact_id m) (m_revision m) a \<and> a_digest a = m_digest m \<and>
        a_released a \<and> a_run_id a = q_run_id q \<and> a_session_id a = Some (m_author_session_id m))"

definition release_recorded :: "DB \<Rightarrow> ArtifactRow \<Rightarrow> bool" where
  "release_recorded d a \<longleftrightarrow>
     (a_released a \<longleftrightarrow> a_proposal_set_digest a \<noteq> None) \<and>
     (\<forall>dg. a_proposal_set_digest a = Some dg \<longrightarrow> (\<exists>m \<in> set (members d). is_member dg (a_artifact_id a) (a_revision a) m))"

definition sealed_ok :: "DB \<Rightarrow> bool" where
  "sealed_ok d \<longleftrightarrow>
     (\<forall>m \<in> set (members d). member_sealed d m) \<and> (\<forall>a \<in> set (artifacts d). release_recorded d a) \<and>
     distinct (map (\<lambda>m. (m_set_digest m, m_author_contributor m)) (members d)) \<and>
     (\<forall>q \<in> set (proposal_sets d). \<exists>m \<in> set (members d). m_set_digest m = q_digest q)"

definition blobs_ok :: "archive \<Rightarrow> bool" where
  "blobs_ok ar \<longleftrightarrow>
     (\<forall>dg c. ar_blobs ar dg = Some c \<longrightarrow> sha256_hex c = dg \<and> \<not> containsDisallowedCredential c) \<and>
     (\<forall>a \<in> set (artifacts (ar_db ar)). \<exists>c. ar_blobs ar (a_digest a) = Some c \<and> a_byte_size a = int (length c))"

definition archive_ok :: "archive \<Rightarrow> bool" where
  "archive_ok ar \<longleftrightarrow> tables_ok (ar_db ar) \<and> sealed_ok (ar_db ar) \<and> blobs_ok ar"

lemma sealed_ok_cong: "artifact_tables d' = artifact_tables d \<Longrightarrow> sealed_ok d' = sealed_ok d"
  by (simp add: artifact_tables_def sealed_ok_def member_sealed_def release_recorded_def)

lemma sealed_ok_insert:
  assumes "sealed_ok d" "insert_artifact a d = Inr d1" "a_proposal_set_digest a = None" "\<not> a_released a"
    "artifact_tables d' = artifact_tables d1"
  shows "sealed_ok d'"
proof -
  have d1: "d1 = d\<lparr>artifacts := artifacts d @ [a]\<rparr>" using artifact_statements(1) [OF assms(2)] by simp
  have "release_recorded d1 a" using assms(3,4) by (simp add: release_recorded_def)
  then have "sealed_ok d1"
    using assms(1) by (auto simp: d1 sealed_ok_def member_sealed_def release_recorded_def)
  then show ?thesis using sealed_ok_cong [OF assms(5)] by simp
qed

lemma commit_publication_cases:
  assumes "commit_publication op l m c now d = Inr (r, d')"
  obtains (replay) "d' = d" "journal_row op d \<noteq> None"
  | (fresh) a d1 j where "insert_artifact a d = Inr d1" "d' = d1\<lparr>journal := journal d1 @ [j]\<rparr>"
      "a_artifact_id a = am_ID m" "a_revision a = am_Revision r" "a_digest a = am_Digest r" "a_run_id a = am_RunID r"
      "am_Digest r = sha256_hex (SanitizeText c)" "a_byte_size a = int (length (SanitizeText c))" "am_ID r = am_ID m"
      "a_proposal_set_digest a = None" "\<not> a_released a"
proof (cases "earlier_publication op d")
  case None
  then obtain a d1 j where "insert_artifact a d = Inr d1" "insert_journal j d1 = Inr d'"
      "a_artifact_id a = am_ID m" "a_revision a = am_Revision r" "a_digest a = am_Digest r" "a_run_id a = am_RunID r"
      "am_Digest r = sha256_hex (SanitizeText c)" "a_byte_size a = int (length (SanitizeText c))" "am_ID r = am_ID m"
      "a_proposal_set_digest a = None" "\<not> a_released a"
    using assms by (auto simp: commit_publication_def Let_def and_then_Inr_iff)
  then show ?thesis using fresh insert_journal_touches by blast
next
  case (Some x)
  then have "d' = d" using assms by (auto simp: commit_publication_def split: prod.splits if_splits)
  moreover have "journal_row op d \<noteq> None" using Some by (auto simp: earlier_publication_def split: option.splits)
  ultimately show ?thesis by (rule replay)
qed

lemma sealed_ok_seal:
  assumes "ReleaseArtifacts op l rid ms now d = Inr (r, d')" "tables_ok d" "sealed_ok d"
  shows "sealed_ok d'"
  using assms(1)
proof (cases rule: ReleaseArtifacts_cases)
  case replay
  then show ?thesis using assms(3) by simp
next
  case (sealed g rs j)
  let ?dg = "proposal_set_digest rs"
  let ?q = "\<lparr>q_digest = ?dg, q_run_id = rid, q_released_by = op, q_issuing_generation = g, q_sealed_at = now\<rparr>"
  let ?as = "upd (sealed_in rid rs) (release_row ?dg) (artifacts d)"
  have new: "m_set_digest m \<noteq> ?dg" if "m \<in> set (members d)" for m
    using assms(2) sealed(7) that by (auto simp: tables_defs set_row_def is_set_def sel_None_iff)
  have t: "artifacts d' = ?as" "proposal_sets d' = proposal_sets d @ [?q]"
    "members d' = members d @ map (member_row ?dg) rs"
    using sealed(8) by simp_all
  have "member_sealed d' m" if m: "m \<in> set (members d)" for m
  proof -
    obtain a q where a: "a \<in> set (artifacts d)" "q \<in> set (proposal_sets d)" "q_digest q = m_set_digest m"
      "is_artifact (m_artifact_id m) (m_revision m) a" "a_digest a = m_digest m" "a_released a" "a_run_id a = q_run_id q"
      "a_session_id a = Some (m_author_session_id m)"
      using assms(3) m by (auto simp: sealed_ok_def member_sealed_def)
    let ?a = "if sealed_in rid rs a then release_row ?dg a else a"
    have "?a \<in> set (artifacts d')" using a(1) by (auto simp: t set_upd)
    moreover have "a_released ?a" using a(6) by (simp add: release_row_def)
    ultimately show ?thesis
      unfolding member_sealed_def using a by (intro bexI [of _ ?a] bexI [of _ q]) (auto simp: t)
  qed
  moreover have "member_sealed d' (member_row ?dg x)" if x: "x \<in> set rs" for x
  proof -
    obtain m where "resolve_member rid m d = Inr x" using seal_records_members(3) [OF sealed(5) x] by blast
    then obtain a where a: "a \<in> set (artifacts d)" "is_artifact (cm_ArtifactID x) (cm_Revision x) a" "a_run_id a = rid"
      "a_digest a = cm_Digest x" "a_session_id a = Some (cm_AuthorSessionID x)"
      by (rule resolve_member_artifact)
    have "sealed_in rid rs a" using a x by (auto simp: sealed_in_def)
    then have "release_row ?dg a \<in> set (artifacts d')" using a(1) by (auto simp: t set_upd)
    then show ?thesis
      unfolding member_sealed_def using a
      by (intro bexI [of _ "release_row ?dg a"] bexI [of _ ?q]) (auto simp: t member_row_def release_row_def is_artifact_def)
  qed
  moreover have "release_recorded d' a" if m: "a \<in> set (artifacts d')" for a
  proof -
    obtain b where b: "b \<in> set (artifacts d)" "a = (if sealed_in rid rs b then release_row ?dg b else b)"
      using m by (auto simp: t upd_def)
    show ?thesis
    proof (cases "sealed_in rid rs b")
      case True
      then obtain x where x: "x \<in> set rs" "is_artifact (cm_ArtifactID x) (cm_Revision x) b" by (auto simp: sealed_in_def)
      then have "member_row ?dg x \<in> set (members d') \<and> is_member ?dg (a_artifact_id b) (a_revision b) (member_row ?dg x)"
        by (simp add: t member_row_def is_member_def is_artifact_def)
      then show ?thesis using b True by (auto simp: release_recorded_def release_row_def)
    next
      case False
      then show ?thesis using b assms(3)
        by (auto simp: sealed_ok_def release_recorded_def t bex_Un)
    qed
  qed
  moreover have "distinct (map (\<lambda>m. (m_set_digest m, m_author_contributor m)) (members d'))"
  proof -
    have "distinct (map (\<lambda>m. (m_set_digest m, m_author_contributor m)) (map (member_row ?dg) rs))"
      using seal_records_members(1) [OF sealed(5)] by (simp add: member_row_def distinct_map inj_on_def comp_def)
    then show ?thesis using assms(3) new by (auto simp: t sealed_ok_def member_row_def)
  qed
  moreover have "rs \<noteq> []" using seal_records_members(2) [OF sealed(5)] sealed(4) by auto
  then have "\<exists>m \<in> set (members d'). m_set_digest m = q_digest q" if "q \<in> set (proposal_sets d')" for q
    using that assms(3) by (cases rs) (auto simp: t sealed_ok_def member_row_def)
  ultimately show ?thesis by (auto simp: sealed_ok_def t)
qed

lemma sealed_ok_exec:
  assumes "store_exec c now d = Inr (r, d')" "tables_ok d" "sealed_ok d"
  shows "sealed_ok d'"
proof (cases "artifact_command c")
  case False
  show ?thesis using assms(3) sealed_ok_cong [OF artifact_tables_kept [OF assms(1) False]] by simp
next
  case True
  then consider (publish) op l m x r0 where "commit_publication op l m x now d = Inr (r0, d')"
    | (seal) op l rid ms r0 where "ReleaseArtifacts op l rid ms now d = Inr (r0, d')"
    using assms(1) by (cases c) (auto simp: as_result_Inr)
  then show ?thesis
  proof cases
    case publish
    then show ?thesis
    proof (cases rule: commit_publication_cases)
      case (fresh a d1 j)
      show ?thesis by (rule sealed_ok_insert [OF assms(3) fresh(1,10,11)]) (simp add: fresh(2) artifact_tables_def)
    qed (use assms(3) in simp)
  qed (rule sealed_ok_seal [OF _ assms(2,3)])
qed

lemma writeCASBlob_cases:
  assumes "writeCASBlob c dg ar = Inr ar1"
  obtains (old) "ar1 = ar" "ar_blobs ar dg = Some c"
  | (new) "ar_blobs ar dg = None" "ar1 = ar\<lparr>ar_blobs := (ar_blobs ar)(dg \<mapsto> c)\<rparr>"
proof (cases "ar_blobs ar dg")
  case None
  then show ?thesis using assms new by (simp add: writeCASBlob_def)
next
  case (Some b)
  then have "ReadArtifact dg ar = Inr c" "ar1 = ar" using assms by (simp_all add: writeCASBlob_def split: if_splits)
  then show ?thesis using old Some by (simp add: ReadArtifact_def split: if_splits)
qed

lemma write_blob:
  assumes "writeCASBlob c (sha256_hex c) ar = Inr ar1"
  shows "blobs_ok ar \<Longrightarrow> \<not> containsDisallowedCredential c \<Longrightarrow> blobs_ok ar1" "ar_db ar1 = ar_db ar"
    "ar_blobs ar1 (sha256_hex c) = Some c" "ar_blobs ar dg = Some b \<Longrightarrow> ar_blobs ar1 dg = Some b"
proof -
  show "blobs_ok ar1" if ok: "blobs_ok ar" and c: "\<not> containsDisallowedCredential c"
    using assms
  proof (cases rule: writeCASBlob_cases)
    case new
    have "\<exists>b. ar_blobs ar1 (a_digest a) = Some b \<and> a_byte_size a = int (length b)"
      if a: "a \<in> set (artifacts (ar_db ar1))" for a
    proof -
      obtain b where b: "ar_blobs ar (a_digest a) = Some b" "a_byte_size a = int (length b)"
        using ok a by (auto simp: blobs_ok_def new(2))
      then have "a_digest a \<noteq> sha256_hex c" using new(1) by auto
      then show ?thesis using b by (simp add: new(2))
    qed
    moreover have "sha256_hex b = dg \<and> \<not> containsDisallowedCredential b" if "ar_blobs ar1 dg = Some b" for dg b
      using that ok c by (cases "dg = sha256_hex c") (simp_all add: new(2) blobs_ok_def)
    ultimately show ?thesis by (simp add: blobs_ok_def)
  qed (use ok in simp)
  show "ar_db ar1 = ar_db ar" "ar_blobs ar1 (sha256_hex c) = Some c"
    using assms by (cases rule: writeCASBlob_cases; simp)+
  show "ar_blobs ar dg = Some b \<Longrightarrow> ar_blobs ar1 dg = Some b"
    using assms by (cases rule: writeCASBlob_cases) auto
qed

lemma observe_cases:
  assumes "RecordObservedArtifact r name content now ar = (x, ar1)"
  obtains (same) "ar1 = ar" "\<forall>m. x = Inr m \<longrightarrow> observed_artifact r name (ar_db ar) \<noteq> None"
  | (orphan) "writeCASBlob (SanitizeText content) (sha256_hex (SanitizeText content)) ar = Inr ar1" "isl x"
  | (fresh) ar0 rid d where "writeCASBlob (SanitizeText content) (sha256_hex (SanitizeText content)) ar = Inr ar0"
      "artifact_execution r (ar_db ar) = Inr rid" "\<not> blank name"
      "insert_artifact (observed_row r name rid (SanitizeText content) now (ar_db ar)) (ar_db ar) = Inr d"
      "ar1 = ar0\<lparr>ar_db := d\<rparr>"
      "x = Inr (observed_metadata r name rid (observed_row r name rid (SanitizeText content) now (ar_db ar)))"
proof -
  let ?s = "SanitizeText content"
  note run = assms [unfolded RecordObservedArtifact_def Let_def]
  show thesis
  proof (cases "ExecutionRef_validate r \<noteq> None \<or> blank name \<or> unsafe_name name \<or> maxArtifactSize < length content")
    case True
    then show thesis using run same by (auto split: if_splits)
  next
    case False
    show thesis
    proof (cases "artifact_execution r (ar_db ar)")
      case (Inl e)
      then show thesis using run False same by auto
    next
      case e: (Inr rid)
      show thesis
      proof (cases "observed_artifact r name (ar_db ar)")
        case (Some a)
        then show thesis using run False e same by (auto split: if_splits)
      next
        case None
        show thesis
        proof (cases "writeCASBlob ?s (sha256_hex ?s) ar")
          case (Inl e)
          then show thesis using run False e None same by auto
        next
          case w: (Inr ar0)
          show thesis
          proof (cases "insert_artifact (observed_row r name rid ?s now (ar_db ar0)) (ar_db ar0)")
            case (Inl y)
            then show thesis using run False e None w orphan by auto
          next
            case (Inr d)
            then have "x = Inr (observed_metadata r name rid (observed_row r name rid ?s now (ar_db ar0)))"
              "ar1 = ar0\<lparr>ar_db := d\<rparr>"
              using run False e None w by auto
            then show thesis
              by (intro fresh [OF w e]) (use False Inr write_blob(2) [OF w] in simp_all)
          qed
        qed
      qed
    qed
  qed
qed

text \<open>Nothing recorded is lost: blobs stay, and a row changes only its release.\<close>

definition unreleased :: "ArtifactRow \<Rightarrow> ArtifactRow" where
  "unreleased a = a\<lparr>a_released := False, a_proposal_set_digest := None\<rparr>"

lemma unreleased_release [simp]: "unreleased (release_row dg a) = unreleased a"
  by (simp add: unreleased_def release_row_def)

lemma unreleasedD:
  assumes "unreleased a = unreleased b"
  shows "is_artifact i v a = is_artifact i v b" "a_digest a = a_digest b" "a_byte_size a = a_byte_size b"
    "a_run_id a = a_run_id b" "row_metadata a sid k = row_metadata b sid k"
  using assms by (cases a; cases b; simp add: unreleased_def is_artifact_def row_metadata_def)+

definition grown :: "archive \<Rightarrow> archive \<Rightarrow> bool" where
  "grown ar ar' \<longleftrightarrow> ar_blobs ar \<subseteq>\<^sub>m ar_blobs ar' \<and>
     unreleased ` set (artifacts (ar_db ar)) \<subseteq> unreleased ` set (artifacts (ar_db ar'))"

lemma grown_refl [simp]: "grown ar ar"
  by (auto simp: grown_def)

lemma grown_trans: "grown ar ar' \<Longrightarrow> grown ar' ar'' \<Longrightarrow> grown ar ar''"
  unfolding grown_def by (blast intro: map_le_trans)

lemma exec_grows:
  assumes "store_exec c now d = Inr (r, d')"
  shows "unreleased ` set (artifacts d) \<subseteq> unreleased ` set (artifacts d')"
proof (cases "artifact_command c")
  case False
  then show ?thesis using artifact_tables_kept [OF assms(1)] by (simp add: artifact_tables_def)
next
  case True
  then consider (publish) op l m x r0 where "commit_publication op l m x now d = Inr (r0, d')"
    | (seal) op l rid ms r0 where "ReleaseArtifacts op l rid ms now d = Inr (r0, d')"
    using assms(1) by (cases c) (auto simp: as_result_Inr)
  then show ?thesis
  proof cases
    case publish
    then show ?thesis
    proof (cases rule: commit_publication_cases)
      case (fresh b d1 j)
      then have "artifacts d' = artifacts d @ [b]" using artifact_statements(1) [OF fresh(1)] by simp
      then show ?thesis by auto
    qed simp
  next
    case seal
    then show ?thesis by (cases rule: ReleaseArtifacts_cases) (simp_all add: upd_image)
  qed
qed

lemma store_step_grows: "unreleased ` set (artifacts d) \<subseteq> unreleased ` set (artifacts (store_step (c, now) d))"
  by (cases rule: store_step_cases [of c now d]) (use exec_grows in simp_all)

text \<open>What a store command other than a publication does to the digests and sizes of the rows: nothing.\<close>

definition row_content :: "ArtifactRow \<Rightarrow> string \<times> int" where
  "row_content a = (a_digest a, a_byte_size a)"

lemma exec_contents:
  assumes "store_exec c now d = Inr (r, d')" "\<not> publishes c"
  shows "row_content ` set (artifacts d') = row_content ` set (artifacts d)"
proof (cases "artifact_command c")
  case False
  then show ?thesis using artifact_tables_kept [OF assms(1)] by (simp add: artifact_tables_def)
next
  case True
  then obtain op l rid ms r0 where "ReleaseArtifacts op l rid ms now d = Inr (r0, d')"
    using assms by (cases c) (auto simp: as_result_Inr)
  then show ?thesis
    by (cases rule: ReleaseArtifacts_cases) (simp_all add: upd_image row_content_def)
qed

lemma blobs_ok_iff:
  "blobs_ok ar \<longleftrightarrow>
     (\<forall>dg c. ar_blobs ar dg = Some c \<longrightarrow> sha256_hex c = dg \<and> \<not> containsDisallowedCredential c) \<and>
     (\<forall>x \<in> row_content ` set (artifacts (ar_db ar)). \<exists>c. ar_blobs ar (fst x) = Some c \<and> snd x = int (length c))"
  by (auto simp: blobs_ok_def row_content_def)

section \<open>Every step keeps it\<close>

lemma write_blob_map: "writeCASBlob c (sha256_hex c) ar = Inr ar1 \<Longrightarrow> ar_blobs ar \<subseteq>\<^sub>m ar_blobs ar1"
  by (erule writeCASBlob_cases) (auto simp: map_le_def)

text \<open>What a step does to the archive: a store command, a blob, a row for a blob that is there, nothing.\<close>

lemma archive_step_cases:
  obtains (store) c r d' where "x = ArStore c" "\<not> publishes c" "store_exec c now (ar_db ar) = Inr (r, d')"
      "archive_step (x, now) ar = ar\<lparr>ar_db := d'\<rparr>"
  | (blob) c where "writeCASBlob (SanitizeText c) (sha256_hex (SanitizeText c)) ar = Inr (archive_step (x, now) ar)"
  | (row) c ar0 a d1 d' where "ar_blobs ar0 (sha256_hex (SanitizeText c)) = Some (SanitizeText c)"
      "blobs_ok ar \<Longrightarrow> blobs_ok ar0" "ar_blobs ar \<subseteq>\<^sub>m ar_blobs ar0" "ar_db ar0 = ar_db ar"
      "insert_artifact a (ar_db ar) = Inr d1" "artifact_tables d' = artifact_tables d1"
      "tables_ok (ar_db ar) \<Longrightarrow> tables_ok d'"
      "a_digest a = sha256_hex (SanitizeText c)" "a_byte_size a = int (length (SanitizeText c))"
      "a_proposal_set_digest a = None" "\<not> a_released a" "archive_step (x, now) ar = ar0\<lparr>ar_db := d'\<rparr>"
  | (same) "archive_step (x, now) ar = ar"
proof (cases x)
  case (ArStore c)
  show thesis
  proof (cases "publishes c")
    case False
    then show thesis
      using ArStore store same by (cases rule: store_step_cases [of c now "ar_db ar"]) auto
  qed (use ArStore same in simp)
next
  case (ArInstall c)
  then show thesis
    using same blob [of c] by (cases "writeCASBlob (SanitizeText c) (sha256_hex (SanitizeText c)) ar") simp_all
next
  case (ArCommit op l m c)
  show thesis
  proof (cases "installed c ar")
    case inst: True
    show thesis
    proof (cases rule: store_step_cases [of "CmdPublish op l m c" now "ar_db ar"])
      case (succeeds r d')
      have s: "archive_step (x, now) ar = ar\<lparr>ar_db := d'\<rparr>" using ArCommit inst succeeds by simp
      obtain r0 where r0: "commit_publication op l m c now (ar_db ar) = Inr (r0, d')"
        using succeeds by (auto simp: as_result_Inr)
      then show thesis
      proof (cases rule: commit_publication_cases)
        case (fresh a d1 j)
        have at: "artifact_tables d' = artifact_tables d1" by (simp add: fresh(2) artifact_tables_def)
        show thesis
          by (rule row [OF inst [unfolded installed_def] _ _ refl fresh(1) at])
            (use fresh s tables.store_exec_all [OF succeeds(1)] in simp_all)
      qed (use s same in simp)
    qed (use ArCommit inst same in simp)
  qed (use ArCommit same in simp)
next
  case (ArObserve r name c)
  obtain y ar1 where o: "RecordObservedArtifact r name c now ar = (y, ar1)" by fastforce
  then show thesis
  proof (cases rule: observe_cases)
    case (fresh ar0 rid d)
    note w = write_blob [OF fresh(1)]
    show thesis
      by (rule row [OF w(3) w(1) write_blob_map [OF fresh(1)] w(2) fresh(4) refl])
        (use fresh o ArObserve insert_artifact_tables [OF fresh(4)] sanitized_clean in \<open>simp_all add: observed_row_def\<close>)
  qed (use o ArObserve same blob in auto)
qed

lemma blobs_ok_append:
  assumes "blobs_ok ar" "artifacts d = artifacts (ar_db ar) @ [a]" "ar_blobs ar (a_digest a) = Some c"
    "a_byte_size a = int (length c)"
  shows "blobs_ok (ar\<lparr>ar_db := d\<rparr>)"
  using assms unfolding blobs_ok_iff by (auto simp: row_content_def)

lemma archive_step_keeps:
  assumes "archive_ok ar"
  shows "archive_ok (archive_step (x, now) ar)" "grown ar (archive_step (x, now) ar)"
proof -
  have t: "tables_ok (ar_db ar)" "sealed_ok (ar_db ar)" "blobs_ok ar" using assms by (simp_all add: archive_ok_def)
  have "archive_ok (archive_step (x, now) ar) \<and> grown ar (archive_step (x, now) ar)"
  proof (cases rule: archive_step_cases [of x now ar])
    case (store c r d')
    have "blobs_ok (ar\<lparr>ar_db := d'\<rparr>)"
      using t(3) exec_contents [OF store(3,2)] by (simp add: blobs_ok_iff)
    then show ?thesis
      using tables.store_exec_all [OF store(3) t(1)] sealed_ok_exec [OF store(3) t(1,2)] exec_grows [OF store(3)]
      by (simp add: store(4) archive_ok_def grown_def)
  next
    case (blob c)
    then show ?thesis
      using t write_blob(1,2) [OF blob] write_blob_map [OF blob] sanitized_clean by (simp add: archive_ok_def grown_def)
  next
    case (row c ar0 a d1 d')
    have as: "artifacts d' = artifacts (ar_db ar) @ [a]"
      using artifact_statements(1) [OF row(5)] row(6) by (simp add: artifact_tables_def)
    have b0: "blobs_ok ar0" by (rule row(2) [OF t(3)])
    have "blobs_ok (ar0\<lparr>ar_db := d'\<rparr>)"
      by (rule blobs_ok_append [OF b0]) (use row(1,8,9) in \<open>simp_all add: as row(4)\<close>)
    moreover have "grown ar (ar0\<lparr>ar_db := d'\<rparr>)" using row(3) by (simp add: grown_def as subset_insertI)
    ultimately show ?thesis
      using row(7) [OF t(1)] sealed_ok_insert [OF t(2) row(5,10,11,6)] by (simp add: row(12) archive_ok_def)
  qed (use assms in simp)
  then show "archive_ok (archive_step (x, now) ar)" "grown ar (archive_step (x, now) ar)" by simp_all
qed

lemma archive_ok_empty: "archive_ok empty_archive"
  by (simp add: archive_ok_def empty_archive_def tables_ok_empty)
    (simp add: sealed_ok_def blobs_ok_def empty_db_def)

lemma archive_run_keeps:
  assumes "archive_ok ar"
  shows "archive_ok (archive_run cs ar) \<and> grown ar (archive_run cs ar)"
  by (rule archive_run_invariant [where I = "\<lambda>x. archive_ok x \<and> grown ar x"])
    (use assms archive_step_keeps grown_trans in auto)

lemma archive_reached: "ar = archive_run cs empty_archive \<Longrightarrow> archive_ok ar"
  using archive_run_keeps [OF archive_ok_empty] by simp

text \<open>C34 (invariant). Whatever calls run, in any interleaving of their steps: every artifact row has its
  blob, of the recorded size, stored under its own hash and free of credentials; an artifact is
  released exactly when it names the set it was released in; and a sealed set has members, one per
  contributor, each a released artifact of the set's run with the digest that was sealed.\<close>

theorem archive_is_consistent: "archive_ok (archive_run cs empty_archive)"
  using archive_run_keeps [OF archive_ok_empty] by simp

section \<open>Reading back\<close>

lemma isValidDigest_sha [simp]: "isValidDigest (sha256_hex s)"
  using sha256_hex_digits by (simp add: isValidDigest_def list_all_iff)

lemma read_row_blob:
  assumes "ar_blobs ar (a_digest a) = Some c" "a_byte_size a = int (length c)" "a_digest a = sha256_hex c"
    "length c \<le> maxArtifactSize"
  shows "read_row a ar = Inr c"
  using assms by (simp add: read_row_def ReadArtifact_def)

lemma artifact_row_unique:
  assumes "tables_ok d" "a \<in> set (artifacts d)" "is_artifact i v a"
  shows "artifact_row i v d = Some a"
proof -
  obtain b where b: "artifact_row i v d = Some b"
    using assms(2,3) by (cases "artifact_row i v d") (auto simp: artifact_row_def sel_None_iff)
  then have "b \<in> set (artifacts d)" "is_artifact i v b" by (auto simp: artifact_row_def dest: sel_SomeD)
  moreover have "distinct (map artifact_key (artifacts d))" using assms(1) by (simp add: tables_defs)
  ultimately have "b = a" using key_unique assms(2,3) by (fastforce simp: artifact_key_def is_artifact_def)
  then show ?thesis using b by simp
qed

lemma row_reads_back:
  assumes ok: "archive_ok ar" and row: "a \<in> set (artifacts (ar_db ar))" "is_artifact i v a" "\<not> blank i"
    and blob: "ar_blobs ar (a_digest a) = Some c" "length c \<le> maxArtifactSize"
  shows "ReadArtifactRevision i v (archive_run cs ar) = Inr (row_metadata a [] [], c)"
proof -
  let ?ar = "archive_run cs ar"
  have ok': "archive_ok ?ar" and g: "grown ar ?ar" using archive_run_keeps [OF ok] by simp_all
  obtain b where b: "b \<in> set (artifacts (ar_db ?ar))" "unreleased a = unreleased b"
    using g row(1) by (force simp: grown_def)
  have d: "tables_ok (ar_db ar)" "tables_ok (ar_db ?ar)" using ok ok' by (simp_all add: archive_ok_def)
  have "artifact_row i v (ar_db ?ar) = Some b"
    using artifact_row_unique [OF d(2) b(1)] unreleasedD(1) [OF b(2)] row(2) by simp
  moreover have "0 < v"
    using d(1) row(1,2) by (fastforce simp: tables_defs is_artifact_def)
  moreover have "ar_blobs ?ar (a_digest a) = Some c"
    using g blob(1) by (auto simp: grown_def map_le_def dom_def)
  then have "read_row b ?ar = Inr c"
  proof (intro read_row_blob)
    have "a_digest a = sha256_hex c" "a_byte_size a = int (length c)"
      using ok row(1) blob(1) by (auto simp: archive_ok_def blobs_ok_def)
    then show "a_byte_size b = int (length c)" "a_digest b = sha256_hex c"
      using unreleasedD(2,3) [OF b(2)] by simp_all
  qed (use blob(2) unreleasedD(2) [OF b(2)] in simp_all)
  ultimately show ?thesis
    using row(3) unreleasedD(5) [OF b(2)] by (simp add: ReadArtifactRevision_def)
qed

text \<open>C35 (roundtrip). What was accepted reads back: after a call that recorded a new artifact, observed
  from a worker or published, and whatever happens later, the revision it answered with is read as
  exactly the redacted content, under the digest and in the run of the answer.\<close>

theorem artifact_reads_back:
  assumes "ar = archive_run cs empty_archive"
    and "RecordObservedArtifact r name content now ar = (Inr m, ar1) \<and> observed_artifact r name (ar_db ar) = None \<or>
      PublishArtifact op lease meta content now ar = (Inr m, ar1) \<and> journal_row op (ar_db ar) = None \<and> \<not> blank (am_ID meta)"
    and "length (SanitizeText content) \<le> maxArtifactSize"
  shows "\<exists>x. ReadArtifactRevision (am_ID m) (am_Revision m) (archive_run later ar1) = Inr (x, SanitizeText content) \<and>
    am_Digest x = am_Digest m \<and> am_RunID x = am_RunID m"
proof -
  let ?s = "SanitizeText content"
  have ok: "archive_ok ar" using archive_reached assms(1) .
  have *: ?thesis if h: "archive_ok ar1" "a \<in> set (artifacts (ar_db ar1))" "is_artifact (am_ID m) (am_Revision m) a"
    "\<not> blank (am_ID m)" "ar_blobs ar1 (a_digest a) = Some ?s" "a_digest a = am_Digest m" "a_run_id a = am_RunID m" for a
    using row_reads_back [OF h(1-5) assms(3)] h(6,7) by (simp add: row_metadata_def)
  from assms(2) show ?thesis
  proof (elim disjE conjE)
    assume o: "RecordObservedArtifact r name content now ar = (Inr m, ar1)" "observed_artifact r name (ar_db ar) = None"
    have "archive_ok ar1" using archive_step_keeps(1) [OF ok, of "ArObserve r name content" now] o(1) by simp
    with o show ?thesis
    proof (cases rule: observe_cases [consumes 1])
      case (fresh ar0 rid d)
      show ?thesis
        by (rule * [OF \<open>archive_ok ar1\<close>, of "observed_row r name rid ?s now (ar_db ar)"])
          (use fresh artifact_statements(1) [OF fresh(4)] write_blob(3) [OF fresh(1)] in
            \<open>auto simp: observed_metadata_def observed_row_def is_artifact_def\<close>)
    qed auto
  next
    assume p: "PublishArtifact op lease meta content now ar = (Inr m, ar1)" "journal_row op (ar_db ar) = None" "\<not> blank (am_ID meta)"
    have c: "check_publication op lease meta content (ar_db ar) = Inr None"
      using p by (auto simp: PublishArtifact_def check_publication_def earlier_publication_def and_then_Inr_iff Let_def
          split: sum.splits option.splits if_splits)
    then obtain ar0 d where w: "writeCASBlob ?s (sha256_hex ?s) ar = Inr ar0"
      and k: "commit_publication op lease meta content now (ar_db ar0) = Inr (m, d)" "ar1 = ar0\<lparr>ar_db := d\<rparr>"
      using p(1) by (auto simp: PublishArtifact_def Let_def split: sum.splits)
    have "archive_ok ar1"
      using publication_steps [OF p(1)] archive_run_keeps [OF ok] ok by blast
    from k(1) show ?thesis
    proof (cases rule: commit_publication_cases)
      case (fresh a d1 j)
      show ?thesis
        by (rule * [OF \<open>archive_ok ar1\<close>, of a])
          (use fresh k(2) p(3) artifact_statements(1) [OF fresh(1)] write_blob(3) [OF w] in
            \<open>auto simp: is_artifact_def\<close>)
    qed (use p(2) write_blob(2) [OF w] in simp)
  qed
qed

section \<open>Reading what others proposed\<close>

lemma newest_member: "newest as = Some a \<Longrightarrow> a \<in> set as"
  by (induction as arbitrary: a) (auto split: option.splits if_splits)

lemma read_newest_Inr:
  assumes "read_newest p ar = Inr (c, m)"
  obtains a where "a \<in> set (artifacts (ar_db ar))" "p a" "ReadArtifact (a_digest a) ar = Inr c"
    "am_ID m = a_artifact_id a" "am_Revision m = a_revision a" "am_Digest m = a_digest a" "am_RunID m = a_run_id a"
proof -
  obtain a where a: "newest (filter p (artifacts (ar_db ar))) = Some a" "read_row a ar = Inr c"
    "m = row_metadata a (text_or_empty (a_session_id a)) (row_turn_key a (ar_db ar))"
    using assms by (auto simp: read_newest_def and_then_Inr_iff split: option.splits)
  have "ReadArtifact (a_digest a) ar = Inr c" using a(2) by (auto simp: read_row_def and_then_Inr_iff split: if_splits)
  then show thesis using that [of a] newest_member [OF a(1)] by (simp add: a(3) row_metadata_def)
qed


section \<open>Releasing\<close>


section \<open>A concrete archive\<close>

text \<open>The worker of the scenario's running turn writes an artifact, and the controller seals it.\<close>

lemma hash_not_blank [simp]: "\<not> blank (sha256_hex s)"
proof (cases "sha256_hex s")
  case Nil
  then show ?thesis using length_sha256_hex [of s] by simp
next
  case (Cons c t)
  then have "CHR ''0'' \<le> c \<and> c \<le> CHR ''9'' \<or> CHR ''a'' \<le> c \<and> c \<le> CHR ''f''"
    using sha256_hex_digits [of c s] by simp
  then have "c \<notin> set space_leads" by (auto simp: less_eq_char_def)
  then show ?thesis unfolding Cons by (rule not_blank_Cons)
qed

lemma archive_of_store:
  "list_all (\<lambda>c. \<not> publishes (fst c)) cs \<Longrightarrow>
   archive_run (map (\<lambda>c. (ArStore (fst c), snd c)) cs) ar = ar\<lparr>ar_db := store_run cs (ar_db ar)\<rparr>"
  by (induction cs arbitrary: ar) auto

definition demo_history :: "(archive_op \<times> time) list" where
  "demo_history = map (\<lambda>c. (ArStore (fst c), snd c)) demo_running"

definition demo_archive :: archive where
  "demo_archive = \<lparr>ar_db = demo_db2, ar_blobs = (\<lambda>dg. None)\<rparr>"

lemma demo_archived: "archive_run demo_history empty_archive = demo_archive"
proof -
  have "list_all (\<lambda>c. \<not> publishes (fst c)) demo_running" by (simp add: demo_defs)
  from archive_of_store [OF this, of empty_archive] show ?thesis
    by (simp add: demo_history_def demo_running_db demo_archive_def empty_archive_def)
qed

definition demo_author :: ExecutionRef where
  "demo_author = \<lparr>er_SessionID = ''s'', er_TurnKey = ''t'', er_AttemptID = ''att_3_t''\<rparr>"

definition demo_artifact :: ArtifactRow where
  "demo_artifact = \<lparr>a_artifact_id = ''n'', a_revision = 1, a_run_id = ''r'', a_kind = ''n'', a_digest = sha256_hex ''ok'',
     a_byte_size = 2, a_created_at = 7, a_session_id = Some ''s'', a_attempt_id = Some ''att_3_t'',
     a_released = False, a_proposal_set_digest = None\<rparr>"

definition demo_observed :: archive where
  "demo_observed = \<lparr>ar_db = demo_db2\<lparr>artifacts := [demo_artifact]\<rparr>, ar_blobs = [sha256_hex ''ok'' \<mapsto> ''ok'']\<rparr>"

lemma demo_observation:
  "RecordObservedArtifact demo_author ''n'' ''ok'' 7 demo_archive =
     (Inr (observed_metadata demo_author ''n'' ''r'' demo_artifact), demo_observed)"
  by (simp add: RecordObservedArtifact_def Let_def demo_archive_def demo_author_def ExecutionRef_validate_def unsafe_name_def
      maxArtifactSize_def artifact_execution_def row_defs is_row_defs demo_db2_eval observed_artifact_def
      artifact_turn_statuses_def writeCASBlob_def insert_artifact_def artifact_row_def observed_row_def next_revision_def
      demo_artifact_def demo_observed_def starts_with_def)

lemma demo_observed_reached: "archive_run (demo_history @ [(ArObserve demo_author ''n'' ''ok'', 7)]) empty_archive = demo_observed"
  by (simp add: demo_archived demo_observation)

definition demo_members :: "ProposalMemberRef list" where
  "demo_members = [\<lparr>pm_ArtifactID = ''n'', pm_Revision = 1, pm_Digest = sha256_hex ''ok''\<rparr>]"

definition demo_set :: string where
  "demo_set = proposal_set_digest [\<lparr>cm_ArtifactID = ''n'', cm_AuthorContributor = ''claude'', cm_AuthorSessionID = ''s'',
     cm_Digest = sha256_hex ''ok'', cm_Revision = 1\<rparr>]"

lemmas seal_eval = ReleaseArtifacts_def member_key_def seal_records_def resolve_member_def artifact_author_def is_artifact_def
  canonical_members_def canonical_key_def seal_replay_def insert_set_def set_row_def is_set_def insert_member_def
  is_member_def member_row_def release_artifact_def release_row_def upd_def

lemma demo_sealing:
  "\<exists>r d. ReleaseArtifacts ''o8'' ''k'' ''r'' demo_members 8 (ar_db demo_observed) = Inr (r, d) \<and>
     artifacts d = [release_row demo_set demo_artifact] \<and> set_of_run demo_set ''r'' d \<and>
     sel (is_member demo_set ''n'' 1) (members d) \<noteq> None \<and> sessions d = [demo_run] \<and> turns d = turns demo_db2"
  by (simp add: demo_observed_def demo_members_def seal_eval store_eval demo_db2_eval demo_artifact_def demo_set_def set_of_run_def)

lemma demo_sealed_reached:
  assumes "ReleaseArtifacts ''o8'' ''k'' ''r'' demo_members 8 (ar_db demo_observed) = Inr (r, d)"
  shows "archive_step (ArStore (CmdSeal ''o8'' ''k'' ''r'' demo_members), 8) demo_observed = demo_observed\<lparr>ar_db := d\<rparr>"
    "archive_run (demo_history @ [(ArObserve demo_author ''n'' ''ok'', 7), (ArStore (CmdSeal ''o8'' ''k'' ''r'' demo_members), 8)])
       empty_archive = demo_observed\<lparr>ar_db := d\<rparr>"
  using assms by (simp_all add: demo_archived demo_observation as_result_def)

lemma artifact_reads_back_witness:
  "\<exists>x. ReadArtifactRevision ''n'' 1 (archive_run [(ArStore (CmdSeal ''o8'' ''k'' ''r'' demo_members), 8)] demo_observed) =
     Inr (x, ''ok'') \<and> am_Digest x = sha256_hex ''ok''"
proof -
  have "RecordObservedArtifact demo_author ''n'' ''ok'' 7 demo_archive =
      (Inr (observed_metadata demo_author ''n'' ''r'' demo_artifact), demo_observed) \<and>
      observed_artifact demo_author ''n'' (ar_db demo_archive) = None"
    by (simp add: demo_observation) (simp add: observed_artifact_def demo_archive_def demo_db2_eval)
  from artifact_reads_back [OF demo_archived [symmetric] disjI1 [OF this],
      of "[(ArStore (CmdSeal ''o8'' ''k'' ''r'' demo_members), 8)]"]
  show ?thesis by (simp add: maxArtifactSize_def observed_metadata_def demo_artifact_def) blast
qed



text \<open>Two contributors of one run, each with an artifact.\<close>

definition demo_pair_db :: DB where
  "demo_pair_db = demo_db2\<lparr>sessions := [demo_run, demo_run\<lparr>s_session_id := ''s2'', s_contributor := ''codex''\<rparr>],
     artifacts := [demo_artifact\<lparr>a_digest := ''d1''\<rparr>,
       demo_artifact\<lparr>a_artifact_id := ''m'', a_digest := ''d2'', a_session_id := Some ''s2''\<rparr>]\<rparr>"

definition demo_pair :: "ProposalMemberRef list" where
  "demo_pair = [\<lparr>pm_ArtifactID = ''n'', pm_Revision = 1, pm_Digest = ''d1''\<rparr>,
     \<lparr>pm_ArtifactID = ''m'', pm_Revision = 1, pm_Digest = ''d2''\<rparr>]"

lemma sealing_ignores_the_order_witness:
  "\<exists>r d. ReleaseArtifacts ''o8'' ''k'' ''r'' demo_pair 8 demo_pair_db = Inr (r, d) \<and>
     ReleaseArtifacts ''o8'' ''k'' ''r'' (rev demo_pair) 8 demo_pair_db = Inr (r, d)"
proof -
  have o: "(''claude'', ''n'', 1 :: int) \<le> (''codex'', ''m'', 1)" "\<not> (''codex'', ''m'', 1 :: int) \<le> (''claude'', ''n'', 1)"
    by (simp_all add: less_eq_prod_def less_prod_def less_char_def)
  have "\<exists>r d. ReleaseArtifacts ''o8'' ''k'' ''r'' demo_pair 8 demo_pair_db = Inr (r, d)"
    by (simp add: demo_pair_def demo_pair_db_def seal_eval store_eval demo_db2_eval demo_artifact_def o)
  then obtain r d where s: "ReleaseArtifacts ''o8'' ''k'' ''r'' demo_pair 8 demo_pair_db = Inr (r, d)" by blast
  have m: "mset (rev demo_pair) = mset demo_pair" by simp
  show ?thesis using s sealing_ignores_the_order [OF s m] by blast
qed

text \<open>A redaction may be longer than what it replaces, so that content within the limit can be stored
  as a blob over it, which no read accepts.\<close>

lemma sanitizing_may_grow: "length (SanitizeText ''xoxb-a'') = 10 \<and> length ''xoxb-a'' = 6"
  by code_simp

lemma oversized_blob_is_unreadable:
  assumes "maxArtifactSize < length (SanitizeText content)" "ar_blobs ar (sha256_hex (SanitizeText content)) = None"
  shows "\<exists>ar1. writeCASBlob (SanitizeText content) (sha256_hex (SanitizeText content)) ar = Inr ar1 \<and>
    ReadArtifact (sha256_hex (SanitizeText content)) ar1 = Inl ErrArtifactCorrupt"
  using assms by (simp add: writeCASBlob_def ReadArtifact_def)

end
