(* ===== verification/Store_Details.thy ===== *)
theory Store_Details
  imports Store_Hydrate Go_Unmarshal
begin

text \<open>
  The detail reads of the store that the service answers from (\<open>GetTurnDetails\<close>,
  \<open>GetSessionNativeBinding\<close> in \<open>internal/storage/transitions.go\<close>; \<open>GetSessionMetadata\<close>,
  \<open>GetSessionRunID\<close> in \<open>internal/storage/session_store.go\<close>), and the way of a prompt's required
  tools from the queue to the dispatch.
\<close>

section \<open>Reads\<close>

record SessionMetadata =
  sm_SessionID :: string
  sm_RunID :: string
  sm_Contributor :: string

definition GetSessionMetadata :: "string \<Rightarrow> DB \<Rightarrow> store_error + SessionMetadata" where
  "GetSessionMetadata sid d =
     (case session_row sid d of
        None \<Rightarrow> Inl ErrSessionNotFound
      | Some s \<Rightarrow> Inr \<lparr>sm_SessionID = sid, sm_RunID = s_run_id s, sm_Contributor = s_contributor s\<rparr>)"

definition GetSessionRunID :: "string \<Rightarrow> DB \<Rightarrow> store_error + string" where
  "GetSessionRunID sid d =
     (case session_row sid d of None \<Rightarrow> Inl ErrSessionNotFound | Some s \<Rightarrow> Inr (s_run_id s))"

definition GetSessionNativeBinding :: "string \<Rightarrow> DB \<Rightarrow> (NativeBinding \<times> string) option" where
  "GetSessionNativeBinding sid d =
     (case sel (\<lambda>b. b_session_id b = sid) (bindings d) of
        None \<Rightarrow> None
      | Some b \<Rightarrow>
          (case session_row (b_session_id b) d of
             None \<Rightarrow> None
           | Some s \<Rightarrow> Some (\<lparr>nb_LogicalSessionID = b_session_id b, nb_NativeSessionID = b_native_session_id b,
               nb_Harness = b_harness b, nb_Model = b_model b, nb_WorkspaceMode = b_workspace_mode b,
               nb_ToolingConfig = b_config_json b\<rparr>, s_contributor s)))"

record DispatchIntentDetails =
  di_SessionID :: string
  di_TurnKey :: string
  di_AttemptID :: string
  di_Phase :: string
  di_RequiredTools :: "string list"
  di_RequiredToolsErr :: bool
  di_RecordedAt :: time
  di_UpdatedAt :: time

record TurnDetails =
  td_SessionID :: string
  td_TurnKey :: string
  td_Prompt :: string
  td_Status :: string
  td_Result :: string
  td_AttemptID :: string
  td_CreatedAt :: time
  td_CompletedAt :: "time option"
  td_DispatchIntent :: "DispatchIntentDetails option"

definition intent_details :: "IntentRow \<Rightarrow> DispatchIntentDetails" where
  "intent_details i =
     \<lparr>di_SessionID = i_session_id i, di_TurnKey = i_turn_key i, di_AttemptID = i_attempt_id i, di_Phase = i_phase i,
      di_RequiredTools = (case unmarshalRequiredTools (i_required_tools_json i) of None \<Rightarrow> [] | Some ts \<Rightarrow> ts),
      di_RequiredToolsErr = (unmarshalRequiredTools (i_required_tools_json i) = None),
      di_RecordedAt = i_recorded_at i, di_UpdatedAt = i_updated_at i\<rparr>"

definition GetTurnDetails :: "string \<Rightarrow> string \<Rightarrow> DB \<Rightarrow> TurnDetails option" where
  "GetTurnDetails sid k d =
     (case turn_row sid k d of
        None \<Rightarrow> None
      | Some t \<Rightarrow> Some \<lparr>td_SessionID = t_session_id t, td_TurnKey = t_turn_key t, td_Prompt = t_prompt t,
          td_Status = t_status t, td_Result = t_result t, td_AttemptID = t_attempt_id t, td_CreatedAt = t_created_at t,
          td_CompletedAt = t_completed_at t, td_DispatchIntent = map_option intent_details (intent_row sid k d)\<rparr>)"

section \<open>Required tools from the queue to the dispatch\<close>

lemma journal_frame:
  "insert_journal j d = Inr d' \<Longrightarrow> pending d' = pending d \<and> turns d' = turns d \<and> intents d' = intents d"
  by (auto simp: insert_journal_def split: if_splits)

lemma entry_frame:
  "recordJournalEntry op cmd fp rid sid k ev r l now d = Inr d' \<Longrightarrow>
    pending d' = pending d \<and> turns d' = turns d \<and> intents d' = intents d"
  by (auto simp: recordJournalEntry_def dest!: journal_frame)

lemma queued_tools:
  assumes "QueuePrompt op l sid v p now d = Inr (r, d')" and "journal_row op d = None"
  shows "\<exists>q. pending_row sid (pp_TurnKey p) d' = Some q \<and>
    p_required_tools_json q = marshalStrings (tools_list (pp_RequiredTools p)) \<and>
    p_prompt q = SanitizeText (pp_Prompt p)"
  using assms unfolding QueuePrompt_def Let_def
  by (elim success_elims; simp)
    (auto simp: checkOrRecordIdempotency_def insert_pending_def pending_row_def sel_append is_pending_def
      dest!: entry_frame update_session_Inr split: option.splits if_splits)

lemma release_intent:
  assumes "release_effect sid k p s g now d = Inr d1"
  shows "\<exists>t i. turn_row sid k d1 = Some t \<and> intent_row sid k d1 = Some i \<and>
    i_required_tools_json i = p_required_tools_json p \<and> i_attempt_id i = t_attempt_id t \<and>
    t_prompt t = SanitizeText (p_prompt p)"
  using assms unfolding release_effect_def Let_def
  by (elim success_elims) (auto simp: insert_turn_def insert_intent_def turn_row_def intent_row_def sel_append
      is_turn_def is_intent_def dest!: update_session_Inr split: if_splits)

lemma released_details:
  assumes "ReleaseTurn op l sid v k now d = Inr (r, d')" and "journal_row op d = None"
  shows "\<exists>p t i. pending_row sid k d = Some p \<and> turn_row sid k d' = Some t \<and> intent_row sid k d' = Some i \<and>
    i_required_tools_json i = p_required_tools_json p \<and> i_attempt_id i = t_attempt_id t \<and>
    t_prompt t = SanitizeText (p_prompt p)"
  using assms unfolding ReleaseTurn_def Let_def
  by (elim success_elims; simp)
    (auto simp: release_replay_def turn_row_def intent_row_def dest!: release_intent journal_frame split: option.splits)

text \<open>C29 (roundtrip). The required tools come back: when a prompt was queued with a set of tool names (valid UTF-8,
as every decoded request is) and is released later, with the queued row as it was, the details of the released turn
name exactly these tools, in their order, without a decoding error, for the attempt of the release.\<close>

theorem required_tools_round_trip:
  assumes queue: "QueuePrompt op l sid v p now d = Inr (r, d1)" "journal_row op d = None"
    and valid: "list_all valid_utf8 (tools_list (pp_RequiredTools p))"
    and kept: "pending_row sid (pp_TurnKey p) d2 = pending_row sid (pp_TurnKey p) d1"
    and release: "ReleaseTurn op2 l2 sid v2 (pp_TurnKey p) now2 d2 = Inr (r2, d3)" "journal_row op2 d2 = None"
  shows "\<exists>td i. GetTurnDetails sid (pp_TurnKey p) d3 = Some td \<and> td_DispatchIntent td = Some i \<and>
    di_RequiredTools i = tools_list (pp_RequiredTools p) \<and> \<not> di_RequiredToolsErr i \<and> di_AttemptID i = td_AttemptID td"
proof -
  obtain q where q: "pending_row sid (pp_TurnKey p) d1 = Some q"
    "p_required_tools_json q = marshalStrings (tools_list (pp_RequiredTools p))"
    using queued_tools [OF queue] by blast
  obtain p' t i where h: "pending_row sid (pp_TurnKey p) d2 = Some p'" "turn_row sid (pp_TurnKey p) d3 = Some t"
    "intent_row sid (pp_TurnKey p) d3 = Some i" "i_required_tools_json i = p_required_tools_json p'"
    "i_attempt_id i = t_attempt_id t"
    using released_details [OF release] by blast
  have "unmarshalRequiredTools (i_required_tools_json i) = Some (tools_list (pp_RequiredTools p))"
    using h(1,4) kept q unmarshal_tools_marshal [OF valid] by simp
  then show ?thesis using h by (simp add: GetTurnDetails_def intent_details_def)
qed

definition demo_tools :: PendingPrompt where
  "demo_tools = \<lparr>pp_TurnKey = ''u'', pp_Prompt = ''go'', pp_RequiredTools = Some [''read'', ''a<b'']\<rparr>"

lemma required_tools_round_trip_witness:
  "\<exists>d1 r1 d3 r3 td i. QueuePrompt ''o7'' ''k'' ''s'' 2 demo_tools 7 demo_db = Inr (r1, d1) \<and>
     ReleaseTurn ''o8'' ''k'' ''s'' 3 ''u'' 8 d1 = Inr (r3, d3) \<and>
     GetTurnDetails ''s'' ''u'' d3 = Some td \<and> td_DispatchIntent td = Some i \<and> di_RequiredTools i = [''read'', ''a<b'']"
proof -
  have "\<exists>d1 r1 d3 r3. QueuePrompt ''o7'' ''k'' ''s'' 2 demo_tools 7 demo_db = Inr (r1, d1) \<and>
      ReleaseTurn ''o8'' ''k'' ''s'' 3 ''u'' 8 d1 = Inr (r3, d3) \<and> journal_row ''o8'' d1 = None"
    by (simp add: demo_tools_def store_eval demo_db_eval)
  then obtain d1 r1 d3 r3 where h: "QueuePrompt ''o7'' ''k'' ''s'' 2 demo_tools 7 demo_db = Inr (r1, d1)"
    "ReleaseTurn ''o8'' ''k'' ''s'' 3 ''u'' 8 d1 = Inr (r3, d3)" "journal_row ''o8'' d1 = None" by blast
  have fresh: "journal_row ''o7'' demo_db = None" by (simp add: store_eval demo_db_eval)
  have valid: "list_all valid_utf8 (tools_list (pp_RequiredTools demo_tools))" by code_simp
  have k: "pp_TurnKey demo_tools = ''u''" "tools_list (pp_RequiredTools demo_tools) = [''read'', ''a<b'']"
    by (simp_all add: demo_tools_def tools_list_def)
  from required_tools_round_trip [OF h(1) fresh valid refl, unfolded k, OF h(2,3)] h show ?thesis by blast
qed

end
