(* ===== verification/Adapter_Stream.thy ===== *)
theory Adapter_Stream
  imports Adapter_Types
begin

text \<open>
  Observation streams, \<open>internal/adapter/stream.go\<close>, and the adapter registry,
  \<open>internal/adapter/registry.go\<close>: validation of events and usage, and the bounded stream with its
  concurrent senders and closers as a machine whose moves are the atomic sections of the Go code
  (the two critical sections of the mutex, a channel operation, a wait). A move that would send on
  or close a closed channel panics.
\<close>

section \<open>Usage and events\<close>

text \<open>A \<open>float64\<close>: a finite one is a mantissa with a binary exponent.\<close>

datatype go_float = FloatNaN | FloatInf bool | FloatFinite int int

fun float_negative :: "go_float \<Rightarrow> bool" where
  "float_negative FloatNaN = False"
| "float_negative (FloatInf neg) = neg"
| "float_negative (FloatFinite m e) = (m < 0)"

fun float_finite :: "go_float \<Rightarrow> bool" where
  "float_finite (FloatFinite m e) = True"
| "float_finite x = False"

record 'a UsageMetric =
  um_Value :: 'a
  um_Available :: bool
  um_Estimated :: bool

record ExecutionUsage =
  InputTokens :: "int UsageMetric"
  OutputTokens :: "int UsageMetric"
  TotalCostUSD :: "go_float UsageMetric"

datatype EventType =
    EventProgress | EventToolRequested | EventToolApproved | EventToolDenied | EventTerminal
  | EventOther string

record Event =
  ev_Ref :: TurnRef
  ev_Type :: EventType
  ev_Status :: TurnStatus
  ev_ApprovalID :: string
  ev_Payload :: string
  ev_Usage :: ExecutionUsage
  ev_Timestamp :: time

datatype stream_error =
    ErrBufferOverflow | ErrPayloadTooLarge | ErrStreamClosed | TurnRefMismatch
  | BadRef adapter_error | NegativeTokens | BadCost
  | WrongEventStatus EventType TurnStatus | UnexpectedApprovalID EventType
  | MissingApprovalID EventType | UnknownEventType string

definition MaxEventPayloadBytes :: nat where "MaxEventPayloadBytes = 64 * 1024"

definition DefaultBufferCapacity :: nat where "DefaultBufferCapacity = 64"

definition Usage_Validate :: "ExecutionUsage \<Rightarrow> stream_error option" where
  "Usage_Validate u =
     (if um_Available (InputTokens u) \<and> um_Value (InputTokens u) < 0 then Some NegativeTokens
      else if um_Available (OutputTokens u) \<and> um_Value (OutputTokens u) < 0 then Some NegativeTokens
      else if um_Available (TotalCostUSD u) \<and>
              (float_negative (um_Value (TotalCostUSD u)) \<or> \<not> float_finite (um_Value (TotalCostUSD u)))
        then Some BadCost
      else None)"

definition Event_Validate :: "Event \<Rightarrow> stream_error option" where
  "Event_Validate e =
     (case TurnRef_Validate (ev_Ref e) of Some r \<Rightarrow> Some (BadRef r) | None \<Rightarrow>
      if MaxEventPayloadBytes < length (ev_Payload e) then Some ErrPayloadTooLarge
      else case Usage_Validate (ev_Usage e) of Some r \<Rightarrow> Some r | None \<Rightarrow>
      (case ev_Type e of
         EventProgress \<Rightarrow>
           if ev_Status e \<noteq> TurnRunning \<and> ev_Status e \<noteq> TurnCancelling
             then Some (WrongEventStatus EventProgress (ev_Status e))
           else if ev_ApprovalID e \<noteq> [] then Some (UnexpectedApprovalID EventProgress) else None
       | EventTerminal \<Rightarrow>
           if ev_Status e \<noteq> TurnCompleted \<and> ev_Status e \<noteq> TurnCancelled \<and>
              ev_Status e \<noteq> TurnFailed \<and> ev_Status e \<noteq> TurnInterrupted
             then Some (WrongEventStatus EventTerminal (ev_Status e))
           else if ev_ApprovalID e \<noteq> [] then Some (UnexpectedApprovalID EventTerminal) else None
       | EventOther t \<Rightarrow> Some (UnknownEventType t)
       | tool \<Rightarrow>
           if ev_Status e \<noteq> TurnRunning then Some (WrongEventStatus tool (ev_Status e))
           else if blank (ev_ApprovalID e) then Some (MissingApprovalID tool) else None))"

section \<open>The stream\<close>

record BufferedStream =
  bs_ref :: TurnRef
  bs_capacity :: nat
  bs_events :: "Event list"
  bs_events_closed :: bool
  bs_cancelled :: bool
  bs_done :: bool
  bs_wg :: nat
  bs_err :: "stream_error option"
  bs_closed :: bool
  bs_panicked :: bool

definition NewBufferedStream :: "TurnRef \<Rightarrow> int \<Rightarrow> BufferedStream" where
  "NewBufferedStream ref capacity =
     \<lparr>bs_ref = ref, bs_capacity = (if capacity \<le> 0 then DefaultBufferCapacity else nat capacity),
      bs_events = [], bs_events_closed = False, bs_cancelled = False, bs_done = False, bs_wg = 0,
      bs_err = None, bs_closed = False, bs_panicked = False\<rparr>"

datatype call = Send Event | SendOrOverflow Event | CloseWithErr stream_error

text \<open>
  Where a goroutine is: before its call; in the select of a send, counted in the wait group; past
  the select, about to leave the wait group and go on; about to close; waiting for the senders;
  waiting for another closer; returned, with nil or an error.
\<close>

datatype pc =
    Calling call
  | Selecting bool Event
  | Leaving pc
  | Closing stream_error "stream_error option"
  | Draining "stream_error option"
  | Joining "stream_error option"
  | Returned "stream_error option"

record system =
  stream :: BufferedStream
  procs :: "pc list"
  received :: "Event list"
  accepted :: "Event list"

datatype move = Enter nat | Put nat | Abort nat | Overflow nat | Leave nat | Shut nat | Drain nat | Join nat | Receive

text \<open>The checks before the lock, then the critical section of a send.\<close>

definition enter_send :: "bool \<Rightarrow> Event \<Rightarrow> BufferedStream \<Rightarrow> pc \<times> BufferedStream" where
  "enter_send overflow ev b =
     (if ev_Ref ev \<noteq> bs_ref b then (Returned (Some TurnRefMismatch), b)
      else case Event_Validate ev of Some e \<Rightarrow> (Returned (Some e), b) | None \<Rightarrow>
      if bs_closed b then (Returned (Some ErrStreamClosed), b)
      else (Selecting overflow ev, b\<lparr>bs_wg := bs_wg b + 1\<rparr>))"

text \<open>The critical section of \<open>CloseWithErr\<close>.\<close>

definition enter_close :: "stream_error \<Rightarrow> stream_error option \<Rightarrow> BufferedStream \<Rightarrow> pc \<times> BufferedStream" where
  "enter_close e r b =
     (if bs_closed b then (Joining r, b)
      else (Draining r, b\<lparr>bs_closed := True, bs_err := Some e, bs_cancelled := True\<rparr>))"

definition goto :: "nat \<Rightarrow> pc \<Rightarrow> BufferedStream \<Rightarrow> system \<Rightarrow> system option" where
  "goto p q b y = Some (y\<lparr>procs := (procs y)[p := q], stream := b\<rparr>)"

definition pc_of :: "system \<Rightarrow> nat \<Rightarrow> pc" where
  "pc_of y p = (if p < length (procs y) then procs y ! p else Returned None)"

fun stream_move :: "move \<Rightarrow> system \<Rightarrow> system option" where
  "stream_move (Enter p) y =
     (case pc_of y p of
        Calling (Send ev) \<Rightarrow> (case enter_send False ev (stream y) of (q, b) \<Rightarrow> goto p q b y)
      | Calling (SendOrOverflow ev) \<Rightarrow> (case enter_send True ev (stream y) of (q, b) \<Rightarrow> goto p q b y)
      | Calling (CloseWithErr e) \<Rightarrow> (case enter_close e None (stream y) of (q, b) \<Rightarrow> goto p q b y)
      | _ \<Rightarrow> None)"
| "stream_move (Put p) y =
     (case pc_of y p of
        Selecting overflow ev \<Rightarrow>
          if bs_events_closed (stream y)
            then goto p (Leaving (Returned None)) ((stream y)\<lparr>bs_panicked := True\<rparr>) y
          else if length (bs_events (stream y)) < bs_capacity (stream y)
            then map_option (\<lambda>z. z\<lparr>accepted := accepted y @ [ev]\<rparr>)
              (goto p (Leaving (Returned None)) ((stream y)\<lparr>bs_events := bs_events (stream y) @ [ev]\<rparr>) y)
          else None
      | _ \<Rightarrow> None)"
| "stream_move (Abort p) y =
     (case pc_of y p of
        Selecting overflow ev \<Rightarrow>
          if bs_cancelled (stream y) then goto p (Leaving (Returned (Some ErrStreamClosed))) (stream y) y
          else None
      | _ \<Rightarrow> None)"
| "stream_move (Overflow p) y =
     (case pc_of y p of
        Selecting overflow ev \<Rightarrow>
          if overflow \<and> \<not> bs_cancelled (stream y) \<and> \<not> bs_events_closed (stream y) \<and>
             bs_capacity (stream y) \<le> length (bs_events (stream y))
            then goto p (Leaving (Closing ErrBufferOverflow (Some ErrBufferOverflow))) (stream y) y
          else None
      | _ \<Rightarrow> None)"
| "stream_move (Leave p) y =
     (case pc_of y p of
        Leaving q \<Rightarrow> goto p q ((stream y)\<lparr>bs_wg := bs_wg (stream y) - 1\<rparr>) y
      | _ \<Rightarrow> None)"
| "stream_move (Shut p) y =
     (case pc_of y p of
        Closing e r \<Rightarrow> (case enter_close e r (stream y) of (q, b) \<Rightarrow> goto p q b y)
      | _ \<Rightarrow> None)"
| "stream_move (Drain p) y =
     (case pc_of y p of
        Draining r \<Rightarrow>
          if bs_wg (stream y) = 0
            then goto p (Returned r) ((stream y)\<lparr>bs_panicked := bs_panicked (stream y) \<or> bs_events_closed (stream y) \<or> bs_done (stream y),
                bs_events_closed := True, bs_done := True\<rparr>) y
          else None
      | _ \<Rightarrow> None)"
| "stream_move (Join p) y =
     (case pc_of y p of
        Joining r \<Rightarrow> if bs_done (stream y) then goto p (Returned r) (stream y) y else None
      | _ \<Rightarrow> None)"
| "stream_move Receive y =
     (case bs_events (stream y) of
        [] \<Rightarrow> None
      | ev # rest \<Rightarrow> Some (y\<lparr>stream := (stream y)\<lparr>bs_events := rest\<rparr>, received := received y @ [ev]\<rparr>))"

text \<open>A run of moves; one that is not enabled is a wait.\<close>

fun stream_run :: "move list \<Rightarrow> system \<Rightarrow> system" where
  "stream_run [] y = y"
| "stream_run (m # ms) y = stream_run ms (case stream_move m y of None \<Rightarrow> y | Some z \<Rightarrow> z)"

definition stream_start :: "TurnRef \<Rightarrow> int \<Rightarrow> call list \<Rightarrow> system" where
  "stream_start ref capacity calls = \<lparr>stream = NewBufferedStream ref capacity, procs = map Calling calls,
     received = [], accepted = []\<rparr>"

section \<open>Invariant\<close>

fun in_group :: "pc \<Rightarrow> bool" where
  "in_group (Selecting over ev) = True"
| "in_group (Leaving q) = True"
| "in_group q = False"

fun draining :: "pc \<Rightarrow> bool" where
  "draining (Draining r) = True"
| "draining q = False"

text \<open>Past the wait group a goroutine returns or closes.\<close>

fun pc_ok :: "pc \<Rightarrow> bool" where
  "pc_ok (Leaving q) = ((\<exists>r. q = Returned r) \<or> (\<exists>e r. q = Closing e r))"
| "pc_ok q = True"

definition legit :: "BufferedStream \<Rightarrow> Event \<Rightarrow> bool" where
  "legit b ev \<longleftrightarrow> ev_Ref ev = bs_ref b \<and> Event_Validate ev = None"

fun sending_ok :: "BufferedStream \<Rightarrow> pc \<Rightarrow> bool" where
  "sending_ok b (Selecting over ev) = legit b ev"
| "sending_ok b (Joining r) = bs_closed b"
| "sending_ok b q = True"

definition how_many :: "(pc \<Rightarrow> bool) \<Rightarrow> pc list \<Rightarrow> nat" where
  "how_many P ps = length (filter P ps)"

definition stream_inv :: "system \<Rightarrow> bool" where
  "stream_inv y \<longleftrightarrow> (let b = stream y in
     bs_wg b = how_many in_group (procs y) \<and>
     how_many draining (procs y) = (if bs_closed b \<and> \<not> bs_events_closed b then 1 else 0) \<and>
     bs_cancelled b = bs_closed b \<and> (bs_err b \<noteq> None) = bs_closed b \<and> bs_done b = bs_events_closed b \<and>
     (bs_events_closed b \<longrightarrow> bs_closed b \<and> bs_wg b = 0) \<and> \<not> bs_panicked b \<and> 0 < bs_capacity b \<and>
     length (bs_events b) \<le> bs_capacity b \<and> received y @ bs_events b = accepted y \<and>
     list_all (legit b) (accepted y) \<and> list_all pc_ok (procs y) \<and> list_all (sending_ok b) (procs y))"

lemma how_many_change:
  "p < length ps \<Longrightarrow> how_many P (ps[p := q]) + (if P (ps ! p) then 1 else 0) = how_many P ps + (if P q then 1 else 0)"
proof (induction ps arbitrary: p)
  case (Cons a ps)
  then show ?case by (cases p) (auto simp: how_many_def)
qed simp

lemma pc_of_less: "pc_of y p = q \<Longrightarrow> q \<noteq> Returned None \<Longrightarrow> p < length (procs y) \<and> procs y ! p = q"
  by (auto simp: pc_of_def split: if_splits)

lemma how_many_update:
  assumes "p < length (procs y)"
  shows "how_many P ((procs y)[p := q]) = how_many P (procs y) + (if P q then 1 else 0) - (if P (procs y ! p) then 1 else 0)"
  using how_many_change [OF assms, of P q] by simp

lemma list_all_update: "list_all P ps \<Longrightarrow> P q \<Longrightarrow> list_all P (ps[p := q])"
  by (auto simp: list_all_iff dest!: set_update_subset_insert [THEN subsetD])

lemma how_many_pos: "p < length ps \<Longrightarrow> P (ps ! p) \<Longrightarrow> 0 < how_many P ps"
  by (auto simp: how_many_def filter_empty_conv)

lemma legit_cong: "bs_ref b' = bs_ref b \<Longrightarrow> legit b' = legit b"
  by (simp add: legit_def fun_eq_iff)

lemma sending_mono:
  assumes "bs_ref b' = bs_ref b" "bs_closed b \<Longrightarrow> bs_closed b'" "sending_ok b q"
  shows "sending_ok b' q"
  using assms(2,3) legit_cong [OF assms(1)] by (cases q) simp_all

lemma sending_all_mono:
  "bs_ref b' = bs_ref b \<Longrightarrow> (bs_closed b \<Longrightarrow> bs_closed b') \<Longrightarrow> list_all (sending_ok b) ps \<Longrightarrow> list_all (sending_ok b') ps"
  using sending_mono by (metis list.pred_mono_strong)

lemma stream_invD:
  assumes "stream_inv y"
  shows "bs_cancelled (stream y) = bs_closed (stream y)" "(bs_err (stream y) \<noteq> None) = bs_closed (stream y)"
    "bs_done (stream y) = bs_events_closed (stream y)" "\<not> bs_panicked (stream y)"
    "bs_events_closed (stream y) \<Longrightarrow> bs_closed (stream y) \<and> bs_wg (stream y) = 0"
    "bs_wg (stream y) = how_many in_group (procs y)"
    "how_many draining (procs y) = (if bs_closed (stream y) \<and> \<not> bs_events_closed (stream y) then 1 else 0)"
  using assms by (simp_all add: stream_inv_def Let_def)

lemma stream_inv_data:
  assumes "stream_inv y"
  shows "0 < bs_capacity (stream y)" "length (bs_events (stream y)) \<le> bs_capacity (stream y)"
    "received y @ bs_events (stream y) = accepted y" "list_all (legit (stream y)) (accepted y)"
    "list_all pc_ok (procs y)" "list_all (sending_ok (stream y)) (procs y)"
  using assms by (simp_all add: stream_inv_def Let_def)

text \<open>A move that changes only the channel and what went through it.\<close>

lemma channel_inv:
  assumes inv: "stream_inv y" and z: "stream z = (stream y)\<lparr>bs_events := es\<rparr>"
    and wg: "how_many in_group (procs z) = how_many in_group (procs y)"
      "how_many draining (procs z) = how_many draining (procs y)"
    and es: "length es \<le> bs_capacity (stream y)" "received z @ es = accepted z" "list_all (legit (stream y)) (accepted z)"
    and ps: "list_all pc_ok (procs z)" "list_all (sending_ok (stream y)) (procs z)"
  shows "stream_inv z"
proof -
  have "legit (stream z) = legit (stream y)" by (rule legit_cong) (simp add: z)
  moreover have "list_all (sending_ok (stream z)) (procs z)"
    by (rule sending_all_mono [OF _ _ ps(2)]) (simp_all add: z)
  ultimately show ?thesis
    using stream_invD [OF inv] stream_inv_data(1) [OF inv] wg es ps(1)
    unfolding stream_inv_def Let_def by (simp add: z)
qed

text \<open>A goroutine moves from one point to another, with the wait group and the closers kept right.\<close>

lemma goto_inv:
  assumes inv: "stream_inv y" and g: "goto p q b y = Some z" and p: "p < length (procs y)"
    and ok: "pc_ok q" "sending_ok b q"
    and b: "bs_ref b = bs_ref (stream y)" "bs_capacity b = bs_capacity (stream y)" "bs_events b = bs_events (stream y)"
      "bs_panicked b = False"
    and mono: "bs_closed (stream y) \<Longrightarrow> bs_closed b"
    and closed: "bs_cancelled b = bs_closed b" "(bs_err b \<noteq> None) = bs_closed b" "bs_done b = bs_events_closed b"
      "bs_events_closed b \<Longrightarrow> bs_closed b \<and> bs_wg b = 0"
    and wg: "bs_wg b + (if in_group (procs y ! p) then 1 else 0) = bs_wg (stream y) + (if in_group q then 1 else 0)"
    and dr: "(if bs_closed b \<and> \<not> bs_events_closed b then 1 else 0) + (if draining (procs y ! p) then 1 else 0) =
      (if bs_closed (stream y) \<and> \<not> bs_events_closed (stream y) then 1 else 0) + (if draining q then 1 else (0::nat))"
  shows "stream_inv z"
proof -
  have z: "z = y\<lparr>procs := (procs y)[p := q], stream := b\<rparr>" using g by (simp add: goto_def)
  have "bs_wg b = how_many in_group ((procs y)[p := q])"
    using stream_invD(6) [OF inv] wg how_many_change [OF p, of in_group q] by simp
  moreover have "how_many draining ((procs y)[p := q]) = (if bs_closed b \<and> \<not> bs_events_closed b then 1 else 0)"
    using stream_invD(7) [OF inv] dr how_many_change [OF p, of draining q] by simp
  moreover have "0 < bs_capacity b \<and> length (bs_events b) \<le> bs_capacity b \<and> received y @ bs_events b = accepted y \<and>
      list_all (legit b) (accepted y) \<and> list_all pc_ok ((procs y)[p := q]) \<and> list_all (sending_ok b) ((procs y)[p := q])"
    using inv ok b sending_all_mono [OF b(1) mono, of "procs y"]
    by (simp add: stream_inv_def Let_def list_all_update legit_cong [OF b(1)])
  ultimately show ?thesis using closed b(4) unfolding stream_inv_def Let_def z by simp
qed

lemma pc_of_ok: "stream_inv y \<Longrightarrow> p < length (procs y) \<Longrightarrow> pc_ok (procs y ! p) \<and> sending_ok (stream y) (procs y ! p)"
  by (simp add: stream_inv_def Let_def list_all_length)

lemma selecting_open: "stream_inv y \<Longrightarrow> p < length (procs y) \<Longrightarrow> in_group (procs y ! p) \<Longrightarrow>
    \<not> bs_events_closed (stream y) \<and> 0 < bs_wg (stream y)"
  using stream_invD(5,6) [of y] how_many_pos [of p "procs y" in_group] by auto

lemma draining_open: "stream_inv y \<Longrightarrow> p < length (procs y) \<Longrightarrow> draining (procs y ! p) \<Longrightarrow>
    \<not> bs_events_closed (stream y) \<and> bs_closed (stream y)"
  using stream_invD(7) [of y] how_many_pos [of p "procs y" draining] by (auto split: if_splits)

lemma enter_send_inv:
  assumes inv: "stream_inv y" and p: "p < length (procs y)" "procs y ! p = Calling c"
    and e: "enter_send over ev (stream y) = (q, b)" and g: "goto p q b y = Some z"
  shows "stream_inv z"
proof (rule goto_inv [OF inv g p(1)])
  show "pc_ok q" "sending_ok b q"
    using e by (auto simp: enter_send_def legit_def split: if_splits option.splits)
qed (use e p(2) stream_invD [OF inv] in \<open>auto simp: enter_send_def split: if_splits option.splits\<close>)

lemma enter_close_inv:
  assumes inv: "stream_inv y" and p: "p < length (procs y)" "\<not> in_group (procs y ! p)" "\<not> draining (procs y ! p)"
    and e: "enter_close er r (stream y) = (q, b)" and g: "goto p q b y = Some z"
  shows "stream_inv z"
proof (rule goto_inv [OF inv g p(1)])
  show "pc_ok q" "sending_ok b q"
    using e by (auto simp: enter_close_def split: if_splits)
qed (use e p stream_invD [OF inv] in \<open>auto simp: enter_close_def split: if_splits\<close>)

lemma pc_of_cases:
  assumes "stream_move m y = Some z"
  obtains (enter) p c where "m = Enter p" "p < length (procs y)" "procs y ! p = Calling c"
    | (put) p over ev where "m = Put p" "p < length (procs y)" "procs y ! p = Selecting over ev"
    | (abort) p over ev where "m = Abort p" "p < length (procs y)" "procs y ! p = Selecting over ev"
    | (overflow) p over ev where "m = Overflow p" "p < length (procs y)" "procs y ! p = Selecting over ev"
    | (leave) p q where "m = Leave p" "p < length (procs y)" "procs y ! p = Leaving q"
    | (shut) p e r where "m = Shut p" "p < length (procs y)" "procs y ! p = Closing e r"
    | (drain) p r where "m = Drain p" "p < length (procs y)" "procs y ! p = Draining r"
    | (join) p r where "m = Join p" "p < length (procs y)" "procs y ! p = Joining r"
    | (receive) "m = Receive"
  using assms
  by (cases m) (auto split: pc.splits call.splits dest: pc_of_less)

lemma pc_of_nth: "p < length (procs y) \<Longrightarrow> pc_of y p = procs y ! p"
  by (simp add: pc_of_def)

lemma put_inv:
  assumes inv: "stream_inv y" and p: "p < length (procs y)" "procs y ! p = Selecting over ev"
    and m: "stream_move (Put p) y = Some z"
  shows "stream_inv z"
proof -
  have g: "in_group (procs y ! p)" using p by simp
  have open_: "\<not> bs_events_closed (stream y)" using selecting_open [OF inv p(1) g] by blast
  then have room: "length (bs_events (stream y)) < bs_capacity (stream y)"
    and z: "z = y\<lparr>procs := (procs y)[p := Leaving (Returned None)],
        stream := (stream y)\<lparr>bs_events := bs_events (stream y) @ [ev]\<rparr>, accepted := accepted y @ [ev]\<rparr>"
    using m p by (auto simp: pc_of_nth goto_def split: if_splits)
  have legit: "legit (stream y) ev" using pc_of_ok [OF inv p(1)] p(2) by simp
  show ?thesis
  proof (rule channel_inv [OF inv])
    show "stream z = (stream y)\<lparr>bs_events := bs_events (stream y) @ [ev]\<rparr>" by (simp add: z)
    show "how_many in_group (procs z) = how_many in_group (procs y)"
      using how_many_change [OF p(1), of in_group "Leaving (Returned None)"] p(2) by (simp add: z)
    show "how_many draining (procs z) = how_many draining (procs y)"
      using how_many_change [OF p(1), of draining "Leaving (Returned None)"] p(2) by (simp add: z)
    show "received z @ bs_events (stream y) @ [ev] = accepted z"
      unfolding z using stream_inv_data(3) [OF inv] by (simp flip: append_assoc)
  qed (use room legit stream_inv_data [OF inv] in \<open>simp_all add: z list_all_update\<close>)
qed

lemma stream_move_inv:
  assumes inv: "stream_inv y" and m: "stream_move m y = Some z"
  shows "stream_inv z"
  using m
proof (cases rule: pc_of_cases)
  case (enter p c)
  then show ?thesis
    using m enter_send_inv [OF inv enter(2,3)] enter_close_inv [OF inv enter(2)]
    by (auto simp: pc_of_nth split: call.splits prod.splits)
next
  case (put p over ev)
  then show ?thesis using put_inv [OF inv put(2,3)] m by blast
next
  case (abort p over ev)
  then show ?thesis
    using m stream_invD [OF inv] by (auto simp: pc_of_nth split: if_splits intro: goto_inv [OF inv])
next
  case (overflow p over ev)
  then show ?thesis
    using m stream_invD [OF inv] by (auto simp: pc_of_nth split: if_splits intro: goto_inv [OF inv])
next
  case (leave p q)
  have "pc_ok (Leaving q)" using pc_of_ok [OF inv leave(2)] leave(3) by simp
  then have q: "pc_ok q" "\<not> in_group q" "\<not> draining q" "sending_ok b q" for b by auto
  have o: "\<not> bs_events_closed (stream y) \<and> 0 < bs_wg (stream y)"
    by (rule selecting_open [OF inv leave(2)]) (simp add: leave(3))
  have g: "goto p q ((stream y)\<lparr>bs_wg := bs_wg (stream y) - 1\<rparr>) y = Some z" using m leave by (simp add: pc_of_nth)
  show ?thesis
    by (rule goto_inv [OF inv g leave(2)]) (use o q leave(3) stream_invD(1-5) [OF inv] in simp_all)
next
  case (shut p e r)
  then show ?thesis
    using m enter_close_inv [OF inv shut(2)] by (auto simp: pc_of_nth split: prod.splits)
next
  case (drain p r)
  have "\<not> bs_events_closed (stream y) \<and> bs_closed (stream y)"
    by (rule draining_open [OF inv drain(2)]) (simp add: drain(3))
  then show ?thesis
    using m drain stream_invD [OF inv] by (auto simp: pc_of_nth split: if_splits intro: goto_inv [OF inv])
next
  case (join p r)
  then show ?thesis
    using m stream_invD [OF inv] by (auto simp: pc_of_nth split: if_splits intro: goto_inv [OF inv])
next
  case receive
  then obtain ev rest where e: "bs_events (stream y) = ev # rest"
    and z: "z = y\<lparr>stream := (stream y)\<lparr>bs_events := rest\<rparr>, received := received y @ [ev]\<rparr>"
    using m by (auto split: list.splits)
  show ?thesis
    by (rule channel_inv [OF inv, of z rest]) (use e stream_inv_data [OF inv] in \<open>simp_all add: z\<close>)
qed

lemma stream_start_inv: "stream_inv (stream_start ref capacity calls)"
  by (auto simp: stream_inv_def Let_def stream_start_def NewBufferedStream_def how_many_def DefaultBufferCapacity_def
      list_all_iff filter_empty_conv)

lemma stream_run_inv: "stream_inv y \<Longrightarrow> stream_inv (stream_run ms y)"
  by (induction ms arbitrary: y) (auto intro: stream_move_inv split: option.splits)

section \<open>Termination and progress\<close>

fun pc_steps :: "pc \<Rightarrow> nat" where
  "pc_steps (Calling c) = 6"
| "pc_steps (Selecting over ev) = 5"
| "pc_steps (Leaving q) = Suc (pc_steps q)"
| "pc_steps (Closing e r) = 2"
| "pc_steps (Draining r) = 1"
| "pc_steps (Joining r) = 1"
| "pc_steps (Returned r) = 0"

text \<open>The work left: what each goroutine still has to do, and the events to be read.\<close>

definition work_left :: "system \<Rightarrow> nat" where
  "work_left y = sum_list (map pc_steps (procs y)) + length (bs_events (stream y))"

lemma sum_update: "p < length ps \<Longrightarrow>
    sum_list (map f (ps[p := q])) + f (ps ! p) = sum_list (map f ps) + (f q :: nat)"
proof (induction ps arbitrary: p)
  case (Cons a ps)
  then show ?case by (cases p) auto
qed simp

lemma goto_work:
  assumes "goto p q b y = Some z" "p < length (procs y)" "length (bs_events b) + pc_steps q < length (bs_events (stream y)) + pc_steps (procs y ! p)"
  shows "work_left z < work_left y"
  using assms sum_update [OF assms(2), of pc_steps q] by (auto simp: goto_def work_left_def)

lemma enter_steps:
  "enter_send over ev b = (q, b') \<Longrightarrow> pc_steps q \<le> 5 \<and> bs_events b' = bs_events b"
  "enter_close e r b = (q, b') \<Longrightarrow> pc_steps q \<le> 1 \<and> bs_events b' = bs_events b"
  by (auto simp: enter_send_def enter_close_def split: if_splits option.splits)

lemma move_work:
  assumes m: "stream_move m y = Some z"
  shows "work_left z < work_left y"
  using m
proof (cases rule: pc_of_cases)
  case (enter p c)
  then show ?thesis
    using m by (cases c) (auto simp: pc_of_nth split: prod.splits dest!: enter_steps elim!: goto_work)
next
  case (put p over ev)
  then obtain b where "goto p (Leaving (Returned None)) b y = Some (z\<lparr>accepted := accepted y\<rparr>)"
    "length (bs_events b) \<le> Suc (length (bs_events (stream y)))"
    using m by (auto simp: pc_of_nth goto_def split: if_splits)
  then have "work_left (z\<lparr>accepted := accepted y\<rparr>) < work_left y" using put by (intro goto_work) auto
  then show ?thesis by (simp add: work_left_def)
next
  case receive
  then show ?thesis using m by (auto simp: work_left_def split: list.splits)
qed (use m in \<open>auto simp: pc_of_nth split: if_splits prod.splits dest!: enter_steps elim!: goto_work\<close>)

fun returned :: "pc \<Rightarrow> bool" where
  "returned (Returned r) = True"
| "returned q = False"

text \<open>A goroutine counted in the wait group can go on, unless its buffer is full and nobody closed.\<close>

lemma group_moves:
  assumes "p < length (procs y)" "in_group (procs y ! p)" "bs_closed (stream y)" "bs_cancelled (stream y) = bs_closed (stream y)"
  shows "\<exists>m z. m \<noteq> Receive \<and> stream_move m y = Some z"
proof (cases "procs y ! p")
  case (Selecting over ev)
  then have "stream_move (Abort p) y \<noteq> None" using assms by (simp add: pc_of_nth goto_def)
  then show ?thesis by blast
next
  case (Leaving q)
  then have "stream_move (Leave p) y \<noteq> None" using assms by (simp add: pc_of_nth goto_def)
  then show ?thesis by blast
qed (use assms(2) in simp_all)

lemma drainer_moves:
  assumes inv: "stream_inv y" and p: "p < length (procs y)" "draining (procs y ! p)"
  shows "\<exists>m z. m \<noteq> Receive \<and> stream_move m y = Some z"
proof (cases "bs_wg (stream y) = 0")
  case True
  then have "stream_move (Drain p) y \<noteq> None" using p by (cases "procs y ! p") (simp_all add: pc_of_nth goto_def)
  then show ?thesis by blast
next
  case False
  then have "how_many in_group (procs y) \<noteq> 0" using stream_invD(6) [OF inv] by simp
  then obtain q where "q < length (procs y)" "in_group (procs y ! q)"
    by (auto simp: how_many_def filter_empty_conv in_set_conv_nth)
  then show ?thesis using group_moves stream_invD(1) [OF inv] draining_open [OF inv p] by blast
qed

lemma progress:
  assumes inv: "stream_inv y" and p: "p < length (procs y)" "\<not> returned (procs y ! p)"
  shows "\<exists>m z. stream_move m y = Some z \<and> (bs_closed (stream y) \<longrightarrow> m \<noteq> Receive)"
proof (cases "procs y ! p")
  case (Calling c)
  then have "stream_move (Enter p) y \<noteq> None"
    using p by (cases c) (auto simp: pc_of_nth goto_def split: prod.splits)
  then show ?thesis by blast
next
  case (Selecting over ev)
  show ?thesis
  proof (cases "bs_closed (stream y)")
    case True
    then show ?thesis using group_moves [OF p(1)] Selecting stream_invD(1) [OF inv] by auto
  next
    case False
    show ?thesis
    proof (cases "bs_events (stream y)")
      case Nil
      then have "stream_move (Put p) y \<noteq> None"
        using p Selecting inv by (auto simp: pc_of_nth goto_def stream_inv_def Let_def)
      then show ?thesis by blast
    next
      case (Cons e es)
      then have "stream_move Receive y \<noteq> None" by simp
      then show ?thesis using False by blast
    qed
  qed
next
  case (Leaving q)
  then have "stream_move (Leave p) y \<noteq> None" using p by (simp add: pc_of_nth goto_def)
  then show ?thesis by blast
next
  case (Closing e r)
  then have "stream_move (Shut p) y \<noteq> None" using p by (auto simp: pc_of_nth goto_def split: prod.splits)
  then show ?thesis by blast
next
  case (Draining r)
  then show ?thesis using drainer_moves [OF inv p(1)] by auto
next
  case (Joining r)
  show ?thesis
  proof (cases "bs_done (stream y)")
    case True
    then have "stream_move (Join p) y \<noteq> None" using p Joining by (simp add: pc_of_nth goto_def)
    then show ?thesis by blast
  next
    case False
    have "bs_closed (stream y)" using pc_of_ok [OF inv p(1)] Joining by simp
    then have "how_many draining (procs y) \<noteq> 0" using False stream_invD(3,7) [OF inv] by simp
    then obtain q where "q < length (procs y)" "draining (procs y ! q)"
      by (auto simp: how_many_def filter_empty_conv in_set_conv_nth)
    then show ?thesis using drainer_moves [OF inv] by blast
  qed
qed (use p in simp)

section \<open>What a stream guarantees\<close>

lemma move_keeps_err:
  assumes "stream_move m y = Some z" "bs_closed (stream y)"
  shows "bs_err (stream z) = bs_err (stream y) \<and> bs_closed (stream z)"
  using assms(1)
proof (cases rule: pc_of_cases)
  case (enter p c)
  then show ?thesis
    using assms by (cases c) (auto simp: pc_of_nth goto_def enter_send_def enter_close_def split: if_splits option.splits)
qed (use assms in \<open>auto simp: pc_of_nth goto_def enter_close_def split: if_splits list.splits\<close>)

lemma run_keeps_err:
  "bs_closed (stream y) \<Longrightarrow> bs_err (stream (stream_run ms y)) = bs_err (stream y) \<and> bs_closed (stream (stream_run ms y))"
  by (induction ms arbitrary: y) (auto split: option.splits dest: move_keeps_err)

lemma stream_run_append: "stream_run (ms @ ns) y = stream_run ns (stream_run ms y)"
  by (induction ms arbitrary: y) auto

lemma move_keeps_ref:
  assumes "stream_move m y = Some z"
  shows "bs_ref (stream z) = bs_ref (stream y)"
  using assms
proof (cases rule: pc_of_cases)
  case (enter p c)
  then show ?thesis
    using assms by (cases c) (auto simp: pc_of_nth goto_def enter_send_def enter_close_def split: if_splits option.splits)
qed (use assms in \<open>auto simp: pc_of_nth goto_def enter_close_def split: if_splits list.splits\<close>)

lemma run_keeps_ref: "bs_ref (stream (stream_run ms y)) = bs_ref (stream y)"
  by (induction ms arbitrary: y) (auto split: option.splits dest: move_keeps_ref)

lemma reached_inv: "stream_inv (stream_run ms (stream_start ref capacity calls))"
  by (rule stream_run_inv [OF stream_start_inv])

text \<open>C24 Whatever the senders, closers and the reader do and however they interleave, a stream never
  sends on or closes a closed channel, never holds more events than its capacity, hands over the
  accepted events in order with none lost or doubled, accepts only valid events of its own turn,
  and keeps the first error it was closed with.\<close>

theorem stream_is_a_bounded_queue:
  "let y = stream_run ms (stream_start ref capacity calls) in
     \<not> bs_panicked (stream y) \<and> length (bs_events (stream y)) \<le> bs_capacity (stream y) \<and>
     received y @ bs_events (stream y) = accepted y \<and>
     list_all (\<lambda>ev. ev_Ref ev = ref \<and> Event_Validate ev = None) (accepted y) \<and>
     (bs_err (stream y) = None \<or> bs_err (stream (stream_run ns y)) = bs_err (stream y))"
proof -
  let ?y = "stream_run ms (stream_start ref capacity calls)"
  note inv = reached_inv [of ms ref capacity calls]
  have "bs_ref (stream ?y) = ref" unfolding run_keeps_ref by (simp add: stream_start_def NewBufferedStream_def)
  then have "list_all (\<lambda>ev. ev_Ref ev = ref \<and> Event_Validate ev = None) (accepted ?y)"
    using stream_inv_data(4) [OF inv] by (simp add: legit_def [abs_def])
  moreover have "bs_err (stream ?y) = None \<or> bs_err (stream (stream_run ns ?y)) = bs_err (stream ?y)"
    using run_keeps_err [of ?y ns] stream_invD(2) [OF inv] by auto
  ultimately show ?thesis
    using stream_invD(4) [OF inv] stream_inv_data(2,3) [OF inv] by (simp add: Let_def)
qed

text \<open>C25 No call on a stream hangs: every move leaves less work, so the moves end; and when a closed
  stream can make no move but the reader's, every sender and every closer has returned. While the
  stream is open too, some move is possible as long as a call has not returned.\<close>

theorem stream_calls_return:
  "let y = stream_run ms (stream_start ref capacity calls) in
     (stream_move m y = Some z \<longrightarrow> work_left z < work_left y) \<and>
     (list_all returned (procs y) \<or>
        (\<exists>m z. stream_move m y = Some z \<and> (m \<noteq> Receive \<or> \<not> bs_closed (stream y))))"
proof -
  let ?y = "stream_run ms (stream_start ref capacity calls)"
  have "list_all returned (procs ?y) \<or>
      (\<exists>m z. stream_move m ?y = Some z \<and> (m \<noteq> Receive \<or> \<not> bs_closed (stream ?y)))"
  proof (cases "list_all returned (procs ?y)")
    case False
    then obtain p where "p < length (procs ?y)" "\<not> returned (procs ?y ! p)" by (auto simp: list_all_length)
    then show ?thesis using progress [OF reached_inv] by blast
  qed simp
  then show ?thesis using move_work by (simp add: Let_def)
qed

text \<open>Three sends into a buffer of one, the third refusing to wait: the stream closes itself.\<close>

definition demo_event :: Event where
  "demo_event = \<lparr>ev_Ref = \<lparr>ref_SessionID = ''s'', ref_TurnKey = ''t''\<rparr>, ev_Type = EventProgress,
     ev_Status = TurnRunning, ev_ApprovalID = [], ev_Payload = ''x'',
     ev_Usage = \<lparr>InputTokens = \<lparr>um_Value = 1, um_Available = True, um_Estimated = False\<rparr>,
       OutputTokens = \<lparr>um_Value = 0, um_Available = False, um_Estimated = False\<rparr>,
       TotalCostUSD = \<lparr>um_Value = FloatNaN, um_Available = False, um_Estimated = False\<rparr>\<rparr>,
     ev_Timestamp = 0\<rparr>"

definition demo_stream :: system where
  "demo_stream = stream_start \<lparr>ref_SessionID = ''s'', ref_TurnKey = ''t''\<rparr> 1
     [Send demo_event, Send demo_event, SendOrOverflow demo_event]"

lemmas stream_eval = demo_stream_def stream_start_def NewBufferedStream_def pc_of_def goto_def enter_send_def
  enter_close_def demo_event_def Event_Validate_def Usage_Validate_def TurnRef_Validate_def MaxEventPayloadBytes_def

lemma stream_calls_return_witness:
  "\<exists>z. stream_move (Abort 1) (stream_run [Enter 0, Put 0, Enter 1, Enter 2, Overflow 2, Leave 2, Shut 2] demo_stream) = Some z \<and>
     work_left z < work_left (stream_run [Enter 0, Put 0, Enter 1, Enter 2, Overflow 2, Leave 2, Shut 2] demo_stream) \<and>
     bs_err (stream z) = Some ErrBufferOverflow"
proof -
  let ?ms = "[Enter 0, Put 0, Enter 1, Enter 2, Overflow 2, Leave 2, Shut 2]"
  have "\<exists>z. stream_move (Abort 1) (stream_run ?ms demo_stream) = Some z \<and> bs_err (stream z) = Some ErrBufferOverflow"
    by (simp add: stream_eval)
  then obtain z where z: "stream_move (Abort 1) (stream_run ?ms demo_stream) = Some z" "bs_err (stream z) = Some ErrBufferOverflow"
    by blast
  have "stream_move (Abort 1) (stream_run ?ms demo_stream) = Some z \<longrightarrow> work_left z < work_left (stream_run ?ms demo_stream)"
    using stream_calls_return [where m = "Abort 1" and ms = ?ms] unfolding demo_stream_def Let_def by (rule conjunct1)
  then show ?thesis using z by blast
qed

section \<open>The adapter registry\<close>

text \<open>
  \<open>strings.ToLower\<close>, as far as its result is ASCII: besides the capital letters, the Kelvin sign and
  the dotted capital I have ASCII lower-case forms. Other bytes stay, and cannot match.
\<close>

fun ToLower :: "string \<Rightarrow> string" where
  "ToLower [] = []"
| "ToLower (c # s) =
     (if take 3 (c # s) = [CHR 0xE2, CHR 0x84, CHR 0xAA] then CHR ''k'' # ToLower (drop 2 s)
      else if take 2 (c # s) = [CHR 0xC4, CHR 0xB0] then CHR ''i'' # ToLower (drop 1 s)
      else lower_byte c # ToLower s)"

datatype registry_error =
  ErrUnknownAdapter string | ErrFakeAdapterProhibited | ErrFixtureAdapterProhibited | InvalidContributor | NilAdapter

type_synonym 'a Registry = "string \<rightharpoonup> 'a"

definition NewRegistry :: "'a Registry" where "NewRegistry = Map.empty"

definition Register :: "string \<Rightarrow> 'a option \<Rightarrow> 'a Registry \<Rightarrow> registry_error + 'a Registry" where
  "Register contrib ad r =
     (if \<not> ValidContributor contrib then Inl InvalidContributor
      else case ad of None \<Rightarrow> Inl NilAdapter | Some a \<Rightarrow> Inr (r(contrib \<mapsto> a)))"

definition Resolve :: "string \<Rightarrow> 'a Registry \<Rightarrow> registry_error + 'a" where
  "Resolve contrib r = (case r contrib of None \<Rightarrow> Inl (ErrUnknownAdapter contrib) | Some a \<Rightarrow> Inr a)"

definition ResolveByName :: "string \<Rightarrow> 'a Registry \<Rightarrow> registry_error + 'a" where
  "ResolveByName name r =
     (let lower = ToLower (TrimSpace name) in
      if lower = ''fake'' \<or> Contains lower ''fake'' then Inl ErrFakeAdapterProhibited
      else if Contains lower ''fixture'' then Inl ErrFixtureAdapterProhibited
      else if \<not> ValidContributor lower then Inl (ErrUnknownAdapter name)
      else Resolve lower r)"

text \<open>Only the four contributors are ever resolved, each to the adapter last registered for it.\<close>

fun register_all :: "(string \<times> 'a option) list \<Rightarrow> 'a Registry \<Rightarrow> 'a Registry" where
  "register_all [] r = r"
| "register_all ((c, a) # rest) r = register_all rest (case Register c a r of Inl e \<Rightarrow> r | Inr r' \<Rightarrow> r')"

lemma register_dom: "dom r \<subseteq> set Roster \<Longrightarrow> dom (register_all cs r) \<subseteq> set Roster"
  by (induction cs r rule: register_all.induct) (auto simp: Register_def split: option.splits sum.splits)

lemma ResolveByName_Inr:
  "ResolveByName name r = Inr a \<Longrightarrow> ToLower (TrimSpace name) \<in> set Roster \<and> r (ToLower (TrimSpace name)) = Some a"
  by (auto simp: ResolveByName_def Resolve_def Let_def split: if_splits option.splits)

end
