(* ===== verification/Service_Coordinator.thy ===== *)
theory Service_Coordinator
  imports Adapter_Stream "HOL-Library.AList"
begin

text \<open>
  The coordinator of the service, \<open>internal/service/coordinator.go\<close>: the admission gate, the
  accounting of admitted work, recovery blockers with their epoch, event fan-out and the published
  controller attachments. Every method holds the coordinator's mutex, so it is one step. The
  closures that retire work are tasks by number, with the flag of their \<open>sync.Once\<close>; channels are
  numbered too. A negative wait group and a channel closed twice are panics.
\<close>

section \<open>State\<close>

datatype ServiceState = ServiceStateRunning | ServiceStateDraining | ServiceStateStopping

datatype service_error = ErrServiceDraining | ErrServiceStopping

record SSEEvent =
  sse_Event :: string
  sse_Data :: string

record attachmentState =
  at_generation :: "64 word"
  at_attachmentID :: string
  at_instanceID :: string
  at_revision :: "64 word"

datatype task = Worker TurnRef | Handoff | Commit | Control

record channel =
  ch_ref :: TurnRef
  ch_buffer :: "SSEEvent list"
  ch_closed :: bool
  ch_unsubscribed :: bool

record Coordinator =
  co_state :: ServiceState
  co_cancelled :: bool
  co_tasks :: int
  co_liveWorkers :: int
  co_pendingHandoffs :: int
  co_pendingCommits :: int
  co_inFlightControl :: int
  co_recoveryBlockers :: int
  co_blockerEpoch :: "64 word"
  co_activeTurns :: "(TurnRef \<times> nat) list"
  co_subscribers :: "(TurnRef \<times> nat list) list"
  co_attachments :: "string \<rightharpoonup> attachmentState"
  co_admitted :: "(task \<times> bool) list"
  co_contexts :: "nat list"
  co_channels :: "channel list"
  co_panicked :: bool

definition NewCoordinator :: Coordinator where
  "NewCoordinator = \<lparr>co_state = ServiceStateRunning, co_cancelled = False, co_tasks = 0, co_liveWorkers = 0,
     co_pendingHandoffs = 0, co_pendingCommits = 0, co_inFlightControl = 0, co_recoveryBlockers = 0,
     co_blockerEpoch = 0, co_activeTurns = [], co_subscribers = [], co_attachments = Map.empty,
     co_admitted = [], co_contexts = [], co_channels = [], co_panicked = False\<rparr>"

section \<open>Lifecycle and admission\<close>

fun stateRank :: "ServiceState \<Rightarrow> nat" where
  "stateRank ServiceStateRunning = 0"
| "stateRank ServiceStateDraining = 1"
| "stateRank ServiceStateStopping = 2"

definition SetState :: "ServiceState \<Rightarrow> Coordinator \<Rightarrow> Coordinator" where
  "SetState s c = (if stateRank (co_state c) < stateRank s then c\<lparr>co_state := s\<rparr> else c)"

definition IsDrainingOrStopping :: "Coordinator \<Rightarrow> bool" where
  "IsDrainingOrStopping c \<longleftrightarrow> co_state c = ServiceStateDraining \<or> co_state c = ServiceStateStopping"

text \<open>The counter a task is accounted in.\<close>

fun account :: "task \<Rightarrow> int \<Rightarrow> Coordinator \<Rightarrow> Coordinator" where
  "account (Worker ref) n c = c\<lparr>co_liveWorkers := co_liveWorkers c + n\<rparr>"
| "account Handoff n c = c\<lparr>co_pendingHandoffs := co_pendingHandoffs c + n\<rparr>"
| "account Commit n c = c\<lparr>co_pendingCommits := co_pendingCommits c + n\<rparr>"
| "account Control n c = c\<lparr>co_inFlightControl := co_inFlightControl c + n\<rparr>"

definition admit :: "task \<Rightarrow> Coordinator \<Rightarrow> nat \<times> Coordinator" where
  "admit t c = (length (co_admitted c),
     (account t 1 c)\<lparr>co_tasks := co_tasks c + 1, co_admitted := co_admitted c @ [(t, False)]\<rparr>)"

definition RegisterWorker :: "TurnRef \<Rightarrow> Coordinator \<Rightarrow> service_error + nat \<times> Coordinator" where
  "RegisterWorker ref c =
     (if co_state c = ServiceStateStopping then Inl ErrServiceStopping
      else case admit (Worker ref) c of (w, c1) \<Rightarrow>
        Inr (w, c1\<lparr>co_activeTurns := AList.update ref w (co_activeTurns c1),
                   co_blockerEpoch := co_blockerEpoch c1 + 1\<rparr>))"

definition TrackHandoff :: "Coordinator \<Rightarrow> nat \<times> Coordinator" where "TrackHandoff c = admit Handoff c"

definition TrackCommit :: "Coordinator \<Rightarrow> nat \<times> Coordinator" where "TrackCommit c = admit Commit c"

definition TrackControl :: "Coordinator \<Rightarrow> service_error + nat \<times> Coordinator" where
  "TrackControl c = (if co_state c = ServiceStateStopping then Inl ErrServiceStopping else Inr (admit Control c))"

definition AdmitRelease :: "Coordinator \<Rightarrow> service_error + nat \<times> Coordinator" where
  "AdmitRelease c =
     (if co_state c = ServiceStateDraining \<or> co_state c = ServiceStateStopping then Inl ErrServiceStopping
      else Inr (admit Handoff c))"

text \<open>Calling the closure a task was admitted with: the first call retires it.\<close>

definition retire :: "nat \<Rightarrow> Coordinator \<Rightarrow> Coordinator" where
  "retire w c =
     (if length (co_admitted c) \<le> w then c
      else case co_admitted c ! w of (t, True) \<Rightarrow> c
      | (t, False) \<Rightarrow>
          let c1 = (account t (- 1) c)\<lparr>co_tasks := co_tasks c - 1, co_admitted := (co_admitted c)[w := (t, True)],
                co_panicked := co_panicked c \<or> co_tasks c \<le> 0\<rparr>
          in (case t of
                Worker ref \<Rightarrow> c1\<lparr>co_activeTurns := AList.delete ref (co_activeTurns c1),
                  co_contexts := w # co_contexts c1, co_blockerEpoch := co_blockerEpoch c1 + 1\<rparr>
              | _ \<Rightarrow> c1))"

definition CancelActiveWorkers :: "Coordinator \<Rightarrow> Coordinator" where
  "CancelActiveWorkers c = c\<lparr>co_contexts := map snd (co_activeTurns c) @ co_contexts c\<rparr>"

text \<open>A worker's context is done when it was cancelled or the root context was.\<close>

definition worker_cancelled :: "nat \<Rightarrow> Coordinator \<Rightarrow> bool" where
  "worker_cancelled w c \<longleftrightarrow> co_cancelled c \<or> w \<in> set (co_contexts c)"

section \<open>Recovery blockers and shutdown\<close>

definition AddRecoveryBlocker :: "Coordinator \<Rightarrow> Coordinator" where
  "AddRecoveryBlocker c = c\<lparr>co_recoveryBlockers := co_recoveryBlockers c + 1, co_blockerEpoch := co_blockerEpoch c + 1\<rparr>"

definition ApplyDiagnosticBlockers :: "int \<Rightarrow> 64 word \<Rightarrow> Coordinator \<Rightarrow> bool \<times> Coordinator" where
  "ApplyDiagnosticBlockers n epoch c =
     (if epoch \<noteq> co_blockerEpoch c then (False, c) else (True, c\<lparr>co_recoveryBlockers := n\<rparr>))"

definition SetRecoveryBlockers :: "int \<Rightarrow> Coordinator \<Rightarrow> Coordinator" where
  "SetRecoveryBlockers n c = c\<lparr>co_recoveryBlockers := n\<rparr>"

definition IsShutdownEligible :: "Coordinator \<Rightarrow> bool" where
  "IsShutdownEligible c \<longleftrightarrow> co_pendingHandoffs c = 0 \<and> co_liveWorkers c = 0 \<and> co_pendingCommits c = 0 \<and>
     co_inFlightControl c = 0 \<and> co_recoveryBlockers c = 0"

definition TryStopIdle :: "Coordinator \<Rightarrow> bool \<times> Coordinator" where
  "TryStopIdle c =
     (if co_state c \<noteq> ServiceStateRunning then (False, c)
      else if co_pendingHandoffs c = 0 \<and> co_liveWorkers c = 0 \<and> co_pendingCommits c = 0 \<and>
              co_inFlightControl c = 0 \<and> co_recoveryBlockers c = 0
        then (True, c\<lparr>co_state := ServiceStateStopping\<rparr>)
      else (False, c))"

definition LiveWorkerKeys :: "Coordinator \<Rightarrow> string list" where
  "LiveWorkerKeys c = map (\<lambda>(r, w). ref_SessionID r @ '':'' @ ref_TurnKey r) (co_activeTurns c)"

section \<open>Subscribers\<close>

definition subs_of :: "TurnRef \<Rightarrow> Coordinator \<Rightarrow> nat list" where
  "subs_of ref c = (case map_of (co_subscribers c) ref of None \<Rightarrow> [] | Some l \<Rightarrow> l)"

definition put_subs :: "TurnRef \<Rightarrow> nat list \<Rightarrow> Coordinator \<Rightarrow> Coordinator" where
  "put_subs ref l c = c\<lparr>co_subscribers :=
     (if l = [] then AList.delete ref (co_subscribers c) else AList.update ref l (co_subscribers c))\<rparr>"

definition RegisterSubscriber :: "TurnRef \<Rightarrow> Coordinator \<Rightarrow> nat \<times> Coordinator" where
  "RegisterSubscriber ref c =
     (let ch = length (co_channels c) in
      (ch, put_subs ref (subs_of ref c @ [ch])
        (c\<lparr>co_channels := co_channels c @ [\<lparr>ch_ref = ref, ch_buffer = [], ch_closed = False, ch_unsubscribed = False\<rparr>]\<rparr>)))"

text \<open>The closure that ends a subscription.\<close>

definition unsubscribe :: "nat \<Rightarrow> Coordinator \<Rightarrow> Coordinator" where
  "unsubscribe ch c =
     (if length (co_channels c) \<le> ch \<or> ch_unsubscribed (co_channels c ! ch) then c
      else let k = co_channels c ! ch; ref = ch_ref k in
        put_subs ref (remove1 ch (subs_of ref c))
          (c\<lparr>co_channels := (co_channels c)[ch := k\<lparr>ch_unsubscribed := True\<rparr>]\<rparr>))"

definition SubscriberCount :: "TurnRef \<Rightarrow> Coordinator \<Rightarrow> nat" where
  "SubscriberCount ref c = length (subs_of ref c)"

definition TotalSubscriberCount :: "Coordinator \<Rightarrow> nat" where
  "TotalSubscriberCount c = sum_list (map (\<lambda>(r, l). length l) (co_subscribers c))"

definition channel_capacity :: nat where "channel_capacity = 64"

definition close_channel :: "nat \<Rightarrow> Coordinator \<Rightarrow> Coordinator" where
  "close_channel ch c = c\<lparr>co_channels := (co_channels c)[ch := (co_channels c ! ch)\<lparr>ch_closed := True\<rparr>],
     co_panicked := co_panicked c \<or> ch_closed (co_channels c ! ch)\<rparr>"

text \<open>One subscriber of a broadcast: delivered and kept, or too slow and disconnected.\<close>

definition offer :: "SSEEvent \<Rightarrow> nat \<Rightarrow> Coordinator \<times> nat list \<Rightarrow> Coordinator \<times> nat list" where
  "offer ev ch p =
     (case p of (c, remaining) \<Rightarrow>
        let k = co_channels c ! ch in
        if ch_closed k then (c\<lparr>co_panicked := True\<rparr>, remaining @ [ch])
        else if length (ch_buffer k) < channel_capacity
          then (c\<lparr>co_channels := (co_channels c)[ch := k\<lparr>ch_buffer := ch_buffer k @ [ev]\<rparr>]\<rparr>, remaining @ [ch])
        else (close_channel ch c, remaining))"

definition BroadcastEvent :: "TurnRef \<Rightarrow> SSEEvent \<Rightarrow> Coordinator \<Rightarrow> Coordinator" where
  "BroadcastEvent ref ev c =
     (if subs_of ref c = [] then c
      else case fold (offer ev) (subs_of ref c) (c, []) of (c1, remaining) \<Rightarrow> put_subs ref remaining c1)"

definition CloseAllSubscribers :: "Coordinator \<Rightarrow> Coordinator" where
  "CloseAllSubscribers c = (fold close_channel (concat (map snd (co_subscribers c))) c)\<lparr>co_subscribers := []\<rparr>"

text \<open>The reader of a channel takes the event in front.\<close>

definition take_event :: "nat \<Rightarrow> Coordinator \<Rightarrow> Coordinator" where
  "take_event ch c =
     (if length (co_channels c) \<le> ch then c
      else c\<lparr>co_channels := (co_channels c)[ch := (co_channels c ! ch)\<lparr>ch_buffer := tl (ch_buffer (co_channels c ! ch))\<rparr>]\<rparr>)"

section \<open>Controller attachments\<close>

definition keeps_attachment :: "64 word \<Rightarrow> string \<Rightarrow> 64 word \<Rightarrow> attachmentState \<Rightarrow> bool" where
  "keeps_attachment generation attachmentID revision a \<longleftrightarrow>
     at_generation a > generation \<or>
     at_generation a = generation \<and>
       (at_revision a > revision \<or> at_revision a = revision \<and> at_attachmentID a \<noteq> attachmentID)"

definition MarkControllerAttached ::
  "string \<Rightarrow> 64 word \<Rightarrow> string \<Rightarrow> string \<Rightarrow> 64 word \<Rightarrow> Coordinator \<Rightarrow> Coordinator"
where
  "MarkControllerAttached runID generation attachmentID instanceID revision c =
     (if (case co_attachments c runID of None \<Rightarrow> False | Some a \<Rightarrow> keeps_attachment generation attachmentID revision a)
      then c
      else c\<lparr>co_attachments := (co_attachments c)(runID \<mapsto>
        \<lparr>at_generation = generation, at_attachmentID = attachmentID, at_instanceID = instanceID,
         at_revision = revision\<rparr>)\<rparr>)"

definition ControllerAttachedEpisode :: "string \<Rightarrow> 64 word \<Rightarrow> string \<Rightarrow> Coordinator \<Rightarrow> bool" where
  "ControllerAttachedEpisode runID generation attachmentID c \<longleftrightarrow>
     (case co_attachments c runID of None \<Rightarrow> False
      | Some a \<Rightarrow> at_generation a = generation \<and> at_attachmentID a = attachmentID \<and> at_instanceID a \<noteq> [])"

definition ControllerAttached :: "string \<Rightarrow> 64 word \<Rightarrow> Coordinator \<Rightarrow> bool" where
  "ControllerAttached runID generation c \<longleftrightarrow>
     (case co_attachments c runID of None \<Rightarrow> False
      | Some a \<Rightarrow> at_generation a = generation \<and> at_instanceID a \<noteq> [])"

definition InvalidateControllerAttachment :: "string \<Rightarrow> Coordinator \<Rightarrow> Coordinator" where
  "InvalidateControllerAttachment runID c = c\<lparr>co_attachments := (co_attachments c)(runID := None)\<rparr>"

definition InvalidateControllerAttachmentIf ::
  "string \<Rightarrow> 64 word \<Rightarrow> string \<Rightarrow> string \<Rightarrow> Coordinator \<Rightarrow> Coordinator"
where
  "InvalidateControllerAttachmentIf runID generation attachmentID instanceID c =
     (case co_attachments c runID of None \<Rightarrow> c
      | Some a \<Rightarrow>
          if at_generation a = generation \<and> at_attachmentID a = attachmentID \<and> at_instanceID a = instanceID
          then c\<lparr>co_attachments := (co_attachments c)(runID := None)\<rparr> else c)"

definition CancelAll :: "Coordinator \<Rightarrow> Coordinator" where
  "CancelAll c = CloseAllSubscribers (CancelActiveWorkers (c\<lparr>co_cancelled := True\<rparr>))"

section \<open>Runs\<close>

datatype co_op =
    CoSetState ServiceState | CoRegister TurnRef | CoHandoff | CoCommit | CoControl | CoAdmit | CoRetire nat
  | CoCancelWorkers | CoAddBlocker | CoApply int "64 word" | CoSetBlockers int | CoTryStop
  | CoSubscribe TurnRef | CoUnsubscribe nat | CoBroadcast TurnRef SSEEvent | CoCloseAll | CoTake nat
  | CoMark string "64 word" string string "64 word" | CoInvalidate string
  | CoInvalidateIf string "64 word" string string | CoCancelAll

definition admitted :: "service_error + nat \<times> Coordinator \<Rightarrow> Coordinator \<Rightarrow> Coordinator" where
  "admitted x c = (case x of Inl e \<Rightarrow> c | Inr (w, c') \<Rightarrow> c')"

fun co_step :: "co_op \<Rightarrow> Coordinator \<Rightarrow> Coordinator" where
  "co_step (CoSetState s) c = SetState s c"
| "co_step (CoRegister ref) c = admitted (RegisterWorker ref c) c"
| "co_step CoHandoff c = snd (TrackHandoff c)"
| "co_step CoCommit c = snd (TrackCommit c)"
| "co_step CoControl c = admitted (TrackControl c) c"
| "co_step CoAdmit c = admitted (AdmitRelease c) c"
| "co_step (CoRetire w) c = retire w c"
| "co_step CoCancelWorkers c = CancelActiveWorkers c"
| "co_step CoAddBlocker c = AddRecoveryBlocker c"
| "co_step (CoApply n e) c = snd (ApplyDiagnosticBlockers n e c)"
| "co_step (CoSetBlockers n) c = SetRecoveryBlockers n c"
| "co_step CoTryStop c = snd (TryStopIdle c)"
| "co_step (CoSubscribe ref) c = snd (RegisterSubscriber ref c)"
| "co_step (CoUnsubscribe ch) c = unsubscribe ch c"
| "co_step (CoBroadcast ref ev) c = BroadcastEvent ref ev c"
| "co_step CoCloseAll c = CloseAllSubscribers c"
| "co_step (CoTake ch) c = take_event ch c"
| "co_step (CoMark r g a i v) c = MarkControllerAttached r g a i v c"
| "co_step (CoInvalidate r) c = InvalidateControllerAttachment r c"
| "co_step (CoInvalidateIf r g a i) c = InvalidateControllerAttachmentIf r g a i c"
| "co_step CoCancelAll c = CancelAll c"

definition co_run :: "co_op list \<Rightarrow> Coordinator \<Rightarrow> Coordinator" where
  "co_run ops c = fold co_step ops c"

lemma co_run_simps [simp]:
  "co_run [] c = c" "co_run (a # as) c = co_run as (co_step a c)" "co_run (as @ bs) c = co_run bs (co_run as c)"
  by (simp_all add: co_run_def)

lemma co_run_invariant:
  "I c \<Longrightarrow> (\<And>a c. I c \<Longrightarrow> I (co_step a c)) \<Longrightarrow> I (co_run as c)"
  by (induction as arbitrary: c) auto

section \<open>Accounting\<close>

text \<open>The unretired tasks of a kind, counted from the closures that were handed out.\<close>

definition outstanding :: "(task \<Rightarrow> bool) \<Rightarrow> Coordinator \<Rightarrow> int" where
  "outstanding p c = int (length (filter (\<lambda>(t, d). \<not> d \<and> p t) (co_admitted c)))"

fun is_worker :: "task \<Rightarrow> bool" where
  "is_worker (Worker ref) = True"
| "is_worker Handoff = False"
| "is_worker Commit = False"
| "is_worker Control = False"

definition accounted :: "Coordinator \<Rightarrow> bool" where
  "accounted c \<longleftrightarrow> co_tasks c = outstanding (\<lambda>t. True) c \<and> co_liveWorkers c = outstanding is_worker c \<and>
     co_pendingHandoffs c = outstanding (\<lambda>t. t = Handoff) c \<and> co_pendingCommits c = outstanding (\<lambda>t. t = Commit) c \<and>
     co_inFlightControl c = outstanding (\<lambda>t. t = Control) c"

lemma accounted_updates [simp]:
  "accounted (c\<lparr>co_subscribers := s\<rparr>) = accounted c" "accounted (c\<lparr>co_channels := ch\<rparr>) = accounted c"
  "accounted (c\<lparr>co_state := st\<rparr>) = accounted c" "accounted (c\<lparr>co_contexts := ctx\<rparr>) = accounted c"
  "accounted (c\<lparr>co_cancelled := b\<rparr>) = accounted c" "accounted (c\<lparr>co_attachments := m\<rparr>) = accounted c"
  "accounted (c\<lparr>co_recoveryBlockers := n\<rparr>) = accounted c" "accounted (c\<lparr>co_blockerEpoch := e\<rparr>) = accounted c"
  "accounted (c\<lparr>co_activeTurns := t\<rparr>) = accounted c" "accounted (c\<lparr>co_panicked := b\<rparr>) = accounted c"
  by (simp_all add: accounted_def outstanding_def)

lemma account_admitted [simp]: "co_admitted (account t n c) = co_admitted c"
  "co_tasks (account t n c) = co_tasks c" "co_panicked (account t n c) = co_panicked c"
  "co_channels (account t n c) = co_channels c" "co_subscribers (account t n c) = co_subscribers c"
  "co_state (account t n c) = co_state c" "co_blockerEpoch (account t n c) = co_blockerEpoch c"
  "co_activeTurns (account t n c) = co_activeTurns c" "co_recoveryBlockers (account t n c) = co_recoveryBlockers c"
  "co_attachments (account t n c) = co_attachments c"
  by (cases t; simp)+

lemma accounted_admit: "accounted c \<Longrightarrow> accounted (snd (admit t c))"
  by (cases t) (simp_all add: accounted_def admit_def outstanding_def)

lemma outstanding_retire:
  assumes "w < length as" and "as ! w = (t, False)"
  shows "int (length (filter (\<lambda>(t, d). \<not> d \<and> p t) (as[w := (t, True)]))) =
    int (length (filter (\<lambda>(t, d). \<not> d \<and> p t) as)) - (if p t then 1 else 0)"
  using assms
proof (induction as arbitrary: w)
  case Nil
  then show ?case by simp
next
  case (Cons a as)
  then show ?case by (cases w) auto
qed

lemma accounted_retire: "accounted c \<Longrightarrow> accounted (retire w c)"
proof (cases "length (co_admitted c) \<le> w")
  case True
  then show "accounted c \<Longrightarrow> accounted (retire w c)" by (simp add: retire_def)
next
  case False
  assume a: "accounted c"
  obtain t d where e: "co_admitted c ! w = (t, d)" by fastforce
  show "accounted (retire w c)"
  proof (cases d)
    case True
    with False e a show ?thesis by (simp add: retire_def)
  next
    case nd: False
    note o = outstanding_retire [OF _ e [unfolded nd [THEN eq_False [THEN iffD2]]]]
    show ?thesis
      using a False e nd o [of "\<lambda>t. True"] o [of is_worker] o [of "\<lambda>t. t = Handoff"] o [of "\<lambda>t. t = Commit"]
        o [of "\<lambda>t. t = Control"]
      by (cases t) (simp_all add: retire_def accounted_def outstanding_def Let_def)
  qed
qed

lemma put_subs_simps [simp]:
  "co_channels (put_subs ref l c) = co_channels c" "co_panicked (put_subs ref l c) = co_panicked c"
  "co_state (put_subs ref l c) = co_state c" "co_blockerEpoch (put_subs ref l c) = co_blockerEpoch c"
  "co_activeTurns (put_subs ref l c) = co_activeTurns c"
  "accounted (put_subs ref l c) = accounted c"
  "co_liveWorkers (put_subs ref l c) = co_liveWorkers c"
  by (simp_all add: put_subs_def accounted_def outstanding_def)

text \<open>What fan-out never touches.\<close>

definition same_work :: "Coordinator \<Rightarrow> Coordinator \<Rightarrow> bool" where
  "same_work c c' \<longleftrightarrow> accounted c' = accounted c \<and> co_state c' = co_state c \<and> co_blockerEpoch c' = co_blockerEpoch c \<and>
     co_activeTurns c' = co_activeTurns c \<and> co_subscribers c' = co_subscribers c \<and>
     co_liveWorkers c' = co_liveWorkers c \<and> length (co_channels c') = length (co_channels c)"

lemma same_work_refl [simp]: "same_work c c"
  by (simp add: same_work_def)

lemma same_work_trans: "same_work a b \<Longrightarrow> same_work b c \<Longrightarrow> same_work a c"
  by (simp add: same_work_def)

lemma close_channel_same: "same_work c (close_channel ch c)"
  by (simp add: same_work_def close_channel_def)

lemma offer_same: "same_work c (fst (offer ev ch (c, rem)))"
  using close_channel_same [of c ch]
  by (simp add: offer_def Let_def) (simp add: same_work_def)

lemma fold_close_same: "same_work c (fold close_channel chs c)"
  by (induction chs arbitrary: c) (auto intro: same_work_trans close_channel_same)

lemma fold_offer_same: "same_work c (fst (fold (offer ev) chs (c, rem)))"
proof (induction chs arbitrary: c rem)
  case Nil
  then show ?case by simp
next
  case (Cons a chs)
  obtain c1 r1 where o: "offer ev a (c, rem) = (c1, r1)" by fastforce
  show ?case
    using same_work_trans [OF offer_same [of c ev a rem, unfolded o fst_conv] Cons.IH [of c1 r1]] o by simp
qed

lemma broadcast_accounted:
  "accounted (BroadcastEvent ref ev c) = accounted c" "co_state (BroadcastEvent ref ev c) = co_state c"
  "co_blockerEpoch (BroadcastEvent ref ev c) = co_blockerEpoch c"
  "co_activeTurns (BroadcastEvent ref ev c) = co_activeTurns c"
  "co_liveWorkers (BroadcastEvent ref ev c) = co_liveWorkers c"
  using fold_offer_same [of c ev "subs_of ref c" "[]"]
  by (simp_all add: BroadcastEvent_def same_work_def case_prod_beta)

lemma close_all_accounted:
  "accounted (CloseAllSubscribers c) = accounted c" "co_state (CloseAllSubscribers c) = co_state c"
  "co_blockerEpoch (CloseAllSubscribers c) = co_blockerEpoch c"
  "co_activeTurns (CloseAllSubscribers c) = co_activeTurns c"
  "co_liveWorkers (CloseAllSubscribers c) = co_liveWorkers c"
  using fold_close_same [of c "concat (map snd (co_subscribers c))"]
  by (simp_all add: CloseAllSubscribers_def same_work_def)

lemma step_accounted: "accounted c \<Longrightarrow> accounted (co_step a c)"
proof (cases a)
  case (CoRegister ref)
  assume i: "accounted c"
  have "accounted (snd (admit (Worker ref) c))" by (rule accounted_admit [OF i])
  then show ?thesis
    using i CoRegister by (simp add: RegisterWorker_def admitted_def case_prod_beta)
next
  case CoControl
  then show "accounted c \<Longrightarrow> accounted (co_step a c)"
    using accounted_admit [of c Control] by (simp add: TrackControl_def admitted_def case_prod_beta)
next
  case CoAdmit
  then show "accounted c \<Longrightarrow> accounted (co_step a c)"
    using accounted_admit [of c Handoff] by (simp add: AdmitRelease_def admitted_def case_prod_beta)
qed (simp_all add: accounted_admit TrackHandoff_def TrackCommit_def accounted_retire broadcast_accounted close_all_accounted
      SetState_def CancelActiveWorkers_def AddRecoveryBlocker_def ApplyDiagnosticBlockers_def SetRecoveryBlockers_def
      TryStopIdle_def take_event_def MarkControllerAttached_def InvalidateControllerAttachment_def CancelAll_def
      InvalidateControllerAttachmentIf_def RegisterSubscriber_def unsubscribe_def Let_def split: option.split)

section \<open>Fan-out\<close>

definition subscribed :: "TurnRef \<Rightarrow> nat \<Rightarrow> channel list \<Rightarrow> bool" where
  "subscribed ref ch chans \<longleftrightarrow> ch < length chans \<and> ch_ref (chans ! ch) = ref \<and> \<not> ch_closed (chans ! ch) \<and>
     \<not> ch_unsubscribed (chans ! ch)"

definition fanout :: "Coordinator \<Rightarrow> bool" where
  "fanout c \<longleftrightarrow> distinct (map fst (co_subscribers c)) \<and> (\<forall>p\<in>set (co_subscribers c). snd p \<noteq> []) \<and>
     (\<forall>ref. distinct (subs_of ref c)) \<and> (\<forall>ref. \<forall>ch\<in>set (subs_of ref c). subscribed ref ch (co_channels c)) \<and>
     (\<forall>k\<in>set (co_channels c). length (ch_buffer k) \<le> channel_capacity)"

definition sound :: "Coordinator \<Rightarrow> bool" where
  "sound c \<longleftrightarrow> accounted c \<and> fanout c \<and> \<not> co_panicked c"

lemma subs_of_put [simp]: "subs_of r (put_subs ref l c) = (if r = ref then l else subs_of r c)"
  by (simp add: put_subs_def subs_of_def delete_conv' update_conv')

lemma subs_of_update [simp]:
  "subs_of r (c\<lparr>co_channels := ch\<rparr>) = subs_of r c"
  by (simp add: subs_of_def)

text \<open>New lists for one turn and new channels keep the invariant when the lists still name open channels.\<close>

lemma fanout_put:
  assumes f: "fanout c" and d: "distinct l"
    and on: "\<And>ch. ch \<in> set l \<Longrightarrow> subscribed ref ch (co_channels c')"
    and off: "\<And>r ch. r \<noteq> ref \<Longrightarrow> subscribed r ch (co_channels c) \<Longrightarrow> subscribed r ch (co_channels c')"
    and buf: "\<And>k. k \<in> set (co_channels c') \<Longrightarrow> length (ch_buffer k) \<le> channel_capacity"
    and same: "co_subscribers c' = co_subscribers c"
  shows "fanout (put_subs ref l c')"
proof -
  have s: "subs_of r c' = subs_of r c" for r by (simp add: subs_of_def same)
  have keys: "distinct (map fst (co_subscribers (put_subs ref l c')))"
    using f by (simp add: fanout_def put_subs_def same distinct_delete distinct_update)
  have ne: "snd p \<noteq> []" if "p \<in> set (co_subscribers (put_subs ref l c'))" for p
  proof (cases "l = []")
    case True
    with that have "p \<in> set (co_subscribers c)" by (auto simp: put_subs_def same AList.delete_eq)
    with f show ?thesis by (simp add: fanout_def)
  next
    case False
    with that have "p \<in> set (AList.update ref l (co_subscribers c))" by (simp add: put_subs_def same)
    moreover have "set (AList.update k v al) \<subseteq> insert (k, v) (set al)" for k :: TurnRef and v :: "nat list" and al
      by (induction al) auto
    ultimately have "p \<in> insert (ref, l) (set (co_subscribers c))" by blast
    with f False show ?thesis by (auto simp: fanout_def)
  qed
  show ?thesis unfolding fanout_def
    using f keys ne d on off buf by (simp add: fanout_def s)
qed

lemma fanout_same:
  "\<lbrakk>fanout c; co_subscribers c' = co_subscribers c; co_channels c' = co_channels c\<rbrakk> \<Longrightarrow> fanout c'"
  by (simp add: fanout_def subs_of_def)

lemma fanout_member: "fanout c \<Longrightarrow> ch \<in> set (subs_of ref c) \<Longrightarrow> subscribed ref ch (co_channels c)"
  by (simp add: fanout_def)

lemma fanout_distinct: "fanout c \<Longrightarrow> distinct (subs_of ref c)"
  by (simp add: fanout_def)

lemma subscribed_update:
  "r \<noteq> ch_ref (chans ! i) \<Longrightarrow> subscribed r ch chans \<Longrightarrow> ch_ref k = ch_ref (chans ! i) \<Longrightarrow> subscribed r ch (chans[i := k])"
  by (cases "ch = i") (auto simp: subscribed_def)

lemma fanout_subscribe: "fanout c \<Longrightarrow> fanout (snd (RegisterSubscriber ref c))"
  unfolding RegisterSubscriber_def Let_def snd_conv
proof (rule fanout_put)
  assume f: "fanout c"
  show "fanout c" by (rule f)
  have "ch < length (co_channels c)" if "ch \<in> set (subs_of ref c)" for ch
    using fanout_member [OF f that] by (simp add: subscribed_def)
  then show "distinct (subs_of ref c @ [length (co_channels c)])"
    using fanout_distinct [OF f, of ref] by fastforce
  fix ch assume "ch \<in> set (subs_of ref c @ [length (co_channels c)])"
  then consider "ch = length (co_channels c)" | "ch \<in> set (subs_of ref c)" by auto
  then show "subscribed ref ch (co_channels (c\<lparr>co_channels := co_channels c @
      [\<lparr>ch_ref = ref, ch_buffer = [], ch_closed = False, ch_unsubscribed = False\<rparr>]\<rparr>))"
    by cases (use fanout_member [OF f, of ch ref] in \<open>auto simp: subscribed_def nth_append\<close>)
qed (auto simp: subscribed_def nth_append fanout_def)

lemma fanout_unsubscribe: "fanout c \<Longrightarrow> fanout (unsubscribe ch c)"
proof (cases "length (co_channels c) \<le> ch \<or> ch_unsubscribed (co_channels c ! ch)")
  case True
  then show "fanout c \<Longrightarrow> fanout (unsubscribe ch c)" by (simp add: unsubscribe_def)
next
  case False
  assume f: "fanout c"
  let ?k = "co_channels c ! ch"
  have d: "distinct (subs_of (ch_ref ?k) c)" by (rule fanout_distinct [OF f])
  have "fanout (put_subs (ch_ref ?k) (remove1 ch (subs_of (ch_ref ?k) c))
      (c\<lparr>co_channels := (co_channels c)[ch := ?k\<lparr>ch_unsubscribed := True\<rparr>]\<rparr>))"
  proof (rule fanout_put [OF f distinct_remove1 [OF d]])
    fix x assume "x \<in> set (remove1 ch (subs_of (ch_ref ?k) c))"
    then have "x \<noteq> ch" and "x \<in> set (subs_of (ch_ref ?k) c)" using d by simp_all
    then show "subscribed (ch_ref ?k) x (co_channels (c\<lparr>co_channels := (co_channels c)[ch := ?k\<lparr>ch_unsubscribed := True\<rparr>]\<rparr>))"
      using fanout_member [OF f, of x "ch_ref ?k"] by (auto simp: subscribed_def)
  next
    fix r x assume "r \<noteq> ch_ref ?k" and "subscribed r x (co_channels c)"
    then show "subscribed r x (co_channels (c\<lparr>co_channels := (co_channels c)[ch := ?k\<lparr>ch_unsubscribed := True\<rparr>]\<rparr>))"
      by (simp add: subscribed_update)
  next
    fix k assume "k \<in> set (co_channels (c\<lparr>co_channels := (co_channels c)[ch := ?k\<lparr>ch_unsubscribed := True\<rparr>]\<rparr>))"
    then have "k \<in> insert (?k\<lparr>ch_unsubscribed := True\<rparr>) (set (co_channels c))" using set_update_subset_insert by fastforce
    then show "length (ch_buffer k) \<le> channel_capacity" using f False by (auto simp: fanout_def)
  qed simp
  with False show ?thesis by (simp add: unsubscribe_def Let_def)
qed

text \<open>What one event does to the channel of a subscriber.\<close>

definition deliver :: "SSEEvent \<Rightarrow> channel \<Rightarrow> channel" where
  "deliver ev k = (if length (ch_buffer k) < channel_capacity then k\<lparr>ch_buffer := ch_buffer k @ [ev]\<rparr>
     else k\<lparr>ch_closed := True\<rparr>)"

lemma deliver_ref [simp]: "ch_ref (deliver ev k) = ch_ref k"
  by (simp add: deliver_def)

lemma offer_open:
  assumes "\<not> ch_closed (co_channels c ! a)"
  shows "snd (offer ev a (c, rem)) = (if length (ch_buffer (co_channels c ! a)) < channel_capacity then rem @ [a] else rem)"
    and "co_channels (fst (offer ev a (c, rem))) = (co_channels c)[a := deliver ev (co_channels c ! a)]"
    and "co_panicked (fst (offer ev a (c, rem))) = co_panicked c"
  using assms by (simp_all add: offer_def Let_def deliver_def close_channel_def)

lemma fold_offer:
  assumes "distinct chs" and "\<And>ch. ch \<in> set chs \<Longrightarrow> ch < length (co_channels c) \<and> \<not> ch_closed (co_channels c ! ch)"
  shows "\<exists>c1. fold (offer ev) chs (c, rem) =
      (c1, rem @ filter (\<lambda>ch. length (ch_buffer (co_channels c ! ch)) < channel_capacity) chs) \<and>
    co_panicked c1 = co_panicked c \<and> length (co_channels c1) = length (co_channels c) \<and>
    (\<forall>i. co_channels c1 ! i = (if i \<in> set chs then deliver ev (co_channels c ! i) else co_channels c ! i))"
  using assms
proof (induction chs arbitrary: c rem)
  case Nil
  then show ?case by simp
next
  case (Cons a chs)
  let ?k = "co_channels c ! a"
  have a: "a < length (co_channels c)" and opn: "\<not> ch_closed ?k" and nin: "a \<notin> set chs" using Cons.prems by auto
  let ?r = "if length (ch_buffer ?k) < channel_capacity then rem @ [a] else rem"
  define c' where "c' = fst (offer ev a (c, rem))"
  have o: "offer ev a (c, rem) = (c', ?r)"
    unfolding c'_def by (rule prod_eqI) (simp_all only: fst_conv snd_conv offer_open(1) [OF opn])
  have ch: "co_channels c' = (co_channels c)[a := deliver ev ?k]" and p: "co_panicked c' = co_panicked c"
    unfolding c'_def by (rule offer_open [OF opn])+
  have "\<exists>c1. fold (offer ev) chs (c', ?r) =
      (c1, ?r @ filter (\<lambda>ch. length (ch_buffer (co_channels c' ! ch)) < channel_capacity) chs) \<and>
    co_panicked c1 = co_panicked c' \<and> length (co_channels c1) = length (co_channels c') \<and>
    (\<forall>i. co_channels c1 ! i = (if i \<in> set chs then deliver ev (co_channels c' ! i) else co_channels c' ! i))"
  proof (rule Cons.IH)
    show "distinct chs" using Cons.prems(1) by simp
    fix ch assume "ch \<in> set chs"
    then have "ch \<noteq> a" using nin by auto
    then show "ch < length (co_channels c') \<and> \<not> ch_closed (co_channels c' ! ch)"
      using \<open>ch \<in> set chs\<close> Cons.prems(2) [of ch] by (simp add: local.ch)
  qed
  moreover have "filter (\<lambda>ch. length (ch_buffer (co_channels c' ! ch)) < channel_capacity) chs =
      filter (\<lambda>ch. length (ch_buffer (co_channels c ! ch)) < channel_capacity) chs"
  proof (rule filter_cong [OF refl])
    fix x assume "x \<in> set chs"
    then have "a \<noteq> x" using nin by auto
    then show "length (ch_buffer (co_channels c' ! x)) < channel_capacity \<longleftrightarrow>
        length (ch_buffer (co_channels c ! x)) < channel_capacity" by (simp add: ch)
  qed
  ultimately show ?case using o p a nin by (auto simp: ch nth_list_update)
qed

lemma broadcast_channels:
  assumes f: "fanout c"
  shows "co_panicked (BroadcastEvent ref ev c) = co_panicked c"
    and "length (co_channels (BroadcastEvent ref ev c)) = length (co_channels c)"
    and "co_channels (BroadcastEvent ref ev c) ! i =
      (if i \<in> set (subs_of ref c) then deliver ev (co_channels c ! i) else co_channels c ! i)"
    and "subs_of r (BroadcastEvent ref ev c) =
      (if r = ref then filter (\<lambda>ch. length (ch_buffer (co_channels c ! ch)) < channel_capacity) (subs_of ref c)
       else subs_of r c)"
    and "fanout (BroadcastEvent ref ev c)"
proof -
  let ?l = "subs_of ref c"
  let ?open = "filter (\<lambda>ch. length (ch_buffer (co_channels c ! ch)) < channel_capacity) ?l"
  have d: "distinct ?l" by (rule fanout_distinct [OF f])
  have "ch < length (co_channels c) \<and> \<not> ch_closed (co_channels c ! ch)" if "ch \<in> set ?l" for ch
    using fanout_member [OF f that] by (simp add: subscribed_def)
  from fold_offer [of ?l c ev "[]", OF d this] obtain c1 where
    fo: "fold (offer ev) ?l (c, []) = (c1, ?open)" and p: "co_panicked c1 = co_panicked c"
    and len: "length (co_channels c1) = length (co_channels c)"
    and nth: "\<forall>i. co_channels c1 ! i = (if i \<in> set ?l then deliver ev (co_channels c ! i) else co_channels c ! i)"
    by auto
  have sub: "co_subscribers c1 = co_subscribers c"
    using fold_offer_same [of c ev ?l "[]"] fo by (simp add: same_work_def)
  have b: "BroadcastEvent ref ev c = (if ?l = [] then c else put_subs ref ?open c1)"
    by (simp add: BroadcastEvent_def fo)
  have c1: "?l = [] \<Longrightarrow> c1 = c" using fo by simp
  have rel: "subs_of r c1 = subs_of r c" for r by (simp add: subs_of_def sub)
  show "co_panicked (BroadcastEvent ref ev c) = co_panicked c" by (simp add: b p)
  show "length (co_channels (BroadcastEvent ref ev c)) = length (co_channels c)" by (simp add: b len)
  show "co_channels (BroadcastEvent ref ev c) ! i =
      (if i \<in> set ?l then deliver ev (co_channels c ! i) else co_channels c ! i)"
    using nth by (simp add: b)
  show "subs_of r (BroadcastEvent ref ev c) = (if r = ref then ?open else subs_of r c)"
    by (simp add: b rel)
  have "fanout (put_subs ref ?open c1)"
  proof (rule fanout_put [OF f _ _ _ _ sub])
    show "distinct ?open" using d by simp
    show "subscribed ref ch (co_channels c1)" if "ch \<in> set ?open" for ch
      using that fanout_member [OF f, of ch ref] nth by (simp add: subscribed_def len deliver_def)
    show "subscribed r ch (co_channels c1)" if "r \<noteq> ref" "subscribed r ch (co_channels c)" for r ch
      using that fanout_member [OF f, of ch ref] nth by (auto simp: subscribed_def len)
    show "length (ch_buffer k) \<le> channel_capacity" if "k \<in> set (co_channels c1)" for k
    proof -
      from that obtain i where i: "i < length (co_channels c1)" "k = co_channels c1 ! i" by (metis in_set_conv_nth)
      then have "length (ch_buffer (co_channels c ! i)) \<le> channel_capacity" using f len by (simp add: fanout_def)
      then show ?thesis using i(2) nth by (simp add: deliver_def)
    qed
  qed
  then show "fanout (BroadcastEvent ref ev c)" using f by (simp add: b)
qed

lemma fold_close:
  assumes "distinct chs" and "\<And>ch. ch \<in> set chs \<Longrightarrow> ch < length (co_channels c) \<and> \<not> ch_closed (co_channels c ! ch)"
  shows "co_panicked (fold close_channel chs c) = co_panicked c \<and>
    map ch_buffer (co_channels (fold close_channel chs c)) = map ch_buffer (co_channels c)"
  using assms
proof (induction chs arbitrary: c)
  case Nil
  then show ?case by simp
next
  case (Cons a chs)
  have "co_panicked (fold close_channel chs (close_channel a c)) = co_panicked (close_channel a c) \<and>
      map ch_buffer (co_channels (fold close_channel chs (close_channel a c))) = map ch_buffer (co_channels (close_channel a c))"
    using Cons.prems by (intro Cons.IH) (auto simp: close_channel_def nth_list_update)
  moreover have "map ch_buffer (co_channels (close_channel a c)) = map ch_buffer (co_channels c)"
    using Cons.prems(2) [of a] by (simp add: close_channel_def map_update list_update_id [of "map ch_buffer _" a, simplified])
      (metis list_update_id nth_map)
  moreover have "co_panicked (close_channel a c) = co_panicked c"
    using Cons.prems(2) [of a] by (simp add: close_channel_def)
  ultimately show ?case by simp
qed

section \<open>The invariant of every run\<close>

lemma sound_same:
  "\<lbrakk>sound c; accounted c'; co_subscribers c' = co_subscribers c; co_channels c' = co_channels c;
    co_panicked c' = co_panicked c\<rbrakk> \<Longrightarrow> sound c'"
  unfolding sound_def by (blast intro: fanout_same)

lemma accounted_positive:
  assumes a: "accounted c" and w: "w < length (co_admitted c)" and t: "co_admitted c ! w = (t, False)"
  shows "0 < co_tasks c"
proof -
  have "(t, False) \<in> set (filter (\<lambda>(t, d). \<not> d) (co_admitted c))" 
    using nth_mem [OF w] t by simp
  then have "0 < length (filter (\<lambda>(t, d). \<not> d) (co_admitted c))" by (metis length_pos_if_in_set)
  with a show ?thesis by (simp add: accounted_def outstanding_def)
qed

lemma retire_fanout:
  "co_subscribers (retire w c) = co_subscribers c" "co_channels (retire w c) = co_channels c"
  by (simp_all add: retire_def Let_def split: prod.split bool.split task.split)

lemma retire_panic: "accounted c \<Longrightarrow> co_panicked (retire w c) = co_panicked c"
proof (cases "length (co_admitted c) \<le> w")
  case True
  then show ?thesis by (simp add: retire_def)
next
  case False
  assume a: "accounted c"
  obtain t d where e: "co_admitted c ! w = (t, d)" by fastforce
  show ?thesis
  proof (cases d)
    case True
    with e False show ?thesis by (simp add: retire_def)
  next
    case nd: False
    have "0 < co_tasks c" by (rule accounted_positive [OF a, of w t]) (use False e nd in simp_all)
    with e False nd show ?thesis by (cases t) (simp_all add: retire_def Let_def)
  qed
qed

lemma admit_fanout:
  "co_subscribers (snd (admit t c)) = co_subscribers c" "co_channels (snd (admit t c)) = co_channels c"
  "co_panicked (snd (admit t c)) = co_panicked c"
  by (simp_all add: admit_def)

lemma subs_distinct:
  assumes "fanout c"
  shows "distinct (concat (map snd (co_subscribers c)))"
proof -
  have key: "map_of al r = Some l" if "distinct (map fst al)" "(r, l) \<in> set al" for al :: "(TurnRef \<times> nat list) list" and r l
    using that by simp
  have "distinct (concat (map snd al))"
    if "distinct (map fst al)" "\<forall>(r, l)\<in>set al. distinct l \<and> (\<forall>ch\<in>set l. ch_ref (co_channels c ! ch) = r)"
    for al :: "(TurnRef \<times> nat list) list"
    using that by (induction al) fastforce+
  moreover have "\<forall>(r, l)\<in>set (co_subscribers c). distinct l \<and> (\<forall>ch\<in>set l. ch_ref (co_channels c ! ch) = r)"
  proof clarify
    fix r l assume m: "(r, l) \<in> set (co_subscribers c)"
    then have "subs_of r c = l" using key assms by (simp add: fanout_def subs_of_def)
    then show "distinct l \<and> (\<forall>ch\<in>set l. ch_ref (co_channels c ! ch) = r)"
      using fanout_distinct [OF assms, of r] fanout_member [OF assms, of _ r] by (auto simp: subscribed_def)
  qed
  ultimately show ?thesis using assms by (simp add: fanout_def)
qed

lemma subs_open:
  assumes f: "fanout c" and m: "ch \<in> set (concat (map snd (co_subscribers c)))"
  shows "ch < length (co_channels c) \<and> \<not> ch_closed (co_channels c ! ch)"
proof -
  from m obtain r l where rl: "(r, l) \<in> set (co_subscribers c)" and "ch \<in> set l" by auto
  moreover have "subs_of r c = l" using rl f by (simp add: fanout_def subs_of_def)
  ultimately show ?thesis using fanout_member [OF f, of ch r] by (simp add: subscribed_def)
qed

lemma sound_close_all:
  assumes s: "sound c"
  shows "sound (CloseAllSubscribers c)"
proof -
  have f: "fanout c" using s by (simp add: sound_def)
  let ?d = "fold close_channel (concat (map snd (co_subscribers c))) c"
  have p: "co_panicked ?d = co_panicked c" and b: "map ch_buffer (co_channels ?d) = map ch_buffer (co_channels c)"
    using fold_close [OF subs_distinct [OF f] subs_open [OF f]] by simp_all
  have "\<forall>x\<in>set (map ch_buffer (co_channels c)). length x \<le> channel_capacity" using f by (simp add: fanout_def)
  then have "\<forall>x\<in>set (map ch_buffer (co_channels ?d)). length x \<le> channel_capacity" by (simp only: b)
  then show ?thesis using s p
    by (simp add: sound_def close_all_accounted) (simp add: CloseAllSubscribers_def fanout_def subs_of_def)
qed

lemma sound_take: "sound c \<Longrightarrow> sound (take_event ch c)"
proof (cases "length (co_channels c) \<le> ch")
  case True
  then show "sound c \<Longrightarrow> sound (take_event ch c)" by (simp add: take_event_def)
next
  case False
  assume s: "sound c"
  let ?k = "(co_channels c ! ch)\<lparr>ch_buffer := tl (ch_buffer (co_channels c ! ch))\<rparr>"
  have sub: "subscribed r x ((co_channels c)[ch := ?k]) = subscribed r x (co_channels c)" for r x
    using False by (cases "x = ch") (simp_all add: subscribed_def)
  have "length (ch_buffer k) \<le> channel_capacity" if "k \<in> set ((co_channels c)[ch := ?k])" for k
  proof -
    have "length (ch_buffer (co_channels c ! ch)) \<le> channel_capacity" using s False by (simp add: sound_def fanout_def)
    moreover have "k \<in> insert ?k (set (co_channels c))" using that set_update_subset_insert by fastforce
    ultimately show ?thesis using s by (auto simp: sound_def fanout_def)
  qed
  with s False sub show ?thesis by (simp add: sound_def take_event_def fanout_def)
qed

lemma sound_step: "sound c \<Longrightarrow> sound (co_step a c)"
proof -
  assume s: "sound c"
  have a: "accounted (co_step a c)" using s by (intro step_accounted) (simp add: sound_def)
  have f: "fanout c" and n: "\<not> co_panicked c" and ac: "accounted c" using s by (simp_all add: sound_def)
  show "sound (co_step a c)"
  proof (cases a)
    case (CoSubscribe ref)
    then show ?thesis using a f n fanout_subscribe [OF f, of ref]
      by (simp add: sound_def RegisterSubscriber_def Let_def)
  next
    case (CoUnsubscribe ch)
    then show ?thesis using a n fanout_unsubscribe [OF f, of ch]
      by (simp add: sound_def) (simp add: unsubscribe_def Let_def)
  next
    case (CoBroadcast ref ev)
    then show ?thesis using a n broadcast_channels(1,5) [OF f] by (simp add: sound_def)
  next
    case CoCloseAll
    then show ?thesis using sound_close_all [OF s] by simp
  next
    case (CoTake ch)
    then show ?thesis using sound_take [OF s] by simp
  next
    case (CoRetire w)
    then show ?thesis using a sound_same [OF s] retire_fanout retire_panic [OF ac] by simp
  next
    case CoCancelAll
    have "sound (CancelActiveWorkers (c\<lparr>co_cancelled := True\<rparr>))"
      by (rule sound_same [OF s]) (simp_all add: CancelActiveWorkers_def ac)
    then show ?thesis using CoCancelAll sound_close_all by (simp add: CancelAll_def)
  next
    case (CoRegister ref)
    show ?thesis by (rule sound_same [OF s a])
      (simp_all add: CoRegister RegisterWorker_def admitted_def case_prod_beta admit_fanout)
  next
    case CoControl
    show ?thesis by (rule sound_same [OF s a])
      (simp_all add: CoControl TrackControl_def admitted_def case_prod_beta admit_fanout)
  next
    case CoAdmit
    show ?thesis by (rule sound_same [OF s a])
      (simp_all add: CoAdmit AdmitRelease_def admitted_def case_prod_beta admit_fanout)
  qed (rule sound_same [OF s a]; simp add: TrackHandoff_def TrackCommit_def admit_fanout SetState_def
      CancelActiveWorkers_def AddRecoveryBlocker_def ApplyDiagnosticBlockers_def SetRecoveryBlockers_def TryStopIdle_def
      MarkControllerAttached_def InvalidateControllerAttachment_def InvalidateControllerAttachmentIf_def split: option.split)+
qed

lemma sound_new: "sound NewCoordinator"
  by (simp add: sound_def accounted_def outstanding_def fanout_def NewCoordinator_def subs_of_def)

lemma reachable_sound: "sound (co_run ops NewCoordinator)"
  by (rule co_run_invariant [OF sound_new sound_step])

text \<open>C26 (invariant). Whatever calls the service makes, in whatever order and however often the returned
closures are called: every shutdown counter is exactly the number of admitted units of its kind that were not
retired yet, the wait group counts them all, no wait group goes negative and no channel is closed twice or sent to
after it was closed, every subscriber list holds distinct open channels of its own turn, and no channel buffers
more than 64 events.\<close>

theorem coordinator_accounts_for_all_work:
  "accounted (co_run ops NewCoordinator) \<and> fanout (co_run ops NewCoordinator) \<and>
   \<not> co_panicked (co_run ops NewCoordinator)"
  using reachable_sound [of ops] by (simp add: sound_def)

section \<open>Stopping when idle\<close>

definition stopped_idle :: "Coordinator \<Rightarrow> bool" where
  "stopped_idle c \<longleftrightarrow> accounted c \<and> co_state c = ServiceStateStopping \<and> co_liveWorkers c = 0"

lemma account_live: "co_liveWorkers (account t n c) = co_liveWorkers c + (if is_worker t then n else 0)"
  by (cases t) simp_all

lemma admit_live: "\<not> is_worker t \<Longrightarrow> co_liveWorkers (snd (admit t c)) = co_liveWorkers c"
  "co_state (snd (admit t c)) = co_state c"
  "co_activeTurns (snd (admit t c)) = co_activeTurns c" "co_blockerEpoch (snd (admit t c)) = co_blockerEpoch c"
  by (simp_all add: admit_def account_live)

lemma no_worker_left:
  assumes a: "accounted c" and z: "co_liveWorkers c = 0" and w: "w < length (co_admitted c)"
    and t: "co_admitted c ! w = (Worker ref, d)"
  shows "d"
proof (rule ccontr)
  assume "\<not> d"
  then have "(Worker ref, d) \<in> set (filter (\<lambda>(t, d). \<not> d \<and> is_worker t) (co_admitted c))"
    using nth_mem [OF w] t by simp
  then have "0 < length (filter (\<lambda>(t, d). \<not> d \<and> is_worker t) (co_admitted c))" by (metis length_pos_if_in_set)
  with a z show False by (simp add: accounted_def outstanding_def)
qed

lemma retire_state: "co_state (retire w c) = co_state c"
  by (simp add: retire_def Let_def split: prod.split bool.split task.split)

lemma retire_idle: "accounted c \<Longrightarrow> co_liveWorkers c = 0 \<Longrightarrow> co_liveWorkers (retire w c) = 0"
proof (cases "length (co_admitted c) \<le> w")
  case True
  then show "co_liveWorkers c = 0 \<Longrightarrow> ?thesis" by (simp add: retire_def)
next
  case False
  assume a: "accounted c" "co_liveWorkers c = 0"
  obtain t d where e: "co_admitted c ! w = (t, d)" by fastforce
  show ?thesis
  proof (cases d)
    case True
    with e False a show ?thesis by (simp add: retire_def)
  next
    case nd: False
    then have "\<not> is_worker t" using no_worker_left [OF a, of w] e False by (cases t) auto
    with e False nd a show ?thesis by (cases t) (simp_all add: retire_def Let_def)
  qed
qed

lemma stateRank_bound [simp]: "\<not> 2 < stateRank s"
  by (cases s) simp_all

lemma stopped_idle_step: "stopped_idle c \<Longrightarrow> stopped_idle (co_step a c)"
proof -
  assume s: "stopped_idle c"
  then have a: "accounted c" and st: "co_state c = ServiceStateStopping" and z: "co_liveWorkers c = 0"
    by (simp_all add: stopped_idle_def)
  have "co_state (co_step a c) = ServiceStateStopping \<and> co_liveWorkers (co_step a c) = 0"
    by (cases a) (simp_all add: st z broadcast_accounted close_all_accounted retire_idle [OF a z] retire_state
      SetState_def RegisterWorker_def TrackHandoff_def TrackCommit_def TrackControl_def AdmitRelease_def admitted_def
      CancelActiveWorkers_def AddRecoveryBlocker_def ApplyDiagnosticBlockers_def SetRecoveryBlockers_def TryStopIdle_def
      take_event_def MarkControllerAttached_def InvalidateControllerAttachment_def InvalidateControllerAttachmentIf_def
      RegisterSubscriber_def unsubscribe_def CancelAll_def admit_live Let_def split: option.split)
  then show ?thesis using step_accounted [OF a, of a] by (simp add: stopped_idle_def)
qed



section \<open>Diagnostic refreshes\<close>

text \<open>How often a run advances the blocker epoch.\<close>

definition epoch_advance :: "co_op \<Rightarrow> Coordinator \<Rightarrow> nat" where
  "epoch_advance a c =
     (case a of
        CoAddBlocker \<Rightarrow> 1
      | CoRegister ref \<Rightarrow> (if co_state c = ServiceStateStopping then 0 else 1)
      | CoRetire w \<Rightarrow> (if w < length (co_admitted c) \<and> is_worker (fst (co_admitted c ! w)) \<and> \<not> snd (co_admitted c ! w)
           then 1 else 0)
      | _ \<Rightarrow> 0)"

fun epoch_advances :: "co_op list \<Rightarrow> Coordinator \<Rightarrow> nat" where
  "epoch_advances [] c = 0"
| "epoch_advances (a # as) c = epoch_advance a c + epoch_advances as (co_step a c)"

lemma retire_epoch:
  "co_blockerEpoch (retire w c) = co_blockerEpoch c + of_nat (epoch_advance (CoRetire w) c)"
  "epoch_advance (CoRetire w) c = 0 \<Longrightarrow> co_activeTurns (retire w c) = co_activeTurns c"
proof -
  obtain t d where e: "co_admitted c ! w = (t, d)" by fastforce
  show "co_blockerEpoch (retire w c) = co_blockerEpoch c + of_nat (epoch_advance (CoRetire w) c)"
    using e by (cases t; cases d) (simp_all add: retire_def Let_def epoch_advance_def)
  show "epoch_advance (CoRetire w) c = 0 \<Longrightarrow> co_activeTurns (retire w c) = co_activeTurns c"
    using e by (cases t; cases d) (simp_all add: retire_def Let_def epoch_advance_def split: if_splits)
qed

lemma step_epoch: "co_blockerEpoch (co_step a c) = co_blockerEpoch c + of_nat (epoch_advance a c)"
proof (cases a)
  case (CoRetire w)
  then show ?thesis by (simp add: retire_epoch)
qed (simp_all add: epoch_advance_def broadcast_accounted close_all_accounted
      SetState_def RegisterWorker_def TrackHandoff_def TrackCommit_def TrackControl_def AdmitRelease_def admitted_def
      CancelActiveWorkers_def AddRecoveryBlocker_def ApplyDiagnosticBlockers_def SetRecoveryBlockers_def TryStopIdle_def
      take_event_def MarkControllerAttached_def InvalidateControllerAttachment_def InvalidateControllerAttachmentIf_def
      RegisterSubscriber_def unsubscribe_def CancelAll_def admit_live case_prod_beta Let_def split: option.split)

lemma step_live_set: "epoch_advance a c = 0 \<Longrightarrow> co_activeTurns (co_step a c) = co_activeTurns c"
proof (cases a)
  case (CoRetire w)
  then show "epoch_advance a c = 0 \<Longrightarrow> ?thesis" by (simp add: retire_epoch)
qed (simp_all add: epoch_advance_def broadcast_accounted close_all_accounted
      SetState_def RegisterWorker_def TrackHandoff_def TrackCommit_def TrackControl_def AdmitRelease_def admitted_def
      CancelActiveWorkers_def AddRecoveryBlocker_def ApplyDiagnosticBlockers_def SetRecoveryBlockers_def TryStopIdle_def
      take_event_def MarkControllerAttached_def InvalidateControllerAttachment_def InvalidateControllerAttachmentIf_def
      RegisterSubscriber_def unsubscribe_def CancelAll_def admit_live case_prod_beta Let_def split: option.split if_splits)

lemma run_epoch: "co_blockerEpoch (co_run as c) = co_blockerEpoch c + of_nat (epoch_advances as c)"
  by (induction as arbitrary: c) (simp_all add: step_epoch add.assoc)

lemma run_live_set: "epoch_advances as c = 0 \<Longrightarrow> co_activeTurns (co_run as c) = co_activeTurns c"
  by (induction as arbitrary: c) (simp_all add: step_live_set)

lemma epoch_advances_bound: "epoch_advances as c \<le> length as"
proof (induction as arbitrary: c)
  case Nil
  then show ?case by simp
next
  case (Cons a as)
  have "epoch_advance a c \<le> 1" by (simp add: epoch_advance_def split: co_op.split)
  with Cons [of "co_step a c"] show ?case by simp
qed

lemma blocker_advances: "CoAddBlocker \<in> set as \<Longrightarrow> 0 < epoch_advances as c"
proof (induction as arbitrary: c)
  case Nil
  then show ?case by simp
next
  case (Cons a as)
  then consider "a = CoAddBlocker" | "CoAddBlocker \<in> set as" by auto
  then show ?case
  proof cases
    case 1
    then show ?thesis by (simp add: epoch_advance_def)
  next
    case 2
    then show ?thesis using Cons.IH [of "co_step a c"] by simp
  qed
qed

text \<open>C28 (bounds). A diagnostic refresh never erases an obligation it did not see: when a recovery blocker was
recorded or the set of live turns changed since the snapshot was taken, the refresh is skipped. The epoch is a 64-bit
counter, so this holds as long as fewer than \<open>2 ^ 64\<close> calls lie between; after exactly \<open>2 ^ 64\<close> recorded
blockers the counter is back at its old value.\<close>

theorem stale_diagnostic_is_skipped:
  assumes "CoAddBlocker \<in> set ops \<or> co_activeTurns (co_run ops c) \<noteq> co_activeTurns c" and "length ops < 2 ^ 64"
  shows "ApplyDiagnosticBlockers n (co_blockerEpoch c) (co_run ops c) = (False, co_run ops c) \<and>
    co_blockerEpoch (co_run (replicate (2 ^ 64) CoAddBlocker) c) = co_blockerEpoch c"
proof -
  have pos: "0 < epoch_advances ops c" using assms(1) blocker_advances run_live_set by (metis gr0I)
  have "epoch_advances ops c < 2 ^ 64" using epoch_advances_bound [of ops c] assms(2) by simp
  then have "(of_nat (epoch_advances ops c) :: 64 word) \<noteq> 0"
    using pos by (simp add: word_of_nat_eq_0_iff nat_dvd_not_less)
  then have "co_blockerEpoch (co_run ops c) \<noteq> co_blockerEpoch c" by (simp add: run_epoch)
  moreover have "epoch_advances (replicate m CoAddBlocker) c' = m" for m c'
    by (induction m arbitrary: c') (simp_all add: epoch_advance_def)
  then have "co_blockerEpoch (co_run (replicate (2 ^ 64) CoAddBlocker) c) = co_blockerEpoch c + of_nat (2 ^ 64)"
    by (simp only: run_epoch)
  moreover have "(of_nat (2 ^ 64) :: 64 word) = 0" by simp
  ultimately show ?thesis by (simp add: ApplyDiagnosticBlockers_def)
qed

lemma stale_diagnostic_is_skipped_witness:
  "ApplyDiagnosticBlockers 0 (co_blockerEpoch NewCoordinator) (co_run [CoHandoff, CoAddBlocker, CoCommit] NewCoordinator) =
    (False, co_run [CoHandoff, CoAddBlocker, CoCommit] NewCoordinator)"
  using stale_diagnostic_is_skipped [of "[CoHandoff, CoAddBlocker, CoCommit]" NewCoordinator 0] by simp

section \<open>Delivery\<close>

text \<open>A broadcast never blocks and never reaches another turn: every subscriber of the turn with
room for the event gets it appended to its channel and stays subscribed, a subscriber whose buffer of 64 is full is
disconnected (its channel closed, its entry dropped) and loses only this event, and every other channel and every
other turn's subscribers are untouched.\<close>

theorem broadcast_delivers_or_disconnects:
  "(let c = co_run ops NewCoordinator; c' = BroadcastEvent ref ev c in
    co_channels c' = map (\<lambda>i. if i \<in> set (subs_of ref c)
        then if length (ch_buffer (co_channels c ! i)) < 64 then (co_channels c ! i)\<lparr>ch_buffer := ch_buffer (co_channels c ! i) @ [ev]\<rparr>
          else (co_channels c ! i)\<lparr>ch_closed := True\<rparr>
        else co_channels c ! i) [0..<length (co_channels c)] \<and>
    subs_of other c' = (if other = ref then filter (\<lambda>i. length (ch_buffer (co_channels c ! i)) < 64) (subs_of ref c)
      else subs_of other c))"
proof -
  let ?c = "co_run ops NewCoordinator"
  have f: "fanout ?c" using reachable_sound [of ops] by (simp add: sound_def)
  note b = broadcast_channels [OF f, where ref = ref and ev = ev]
  show ?thesis unfolding Let_def
    using b(2-4) by (auto intro!: nth_equalityI simp: deliver_def channel_capacity_def)
qed

section \<open>Published attachments\<close>

text \<open>A call that may come in late: it publishes this episode or an older state of the run's attachment, or
invalidates another episode, or concerns something else.\<close>

fun not_newer :: "string \<Rightarrow> attachmentState \<Rightarrow> co_op \<Rightarrow> bool" where
  "not_newer runID p (CoMark r g a i v) \<longleftrightarrow>
     r \<noteq> runID \<or> \<lparr>at_generation = g, at_attachmentID = a, at_instanceID = i, at_revision = v\<rparr> = p \<or>
     g < at_generation p \<or> g = at_generation p \<and> v < at_revision p"
| "not_newer runID p (CoInvalidate r) \<longleftrightarrow> r \<noteq> runID"
| "not_newer runID p (CoInvalidateIf r g a i) \<longleftrightarrow>
     r \<noteq> runID \<or> (g, a, i) \<noteq> (at_generation p, at_attachmentID p, at_instanceID p)"
| "not_newer runID p _ \<longleftrightarrow> True"

definition at_most :: "attachmentState \<Rightarrow> attachmentState option \<Rightarrow> bool" where
  "at_most p x \<longleftrightarrow> (case x of None \<Rightarrow> True | Some a \<Rightarrow> a = p \<or> at_generation a < at_generation p \<or>
     at_generation a = at_generation p \<and> at_revision a < at_revision p)"

fun publishes :: "co_op \<Rightarrow> bool" where
  "publishes (CoMark r g a i v) = True"
| "publishes (CoInvalidate r) = True"
| "publishes (CoInvalidateIf r g a i) = True"
| "publishes _ = False"

lemma attachments_unchanged:
  assumes "\<not> publishes x"
  shows "co_attachments (co_step x c) = co_attachments c"
proof -
  have cl: "co_attachments (fold close_channel chs d) = co_attachments d" for chs d
    by (induction chs arbitrary: d) (simp_all add: close_channel_def)
  have of: "co_attachments (fst (fold (offer ev) chs (d, rem))) = co_attachments d" for ev chs d rem
  proof (induction chs arbitrary: d rem)
    case Nil
    then show ?case by simp
  next
    case (Cons k chs)
    have "co_attachments (fst (offer ev k (d, rem))) = co_attachments d"
      by (simp add: offer_def Let_def close_channel_def)
    with Cons [of "fst (offer ev k (d, rem))" "snd (offer ev k (d, rem))"] show ?case by simp
  qed
  have re: "co_attachments (retire w d) = co_attachments d" for w d
    by (simp add: retire_def Let_def split: prod.split bool.split task.split)
  have ad: "co_attachments (snd (admit t d)) = co_attachments d" for t d by (simp add: admit_def)
  have pu: "co_attachments (put_subs ref l d) = co_attachments d" for ref l d by (simp add: put_subs_def)
  have br: "co_attachments (BroadcastEvent ref ev d) = co_attachments d" for ref ev d
    using of [of ev "subs_of ref d" d "[]"] by (simp add: BroadcastEvent_def case_prod_beta pu)
  show ?thesis using assms
    by (cases x) (simp_all add: cl re ad pu br SetState_def RegisterWorker_def TrackHandoff_def TrackCommit_def
      TrackControl_def AdmitRelease_def admitted_def CancelActiveWorkers_def AddRecoveryBlocker_def
      ApplyDiagnosticBlockers_def SetRecoveryBlockers_def TryStopIdle_def take_event_def RegisterSubscriber_def
      unsubscribe_def CancelAll_def CloseAllSubscribers_def case_prod_beta Let_def)
qed

lemma attachment_step:
  assumes n: "not_newer runID p x" and m: "at_most p (co_attachments c runID)"
  shows "at_most p (co_attachments (co_step x c) runID)"
    and "co_attachments c runID = Some p \<Longrightarrow> co_attachments (co_step x c) runID = Some p"
proof -
  have "at_most p (co_attachments (co_step x c) runID) \<and>
    (co_attachments c runID = Some p \<longrightarrow> co_attachments (co_step x c) runID = Some p)"
  proof (cases x)
    case (CoMark r g a i v)
    then show ?thesis using n m
      by (auto simp: MarkControllerAttached_def keeps_attachment_def at_most_def split: option.splits if_splits)
  next
    case (CoInvalidate r)
    then show ?thesis using n m by (auto simp: InvalidateControllerAttachment_def)
  next
    case (CoInvalidateIf r g a i)
    then show ?thesis using n m
      by (auto simp: InvalidateControllerAttachmentIf_def at_most_def split: option.splits if_splits)
  qed (use m in \<open>simp add: attachments_unchanged del: co_step.simps\<close>)+
  then show "at_most p (co_attachments (co_step x c) runID)"
    and "co_attachments c runID = Some p \<Longrightarrow> co_attachments (co_step x c) runID = Some p" by simp_all
qed

lemma attachment_stays:
  "\<lbrakk>\<forall>x\<in>set ops. not_newer runID p x; co_attachments c runID = Some p\<rbrakk> \<Longrightarrow>
    co_attachments (co_run ops c) runID = Some p"
  by (induction ops arbitrary: c) (simp_all add: attachment_step(2) at_most_def)

text \<open>The published attachment of a run does not depend on the order in which racing handlers
publish it: among any calls of the service, once the newest state \<open>(generation, revision)\<close> of the attachment has been
published, it is the one the service answers from, however many older publications and invalidations of other
episodes arrive before or after it.\<close>

theorem newest_attachment_wins:
  assumes "\<forall>x\<in>set ops. not_newer runID p x" and "at_most p (co_attachments c runID)"
    and "CoMark runID (at_generation p) (at_attachmentID p) (at_instanceID p) (at_revision p) \<in> set ops"
  shows "co_attachments (co_run ops c) runID = Some p \<and>
    ControllerAttached runID g (co_run ops c) = (g = at_generation p \<and> at_instanceID p \<noteq> []) \<and>
    ControllerAttachedEpisode runID g a (co_run ops c) =
      (g = at_generation p \<and> a = at_attachmentID p \<and> at_instanceID p \<noteq> [])"
proof -
  have "co_attachments (co_run ops c) runID = Some p" using assms
  proof (induction ops arbitrary: c)
    case Nil
    then show ?case by simp
  next
    case (Cons x ops)
    show ?case
    proof (cases "x = CoMark runID (at_generation p) (at_attachmentID p) (at_instanceID p) (at_revision p)")
      case True
      have "co_attachments (co_step x c) runID = Some p"
        using Cons.prems(2) by (auto simp: True MarkControllerAttached_def keeps_attachment_def at_most_def split: option.splits)
      then show ?thesis using attachment_stays [of ops runID p "co_step x c"] Cons.prems(1) by simp
    next
      case False
      then show ?thesis using Cons.IH [of "co_step x c"] Cons.prems attachment_step(1) [of runID p x c] by simp
    qed
  qed
  then show ?thesis by (auto simp: ControllerAttached_def ControllerAttachedEpisode_def)
qed

lemma newest_attachment_wins_witness:
  "ControllerAttached ''r'' 2 (co_run [CoMark ''r'' 1 ''a'' ''i'' 9, CoMark ''r'' 2 ''b'' ''i'' 3, CoInvalidateIf ''r'' 1 ''a'' ''i'',
      CoMark ''r'' 2 ''b'' [] 2] NewCoordinator)"
  using newest_attachment_wins [of "[CoMark ''r'' 1 ''a'' ''i'' 9, CoMark ''r'' 2 ''b'' ''i'' 3, CoInvalidateIf ''r'' 1 ''a'' ''i'',
      CoMark ''r'' 2 ''b'' [] 2]" "''r''" "\<lparr>at_generation = 2, at_attachmentID = ''b'', at_instanceID = ''i'', at_revision = 3\<rparr>"
      NewCoordinator 2]
  by (simp add: at_most_def NewCoordinator_def)

end
