(* ===== verification/Service_World.thy ===== *)
theory Service_World
  imports Store_Details Store_Evidence Service_Coordinator
begin

text \<open>
  The state a service instance shares between its goroutines (\<open>Server\<close> in
  \<open>internal/service/server.go\<close>): the store and the coordinator. Handlers and supervisors act on
  it only through a store command, which is one transaction, or a coordinator method, which runs
  under the mutex; both are the steps of the theories before. The instance starts on any database
  an earlier life of the store left behind.
\<close>

section \<open>Shared state and actions\<close>

datatype action = Store store_op | Coord co_op

record service =
  sv_db :: DB
  sv_co :: Coordinator

fun act :: "time \<Rightarrow> action \<Rightarrow> service \<Rightarrow> service" where
  "act now (Store c) s = s\<lparr>sv_db := store_step (c, now) (sv_db s)\<rparr>"
| "act now (Coord a) s = s\<lparr>sv_co := co_step a (sv_co s)\<rparr>"

definition acts :: "time \<Rightarrow> action list \<Rightarrow> service \<Rightarrow> service" where
  "acts now as s = fold (act now) as s"

lemma acts_simps [simp]: "acts now [] s = s" "acts now (a # as) s = acts now as (act now a s)"
  by (simp_all add: acts_def)

section \<open>Entries of observed outcomes\<close>

definition turn_ended :: "string \<Rightarrow> string \<Rightarrow> DB \<Rightarrow> bool" where
  "turn_ended sid k d \<longleftrightarrow> (case turn_row sid k d of None \<Rightarrow> False | Some t \<Rightarrow> isTerminal (t_status t))"

text \<open>Every journal entry of an observed outcome is about a turn that has ended.\<close>

definition outcomes_ended :: "DB \<Rightarrow> bool" where
  "outcomes_ended d \<longleftrightarrow> (\<forall>j\<in>set (journal d). j_command_type j = ''record_observed_execution_outcome'' \<longrightarrow>
     turn_ended (or_SessionID (decode_receipt (j_payload j))) (or_TurnKey (decode_receipt (j_payload j))) d)"

lemma turn_ended_exec:
  "turn_ended sid k d \<longleftrightarrow> (\<exists>y. xt (exec_of d) (sid, k) = Some y \<and> isTerminal (y_status y))"
  by (auto simp: turn_ended_def exec_of_sel split: option.splits)

lemma turn_ended_row: "turn_row sid k d = Some t \<Longrightarrow> turn_ended sid k d = isTerminal (t_status t)"
  by (simp add: turn_ended_def)

definition store_inv :: "DB \<Rightarrow> bool" where
  "store_inv d \<longleftrightarrow> exec_inv (exec_of d) \<and> tables_ok d \<and> outcomes_ended d"

lemma exec_keeps_ended:
  assumes "exec_inv e" and "exec_step e e'" and "xt e (sid, k) = Some y" and "isTerminal (y_status y)"
  shows "xt e' (sid, k) = Some y"
  using exec_turn_final [OF assms(2,1,3,4)] .

lemma store_keeps_ended:
  assumes "store_inv d" and "proper_op c" and "store_exec c now d = Inr (r, d')" and "turn_ended sid k d"
  shows "turn_ended sid k d'"
  using assms store_exec_steps [OF assms(2,3)] exec_keeps_ended
  unfolding store_inv_def turn_ended_exec steps_to_def by blast

lemma update_turn_row:
  "turn_row sid k (update_turn sid k f d) = map_option f (turn_row sid k d)" if "\<And>t. is_turn sid k (f t) = is_turn sid k t"
  using that by (simp add: turn_row_def update_turn_def sel_upd) (cases "sel (is_turn sid k) (turns d)"; auto dest: sel_SomeD)

lemma end_turn_ends:
  assumes "end_turn sid k st res s now d = Inr d'" and "turn_row sid k d = Some t" and "isTerminal st"
  shows "turn_ended sid k d'"
proof -
  let ?f = "\<lambda>t. t\<lparr>t_status := st, t_result := res, t_completed_at := Some now\<rparr>"
  have "turns d' = turns (update_turn sid k ?f d)"
    using end_turn_tables_of(1) [OF assms(1)] by (simp add: update_turn_def)
  then have "turn_row sid k d' = turn_row sid k (update_turn sid k ?f d)" by (simp add: turn_row_def)
  also have "\<dots> = Some (?f t)" using assms(2) by (subst update_turn_row) (simp_all add: is_turn_def)
  finally show ?thesis using assms(3) by (simp add: turn_ended_def)
qed

lemma turn_ended_cong: "turns d' = turns d \<Longrightarrow> turn_ended sid k d' = turn_ended sid k d"
  by (simp add: turn_ended_def turn_row_def)

lemma entry_turns: "recordJournalEntry op cmd fp rid sid k ev r l now d = Inr d' \<Longrightarrow> turns d' = turns d"
  using entry_frame by blast

text \<open>A fresh outcome has ended its turn and its receipt names it.\<close>

lemma receipt_names:
  "session_receipt op cmd sid k v now p = r \<Longrightarrow> or_SessionID r = sid \<and> or_TurnKey r = k"
  by (auto simp: session_receipt_def)

lemma fresh_outcome_cases:
  assumes "RecordObservedExecutionOutcome op er st raw now d = Inr (r, d')" and "journal_row op d = None"
  obtains t s status d1 where "turn_row (er_SessionID er) (er_TurnKey er) d = Some t" "turns d' = turns d1"
    "or_SessionID r = er_SessionID er" "or_TurnKey r = er_TurnKey er" "terminal_text st = Some status"
    "d1 = d \<and> isTerminal (t_status t) \<or>
     end_turn (er_SessionID er) (er_TurnKey er) status (SanitizeText raw) s now d = Inr d1"
  using assms unfolding RecordObservedExecutionOutcome_def Let_def checkOrRecordIdempotency_def
  apply (elim success_elims; simp)
   apply (drule entry_turns)
   apply (drule receipt_names)
   apply (rule that, assumption, assumption, erule conjunct1, erule conjunct2, assumption, rule disjI1, rule conjI, rule refl, assumption)
  apply (drule entry_turns, drule receipt_names)
  apply (rule that, assumption, assumption, erule conjunct1, erule conjunct2, assumption, rule disjI2, assumption)
  done

lemma fresh_outcome:
  assumes "RecordObservedExecutionOutcome op er st raw now d = Inr (r, d')" and "journal_row op d = None"
  shows "turn_ended (er_SessionID er) (er_TurnKey er) d' \<and> or_SessionID r = er_SessionID er \<and> or_TurnKey r = er_TurnKey er"
proof -
  obtain t s status d1 where h: "turn_row (er_SessionID er) (er_TurnKey er) d = Some t" "turns d' = turns d1"
    "or_SessionID r = er_SessionID er" "or_TurnKey r = er_TurnKey er" "terminal_text st = Some status"
    "d1 = d \<and> isTerminal (t_status t) \<or>
     end_turn (er_SessionID er) (er_TurnKey er) status (SanitizeText raw) s now d = Inr d1"
    by (rule fresh_outcome_cases [OF assms])
  from h(6) have "turn_ended (er_SessionID er) (er_TurnKey er) d1"
  proof
    assume "d1 = d \<and> isTerminal (t_status t)"
    then show ?thesis using h(1) by (simp add: turn_ended_row)
  qed (rule end_turn_ends [OF _ h(1) terminal_text_terminal [OF h(5)]])
  then show ?thesis using h(3,4) turn_ended_cong [OF h(2)] by simp
qed

section \<open>The invariant of the shared state\<close>

lemma receipt_entry:
  assumes "store_exec c now d = Inr (r, d')" and "journal_row (op_id c) d = None"
  obtains j where "journal d' = journal d @ [j]"
    and "j_command_type j = ''record_observed_execution_outcome'' \<longrightarrow>
      (\<exists>op er st raw. c = CmdOutcome op er st raw \<and> receipt_of r = decode_receipt (j_payload j))"
proof -
  consider (plain) "\<not> artifact_command c" "replays_receipt c" | (artifact) "artifact_command c" | (recover) "\<not> replays_receipt c"
    by blast
  then show ?thesis
  proof cases
    case plain
    obtain j where j: "journal d' = journal d @ [j]" "j_command_type j = command_type c"
        "receipt_of r = decode_receipt (j_payload j)"
      using store_exec_commits [OF plain(2,1) assms(1)] assms(2) by (auto simp: committed_def)
    show ?thesis by (rule that [OF j(1)]) (use j(2,3) in \<open>cases c; simp\<close>)
  next
    case artifact
    then obtain j where j: "journal d' = journal d @ [j]" "j_command_type j \<in> {''publish_artifact'', ''release_artifacts''}"
      using assms by (cases c) (auto simp: as_result_Inr dest!: commit_publication_commits ReleaseArtifacts_commits)
    show ?thesis by (rule that [OF j(1)]) (use j(2) in auto)
  next
    case recover
    then obtain op rid src g where c: "c = CmdRecover op rid src g" by (cases c) auto
    obtain g' where g: "RecoverControllerCredential op rid src g now d = Inr (g', d')"
      using assms(1) by (auto simp: c as_result_Inr)
    obtain j where j: "journal d' = journal d @ [j]" "j_command_type j = ''recover_controller_credential''"
      using RecoverControllerCredential_commits [OF g] assms(2) by (auto simp: c)
    show ?thesis by (rule that [OF j(1)]) (use j(2) in simp)
  qed
qed

lemma outcomes_ended_exec:
  assumes inv: "store_inv d" and "proper_op c" and ok: "store_exec c now d = Inr (r, d')"
  shows "outcomes_ended d'"
proof -
  have old: "turn_ended (or_SessionID (decode_receipt (j_payload j))) (or_TurnKey (decode_receipt (j_payload j))) d'"
    if "j \<in> set (journal d)" "j_command_type j = ''record_observed_execution_outcome''" for j
    by (rule store_keeps_ended [OF assms]) (use inv that in \<open>simp add: store_inv_def outcomes_ended_def\<close>)
  show ?thesis
  proof (cases "journal_row (op_id c) d")
    case (Some j)
    then have "d' = d" using store.known_operation_changes_nothing [OF ok] by simp
    then show ?thesis using inv by (simp add: store_inv_def)
  next
    case None
    obtain j where j: "journal d' = journal d @ [j]"
      and o: "j_command_type j = ''record_observed_execution_outcome'' \<longrightarrow>
        (\<exists>op er st raw. c = CmdOutcome op er st raw \<and> receipt_of r = decode_receipt (j_payload j))"
      by (rule receipt_entry [OF ok None])
    have new: "turn_ended (or_SessionID (decode_receipt (j_payload j))) (or_TurnKey (decode_receipt (j_payload j))) d'"
      if ct: "j_command_type j = ''record_observed_execution_outcome''"
    proof -
      obtain op er st raw where c: "c = CmdOutcome op er st raw" and r: "receipt_of r = decode_receipt (j_payload j)"
        using o ct by blast
      obtain r0 where r0: "RecordObservedExecutionOutcome op er st raw now d = Inr (r0, d')" "r = ResReceipt r0"
        using ok by (auto simp: c as_result_Inr)
      have "journal_row op d = None" using None by (simp add: c)
      from fresh_outcome [OF r0(1) this] r show ?thesis by (simp add: r0(2))
    qed
    show ?thesis
    proof (unfold outcomes_ended_def, intro ballI impI)
      fix x assume x: "x \<in> set (journal d')" "j_command_type x = ''record_observed_execution_outcome''"
      then have "x \<in> set (journal d) \<or> x = j" using j by auto
      then show "turn_ended (or_SessionID (decode_receipt (j_payload x))) (or_TurnKey (decode_receipt (j_payload x))) d'"
        using old new x(2) by blast
    qed
  qed
qed

lemma store_inv_exec:
  assumes "store_inv d" "proper_op c" "store_exec c now d = Inr (r, d')"
  shows "store_inv d'"
proof -
  have "exec_inv (exec_of d')"
    using store_exec_steps [OF assms(2,3)] exec_step_inv assms(1) by (auto simp: store_inv_def steps_to_def)
  moreover have "tables_ok d'" using tables.store_exec_all [OF assms(3)] assms(1) by (simp add: store_inv_def)
  ultimately show ?thesis using outcomes_ended_exec [OF assms] by (simp add: store_inv_def)
qed

end
