(* ===== verification/Adapter_Outcomes.thy ===== *)
theory Adapter_Outcomes
  imports Adapter_Stream
begin

text \<open>
  What a harness adapter is given and answers, \<open>internal/adapter/types.go\<close>: session bindings, and
  the outcomes of a dispatch, a cancellation request and a collection.
\<close>

record SessionConfig =
  cf_WorkspaceRoot :: string
  cf_Model :: string
  cf_Tooling :: "string list"

record SessionBinding =
  sb_SessionID :: string
  sb_Contributor :: string
  sb_NativeSessionID :: string
  sb_Config :: SessionConfig

datatype DispatchStatus = DispatchAccepted | DispatchRejected | DispatchUnknown | DispatchOther string

record DispatchOutcome =
  do_Ref :: TurnRef
  do_Status :: DispatchStatus
  do_Reason :: string

datatype CancelDisposition =
    CancelRequested | CancelConfirmed | CancelAlreadyTerminal | CancelRejected | CancelUnsupported
  | CancelUnknown | CancelOther string

record CancelOutcome =
  ca_Ref :: TurnRef
  ca_Disposition :: CancelDisposition
  ca_Reason :: string

datatype ResultStatus =
  ResultPending | ResultAvailable | ResultUnavailable | ResultMalformed | ResultFailed | ResultOther string

record TurnResult =
  res_Ref :: TurnRef
  res_Status :: TurnStatus
  res_ResultStatus :: ResultStatus
  res_Output :: string
  res_RawEvidence :: string
  res_Usage :: ExecutionUsage
  res_CompletedAt :: time

end
