(* ===== verification/Service_Process.thy ===== *)
theory Service_Process
  imports Service_World Adapter_Outcomes
begin

text \<open>
  Request handlers and supervisors as processes: finite trees of atomic steps on the shared state.
  A step performs at most one action (a store transaction or a coordinator method); in between, any
  number of actions of other processes happen. What a step learns from outside (the clock, random
  bytes, the harness adapter, a failing disk or an expired context) is its inputs. A ghost state
  records what a process has observed so far; a weakest precondition over it is proved once and
  for all to hold in every interleaving.
\<close>

section \<open>Processes\<close>

text \<open>The adapter answers the arguments of each call with an outcome or the text of an error.\<close>

record inputs =
  in_now :: time
  in_fault :: "string option"
  in_random :: string
  in_dispatch :: "TurnRef \<Rightarrow> string \<Rightarrow> DispatchOutcome \<times> string option"
  in_observe :: "TurnRef \<Rightarrow> Event list option"
  in_collect :: "TurnRef \<Rightarrow> string + TurnResult"
  in_cancel :: "TurnRef \<Rightarrow> string + CancelOutcome"
  in_resume :: "SessionBinding \<Rightarrow> string option"
  in_reconcile :: "RecoveryRef \<Rightarrow> string + ReconciliationOutcome"

datatype 'r proc = Return 'r | Step "inputs \<Rightarrow> service \<Rightarrow> action option \<times> 'r proc"

primrec bind :: "'a proc \<Rightarrow> ('a \<Rightarrow> 'b proc) \<Rightarrow> 'b proc" where
  "bind (Return x) k = k x"
| "bind (Step f) k = Step (\<lambda>i s. map_prod id (\<lambda>p. bind p k) (f i s))"

definition atomically :: "(inputs \<Rightarrow> service \<Rightarrow> action option \<times> 'r) \<Rightarrow> 'r proc" where
  "atomically f = Step (\<lambda>i s. map_prod id Return (f i s))"

definition ask :: "(inputs \<Rightarrow> 'r) \<Rightarrow> 'r proc" where
  "ask f = atomically (\<lambda>i s. (None, f i))"

text \<open>A read of the store and a write command; either may fail for reasons of its own.\<close>

definition query :: "(DB \<Rightarrow> store_error + 'r) \<Rightarrow> (store_error + 'r) proc" where
  "query f = atomically (\<lambda>i s. (None, case in_fault i of Some m \<Rightarrow> Inl (ErrMsg m) | None \<Rightarrow> f (sv_db s)))"

definition command :: "store_op \<Rightarrow> (store_error + store_result) proc" where
  "command c = atomically (\<lambda>i s. case in_fault i of Some m \<Rightarrow> (None, Inl (ErrMsg m)) | None \<Rightarrow>
     (case store_exec c (in_now i) (sv_db s) of Inl e \<Rightarrow> (None, Inl e) | Inr (r, d) \<Rightarrow> (Some (Store c), Inr r)))"

text \<open>The coordinator.\<close>

definition signal :: "co_op \<Rightarrow> unit proc" where
  "signal a = atomically (\<lambda>i s. (Some (Coord a), ()))"

definition inspect :: "(Coordinator \<Rightarrow> 'r) \<Rightarrow> 'r proc" where
  "inspect f = atomically (\<lambda>i s. (None, f (sv_co s)))"

definition admission :: "co_op \<Rightarrow> (Coordinator \<Rightarrow> service_error + nat \<times> Coordinator) \<Rightarrow> (service_error + nat) proc" where
  "admission a f = atomically (\<lambda>i s. case f (sv_co s) of Inl e \<Rightarrow> (None, Inl e) | Inr (w, c) \<Rightarrow> (Some (Coord a), Inr w))"

definition track_control :: "(service_error + nat) proc" where "track_control = admission CoControl TrackControl"

definition admit_release :: "(service_error + nat) proc" where "admit_release = admission CoAdmit AdmitRelease"

definition register_worker :: "TurnRef \<Rightarrow> (service_error + nat) proc" where
  "register_worker ref = admission (CoRegister ref) (RegisterWorker ref)"

definition track_commit :: "nat proc" where
  "track_commit = atomically (\<lambda>i s. (Some (Coord CoCommit), fst (TrackCommit (sv_co s))))"

text \<open>\<open>defer done()\<close> of an admitted unit of work.\<close>

definition deferring :: "nat \<Rightarrow> 'r proc \<Rightarrow> 'r proc" where
  "deferring w p = bind p (\<lambda>r. bind (signal (CoRetire w)) (\<lambda>_. Return r))"

lemmas primitives = ask_def query_def command_def signal_def inspect_def admission_def track_control_def
  admit_release_def register_worker_def track_commit_def

section \<open>What a process has observed\<close>

text \<open>
  A process acts for a subject: the run, session and turn it is about and the lease the caller
  presented, a worker number for a supervisor, and whether the others may tear the service down.
\<close>

record subject =
  sj_RunID :: string
  sj_SessionID :: string
  sj_TurnKey :: string
  sj_Lease :: string
  sj_Worker :: nat
  sj_Teardown :: bool

record ghost =
  gh_held :: "nat list"
  gh_lease :: bool
  gh_seen :: "ControllerRecord list"
  gh_gate :: bool
  gh_settled :: bool
  gh_blocked :: bool
  gh_cancelled :: bool
  gh_released :: bool

definition fresh_ghost :: ghost where
  "fresh_ghost = \<lparr>gh_held = [], gh_lease = False, gh_seen = [], gh_gate = False, gh_settled = False,
     gh_blocked = False, gh_cancelled = False, gh_released = False\<rparr>"

text \<open>
  A turn is settled when it has ended durably. The other case is an accident of hashing: the
  journal holds the outcome of another turn under the fingerprint of an outcome of this one.
\<close>

definition outcome_collision :: "string \<Rightarrow> string \<Rightarrow> DB \<Rightarrow> bool" where
  "outcome_collision sid k d \<longleftrightarrow> (\<exists>j\<in>set (journal d). j_command_type j = ''record_observed_execution_outcome'' \<and>
     (\<exists>att st res. j_fingerprint j = outcome_fingerprint \<lparr>er_SessionID = sid, er_TurnKey = k, er_AttemptID = att\<rparr> st res) \<and>
     (or_SessionID (decode_receipt (j_payload j)), or_TurnKey (decode_receipt (j_payload j))) \<noteq> (sid, k))"

definition settled :: "string \<Rightarrow> string \<Rightarrow> DB \<Rightarrow> bool" where
  "settled sid k d \<longleftrightarrow> turn_ended sid k d \<or> outcome_collision sid k d"

definition lease_valid :: "subject \<Rightarrow> DB \<Rightarrow> bool" where
  "lease_valid j d \<longleftrightarrow>
     (if sj_SessionID j \<noteq> [] then ValidateControllerLease (sj_SessionID j) (sj_Lease j) d
      else ValidateRunControllerLease (sj_RunID j) (sj_Lease j) d) = None"

definition connected_record :: "subject \<Rightarrow> DB \<Rightarrow> ControllerRecord list" where
  "connected_record j d = (case GetControllerRecord (sj_RunID j) d of Inl e \<Rightarrow> []
     | Inr r \<Rightarrow> if cr_Adopted r \<and> cr_Connected r then [r] else [])"

definition attached :: "subject \<Rightarrow> Coordinator \<Rightarrow> ControllerRecord \<Rightarrow> bool" where
  "attached j c r \<longleftrightarrow> ControllerAttachedEpisode (sj_RunID j) (of_nat (cr_Generation r)) (cr_AttachmentID r) c"

text \<open>The decisions of a controller; evidence of an execution and the administration of grants are not.\<close>

fun decision :: "store_op \<Rightarrow> bool" where
  "decision (CmdQueue op l sid v p) = True"
| "decision (CmdReplace op l sid v p) = True"
| "decision (CmdDiscard op l sid v k) = True"
| "decision (CmdRelease op l sid v k) = True"
| "decision (CmdCancel op l sid v k) = True"
| "decision (CmdHostLoss op l sid v) = True"
| "decision (CmdReconcile op er rr oc) = True"
| "decision (CmdDecision op l rid a n p) = True"
| "decision c = False"

text \<open>A decision about the subject: under its lease, for its session or run, and its turn where it is about one.\<close>

fun concerns :: "subject \<Rightarrow> store_op \<Rightarrow> bool" where
  "concerns j (CmdQueue op l sid v p) \<longleftrightarrow> l = sj_Lease j \<and> sid = sj_SessionID j"
| "concerns j (CmdReplace op l sid v p) \<longleftrightarrow> l = sj_Lease j \<and> sid = sj_SessionID j \<and> pp_TurnKey p = sj_TurnKey j"
| "concerns j (CmdDiscard op l sid v k) \<longleftrightarrow> l = sj_Lease j \<and> sid = sj_SessionID j \<and> k = sj_TurnKey j"
| "concerns j (CmdRelease op l sid v k) \<longleftrightarrow> l = sj_Lease j \<and> sid = sj_SessionID j \<and> k = sj_TurnKey j"
| "concerns j (CmdCancel op l sid v k) \<longleftrightarrow> l = sj_Lease j \<and> sid = sj_SessionID j \<and> k = sj_TurnKey j"
| "concerns j (CmdHostLoss op l sid v) \<longleftrightarrow> l = sj_Lease j \<and> sid = sj_SessionID j"
| "concerns j (CmdReconcile op er rr oc) \<longleftrightarrow> er_SessionID er = sj_SessionID j \<and> er_TurnKey er = sj_TurnKey j"
| "concerns j (CmdDecision op l rid a n p) \<longleftrightarrow> l = sj_Lease j \<and> rid = sj_RunID j"
| "concerns j c = True"

definition releases_anew :: "action option \<Rightarrow> service \<Rightarrow> bool" where
  "releases_anew a s \<longleftrightarrow> (\<exists>op l sid v k. a = Some (Store (CmdRelease op l sid v k)) \<and> journal_row op (sv_db s) = None)"

definition perform :: "inputs \<Rightarrow> action option \<Rightarrow> service \<Rightarrow> service" where
  "perform i a s = (case a of None \<Rightarrow> s | Some x \<Rightarrow> act (in_now i) x s)"

fun keep_held :: "action option \<Rightarrow> nat list \<Rightarrow> nat list" where
  "keep_held (Some (Coord (CoRetire w))) h = removeAll w h"
| "keep_held a h = h"

definition observe :: "subject \<Rightarrow> inputs \<Rightarrow> action option \<Rightarrow> service \<Rightarrow> ghost \<Rightarrow> ghost" where
  "observe j i a s g =
     (let t = perform i a s;
          lease = (gh_lease g \<or> lease_valid j (sv_db s));
          seen = (if gh_lease g then connected_record j (sv_db s) else []) @ gh_seen g
      in \<lparr>gh_held = keep_held a (gh_held g) @ [length (co_admitted (sv_co s)) ..< length (co_admitted (sv_co t))],
          gh_lease = lease, gh_seen = seen,
          gh_gate = (gh_gate g \<or> list_ex (attached j (sv_co s)) (gh_seen g)),
          gh_settled = (gh_settled g \<or> settled (sj_SessionID j) (sj_TurnKey j) (sv_db t)),
          gh_blocked = (gh_blocked g \<or> a = Some (Coord CoAddBlocker)),
          gh_cancelled = (gh_cancelled g \<or> worker_cancelled (sj_Worker j) (sv_co s)),
          gh_released = (gh_released g \<or> releases_anew a s)\<rparr>)"

text \<open>
  What a process may do: it writes to the store only while it holds an admitted unit of work, a
  decision only about its subject and after it found the caller's lease valid, then the run's
  controller connected, then that connection attached to this instance; it retires only its own units, and it announces the
  end of a turn only when the turn is settled.
\<close>

definition permitted :: "subject \<Rightarrow> action option \<Rightarrow> service \<Rightarrow> ghost \<Rightarrow> bool" where
  "permitted j a s g \<longleftrightarrow>
     (case a of
        Some (Store c) \<Rightarrow> gh_held g \<noteq> [] \<and> (decision c \<longrightarrow> gh_gate g \<and> concerns j c) \<and> proper_op c
      | Some (Coord (CoRetire w)) \<Rightarrow> w \<in> set (gh_held g)
      | Some (Coord CoCommit) \<Rightarrow> gh_held g \<noteq> []
      | Some (Coord (CoBroadcast ref ev)) \<Rightarrow>
          sse_Event ev = ''terminal'' \<longrightarrow> settled (ref_SessionID ref) (ref_TurnKey ref) (sv_db s)
      | Some (Coord CoHandoff) \<Rightarrow> False
      | Some (Coord (CoSetState x)) \<Rightarrow> False
      | _ \<Rightarrow> True)"

text \<open>What the others may do in between.\<close>

definition outside :: "subject \<Rightarrow> action \<Rightarrow> ghost \<Rightarrow> bool" where
  "outside j a g \<longleftrightarrow>
     (case a of
        Store c \<Rightarrow> proper_op c
      | Coord (CoRetire w) \<Rightarrow> w \<notin> set (gh_held g)
      | Coord (CoSetState x) \<Rightarrow> x = ServiceStateStopping \<longrightarrow> sj_Teardown j
      | _ \<Rightarrow> True)"

definition unretired :: "nat \<Rightarrow> Coordinator \<Rightarrow> bool" where
  "unretired w c \<longleftrightarrow> w < length (co_admitted c) \<and> \<not> snd (co_admitted c ! w)"

definition agrees :: "subject \<Rightarrow> ghost \<Rightarrow> service \<Rightarrow> bool" where
  "agrees j g s \<longleftrightarrow> store_inv (sv_db s) \<and> sound (sv_co s) \<and> (\<forall>w\<in>set (gh_held g). unretired w (sv_co s)) \<and>
     (\<not> sj_Teardown j \<and> gh_held g \<noteq> [] \<longrightarrow> co_state (sv_co s) \<noteq> ServiceStateStopping) \<and>
     (gh_settled g \<longrightarrow> settled (sj_SessionID j) (sj_TurnKey j) (sv_db s)) \<and>
     (gh_cancelled g \<longrightarrow> worker_cancelled (sj_Worker j) (sv_co s))"

section \<open>Interleavings\<close>

datatype move = Own inputs | Outside time action

text \<open>A run of a process among others: its own actions, each with what was observed and the state
  it met, and where observation, process and state have got.\<close>

fun run :: "subject \<Rightarrow> move list \<Rightarrow> ghost \<Rightarrow> 'r proc \<Rightarrow> service
    \<Rightarrow> (ghost \<times> service \<times> action) list \<times> ghost \<times> 'r proc \<times> service" where
  "run j [] g p s = ([], g, p, s)"
| "run j (Outside now a # ms) g p s = run j ms g p (act now a s)"
| "run j (Own i # ms) g (Return r) s = run j ms g (Return r) s"
| "run j (Own i # ms) g (Step f) s =
     (case f i s of (a, q) \<Rightarrow>
        case run j ms (observe j i a s g) q (perform i a s) of (h, rest) \<Rightarrow>
          ((case a of None \<Rightarrow> h | Some x \<Rightarrow> (g, s, x) # h), rest))"

fun legal :: "subject \<Rightarrow> move list \<Rightarrow> ghost \<Rightarrow> 'r proc \<Rightarrow> service \<Rightarrow> bool" where
  "legal j [] g p s = True"
| "legal j (Outside now a # ms) g p s = (outside j a g \<and> legal j ms g p (act now a s))"
| "legal j (Own i # ms) g (Return r) s = legal j ms g (Return r) s"
| "legal j (Own i # ms) g (Step f) s =
     (case f i s of (a, q) \<Rightarrow> legal j ms (observe j i a s g) q (perform i a s))"

section \<open>Weakest preconditions\<close>

primrec wp :: "subject \<Rightarrow> 'r proc \<Rightarrow> ('r \<Rightarrow> ghost \<Rightarrow> bool) \<Rightarrow> ghost \<Rightarrow> bool" where
  "wp j (Return r) Q g = Q r g"
| "wp j (Step f) Q g = (\<forall>i s. agrees j g s \<longrightarrow>
     (case map_prod id (\<lambda>p. wp j p Q) (f i s) of (a, w) \<Rightarrow> permitted j a s g \<and> w (observe j i a s g)))"

lemma wp_Step: "wp j (Step f) Q g = (\<forall>i s. agrees j g s \<longrightarrow> permitted j (fst (f i s)) s g \<and>
     wp j (snd (f i s)) Q (observe j i (fst (f i s)) s g))"
  by (simp add: case_prod_beta)

declare wp.simps(2) [simp del]

lemma proc_induct [case_names Return Step]:
  assumes "\<And>x. P (Return x)" and "\<And>f. (\<And>i s. P (snd (f i s))) \<Longrightarrow> P (Step f)"
  shows "P p"
proof (induction p)
  case (Step f)
  have "P (snd (f i s))" for i s
  proof (rule Step)
    show "f i \<in> range f" "f i s \<in> range (f i)" by simp_all
    show "snd (f i s) \<in> Basic_BNFs.snds (f i s)" by (simp add: snds.simps prod_eq_iff)
  qed
  then show ?case by (rule assms(2))
qed (rule assms(1))

lemma wp_mono: "wp j p Q g \<Longrightarrow> (\<And>r h. Q r h \<Longrightarrow> R r h) \<Longrightarrow> wp j p R g"
  by (induction p arbitrary: g rule: proc_induct) (auto simp: wp_Step)

lemma wp_bind: "wp j p (\<lambda>x. wp j (k x) Q) g \<Longrightarrow> wp j (bind p k) Q g"
  by (induction p arbitrary: g rule: proc_induct) (auto simp: wp_Step)

section \<open>Admitted units under steps of the coordinator\<close>

text \<open>What the channels of the subscribers have no part in.\<close>

definition work_of :: "Coordinator \<Rightarrow> (task \<times> bool) list \<times> nat list \<times> bool \<times> ServiceState" where
  "work_of c = (co_admitted c, co_contexts c, co_cancelled c, co_state c)"

lemma work_close: "work_of (fold close_channel chs c) = work_of c"
  by (induction chs arbitrary: c) (simp_all add: close_channel_def work_of_def)

lemma work_offer: "work_of (fst (fold (offer ev) chs p)) = work_of (fst p)"
proof (induction chs arbitrary: p)
  case (Cons ch chs)
  have "work_of (fst (offer ev ch p)) = work_of (fst p)"
    by (simp add: offer_def close_channel_def work_of_def Let_def split: prod.split)
  then show ?case using Cons.IH [of "offer ev ch p"] by simp
qed simp

lemma work_fanout [simp]:
  "work_of (BroadcastEvent ref ev c) = work_of c" "work_of (CloseAllSubscribers c) = work_of c"
  "work_of (snd (RegisterSubscriber ref c)) = work_of c" "work_of (unsubscribe ch c) = work_of c"
  "work_of (take_event ch c) = work_of c"
  using work_offer [of ev "subs_of ref c" "(c, [])"] work_close [of "concat (map snd (co_subscribers c))" c]
  by (simp_all add: BroadcastEvent_def CloseAllSubscribers_def RegisterSubscriber_def unsubscribe_def take_event_def
      put_subs_def work_of_def case_prod_beta Let_def)

lemmas fanout_work = work_fanout [unfolded work_of_def prod.inject]

lemma admitted_step:
  obtains (same) "co_admitted (co_step a c) = co_admitted c"
    | (more_work) t where "co_admitted (co_step a c) = co_admitted c @ [(t, False)]"
        "a \<in> {CoHandoff, CoCommit} \<or> co_state c \<noteq> ServiceStateStopping"
    | (retired) w t where "a = CoRetire w" "co_admitted (co_step a c) = (co_admitted c)[w := (t, True)]"
proof (cases a)
  case (CoRegister ref)
  then show ?thesis using that
    by (cases "co_state c = ServiceStateStopping") (auto simp: RegisterWorker_def admitted_def admit_def)
next
  case CoHandoff
  then show ?thesis using that by (auto simp: TrackHandoff_def admit_def)
next
  case CoCommit
  then show ?thesis using that by (auto simp: TrackCommit_def admit_def)
next
  case CoControl
  then show ?thesis using that
    by (cases "co_state c = ServiceStateStopping") (auto simp: TrackControl_def admitted_def admit_def)
next
  case CoAdmit
  then show ?thesis using that
    by (cases "co_state c = ServiceStateStopping"; cases "co_state c = ServiceStateDraining")
      (auto simp: AdmitRelease_def admitted_def admit_def)
next
  case (CoRetire w)
  show ?thesis
  proof (cases "length (co_admitted c) \<le> w")
    case True
    then show ?thesis using that(1) CoRetire by (simp add: retire_def)
  next
    case False
    obtain t d where e: "co_admitted c ! w = (t, d)" by fastforce
    show ?thesis
    proof (cases d)
      case True
      then show ?thesis using that(1) CoRetire False e by (simp add: retire_def)
    next
      case nd: False
      have "co_admitted (retire w c) = (co_admitted c)[w := (t, True)]"
        using False e nd by (cases t) (simp_all add: retire_def Let_def)
      then show ?thesis using that(3) CoRetire by simp
    qed
  qed
qed (rule that(1); simp add: SetState_def CancelActiveWorkers_def AddRecoveryBlocker_def ApplyDiagnosticBlockers_def
    SetRecoveryBlockers_def TryStopIdle_def MarkControllerAttached_def InvalidateControllerAttachment_def
    InvalidateControllerAttachmentIf_def CancelAll_def fanout_work split: option.split)+

lemma unretired_step: "unretired w c \<Longrightarrow> a \<noteq> CoRetire w \<Longrightarrow> unretired w (co_step a c)"
  by (cases rule: admitted_step [of a c]) (auto simp: unretired_def nth_append nth_list_update)

lemma new_work_unretired:
  "w \<in> set [length (co_admitted c) ..< length (co_admitted (co_step a c))] \<Longrightarrow> unretired w (co_step a c)"
  by (cases rule: admitted_step [of a c]) (auto simp: unretired_def nth_append)

lemma retire_contexts: "set (co_contexts c) \<subseteq> set (co_contexts (retire w c))" "co_cancelled (retire w c) = co_cancelled c"
  by (auto simp: retire_def Let_def split: prod.split bool.split task.split)

lemma account_contexts [simp]:
  "co_contexts (account t n c) = co_contexts c" "co_cancelled (account t n c) = co_cancelled c"
  "co_state (account t n c) = co_state c"
  by (cases t; simp)+

lemmas co_defs = SetState_def CancelActiveWorkers_def AddRecoveryBlocker_def ApplyDiagnosticBlockers_def
    SetRecoveryBlockers_def TryStopIdle_def MarkControllerAttached_def InvalidateControllerAttachment_def
    InvalidateControllerAttachmentIf_def CancelAll_def RegisterWorker_def TrackHandoff_def TrackCommit_def
    TrackControl_def AdmitRelease_def admitted_def admit_def

lemma cancelled_step: "worker_cancelled w c \<Longrightarrow> worker_cancelled w (co_step a c)"
  using retire_contexts
  by (cases a) (auto simp: worker_cancelled_def co_defs fanout_work split: option.split)

text \<open>Unretired work keeps the service from stopping idle.\<close>

lemma unretired_busy:
  assumes a: "accounted c" and u: "unretired w c"
  shows "\<not> fst (TryStopIdle c)"
proof -
  obtain t where t: "(t, False) \<in> set (co_admitted c)"
    using u by (cases "co_admitted c ! w") (auto simp: unretired_def in_set_conv_nth)
  have pos: "outstanding q c \<noteq> 0" if "q t" for q
  proof -
    have "(t, False) \<in> set (filter (\<lambda>(t, d). \<not> d \<and> q t) (co_admitted c))" using t that by simp
    then show ?thesis unfolding outstanding_def by (metis length_pos_if_in_set of_nat_eq_0_iff less_irrefl)
  qed
  show ?thesis
    using a pos [of is_worker] pos [of "\<lambda>t. t = Handoff"] pos [of "\<lambda>t. t = Commit"] pos [of "\<lambda>t. t = Control"]
    by (cases t) (simp_all add: accounted_def TryStopIdle_def)
qed

lemma running_step:
  assumes "accounted c" and "unretired w c" and "co_state c \<noteq> ServiceStateStopping"
    and "a \<noteq> CoSetState ServiceStateStopping"
  shows "co_state (co_step a c) \<noteq> ServiceStateStopping"
proof (cases a)
  case CoTryStop
  then show ?thesis using unretired_busy [OF assms(1,2)] assms(3) by (simp add: TryStopIdle_def split: if_splits)
next
  case (CoSetState x)
  then show ?thesis using assms(3,4) by (auto simp: SetState_def)
next
  case (CoRetire w)
  then show ?thesis using assms(3) by (simp add: retire_state)
qed (use assms(3) in \<open>auto simp: co_defs fanout_work split: option.split\<close>)

section \<open>The ghost keeps agreeing with the state\<close>

lemma collision_exec: "store_exec c now d = Inr (r, d') \<Longrightarrow> outcome_collision sid k d \<Longrightarrow> outcome_collision sid k d'"
  using store.append_only unfolding outcome_collision_def by fastforce

lemma settled_exec:
  "store_inv d \<Longrightarrow> proper_op c \<Longrightarrow> store_exec c now d = Inr (r, d') \<Longrightarrow> settled sid k d \<Longrightarrow> settled sid k d'"
  using store_keeps_ended collision_exec unfolding settled_def by blast

lemma act_store:
  assumes "store_inv (sv_db s)" and "proper_op c"
  shows "store_inv (sv_db (act now (Store c) s))"
    and "settled sid k (sv_db s) \<Longrightarrow> settled sid k (sv_db (act now (Store c) s))"
  using store_inv_exec [OF assms] settled_exec [OF assms] assms(1) by (auto split: sum.split)

lemma agrees_outside:
  assumes g: "agrees j g s" and o: "outside j a g"
  shows "agrees j g (act now a s)"
proof (cases a)
  case (Store c)
  then have p: "proper_op c" using o by (simp add: outside_def)
  have i: "store_inv (sv_db s)" using g by (simp add: agrees_def)
  show ?thesis using g act_store [OF i p] unfolding agrees_def Store by simp
next
  case (Coord x)
  have s: "sound (sv_co s)" and u: "\<forall>w\<in>set (gh_held g). unretired w (sv_co s)" using g by (simp_all add: agrees_def)
  have "unretired w (co_step x (sv_co s))" if "w \<in> set (gh_held g)" for w
    by (rule unretired_step) (use u that o Coord in \<open>auto simp: outside_def\<close>)
  moreover have "co_state (co_step x (sv_co s)) \<noteq> ServiceStateStopping"
    if "\<not> sj_Teardown j" "gh_held g \<noteq> []"
  proof -
    obtain w where "w \<in> set (gh_held g)" using \<open>gh_held g \<noteq> []\<close> by (cases "gh_held g") auto
    then show ?thesis using running_step [of "sv_co s" w x] u s g o that Coord
      by (cases x) (simp_all add: agrees_def sound_def outside_def)
  qed
  ultimately show ?thesis using g sound_step [OF s] cancelled_step unfolding agrees_def Coord by simp
qed

lemma agrees_own:
  assumes g: "agrees j g s" and p: "permitted j a s g"
  shows "agrees j (observe j i a s g) (perform i a s)"
proof (cases a)
  case None
  then show ?thesis using g by (auto simp: agrees_def observe_def perform_def Let_def)
next
  case (Some x)
  show ?thesis
  proof (cases x)
    case (Store c)
    then have pr: "proper_op c" using p Some by (simp add: permitted_def)
    have iv: "store_inv (sv_db s)" using g by (simp add: agrees_def)
    show ?thesis using g act_store [OF iv pr] unfolding agrees_def Some Store
      by (auto simp: observe_def perform_def Let_def)
  next
    case (Coord y)
    have s: "sound (sv_co s)" and u: "\<forall>w\<in>set (gh_held g). unretired w (sv_co s)" using g by (simp_all add: agrees_def)
    let ?h = "gh_held (observe j i a s g)"
    have h: "?h = keep_held a (gh_held g) @ [length (co_admitted (sv_co s)) ..< length (co_admitted (co_step y (sv_co s)))]"
      by (simp add: observe_def Let_def perform_def Some Coord)
    have kept: "w \<in> set (gh_held g) \<and> y \<noteq> CoRetire w" if "w \<in> set (keep_held a (gh_held g))" for w
      using that by (cases y) (auto simp: Some Coord)
    have "unretired w (co_step y (sv_co s))" if "w \<in> set ?h" for w
    proof (cases "w \<in> set (keep_held a (gh_held g))")
      case True
      then show ?thesis using kept u unretired_step by blast
    next
      case False
      then show ?thesis using that unfolding h by (intro new_work_unretired) simp
    qed
    moreover have "co_state (co_step y (sv_co s)) \<noteq> ServiceStateStopping" if nt: "\<not> sj_Teardown j" and ne: "?h \<noteq> []"
    proof (cases "gh_held g = []")
      case True
      then have "keep_held a (gh_held g) = []" by (cases y) (simp_all add: Some Coord)
      then have l: "length (co_admitted (sv_co s)) < length (co_admitted (co_step y (sv_co s)))" using ne h by simp
      have "y \<notin> {CoHandoff, CoCommit}" using p True by (auto simp: Some Coord permitted_def)
      then have st: "co_state (sv_co s) \<noteq> ServiceStateStopping"
        using l by (cases rule: admitted_step [of y "sv_co s"]) auto
      obtain w where "unretired w (co_step y (sv_co s))" using new_work_unretired l by fastforce
      show ?thesis using st l p
        by (cases y) (auto simp: co_defs fanout_work Some Coord permitted_def retire_state split: option.split)
    next
      case False
      then obtain w where "w \<in> set (gh_held g)" by (cases "gh_held g") auto
      moreover have "y \<noteq> CoSetState ServiceStateStopping" using p by (auto simp: Some Coord permitted_def)
      ultimately show ?thesis using running_step [of "sv_co s" w y] u s g nt False by (auto simp: agrees_def sound_def)
    qed
    moreover have "gh_cancelled (observe j i a s g) \<Longrightarrow> worker_cancelled (sj_Worker j) (co_step y (sv_co s))"
      using g cancelled_step [of "sj_Worker j" "sv_co s" y] by (auto simp: observe_def agrees_def Let_def)
    moreover have "gh_settled (observe j i a s g) \<Longrightarrow> settled (sj_SessionID j) (sj_TurnKey j) (sv_db s)"
      using g by (auto simp: observe_def agrees_def Let_def perform_def Some Coord)
    ultimately show ?thesis using g sound_step [OF s] unfolding agrees_def
      by (simp add: perform_def Some Coord)
  qed
qed

theorem wp_sound:
  assumes "agrees j g s" and "wp j p Q g" and "legal j ms g p s" and "run j ms g p s = (h, g', q, t)"
  shows "agrees j g' t \<and> wp j q Q g' \<and> (\<forall>(g, s, a)\<in>set h. agrees j g s \<and> permitted j (Some a) s g)"
  using assms
proof (induction ms arbitrary: g p s h)
  case (Cons m ms)
  show ?case
  proof (cases m)
    case (Outside now a)
    have "agrees j g (act now a s)" using Cons.prems agrees_outside by (simp add: Outside)
    then show ?thesis by (rule Cons.IH) (use Cons.prems in \<open>simp_all add: Outside\<close>)
  next
    case (Own i)
    show ?thesis
    proof (cases p)
      case (Return r)
      then show ?thesis using Cons.prems by (intro Cons.IH) (simp_all add: Own)
    next
      case (Step f)
      obtain a u where f: "f i s = (a, u)" by fastforce
      obtain h' where r: "run j ms (observe j i a s g) u (perform i a s) = (h', g', q, t)"
        and h: "h = (case a of None \<Rightarrow> h' | Some x \<Rightarrow> (g, s, x) # h')"
        using Cons.prems(4) by (auto simp: Own Step f split: prod.splits)
      have p: "permitted j a s g" and w: "wp j u Q (observe j i a s g)"
        using Cons.prems(2) [unfolded Step wp_Step, rule_format, OF Cons.prems(1), of i] by (simp_all add: f)
      have "agrees j g' t \<and> wp j q Q g' \<and> (\<forall>(g, s, a)\<in>set h'. agrees j g s \<and> permitted j (Some a) s g)"
        by (rule Cons.IH [OF agrees_own [OF Cons.prems(1) p] w _ r]) (use Cons.prems(3) in \<open>simp add: Own Step f\<close>)
      then show ?thesis using Cons.prems(1) p by (auto simp: h split: option.split)
    qed
  qed
qed simp

section \<open>Rules for the atomic steps\<close>

text \<open>What stays observed when a process goes on.\<close>

definition later :: "ghost \<Rightarrow> ghost \<Rightarrow> bool" where
  "later g h \<longleftrightarrow> gh_held h = gh_held g \<and> (gh_lease g \<longrightarrow> gh_lease h) \<and> set (gh_seen g) \<subseteq> set (gh_seen h) \<and>
     (gh_gate g \<longrightarrow> gh_gate h) \<and> (gh_settled g \<longrightarrow> gh_settled h) \<and> (gh_blocked g \<longrightarrow> gh_blocked h) \<and>
     (gh_cancelled g \<longrightarrow> gh_cancelled h) \<and> gh_released h = gh_released g"

lemma later_refl [simp]: "later g g"
  by (simp add: later_def)

lemma later_trans: "later f g \<Longrightarrow> later g h \<Longrightarrow> later f h"
  unfolding later_def by auto

lemma laterD:
  "later g h \<Longrightarrow> gh_held h = gh_held g" "later g h \<Longrightarrow> gh_released h = gh_released g"
  "later g h \<Longrightarrow> gh_lease g \<Longrightarrow> gh_lease h" "later g h \<Longrightarrow> gh_gate g \<Longrightarrow> gh_gate h"
  "later g h \<Longrightarrow> gh_settled g \<Longrightarrow> gh_settled h" "later g h \<Longrightarrow> gh_blocked g \<Longrightarrow> gh_blocked h"
  "later g h \<Longrightarrow> gh_cancelled g \<Longrightarrow> gh_cancelled h" "later g h \<Longrightarrow> r \<in> set (gh_seen g) \<Longrightarrow> r \<in> set (gh_seen h)"
  by (auto simp: later_def)

lemma releases_anew_simps [simp]: "\<not> releases_anew None s" "\<not> releases_anew (Some (Coord a)) s"
  by (simp_all add: releases_anew_def)

lemma later_quiet: "later g (observe j i None s g)"
  by (simp add: later_def observe_def perform_def Let_def)

lemma wp_atomically:
  "(\<And>i s. agrees j g s \<Longrightarrow> permitted j (fst (f i s)) s g \<and> Q (snd (f i s)) (observe j i (fst (f i s)) s g))
   \<Longrightarrow> wp j (atomically f) Q g"
  by (auto simp: atomically_def wp_Step)

lemma permitted_None [simp]: "permitted j None s g"
  by (simp add: permitted_def)

lemma wp_ask: "(\<And>i h. later g h \<Longrightarrow> Q (f i) h) \<Longrightarrow> wp j (ask f) Q g"
  unfolding ask_def by (rule wp_atomically) (simp add: later_quiet)

lemma wp_inspect:
  "(\<And>i s. agrees j g s \<Longrightarrow> later g (observe j i None s g) \<Longrightarrow> Q (f (sv_co s)) (observe j i None s g))
   \<Longrightarrow> wp j (inspect f) Q g"
  unfolding inspect_def by (rule wp_atomically) (simp add: later_quiet)

lemma wp_query:
  assumes "\<And>m h. later g h \<Longrightarrow> Q (Inl (ErrMsg m)) h"
    and "\<And>i s. agrees j g s \<Longrightarrow> later g (observe j i None s g) \<Longrightarrow> Q (f (sv_db s)) (observe j i None s g)"
  shows "wp j (query f) Q g"
  unfolding query_def by (rule wp_atomically) (use assms in \<open>simp add: later_quiet split: option.split\<close>)

lemma wp_query_any: "(\<And>x h. later g h \<Longrightarrow> Q x h) \<Longrightarrow> wp j (query f) Q g"
  by (rule wp_query) simp_all

lemma wp_command:
  assumes "gh_held g \<noteq> []" and "decision c \<Longrightarrow> gh_gate g \<and> concerns j c" and "proper_op c"
    and "\<And>e h. later g h \<Longrightarrow> Q (Inl e) h"
    and "\<And>i s r d h. \<lbrakk>agrees j g s; store_exec c (in_now i) (sv_db s) = Inr (r, d);
      later (g\<lparr>gh_released := gh_released g \<or> releases_anew (Some (Store c)) s\<rparr>) h;
      h = observe j i (Some (Store c)) s g\<rbrakk> \<Longrightarrow> Q (Inr r) h"
  shows "wp j (command c) Q g"
  unfolding command_def
proof (rule wp_atomically)
  fix i s assume a: "agrees j g s"
  have l: "later (g\<lparr>gh_released := gh_released g \<or> releases_anew (Some (Store c)) s\<rparr>) (observe j i (Some (Store c)) s g)"
    by (simp add: later_def observe_def perform_def Let_def)
  have p: "permitted j (Some (Store c)) s g" using assms(1-3) by (simp add: permitted_def)
  show "permitted j (fst (case in_fault i of Some m \<Rightarrow> (None, Inl (ErrMsg m)) | None \<Rightarrow>
      (case store_exec c (in_now i) (sv_db s) of Inl e \<Rightarrow> (None, Inl e) | Inr (r, d) \<Rightarrow> (Some (Store c), Inr r)))) s g \<and>
    Q (snd (case in_fault i of Some m \<Rightarrow> (None, Inl (ErrMsg m)) | None \<Rightarrow>
      (case store_exec c (in_now i) (sv_db s) of Inl e \<Rightarrow> (None, Inl e) | Inr (r, d) \<Rightarrow> (Some (Store c), Inr r))))
     (observe j i (fst (case in_fault i of Some m \<Rightarrow> (None, Inl (ErrMsg m)) | None \<Rightarrow>
      (case store_exec c (in_now i) (sv_db s) of Inl e \<Rightarrow> (None, Inl e) | Inr (r, d) \<Rightarrow> (Some (Store c), Inr r)))) s g)"
    using assms(4) assms(5) [OF a _ l refl] p later_quiet by (simp split: option.split sum.split prod.split)
qed

lemma wp_command_any:
  assumes "gh_held g \<noteq> []" and "decision c \<Longrightarrow> gh_gate g \<and> concerns j c" and "proper_op c"
    and "\<And>x b h. later (g\<lparr>gh_released := b\<rparr>) h \<Longrightarrow> Q x h"
  shows "wp j (command c) Q g"
  by (rule wp_command [OF assms(1-3)]) (use assms(4) [of "gh_released g"] assms(4) in auto)

lemma wp_admission:
  assumes "\<And>c w d. f c = Inr (w, d) \<Longrightarrow> d = co_step a c \<and> w = length (co_admitted c) \<and> length (co_admitted d) = Suc w"
    and "a \<in> {CoControl, CoAdmit} \<union> range CoRegister"
    and "\<And>e s h. agrees j g s \<Longrightarrow> f (sv_co s) = Inl e \<Longrightarrow> later g h \<Longrightarrow> Q (Inl e) h"
    and "\<And>w h. w \<notin> set (gh_held g) \<Longrightarrow> later (g\<lparr>gh_held := gh_held g @ [w]\<rparr>) h \<Longrightarrow> Q (Inr w) h"
  shows "wp j (admission a f) Q g"
  unfolding admission_def
proof (rule wp_atomically)
  fix i s assume ag: "agrees j g s"
  show "permitted j (fst (case f (sv_co s) of Inl e \<Rightarrow> (None, Inl e) | Inr (w, c) \<Rightarrow> (Some (Coord a), Inr w))) s g \<and>
    Q (snd (case f (sv_co s) of Inl e \<Rightarrow> (None, Inl e) | Inr (w, c) \<Rightarrow> (Some (Coord a), Inr w)))
     (observe j i (fst (case f (sv_co s) of Inl e \<Rightarrow> (None, Inl e) | Inr (w, c) \<Rightarrow> (Some (Coord a), Inr w))) s g)"
  proof (cases "f (sv_co s)")
    case (Inl e)
    then show ?thesis using assms(3) [OF ag Inl later_quiet] by simp
  next
    case (Inr p)
    obtain w c where p: "p = (w, c)" by fastforce
    have w: "c = co_step a (sv_co s)" "w = length (co_admitted (sv_co s))" "length (co_admitted c) = Suc w"
      using assms(1) [of "sv_co s" w c, OF Inr [unfolded p]] by blast+
    have n: "w \<notin> set (gh_held g)" using ag by (auto simp: w agrees_def unretired_def)
    have "keep_held (Some (Coord a)) h = h" for h using assms(2) by auto
    then have "later (g\<lparr>gh_held := gh_held g @ [w]\<rparr>) (observe j i (Some (Coord a)) s g)"
      using w by (simp add: later_def observe_def perform_def)
    then have "Q (Inr w) (observe j i (Some (Coord a)) s g)" by (rule assms(4) [OF n])
    moreover have "permitted j (Some (Coord a)) s g" using assms(2) by (auto simp: permitted_def)
    ultimately show ?thesis by (simp add: Inr p)
  qed
qed

lemma admissions:
  "TrackControl c = Inr (w, d) \<Longrightarrow> d = co_step CoControl c \<and> w = length (co_admitted c) \<and> length (co_admitted d) = Suc w"
  "AdmitRelease c = Inr (w, d) \<Longrightarrow> d = co_step CoAdmit c \<and> w = length (co_admitted c) \<and> length (co_admitted d) = Suc w"
  "RegisterWorker ref c = Inr (w, d) \<Longrightarrow>
     d = co_step (CoRegister ref) c \<and> w = length (co_admitted c) \<and> length (co_admitted d) = Suc w"
  by (simp_all add: TrackControl_def AdmitRelease_def RegisterWorker_def admitted_def admit_def split: if_splits)
    (erule conjE, hypsubst, simp)+

lemma wp_track_control:
  assumes "\<And>e h. later g h \<Longrightarrow> Q (Inl e) h"
    and "\<And>w h. w \<notin> set (gh_held g) \<Longrightarrow> later (g\<lparr>gh_held := gh_held g @ [w]\<rparr>) h \<Longrightarrow> Q (Inr w) h"
  shows "wp j track_control Q g"
  unfolding track_control_def by (rule wp_admission [OF admissions(1)]) (use assms in simp_all)

lemma wp_admit_release:
  assumes "\<And>e h. later g h \<Longrightarrow> Q (Inl e) h"
    and "\<And>w h. w \<notin> set (gh_held g) \<Longrightarrow> later (g\<lparr>gh_held := gh_held g @ [w]\<rparr>) h \<Longrightarrow> Q (Inr w) h"
  shows "wp j admit_release Q g"
  unfolding admit_release_def by (rule wp_admission [OF admissions(2)]) (use assms in simp_all)

lemma wp_register_worker:
  assumes "\<And>e h. later g h \<Longrightarrow> sj_Teardown j \<or> gh_held g = [] \<Longrightarrow> Q (Inl e) h"
    and "\<And>w h. w \<notin> set (gh_held g) \<Longrightarrow> later (g\<lparr>gh_held := gh_held g @ [w]\<rparr>) h \<Longrightarrow> Q (Inr w) h"
  shows "wp j (register_worker ref) Q g"
  unfolding register_worker_def
proof (rule wp_admission [OF admissions(3)])
  fix e s h
  assume "agrees j g s" "RegisterWorker ref (sv_co s) = Inl e" and l: "later g h"
  then have "sj_Teardown j \<or> gh_held g = []"
    by (auto simp: RegisterWorker_def agrees_def split: if_splits prod.splits)
  then show "Q (Inl e) h" by (rule assms(1) [OF l])
qed (use assms(2) in simp_all)

lemma wp_retire:
  assumes "w \<in> set (gh_held g)" and "\<And>h. later (g\<lparr>gh_held := removeAll w (gh_held g)\<rparr>) h \<Longrightarrow> Q () h"
  shows "wp j (signal (CoRetire w)) Q g"
  unfolding signal_def
proof (rule wp_atomically)
  fix i s
  have "length (co_admitted (retire w c)) = length (co_admitted c)" for c
    by (simp add: retire_def Let_def split: prod.split bool.split task.split)
  then have "later (g\<lparr>gh_held := removeAll w (gh_held g)\<rparr>) (observe j i (Some (Coord (CoRetire w))) s g)"
    by (simp add: later_def observe_def perform_def releases_anew_def)
  then show "permitted j (fst (Some (Coord (CoRetire w)), ())) s g \<and>
      Q (snd (Some (Coord (CoRetire w)), ())) (observe j i (fst (Some (Coord (CoRetire w)), ())) s g)"
    using assms by (simp add: permitted_def)
qed

text \<open>A method that hands out no unit of work.\<close>

lemma wp_signal:
  assumes "\<And>c. co_admitted (co_step a c) = co_admitted c" and "\<And>h. keep_held (Some (Coord a)) h = h"
    and "\<And>s. agrees j g s \<Longrightarrow> permitted j (Some (Coord a)) s g"
    and "\<And>h. later (g\<lparr>gh_blocked := gh_blocked g \<or> a = CoAddBlocker\<rparr>) h \<Longrightarrow> Q () h"
  shows "wp j (signal a) Q g"
  unfolding signal_def
proof (rule wp_atomically)
  fix i s assume "agrees j g s"
  moreover have "later (g\<lparr>gh_blocked := gh_blocked g \<or> a = CoAddBlocker\<rparr>) (observe j i (Some (Coord a)) s g)"
    using assms(1,2) by (simp add: later_def observe_def perform_def releases_anew_def)
  ultimately show "permitted j (fst (Some (Coord a), ())) s g \<and>
      Q (snd (Some (Coord a), ())) (observe j i (fst (Some (Coord a), ())) s g)"
    using assms(3,4) by simp
qed

lemma wp_deferring:
  assumes "w \<in> set (gh_held g)"
    and "wp j p (\<lambda>r h. w \<in> set (gh_held h) \<and> (\<forall>h'. later (h\<lparr>gh_held := removeAll w (gh_held h)\<rparr>) h' \<longrightarrow> Q r h')) g"
  shows "wp j (deferring w p) Q g"
  unfolding deferring_def
  by (rule wp_bind, rule wp_mono [OF assms(2)], rule wp_bind, rule wp_retire) simp_all

lemma wp_track_commit:
  assumes "gh_held g \<noteq> []" and "\<And>w h. w \<notin> set (gh_held g) \<Longrightarrow> later (g\<lparr>gh_held := gh_held g @ [w]\<rparr>) h \<Longrightarrow> Q w h"
  shows "wp j track_commit Q g"
  unfolding track_commit_def
proof (rule wp_atomically)
  fix i s assume ag: "agrees j g s"
  let ?w = "fst (TrackCommit (sv_co s))"
  have w: "?w = length (co_admitted (sv_co s))" by (simp add: TrackCommit_def admit_def)
  have n: "?w \<notin> set (gh_held g)" using ag by (auto simp: w agrees_def unretired_def)
  have "later (g\<lparr>gh_held := gh_held g @ [?w]\<rparr>) (observe j i (Some (Coord CoCommit)) s g)"
    by (simp add: later_def observe_def perform_def TrackCommit_def admit_def)
  then have "Q ?w (observe j i (Some (Coord CoCommit)) s g)" by (rule assms(2) [OF n])
  then show "permitted j (fst (Some (Coord CoCommit), ?w)) s g \<and>
      Q (snd (Some (Coord CoCommit), ?w)) (observe j i (fst (Some (Coord CoCommit), ?w)) s g)"
    using assms(1) by (simp add: permitted_def)
qed

lemma outcome_settles:
  assumes inv: "store_inv d" and ok: "store_exec (CmdOutcome op er st raw) now d = Inr (r, d')"
  shows "settled (er_SessionID er) (er_TurnKey er) d'"
proof (cases "journal_row op d")
  case None
  obtain r0 where "RecordObservedExecutionOutcome op er st raw now d = Inr (r0, d')" using ok by (auto simp: as_result_Inr)
  from fresh_outcome [OF this None] show ?thesis by (simp add: settled_def)
next
  case (Some e)
  have d: "d' = d" and f: "j_fingerprint e = outcome_fingerprint er (terminal_command_text st) (SanitizeText raw)"
    using store_exec_commits [OF _ _ ok] Some by (auto simp: committed_def)
  have m: "e \<in> set (journal d)" using Some by (auto simp: journal_row_def dest: sel_SomeD)
  have c: "j_command_type e = ''record_observed_execution_outcome''"
  proof -
    obtain r0 where "RecordObservedExecutionOutcome op er st raw now d = Inr (r0, d')" using ok by (auto simp: as_result_Inr)
    then show ?thesis unfolding RecordObservedExecutionOutcome_def Let_def
      by (elim success_elims; simp add: checkOrRecordIdempotency_def Some split: if_splits)
  qed
  have x: "turn_ended (or_SessionID (decode_receipt (j_payload e))) (or_TurnKey (decode_receipt (j_payload e))) d"
    using inv m c by (simp add: store_inv_def outcomes_ended_def)
  have er: "er = \<lparr>er_SessionID = er_SessionID er, er_TurnKey = er_TurnKey er, er_AttemptID = er_AttemptID er\<rparr>" by simp
  show ?thesis
  proof (cases "(or_SessionID (decode_receipt (j_payload e)), or_TurnKey (decode_receipt (j_payload e))) =
      (er_SessionID er, er_TurnKey er)")
    case True
    then show ?thesis using x by (simp add: settled_def d)
  next
    case False
    then have "outcome_collision (er_SessionID er) (er_TurnKey er) d"
      unfolding outcome_collision_def using m c f er by metis
    then show ?thesis by (simp add: settled_def d)
  qed
qed

text \<open>An outcome settles its turn, and reading a turn that has ended shows that it is settled.\<close>

lemma wp_outcome:
  assumes "gh_held g \<noteq> []" and "sj_SessionID j = er_SessionID er" and "sj_TurnKey j = er_TurnKey er"
    and "\<And>e h. later g h \<Longrightarrow> Q (Inl e) h" and "\<And>r h. later g h \<Longrightarrow> gh_settled h \<Longrightarrow> Q (Inr r) h"
  shows "wp j (command (CmdOutcome op er st raw)) Q g"
proof (rule wp_command [OF assms(1)])
  fix i s r d h
  assume ag: "agrees j g s" and ok: "store_exec (CmdOutcome op er st raw) (in_now i) (sv_db s) = Inr (r, d)"
    and l: "later (g\<lparr>gh_released := gh_released g \<or> releases_anew (Some (Store (CmdOutcome op er st raw))) s\<rparr>) h"
    and h: "h = observe j i (Some (Store (CmdOutcome op er st raw))) s g"
  have "settled (er_SessionID er) (er_TurnKey er) d"
    using outcome_settles [OF _ ok] ag by (simp add: agrees_def)
  then have "gh_settled h" using ok assms(2,3) by (simp add: h observe_def perform_def Let_def)
  moreover have "later g h" using l by (simp add: later_def releases_anew_def)
  ultimately show "Q (Inr r) h" by (intro assms(5))
qed (simp_all add: assms(4))

lemma wp_turn_details:
  assumes "sj_SessionID j = sid" and "sj_TurnKey j = k"
    and "\<And>e h. later g h \<Longrightarrow> Q (Inl e) h"
    and "\<And>x h. later g h \<Longrightarrow> (\<And>td. x = Some td \<Longrightarrow> isTerminal (td_Status td) \<Longrightarrow> gh_settled h) \<Longrightarrow> Q (Inr x) h"
  shows "wp j (query (\<lambda>d. Inr (GetTurnDetails sid k d))) Q g"
proof (rule wp_query)
  fix i s assume l: "later g (observe j i None s g)"
  have "gh_settled (observe j i None s g)"
    if "GetTurnDetails sid k (sv_db s) = Some td" "isTerminal (td_Status td)" for td
  proof -
    have "turn_ended sid k (sv_db s)" using that by (auto simp: GetTurnDetails_def turn_ended_def split: option.splits)
    then show ?thesis using assms(1,2) by (simp add: observe_def perform_def settled_def Let_def)
  qed
  then show "Q (Inr (GetTurnDetails sid k (sv_db s))) (observe j i None s g)" by (rule assms(4) [OF l])
qed (rule assms(3))

text \<open>The announcement of a settled turn.\<close>

lemma wp_announce:
  assumes "gh_settled g" and "sj_SessionID j = ref_SessionID ref" and "sj_TurnKey j = ref_TurnKey ref"
    and "\<And>h. later g h \<Longrightarrow> Q () h"
  shows "wp j (signal (CoBroadcast ref ev)) Q g"
  by (rule wp_signal) (use assms in \<open>simp_all add: fanout_work permitted_def agrees_def\<close>)

lemma wp_progress:
  assumes "sse_Event ev \<noteq> ''terminal''" and "\<And>h. later g h \<Longrightarrow> Q () h"
  shows "wp j (signal (CoBroadcast ref ev)) Q g"
  by (rule wp_signal) (use assms in \<open>simp_all add: fanout_work permitted_def\<close>)

lemma wp_blocker: "(\<And>h. later (g\<lparr>gh_blocked := True\<rparr>) h \<Longrightarrow> Q () h) \<Longrightarrow> wp j (signal CoAddBlocker) Q g"
  by (rule wp_signal) (simp_all add: AddRecoveryBlocker_def permitted_def)

end
