(* ===== verification/Service_Supervisor.thy ===== *)
theory Service_Supervisor
  imports Service_Process
begin

text \<open>
  The execution supervisor, \<open>internal/service/supervisor.go\<close>: it dispatches a released turn to the
  harness adapter, relays its events, collects the result and commits it. A supervisor is a process
  of atomic steps; the adapter's answers are inputs. \<open>json.Marshal\<close> of an event is an argument. The
  polling loop gets a number of polls; a supervisor that used them up is still polling.
\<close>

section \<open>The supervisor\<close>

record supervisor =
  su_RunID :: string
  su_SessionID :: string
  su_TurnKey :: string
  su_CallerLease :: string
  su_ExpectedVersion :: int
  su_Receipt :: ReleaseReceipt
  su_done :: nat

text \<open>The ways out of \<open>Run\<close>; the last one is no way out.\<close>

datatype sup_exit = ExitTerminated | ExitRecorded | ExitResolved | ExitBlocked | ExitPolling

definition supervisor_attempt :: "supervisor \<Rightarrow> string" where
  "supervisor_attempt u = (if rr_AttemptID (su_Receipt u) = [] then ''1'' else rr_AttemptID (su_Receipt u))"

definition supervisor_exec_ref :: "supervisor \<Rightarrow> ExecutionRef" where
  "supervisor_exec_ref u =
     \<lparr>er_SessionID = su_SessionID u, er_TurnKey = su_TurnKey u, er_AttemptID = supervisor_attempt u\<rparr>"

definition supervisor_ref :: "supervisor \<Rightarrow> TurnRef" where
  "supervisor_ref u = \<lparr>ref_SessionID = su_SessionID u, ref_TurnKey = su_TurnKey u\<rparr>"

definition supervisor_op :: "string \<Rightarrow> supervisor \<Rightarrow> string" where
  "supervisor_op kind u =
     ''op-'' @ kind @ ''-'' @ su_SessionID u @ ''-'' @ su_TurnKey u @ ''-'' @ supervisor_attempt u"

text \<open>The JSON object a terminal event carries, keys in order.\<close>

definition json_member :: "string \<Rightarrow> string \<Rightarrow> string" where
  "json_member name v = json_string True name @ '':'' @ json_string True v"

definition terminal_event :: "string \<Rightarrow> string \<Rightarrow> string \<Rightarrow> string \<Rightarrow> SSEEvent" where
  "terminal_event sid k status result =
     \<lparr>sse_Event = ''terminal'',
      sse_Data = ''{'' @ comma_join [json_member ''result'' result, json_member ''session_id'' sid,
        json_member ''status'' status, json_member ''turn_key'' k] @ ''}''\<rparr>"

definition isTerminalTurnStatus :: "TurnStatus \<Rightarrow> bool" where
  "isTerminalTurnStatus st \<longleftrightarrow> st = TurnCompleted \<or> st = TurnFailed \<or> st = TurnCancelled \<or> st = TurnInterrupted"

section \<open>Its parts\<close>

text \<open>\<open>ctx.Err() != nil\<close> for the worker's context.\<close>

definition context_done :: "supervisor \<Rightarrow> bool proc" where
  "context_done u = inspect (worker_cancelled (su_done u))"

definition turnAlreadyCommittedTerminal :: "supervisor \<Rightarrow> bool proc" where
  "turnAlreadyCommittedTerminal u =
     bind (query (\<lambda>d. Inr (GetTurnDetails (su_SessionID u) (su_TurnKey u) d))) (\<lambda>x.
       Return (case x of Inl e \<Rightarrow> False | Inr None \<Rightarrow> False | Inr (Some td) \<Rightarrow> isTerminal (td_Status td)))"

fun record_attempts :: "supervisor \<Rightarrow> TurnStatus \<Rightarrow> string \<Rightarrow> nat \<Rightarrow> (store_error + unit) proc" where
  "record_attempts u st raw 0 =
     Return (Inl (ErrMsg ''exhausted retries recording observed execution outcome''))"
| "record_attempts u st raw (Suc n) =
     bind (command (CmdOutcome (supervisor_op ''term'' u) (supervisor_exec_ref u) st raw)) (\<lambda>x.
       case x of Inr r \<Rightarrow> Return (Inr ())
       | Inl e \<Rightarrow> if e \<noteq> ErrWrongExecutionAttempt then Return (Inl e) else record_attempts u st raw n)"

definition recordTerminalOutcomeWithRetry :: "supervisor \<Rightarrow> TurnStatus \<Rightarrow> string \<Rightarrow> (store_error + unit) proc" where
  "recordTerminalOutcomeWithRetry u st raw =
     bind track_commit (\<lambda>w. deferring w (record_attempts u st raw 10))"

datatype collected = Collected TurnResult | CollectFailed | StillPolling

fun collectUntilTerminal :: "supervisor \<Rightarrow> nat \<Rightarrow> collected proc" where
  "collectUntilTerminal u 0 = Return StillPolling"
| "collectUntilTerminal u (Suc n) =
     bind (context_done u) (\<lambda>stop. if stop then Return CollectFailed else
     bind (turnAlreadyCommittedTerminal u) (\<lambda>over. if over then Return CollectFailed else
     bind (ask (\<lambda>i. in_collect i (supervisor_ref u))) (\<lambda>x. case x of
       Inl m \<Rightarrow> Return CollectFailed
     | Inr r \<Rightarrow>
         if isTerminalTurnStatus (res_Status r) \<and> res_ResultStatus r \<noteq> ResultPending then Return (Collected r)
         else bind (context_done u) (\<lambda>stop. if stop then Return CollectFailed else collectUntilTerminal u n))))"

definition block :: "sup_exit proc" where
  "block = bind (signal CoAddBlocker) (\<lambda>_. Return ExitBlocked)"

text \<open>An outcome the supervisor makes up itself is recorded, or else an obligation.\<close>

definition record_failure :: "supervisor \<Rightarrow> string \<Rightarrow> sup_exit proc" where
  "record_failure u reason =
     bind (recordTerminalOutcomeWithRetry u TurnFailed reason) (\<lambda>x.
       case x of Inl e \<Rightarrow> block | Inr _ \<Rightarrow> Return ExitRecorded)"

fun relay :: "(Event \<Rightarrow> string) \<Rightarrow> supervisor \<Rightarrow> Event list \<Rightarrow> unit proc" where
  "relay marshal u [] = Return ()"
| "relay marshal u (ev # evs) =
     (if ev_Type ev = EventTerminal then relay marshal u evs
      else bind (signal (CoBroadcast (supervisor_ref u) \<lparr>sse_Event = ''progress'', sse_Data = marshal ev\<rparr>))
        (\<lambda>_. relay marshal u evs))"

text \<open>From the collected result to the announcement.\<close>

definition commit_result :: "supervisor \<Rightarrow> TurnResult \<Rightarrow> sup_exit proc" where
  "commit_result u r =
     (if ref_SessionID (res_Ref r) \<noteq> su_SessionID u \<or> ref_TurnKey (res_Ref r) \<noteq> su_TurnKey u then block
      else bind (recordTerminalOutcomeWithRetry u (res_Status r) (res_Output r)) (\<lambda>x. case x of
        Inl e \<Rightarrow> bind (turnAlreadyCommittedTerminal u) (\<lambda>over. if over then Return ExitResolved else block)
      | Inr _ \<Rightarrow>
          bind (signal (CoBroadcast (supervisor_ref u)
            (terminal_event (su_SessionID u) (su_TurnKey u) (status_text (res_Status r)) (res_Output r))))
          (\<lambda>_. Return ExitRecorded)))"

text \<open>No result: the service is going down, another path ended the turn, or it is uncertain.\<close>

definition uncollected :: "supervisor \<Rightarrow> sup_exit proc" where
  "uncollected u =
     bind (context_done u) (\<lambda>stop. if stop then Return ExitTerminated else
     bind (turnAlreadyCommittedTerminal u) (\<lambda>over. if over then Return ExitResolved else block))"

definition observe_and_collect :: "(Event \<Rightarrow> string) \<Rightarrow> nat \<Rightarrow> supervisor \<Rightarrow> sup_exit proc" where
  "observe_and_collect marshal n u =
     bind (ask (\<lambda>i. in_observe i (supervisor_ref u))) (\<lambda>evs. bind (case evs of None \<Rightarrow> Return () | Some l \<Rightarrow> relay marshal u l) (\<lambda>_.
     bind (context_done u) (\<lambda>stop. if stop then Return ExitTerminated else
     bind (collectUntilTerminal u n) (\<lambda>x. case x of
       StillPolling \<Rightarrow> Return ExitPolling
     | CollectFailed \<Rightarrow> uncollected u
     | Collected r \<Rightarrow> commit_result u r))))"

text \<open>After the answer to the dispatch: accepted, rejected, or unknown.\<close>

definition dispatched :: "(Event \<Rightarrow> string) \<Rightarrow> nat \<Rightarrow> supervisor \<Rightarrow> DispatchOutcome \<Rightarrow> string option \<Rightarrow> sup_exit proc" where
  "dispatched marshal n u outcome err =
     (if err \<noteq> None \<or> do_Status outcome \<noteq> DispatchAccepted then
        bind (context_done u) (\<lambda>stop. if stop then Return ExitTerminated
        else if do_Status outcome = DispatchRejected then
          record_failure u (if do_Reason outcome = [] then text_or_empty err else do_Reason outcome)
        else
          bind (command (CmdAcknowledge (supervisor_op ''obs'' u) (supervisor_exec_ref u) ''acceptance_unknown''))
            (\<lambda>_. block))
      else
        bind (command (CmdAcknowledge (supervisor_op ''obs'' u) (supervisor_exec_ref u) ''receipt_acknowledged''))
          (\<lambda>_. observe_and_collect marshal n u))"

fun prompt_error :: "store_error \<Rightarrow> string" where
  "prompt_error (ErrMsg m) = m"
| "prompt_error e = ''sql: no rows in result set''"

definition supervise :: "(Event \<Rightarrow> string) \<Rightarrow> nat \<Rightarrow> supervisor \<Rightarrow> sup_exit proc" where
  "supervise marshal n u =
     bind (context_done u) (\<lambda>stop. if stop then Return ExitTerminated else
     bind (query (GetTurnPrompt (su_SessionID u) (su_TurnKey u))) (\<lambda>p. case p of
       Inl e \<Rightarrow>
         bind (context_done u) (\<lambda>stop. if stop then Return ExitTerminated
           else record_failure u (''failed to read turn prompt: '' @ prompt_error e))
     | Inr prompt \<Rightarrow>
         bind (ask (\<lambda>i. in_dispatch i (supervisor_ref u) prompt)) (\<lambda>(outcome, err). dispatched marshal n u outcome err)))"

definition Run :: "(Event \<Rightarrow> string) \<Rightarrow> nat \<Rightarrow> supervisor \<Rightarrow> sup_exit proc" where
  "Run marshal n u = deferring (su_done u) (supervise marshal n u)"

section \<open>What holds when it returns\<close>

definition supervises :: "subject \<Rightarrow> supervisor \<Rightarrow> bool" where
  "supervises j u \<longleftrightarrow> sj_SessionID j = su_SessionID u \<and> sj_TurnKey j = su_TurnKey u \<and> sj_Worker j = su_done u"

fun exit_ok :: "sup_exit \<Rightarrow> ghost \<Rightarrow> bool" where
  "exit_ok ExitTerminated g = gh_cancelled g"
| "exit_ok ExitRecorded g = gh_settled g"
| "exit_ok ExitResolved g = gh_settled g"
| "exit_ok ExitBlocked g = gh_blocked g"
| "exit_ok ExitPolling g = True"

lemma later_blocked: "later (g\<lparr>gh_blocked := True\<rparr>) h \<Longrightarrow> later g h \<and> gh_blocked h"
  by (simp add: later_def)

lemma wp_context_done:
  assumes "supervises j u" and "\<And>h. later g h \<Longrightarrow> Q False h" and "\<And>h. later g h \<Longrightarrow> gh_cancelled h \<Longrightarrow> Q True h"
  shows "wp j (context_done u) Q g"
  unfolding context_done_def
proof (rule wp_inspect)
  fix i s assume l: "later g (observe j i None s g)"
  show "Q (worker_cancelled (su_done u) (sv_co s)) (observe j i None s g)"
  proof (cases "worker_cancelled (su_done u) (sv_co s)")
    case True
    then have "gh_cancelled (observe j i None s g)" using assms(1) by (simp add: observe_def supervises_def Let_def)
    then show ?thesis using assms(3) [OF l] True by simp
  qed (use assms(2) [OF l] in simp)
qed

lemma wp_turn_over:
  assumes "supervises j u" and "\<And>h. later g h \<Longrightarrow> Q False h" and "\<And>h. later g h \<Longrightarrow> gh_settled h \<Longrightarrow> Q True h"
  shows "wp j (turnAlreadyCommittedTerminal u) Q g"
  unfolding turnAlreadyCommittedTerminal_def
proof (rule wp_bind, rule wp_turn_details)
  fix x h assume l: "later g h" and t: "\<And>td. x = Some td \<Longrightarrow> isTerminal (td_Status td) \<Longrightarrow> gh_settled h"
  show "wp j (Return (case Inr x of Inl e \<Rightarrow> False | Inr None \<Rightarrow> False | Inr (Some td) \<Rightarrow> isTerminal (td_Status td))) Q h"
  proof (cases x)
    case (Some td)
    then show ?thesis using assms(2,3) [OF l] t by (cases "isTerminal (td_Status td)") simp_all
  qed (use assms(2) [OF l] in simp)
qed (use assms(1,2) in \<open>simp_all add: supervises_def\<close>)

lemma wp_record_attempts:
  "\<lbrakk>supervises j u; gh_held g \<noteq> []\<rbrakk>
   \<Longrightarrow> wp j (record_attempts u st raw n) (\<lambda>x h. later g h \<and> (x = Inr () \<longrightarrow> gh_settled h)) g"
proof (induction n arbitrary: g)
  case (Suc n)
  have again: "wp j (record_attempts u st raw n) (\<lambda>x h. later g h \<and> (x = Inr () \<longrightarrow> gh_settled h)) h" if l: "later g h" for h
    by (rule wp_mono [OF Suc.IH]) (use Suc.prems laterD(1) [OF l] in \<open>auto intro: later_trans [OF l]\<close>)
  show ?case unfolding record_attempts.simps
  proof (rule wp_bind, rule wp_outcome [OF Suc.prems(2)])
    fix e h assume "later g h"
    then show "wp j (case Inl e of Inr r \<Rightarrow> Return (Inr ())
        | Inl e \<Rightarrow> if e \<noteq> ErrWrongExecutionAttempt then Return (Inl e) else record_attempts u st raw n)
      (\<lambda>x h. later g h \<and> (x = Inr () \<longrightarrow> gh_settled h)) h"
      using again by simp
  qed (use Suc.prems(1) in \<open>simp_all add: supervises_def supervisor_exec_ref_def\<close>)
qed simp

lemma wp_recordTerminalOutcome:
  assumes "supervises j u" and "gh_held g \<noteq> []"
  shows "wp j (recordTerminalOutcomeWithRetry u st raw) (\<lambda>x h. later g h \<and> (x = Inr () \<longrightarrow> gh_settled h)) g"
  unfolding recordTerminalOutcomeWithRetry_def
proof (rule wp_bind, rule wp_track_commit [OF assms(2)])
  fix w h assume w: "w \<notin> set (gh_held g)" and l: "later (g\<lparr>gh_held := gh_held g @ [w]\<rparr>) h"
  have held: "gh_held h = gh_held g @ [w]" using laterD(1) [OF l] by simp
  show "wp j (deferring w (record_attempts u st raw 10)) (\<lambda>x h. later g h \<and> (x = Inr () \<longrightarrow> gh_settled h)) h"
  proof (rule wp_deferring)
    show "w \<in> set (gh_held h)" by (simp add: held)
    have "later g h''" if "later h h'" "later (h'\<lparr>gh_held := removeAll w (gh_held h')\<rparr>) h''" for h' h''
    proof -
      have "later (g\<lparr>gh_held := gh_held g @ [w]\<rparr>) h'" using later_trans [OF l that(1)] .
      moreover have "removeAll w (gh_held g @ [w]) = gh_held g" using w by simp
      ultimately show ?thesis using that(2) by (auto simp: later_def)
    qed
    moreover have "gh_held h' = gh_held h" if "later h h'" for h' using laterD(1) [OF that] .
    ultimately show "wp j (record_attempts u st raw 10) (\<lambda>r h. w \<in> set (gh_held h) \<and>
        (\<forall>h'. later (h\<lparr>gh_held := removeAll w (gh_held h)\<rparr>) h' \<longrightarrow> later g h' \<and> (r = Inr () \<longrightarrow> gh_settled h'))) h"
      by (intro wp_mono [OF wp_record_attempts [OF assms(1)]]) (auto simp: held dest: laterD(5))
  qed
qed

abbreviation returns_well :: "ghost \<Rightarrow> sup_exit \<Rightarrow> ghost \<Rightarrow> bool" where
  "returns_well g x h \<equiv> later g h \<and> exit_ok x h"

lemma wp_block: "later f g \<Longrightarrow> wp j block (returns_well f) g"
  unfolding block_def by (rule wp_bind, rule wp_blocker) (auto dest: later_blocked intro: later_trans)

lemma wp_record_failure:
  assumes "supervises j u" "gh_held g \<noteq> []" "later f g"
  shows "wp j (record_failure u reason) (returns_well f) g"
  unfolding record_failure_def
  by (rule wp_bind, rule wp_mono [OF wp_recordTerminalOutcome [OF assms(1,2)]])
    (auto intro: wp_block later_trans [OF assms(3)] split: sum.split)

lemma wp_relay: "(\<And>h. later g h \<Longrightarrow> Q () h) \<Longrightarrow> wp j (relay marshal u evs) Q g"
proof (induction evs arbitrary: g)
  case (Cons ev evs)
  have "wp j (relay marshal u evs) Q h" if "later g h" for h
    by (rule Cons.IH) (rule Cons.prems, rule later_trans [OF that])
  then show ?case by (auto intro!: wp_bind wp_progress)
qed simp

lemma wp_collect:
  "supervises j u \<Longrightarrow> (\<And>x h. later g h \<Longrightarrow> Q x h) \<Longrightarrow> wp j (collectUntilTerminal u n) Q g"
proof (induction n arbitrary: g)
  case (Suc n)
  note s = Suc.prems(1) and Q = Suc.prems(2)
  have again: "wp j (collectUntilTerminal u n) Q h" if "later g h" for h
    by (rule Suc.IH [OF s]) (rule Q, rule later_trans [OF that])
  have poll: "wp j (bind (context_done u) (\<lambda>stop. if stop then Return CollectFailed else collectUntilTerminal u n)) Q h"
    if l: "later g h" for h
    by (rule wp_bind, rule wp_context_done [OF s]) (auto intro: again Q later_trans [OF l])
  have ask: "wp j (bind (ask (\<lambda>i. in_collect i (supervisor_ref u))) (\<lambda>x. case x of Inl m \<Rightarrow> Return CollectFailed
      | Inr r \<Rightarrow> if isTerminalTurnStatus (res_Status r) \<and> res_ResultStatus r \<noteq> ResultPending then Return (Collected r)
          else bind (context_done u) (\<lambda>stop. if stop then Return CollectFailed else collectUntilTerminal u n))) Q h"
    if l: "later g h" for h
    by (rule wp_bind, rule wp_ask) (auto intro: poll Q later_trans [OF l] split: sum.split)
  have turn: "wp j (bind (turnAlreadyCommittedTerminal u) (\<lambda>over. if over then Return CollectFailed else p)) Q h"
    if l: "later g h" and p: "\<And>h. later g h \<Longrightarrow> wp j p Q h" for h p
    by (rule wp_bind, rule wp_turn_over [OF s]) (auto intro: p Q later_trans [OF l])
  show ?case unfolding collectUntilTerminal.simps
    by (rule wp_bind, rule wp_context_done [OF s]) (auto intro: turn ask Q)
qed simp

lemma wp_uncollected:
  assumes s: "supervises j u" and l: "later f g"
  shows "wp j (uncollected u) (returns_well f) g"
proof -
  have "wp j (bind (turnAlreadyCommittedTerminal u) (\<lambda>over. if over then Return ExitResolved else block)) (returns_well f) h"
    if h: "later f h" for h
    by (rule wp_bind, rule wp_turn_over [OF s]) (auto intro: wp_block later_trans [OF h])
  then show ?thesis unfolding uncollected_def
    by (intro wp_bind wp_context_done [OF s]) (auto intro: later_trans [OF l])
qed

lemma wp_commit_result:
  assumes s: "supervises j u" and g: "gh_held g \<noteq> []" and l: "later f g"
  shows "wp j (commit_result u r) (returns_well f) g"
proof -
  have lost: "wp j (bind (turnAlreadyCommittedTerminal u) (\<lambda>over. if over then Return ExitResolved else block)) (returns_well f) h"
    if h: "later f h" for h
    by (rule wp_bind, rule wp_turn_over [OF s]) (auto intro: wp_block later_trans [OF h])
  have told: "wp j (bind (signal (CoBroadcast (supervisor_ref u) ev)) (\<lambda>_. Return ExitRecorded)) (returns_well f) h"
    if h: "later f h" and e: "gh_settled h" for h ev
    by (rule wp_bind, rule wp_announce [OF e])
      (use s later_trans [OF h] laterD(5) e in \<open>auto simp: supervises_def supervisor_ref_def\<close>)
  have "wp j (bind (recordTerminalOutcomeWithRetry u st raw) (\<lambda>x. case x of
        Inl e \<Rightarrow> bind (turnAlreadyCommittedTerminal u) (\<lambda>over. if over then Return ExitResolved else block)
      | Inr _ \<Rightarrow> bind (signal (CoBroadcast (supervisor_ref u) ev)) (\<lambda>_. Return ExitRecorded))) (returns_well f) g" for st raw ev
    by (rule wp_bind, rule wp_mono [OF wp_recordTerminalOutcome [OF s g]])
      (auto intro: lost told later_trans [OF l] split: sum.split)
  then show ?thesis by (simp add: commit_result_def wp_block [OF l])
qed

lemma wp_observe_and_collect:
  assumes s: "supervises j u" and g: "gh_held f \<noteq> []" and l: "later f g"
  shows "wp j (observe_and_collect marshal n u) (returns_well f) g"
proof -
  have held: "gh_held h \<noteq> []" if "later f h" for h using laterD(1) [OF that] g by simp
  have collect: "wp j (bind (collectUntilTerminal u n) (\<lambda>x. case x of StillPolling \<Rightarrow> Return ExitPolling
      | CollectFailed \<Rightarrow> uncollected u | Collected r \<Rightarrow> commit_result u r)) (returns_well f) h"
    if h: "later f h" for h
    by (rule wp_bind, rule wp_collect [OF s])
      (auto intro!: wp_uncollected [OF s] wp_commit_result [OF s held] later_trans [OF h] split: collected.split)
  have rest: "wp j (bind (context_done u) (\<lambda>stop. if stop then Return ExitTerminated else
      bind (collectUntilTerminal u n) (\<lambda>x. case x of StillPolling \<Rightarrow> Return ExitPolling
      | CollectFailed \<Rightarrow> uncollected u | Collected r \<Rightarrow> commit_result u r))) (returns_well f) h"
    if h: "later f h" for h
    by (rule wp_bind, rule wp_context_done [OF s]) (auto intro: collect later_trans [OF h])
  have relayed: "wp j (bind (case evs of None \<Rightarrow> Return () | Some l \<Rightarrow> relay marshal u l) (\<lambda>_.
      bind (context_done u) (\<lambda>stop. if stop then Return ExitTerminated else
      bind (collectUntilTerminal u n) (\<lambda>x. case x of StillPolling \<Rightarrow> Return ExitPolling
      | CollectFailed \<Rightarrow> uncollected u | Collected r \<Rightarrow> commit_result u r)))) (returns_well f) h"
    if h: "later f h" for h evs
    by (rule wp_bind) (auto intro!: rest wp_relay later_trans [OF h] h split: option.split)
  show ?thesis unfolding observe_and_collect_def
    by (rule wp_bind, rule wp_ask) (auto intro: relayed later_trans [OF l])
qed

lemma wp_stopped:
  assumes "supervises j u" and l: "later f g" and "\<And>h. later f h \<Longrightarrow> wp j p (returns_well f) h"
  shows "wp j (bind (context_done u) (\<lambda>stop. if stop then Return ExitTerminated else p)) (returns_well f) g"
  by (rule wp_bind, rule wp_context_done [OF assms(1)]) (auto intro: assms(3) later_trans [OF l])

lemma wp_acknowledge:
  assumes "gh_held f \<noteq> []" and l: "later f g" and p: "\<And>h. later f h \<Longrightarrow> wp j p (returns_well f) h"
  shows "wp j (bind (command (CmdAcknowledge op er ph)) (\<lambda>_. p)) (returns_well f) g"
proof (rule wp_bind, rule wp_command)
  fix s :: service and h
  assume "later (g\<lparr>gh_released := gh_released g \<or> releases_anew (Some (Store (CmdAcknowledge op er ph))) s\<rparr>) h"
  then have "later g h" by (simp add: later_def releases_anew_def)
  then show "wp j p (returns_well f) h" by (intro p later_trans [OF l])
qed (use assms(1) laterD(1) [OF l] in \<open>auto intro: p later_trans [OF l]\<close>)

lemma wp_dispatched:
  assumes s: "supervises j u" and g: "gh_held f \<noteq> []" and l: "later f g"
  shows "wp j (dispatched marshal n u outcome err) (returns_well f) g"
proof -
  have failure: "wp j (record_failure u m) (returns_well f) h" if "later f h" for h m
    by (rule wp_record_failure [OF s _ that]) (use g laterD(1) [OF that] in simp)
  have "wp j (if do_Status outcome = DispatchRejected then record_failure u m
      else bind (command c) (\<lambda>_. block)) (returns_well f) h"
    if "later f h" "c = CmdAcknowledge op er ph" for h m c op er ph
    using failure wp_acknowledge [OF g that(1) wp_block] that by simp
  then show ?thesis unfolding dispatched_def
    by (auto intro!: wp_stopped [OF s l] wp_acknowledge [OF g l] wp_observe_and_collect [OF s g] wp_block failure)
qed

lemma wp_supervise:
  assumes s: "supervises j u" and g: "gh_held g \<noteq> []"
  shows "wp j (supervise marshal n u) (returns_well g) g"
proof -
  have failure: "wp j (record_failure u m) (returns_well g) h" if "later g h" for h m
    by (rule wp_record_failure [OF s _ that]) (use g laterD(1) [OF that] in simp)
  have ask: "wp j (bind (ask (\<lambda>i. in_dispatch i (supervisor_ref u) prompt))
      (\<lambda>(outcome, err). dispatched marshal n u outcome err)) (returns_well g) h" if l: "later g h" for h prompt
    by (rule wp_bind, rule wp_ask) (auto intro: wp_dispatched [OF s g] later_trans [OF l] split: prod.split)
  have answered: "wp j (case p of Inl e \<Rightarrow> bind (context_done u) (\<lambda>stop. if stop then Return ExitTerminated
            else record_failure u (''failed to read turn prompt: '' @ prompt_error e))
      | Inr prompt \<Rightarrow> bind (ask (\<lambda>i. in_dispatch i (supervisor_ref u) prompt))
          (\<lambda>(outcome, err). dispatched marshal n u outcome err)) (returns_well g) h" if l: "later g h" for h p
    by (cases p) (use wp_stopped [OF s l failure] ask [OF l] in simp_all)
  show ?thesis unfolding supervise_def
    by (rule wp_stopped [OF s later_refl], rule wp_bind, rule wp_query_any, rule answered, erule (1) later_trans)
qed

lemma wp_Run:
  assumes s: "supervises j u" and g: "gh_held g = [su_done u]"
  shows "wp j (Run marshal n u) (\<lambda>x h. gh_held h = [] \<and> exit_ok x h) g"
  unfolding Run_def
proof (rule wp_deferring, simp add: g, rule wp_mono [OF wp_supervise [OF s]], simp add: g, elim conjE)
  fix x h assume l: "later g h" and e: "exit_ok x h"
  have "gh_held h' = [] \<and> exit_ok x h'" if "later (h\<lparr>gh_held := removeAll (su_done u) (gh_held h)\<rparr>) h'" for h'
    using that e laterD(1) [OF l] g by (cases x) (auto simp: later_def)
  then show "su_done u \<in> set (gh_held h) \<and>
      (\<forall>h'. later (h\<lparr>gh_held := removeAll (su_done u) (gh_held h)\<rparr>) h' \<longrightarrow> gh_held h' = [] \<and> exit_ok x h')"
    using laterD(1) [OF l] g by simp
qed

end
