(* ===== verification/Service_Handlers.thy ===== *)
theory Service_Handlers
  imports Service_Supervisor
begin

text \<open>
  The command handlers of the service (\<open>internal/service/release.go\<close>, \<open>commands.go\<close>,
  \<open>controller_attachment.go\<close>, \<open>controller_admin.go\<close>, \<open>turns.go\<close>, \<open>error.go\<close>) as processes: path
  and request checks, admission, the connected-controller gate, the store command, the answer. A
  request body is \<open>None\<close> where \<open>decodeStrictJSON\<close> fails. An answer keeps the status, the error code
  and the result; the wording of error messages is left out. A handler may start one goroutine, the
  supervisor of a released turn.
\<close>

section \<open>Requests and answers\<close>

record server =
  sc_InstanceID :: string
  sc_has_adapter :: bool
  sc_agyAwaiting :: bool
  sc_expected_tools :: "string \<Rightarrow> DB \<Rightarrow> store_error + string list option"

record SessionRequest =
  rq_InstanceID :: string
  rq_OpID :: string
  rq_ControllerLease :: string
  rq_ExpectedVersion :: int

record CancelRequest = SessionRequest +
  rq_Reason :: string

record QueuePromptRequest = SessionRequest +
  rq_TurnKey :: string
  rq_Prompt :: string
  rq_RequiredTools :: "string list option"

record ReplacePromptRequest = SessionRequest +
  rp_Prompt :: string

record RecordDecisionRequest =
  rd_InstanceID :: string
  rd_OpID :: string
  rd_ControllerLease :: string
  rd_ArtifactID :: string
  rd_Revision :: int
  rd_DecisionPayload :: string

record ControllerConnectRunRequest =
  rc_OpID :: string
  rc_ControllerLease :: string
  rc_ExpectedGeneration :: nat
  rc_InstanceID :: string

record ControllerDisconnectRunRequest =
  dc_OpID :: string
  dc_ControllerLease :: string
  dc_ExpectedGeneration :: nat
  dc_AttachmentID :: string

datatype body =
    BodyRelease ReleaseReceipt string bool | BodyReceipt OperationReceipt | BodyCancel OperationReceipt string
  | BodyConnect ConnectReceipt | BodyGrant ControllerGrantReceipt | BodyPayload string
  | BodyRecord ControllerRecord | BodyTurn TurnDetails

datatype response = Failed nat string string | Answered nat string string body

type_synonym reply = "response \<times> supervisor option"

abbreviation answer :: "response \<Rightarrow> reply proc" where "answer r \<equiv> Return (r, None)"

section \<open>Errors\<close>

fun writeControllerAuthError :: "store_error \<Rightarrow> string \<Rightarrow> response option" where
  "writeControllerAuthError ErrLeaseSuperseded op = Some (Failed 403 ''lease_superseded'' op)"
| "writeControllerAuthError ErrAdoptionRequired op = Some (Failed 409 ''adoption_required'' op)"
| "writeControllerAuthError ErrUnauthorizedOperation op = Some (Failed 403 ''unauthorized'' op)"
| "writeControllerAuthError e op = None"

definition auth_or :: "response \<Rightarrow> store_error \<Rightarrow> string \<Rightarrow> response" where
  "auth_or r e op = (case writeControllerAuthError e op of Some a \<Rightarrow> a | None \<Rightarrow> r)"

text \<open>The branches the session commands share after a failed store command.\<close>

definition command_error :: "string \<Rightarrow> store_error \<Rightarrow> string \<Rightarrow> response" where
  "command_error code e op =
     (if e = ErrStaleUpdate then Failed 409 ''stale_version'' op
      else if e = ErrUnauthorizedOperation then Failed 403 ''unauthorized'' op
      else auth_or (Failed 400 code op) e op)"

definition writeGrantError :: "store_error \<Rightarrow> string \<Rightarrow> response" where
  "writeGrantError e op = auth_or
     (if e = ErrGenerationMismatch then Failed 409 ''generation_mismatch'' op
      else if e = ErrSessionArchived then Failed 409 ''session_archived'' op
      else Failed 400 ''attachment_failed'' op) e op"

definition writeGrantAdminError :: "store_error \<Rightarrow> string \<Rightarrow> response" where
  "writeGrantAdminError e op = auth_or
     (if e = ErrGenerationMismatch then Failed 409 ''generation_mismatch'' op
      else if e = ErrAdoptionExists then Failed 409 ''adoption_exists'' op
      else if e = ErrRecoveryUnavailable then Failed 409 ''recovery_unavailable'' op
      else if e = ErrIdempotencyConflict then Failed 409 ''idempotency_conflict'' op
      else Failed 400 ''grant_admin_failed'' op) e op"

section \<open>Steps the handlers share\<close>

definition to_query :: "(DB \<Rightarrow> store_error option) \<Rightarrow> (store_error + unit) proc" where
  "to_query f = query (\<lambda>d. case f d of Some e \<Rightarrow> Inl e | None \<Rightarrow> Inr ())"

text \<open>The session belongs to the run of the path.\<close>

definition session_checked :: "string \<Rightarrow> string \<Rightarrow> string \<Rightarrow> reply proc \<Rightarrow> reply proc" where
  "session_checked runID sessionID opID k =
     bind (to_query (ValidateSessionRun sessionID runID)) (\<lambda>x. case x of
       Inl e \<Rightarrow> answer (if e = ErrSessionNotFound \<or> e = ErrRunSessionMismatch
         then Failed 404 ''session_not_found'' opID else Failed 500 ''storage_error'' opID)
     | Inr _ \<Rightarrow> k)"

text \<open>\<open>TrackControl\<close> with its deferred release.\<close>

definition tracked :: "string \<Rightarrow> reply proc \<Rightarrow> reply proc" where
  "tracked opID k =
     bind track_control (\<lambda>x. case x of
       Inl e \<Rightarrow> answer (Failed 503 ''service_stopping'' opID)
     | Inr w \<Rightarrow> deferring w k)"

text \<open>The gate: the lease, the durable connection, its attachment to this instance.\<close>

definition attached_here :: "string \<Rightarrow> string \<Rightarrow> ControllerRecord \<Rightarrow> response option proc" where
  "attached_here runID opID r =
     (if \<not> cr_Adopted r then Return (Some (Failed 409 ''adoption_required'' opID))
      else if \<not> cr_Connected r then Return (Some (Failed 409 ''not_connected'' opID))
      else bind (inspect (ControllerAttachedEpisode runID (of_nat (cr_Generation r)) (cr_AttachmentID r)))
        (\<lambda>here. Return (if here then None else Some (Failed 409 ''not_connected'' opID))))"

definition connected_here :: "string \<Rightarrow> string \<Rightarrow> response option proc" where
  "connected_here runID opID =
     bind (query (GetControllerRecord runID)) (\<lambda>x. case x of
       Inl e \<Rightarrow> Return (Some (Failed 500 ''storage_error'' opID))
     | Inr r \<Rightarrow> attached_here runID opID r)"

definition requireConnectedController :: "string \<Rightarrow> string \<Rightarrow> string \<Rightarrow> string \<Rightarrow> response option proc" where
  "requireConnectedController runID sessionID lease opID =
     bind (to_query (if sessionID \<noteq> [] then ValidateControllerLease sessionID lease
                     else ValidateRunControllerLease runID lease)) (\<lambda>x. case x of
       Inl e \<Rightarrow> Return (Some (auth_or (Failed 500 ''storage_error'' opID) e opID))
     | Inr _ \<Rightarrow> connected_here runID opID)"

definition gated :: "string \<Rightarrow> string \<Rightarrow> string \<Rightarrow> string \<Rightarrow> reply proc \<Rightarrow> reply proc" where
  "gated runID sessionID lease opID k =
     bind (requireConnectedController runID sessionID lease opID) (\<lambda>x. case x of
       Some r \<Rightarrow> answer r | None \<Rightarrow> k)"

text \<open>A store command whose receipt is the answer.\<close>

definition receipt_command :: "server \<Rightarrow> string \<Rightarrow> store_op \<Rightarrow> (store_error \<Rightarrow> response) \<Rightarrow> reply proc" where
  "receipt_command c opID cmd failed =
     bind (command cmd) (\<lambda>x. case x of
       Inl e \<Rightarrow> answer (failed e)
     | Inr r \<Rightarrow> answer (Answered 200 (sc_InstanceID c) opID (BodyReceipt (receipt_of r))))"

text \<open>An agy session on a server that awaits attestation is refused.\<close>

definition agyAwaitingForSession :: "server \<Rightarrow> string \<Rightarrow> string \<Rightarrow> response option proc" where
  "agyAwaitingForSession c sessionID opID =
     (if \<not> sc_agyAwaiting c then Return None
      else bind (query (GetSessionMetadata sessionID)) (\<lambda>x. Return (case x of
        Inl e \<Rightarrow> Some (Failed 500 ''storage_error'' opID)
      | Inr m \<Rightarrow> if sm_Contributor m \<noteq> ''agy'' then None else Some (Failed 503 ''agy_not_eligible'' opID))))"

section \<open>Releasing a turn\<close>

definition turn_url :: "string \<Rightarrow> string \<Rightarrow> string \<Rightarrow> string" where
  "turn_url runID sessionID turnKey =
     ''/v1/runs/'' @ runID @ ''/sessions/'' @ sessionID @ ''/turns/'' @ turnKey"

text \<open>The hand-off of a new release: the worker is registered and its supervisor started.\<close>

definition release_handoff :: "server \<Rightarrow> string \<Rightarrow> string \<Rightarrow> string \<Rightarrow> SessionRequest \<Rightarrow> reply proc" where
  "release_handoff c runID sessionID turnKey req =
     bind (command (CmdRelease (rq_OpID req) (rq_ControllerLease req) sessionID (rq_ExpectedVersion req) turnKey)) (\<lambda>x. case x of
       Inl e \<Rightarrow> answer (
         if e = ErrStaleUpdate then Failed 409 ''stale_version'' (rq_OpID req)
         else if e = ErrUnauthorizedOperation then Failed 403 ''unauthorized'' (rq_OpID req)
         else if e = ErrPromptNotQueued then Failed 404 ''prompt_not_queued'' (rq_OpID req)
         else auth_or (Failed 400 ''release_failed'' (rq_OpID req)) e (rq_OpID req))
     | Inr (ResRelease r) \<Rightarrow>
         if rl_Disposition r = ReleaseDispositionReplayed then
           answer (Answered 200 (sc_InstanceID c) (rq_OpID req)
             (BodyRelease (rl_Receipt r) (turn_url runID sessionID turnKey) True))
         else
           bind (register_worker \<lparr>ref_SessionID = sessionID, ref_TurnKey = turnKey\<rparr>) (\<lambda>y. case y of
             Inl e \<Rightarrow> answer (Failed 503 ''service_stopping'' (rq_OpID req))
           | Inr w \<Rightarrow> Return
               (Answered 202 (sc_InstanceID c) (rq_OpID req)
                  (BodyRelease (rl_Receipt r) (turn_url runID sessionID turnKey) False),
                Some \<lparr>su_RunID = runID, su_SessionID = sessionID, su_TurnKey = turnKey,
                  su_CallerLease = rq_ControllerLease req,
                  su_ExpectedVersion = or_CommittedVersion (rr_Operation (rl_Receipt r)),
                  su_Receipt = rl_Receipt r, su_done = w\<rparr>))
     | Inr other \<Rightarrow> answer (Failed 400 ''release_failed'' (rq_OpID req)))"

definition handleRelease :: "server \<Rightarrow> string \<Rightarrow> string \<Rightarrow> string \<Rightarrow> SessionRequest option \<Rightarrow> reply proc" where
  "handleRelease c run_path session_path turn_path body =
     (let runID = TrimSpace run_path; sessionID = TrimSpace session_path; turnKey = TrimSpace turn_path in
      if runID = [] \<or> sessionID = [] \<or> turnKey = [] then answer (Failed 400 ''invalid_path'' [])
      else case body of None \<Rightarrow> answer (Failed 400 ''invalid_json'' []) | Some req \<Rightarrow>
      session_checked runID sessionID (rq_OpID req)
       (if rq_OpID req = [] then answer (Failed 400 ''missing_op_id'' [])
        else if rq_ControllerLease req = [] then answer (Failed 400 ''missing_controller_lease'' (rq_OpID req))
        else if rq_ExpectedVersion req \<le> 0 then answer (Failed 400 ''invalid_expected_version'' (rq_OpID req))
        else if rq_InstanceID req \<noteq> [] \<and> rq_InstanceID req \<noteq> sc_InstanceID c
          then answer (Failed 409 ''instance_mismatch'' (rq_OpID req))
        else
          bind (query (FindCommittedRelease (rq_OpID req) (rq_ControllerLease req) sessionID turnKey)) (\<lambda>x. case x of
            Inl e \<Rightarrow> answer (auth_or
              (if e = ErrIdempotencyConflict then Failed 409 ''idempotency_conflict'' (rq_OpID req)
               else Failed 400 ''invalid_request'' (rq_OpID req)) e (rq_OpID req))
          | Inr (Some r) \<Rightarrow> answer (Answered 200 (sc_InstanceID c) (rq_OpID req)
              (BodyRelease r (turn_url runID sessionID turnKey) True))
          | Inr None \<Rightarrow>
              bind admit_release (\<lambda>y. case y of
                Inl e \<Rightarrow> answer (Failed 503 ''service_draining'' (rq_OpID req))
              | Inr w \<Rightarrow> deferring w
                  (gated runID sessionID (rq_ControllerLease req) (rq_OpID req)
                    (bind (agyAwaitingForSession c sessionID (rq_OpID req)) (\<lambda>z. case z of
                      Some r \<Rightarrow> answer r
                    | None \<Rightarrow>
                        if \<not> sc_has_adapter c then answer (Failed 503 ''harness_unavailable'' (rq_OpID req))
                        else release_handoff c runID sessionID turnKey req)))))))"

section \<open>Prompts\<close>

text \<open>The names of a set that are not expected or blank, and those given twice.\<close>

fun scan_tools :: "string list \<Rightarrow> string list \<Rightarrow> string list \<Rightarrow> string list \<times> string list" where
  "scan_tools expected seen [] = ([], [])"
| "scan_tools expected seen (t # ts) =
     (if t \<in> set seen then (case scan_tools expected seen ts of (unknown, dups) \<Rightarrow> (unknown, t # dups))
      else case scan_tools expected (t # seen) ts of (unknown, dups) \<Rightarrow>
        (if t \<notin> set expected \<or> blank t then t # unknown else unknown, dups))"

text \<open>\<open>validateQueuedRequiredTools\<close> with the status \<open>queuedRequiredToolsErrorStatus\<close> gives its errors.\<close>

definition tools_error :: "store_error \<Rightarrow> string \<Rightarrow> response" where
  "tools_error e op =
     (if e = ErrSessionNotFound \<or> e = ErrRunSessionMismatch \<or> e = ErrRunNotFound
        then Failed 404 ''session_not_found'' op else Failed 500 ''storage_error'' op)"

definition validateQueuedRequiredTools :: "server \<Rightarrow> string \<Rightarrow> string list \<Rightarrow> string \<Rightarrow> response option proc" where
  "validateQueuedRequiredTools c sessionID tools opID =
     (if tools = [] then Return None
      else bind (query (GetSessionMetadata sessionID)) (\<lambda>x. case x of
        Inl e \<Rightarrow> Return (Some (tools_error e opID))
      | Inr m \<Rightarrow>
          if sm_Contributor m \<noteq> ''agy'' then Return (Some (Failed 400 ''invalid_required_tools'' opID))
          else if sc_agyAwaiting c then Return (Some (Failed 503 ''agy_not_eligible'' opID))
          else bind (query (sc_expected_tools c (sm_RunID m))) (\<lambda>y. Return (case y of
            Inl e \<Rightarrow> Some (tools_error e opID)
          | Inr None \<Rightarrow> Some (Failed 400 ''invalid_required_tools'' opID)
          | Inr (Some expected) \<Rightarrow>
              (case scan_tools expected [] tools of (unknown, dups) \<Rightarrow>
                 if unknown \<noteq> [] \<or> dups \<noteq> [] then Some (Failed 400 ''invalid_required_tools'' opID) else None)))))"

definition handleQueuePrompt :: "server \<Rightarrow> string \<Rightarrow> string \<Rightarrow> QueuePromptRequest option \<Rightarrow> reply proc" where
  "handleQueuePrompt c run_path session_path body =
     (let runID = TrimSpace run_path; sessionID = TrimSpace session_path in
      if runID = [] \<or> sessionID = [] then answer (Failed 400 ''invalid_path'' [])
      else case body of None \<Rightarrow> answer (Failed 400 ''invalid_json'' []) | Some req \<Rightarrow>
      session_checked runID sessionID (rq_OpID req)
       (tracked (rq_OpID req)
        (gated runID sessionID (rq_ControllerLease req) (rq_OpID req)
         (bind (validateQueuedRequiredTools c sessionID (tools_list (rq_RequiredTools req)) (rq_OpID req)) (\<lambda>x. case x of
            Some r \<Rightarrow> answer r
          | None \<Rightarrow>
              receipt_command c (rq_OpID req)
                (CmdQueue (rq_OpID req) (rq_ControllerLease req) sessionID (rq_ExpectedVersion req)
                  \<lparr>pp_TurnKey = rq_TurnKey req, pp_Prompt = rq_Prompt req, pp_RequiredTools = rq_RequiredTools req\<rparr>)
                (\<lambda>e. command_error ''queue_failed'' e (rq_OpID req)))))))"

definition handleReplacePrompt :: "server \<Rightarrow> string \<Rightarrow> string \<Rightarrow> string \<Rightarrow> ReplacePromptRequest option \<Rightarrow> reply proc" where
  "handleReplacePrompt c run_path session_path turn_path body =
     (let runID = TrimSpace run_path; sessionID = TrimSpace session_path; turnKey = TrimSpace turn_path in
      if runID = [] \<or> sessionID = [] \<or> turnKey = [] then answer (Failed 400 ''invalid_path'' [])
      else case body of None \<Rightarrow> answer (Failed 400 ''invalid_json'' []) | Some req \<Rightarrow>
      session_checked runID sessionID (rq_OpID req)
       (tracked (rq_OpID req)
        (gated runID sessionID (rq_ControllerLease req) (rq_OpID req)
         (receipt_command c (rq_OpID req)
           (CmdReplace (rq_OpID req) (rq_ControllerLease req) sessionID (rq_ExpectedVersion req)
             \<lparr>pp_TurnKey = turnKey, pp_Prompt = rp_Prompt req, pp_RequiredTools = None\<rparr>)
           (\<lambda>e. command_error ''replace_failed'' e (rq_OpID req))))))"

definition handleDiscardPrompt :: "server \<Rightarrow> string \<Rightarrow> string \<Rightarrow> string \<Rightarrow> SessionRequest option \<Rightarrow> reply proc" where
  "handleDiscardPrompt c run_path session_path turn_path body =
     (let runID = TrimSpace run_path; sessionID = TrimSpace session_path; turnKey = TrimSpace turn_path in
      if runID = [] \<or> sessionID = [] \<or> turnKey = [] then answer (Failed 400 ''invalid_path'' [])
      else case body of None \<Rightarrow> answer (Failed 400 ''invalid_json'' []) | Some req \<Rightarrow>
      session_checked runID sessionID (rq_OpID req)
       (tracked (rq_OpID req)
        (gated runID sessionID (rq_ControllerLease req) (rq_OpID req)
         (receipt_command c (rq_OpID req)
           (CmdDiscard (rq_OpID req) (rq_ControllerLease req) sessionID (rq_ExpectedVersion req) turnKey)
           (\<lambda>e. command_error ''discard_failed'' e (rq_OpID req))))))"

section \<open>Decisions\<close>

definition handleRecordDecision :: "server \<Rightarrow> string \<Rightarrow> RecordDecisionRequest option \<Rightarrow> reply proc" where
  "handleRecordDecision c run_path body =
     (let runID = TrimSpace run_path in
      if runID = [] then answer (Failed 400 ''invalid_path'' [])
      else case body of None \<Rightarrow> answer (Failed 400 ''invalid_json'' []) | Some req \<Rightarrow>
      if rd_OpID req = [] \<or> rd_ControllerLease req = [] then answer (Failed 400 ''invalid_request'' (rd_OpID req))
      else tracked (rd_OpID req)
       (gated runID [] (rd_ControllerLease req) (rd_OpID req)
        (receipt_command c (rd_OpID req)
          (CmdDecision (rd_OpID req) (rd_ControllerLease req) runID (rd_ArtifactID req) (rd_Revision req)
            (rd_DecisionPayload req))
          (\<lambda>e. if e = ErrUnauthorizedOperation then Failed 403 ''unauthorized'' (rd_OpID req)
               else if e = ErrArtifactNotFound then Failed 404 ''artifact_not_found'' (rd_OpID req)
               else auth_or (Failed 400 ''decision_failed'' (rd_OpID req)) e (rd_OpID req)))))"

section \<open>Cancelling a turn\<close>

text \<open>The reference of the accepted execution, if the turn has one.\<close>

definition executionRefForTurn :: "string \<Rightarrow> string \<Rightarrow> ExecutionRef option proc" where
  "executionRefForTurn sessionID turnKey =
     bind (query (\<lambda>d. Inr (GetTurnDetails sessionID turnKey d))) (\<lambda>x. Return (case x of
       Inr (Some td) \<Rightarrow>
         (case td_DispatchIntent td of
            None \<Rightarrow> None
          | Some i \<Rightarrow> if di_AttemptID i = [] then None
              else Some \<lparr>er_SessionID = sessionID, er_TurnKey = turnKey, er_AttemptID = di_AttemptID i\<rparr>)
     | _ \<Rightarrow> None))"

text \<open>A confirmed cancellation: the evidence is written, the durable state decides.\<close>

definition confirm_cancel :: "string \<Rightarrow> string \<Rightarrow> string \<Rightarrow> ExecutionRef option \<Rightarrow> CancelOutcome \<Rightarrow> string proc" where
  "confirm_cancel sessionID turnKey opID execRef outcome =
     (let reason = (if ca_Reason outcome = [] then ''cancelled by operator'' else ca_Reason outcome) in
      bind (case execRef of
          None \<Rightarrow> Return False
        | Some er \<Rightarrow> bind (command (CmdOutcome (opID @ '':term'') er TurnCancelled reason)) (\<lambda>x. Return (isl x = False)))
       (\<lambda>persisted.
      bind (query (\<lambda>d. Inr (GetTurnDetails sessionID turnKey d))) (\<lambda>x.
        let durable = (case x of Inr (Some td) \<Rightarrow> if td_Status td = ''cancelled'' then Some (td_Result td) else None
                       | _ \<Rightarrow> None)
        in if persisted \<or> durable \<noteq> None then
             bind (signal (CoBroadcast \<lparr>ref_SessionID = sessionID, ref_TurnKey = turnKey\<rparr>
               (terminal_event sessionID turnKey ''cancelled'' (case durable of Some r \<Rightarrow> r | None \<Rightarrow> reason))))
               (\<lambda>_. Return ''confirmed'')
           else Return ''unknown'')))"

definition cancel_native :: "string \<Rightarrow> string \<Rightarrow> string \<Rightarrow> ExecutionRef option \<Rightarrow> string proc" where
  "cancel_native sessionID turnKey opID execRef =
     (let ref = \<lparr>ref_SessionID = sessionID, ref_TurnKey = turnKey\<rparr> in
      bind (ask (\<lambda>i. in_cancel i ref)) (\<lambda>x. case x of
        Inl m \<Rightarrow> Return ''unavailable''
      | Inr outcome \<Rightarrow>
          (case ca_Disposition outcome of
             CancelConfirmed \<Rightarrow>
               if ca_Ref outcome = ref then confirm_cancel sessionID turnKey opID execRef outcome else Return ''unknown''
           | CancelAlreadyTerminal \<Rightarrow> Return ''already_terminal''
           | CancelRejected \<Rightarrow> Return ''rejected''
           | CancelUnsupported \<Rightarrow> Return ''unsupported''
           | CancelRequested \<Rightarrow> Return ''requested''
           | CancelUnknown \<Rightarrow> Return ''unknown''
           | CancelOther t \<Rightarrow> Return t)))"

definition handleCancel :: "server \<Rightarrow> string \<Rightarrow> string \<Rightarrow> string \<Rightarrow> CancelRequest option \<Rightarrow> reply proc" where
  "handleCancel c run_path session_path turn_path body =
     (let runID = TrimSpace run_path; sessionID = TrimSpace session_path; turnKey = TrimSpace turn_path in
      if runID = [] \<or> sessionID = [] \<or> turnKey = [] then answer (Failed 400 ''invalid_path'' [])
      else case body of None \<Rightarrow> answer (Failed 400 ''invalid_json'' []) | Some req \<Rightarrow>
      session_checked runID sessionID (rq_OpID req)
       (if rq_OpID req = [] \<or> rq_ControllerLease req = [] \<or> rq_ExpectedVersion req \<le> 0
          then answer (Failed 400 ''invalid_request'' (rq_OpID req))
        else tracked (rq_OpID req)
         (gated runID sessionID (rq_ControllerLease req) (rq_OpID req)
          (bind (command (CmdCancel (rq_OpID req @ '':req'') (rq_ControllerLease req) sessionID (rq_ExpectedVersion req) turnKey))
            (\<lambda>x. case x of
              Inl e \<Rightarrow> answer (command_error ''cancel_failed'' e (rq_OpID req))
            | Inr r \<Rightarrow>
                bind (executionRefForTurn sessionID turnKey) (\<lambda>execRef.
                bind (if sc_has_adapter c then cancel_native sessionID turnKey (rq_OpID req) execRef else Return ''requested'')
                  (\<lambda>st. answer (Answered 200 (sc_InstanceID c) (rq_OpID req) (BodyCancel (receipt_of r) st)))))))))"

section \<open>Controller attachment\<close>

text \<open>\<open>encoding/hex\<close> of random bytes.\<close>

definition hex_encode :: "string \<Rightarrow> string" where
  "hex_encode bs = concat (map (\<lambda>b. [hex_digit (of_char b div 16), hex_digit (of_char b mod 16)]) bs)"

text \<open>A fresh attachment identifier is 16 random bytes, a lease candidate 32.\<close>

definition random_hex :: "nat \<Rightarrow> string proc" where
  "random_hex n = ask (\<lambda>i. hex_encode (take n (in_random i)))"

definition connect_command :: "string \<Rightarrow> string \<Rightarrow> string \<Rightarrow> nat \<Rightarrow> string \<Rightarrow> (store_error + store_result) proc" where
  "connect_command opID runID lease generation instanceID =
     bind (random_hex 16) (\<lambda>a. command (CmdConnect opID runID lease generation instanceID a))"

text \<open>The session route publishes the connection it was given a receipt for.\<close>

definition handleControllerConnect :: "server \<Rightarrow> string \<Rightarrow> string \<Rightarrow> SessionRequest option \<Rightarrow> reply proc" where
  "handleControllerConnect c run_path session_path body =
     (let runID = TrimSpace run_path; sessionID = TrimSpace session_path in
      if runID = [] \<or> sessionID = [] then answer (Failed 400 ''invalid_path'' [])
      else case body of None \<Rightarrow> answer (Failed 400 ''invalid_json'' []) | Some req \<Rightarrow>
      session_checked runID sessionID (rq_OpID req)
       (if rq_OpID req = [] \<or> rq_ControllerLease req = [] then answer (Failed 400 ''invalid_request'' (rq_OpID req))
        else tracked (rq_OpID req)
         (bind (query (GetControllerRecord runID)) (\<lambda>x. case x of
            Inl e \<Rightarrow> answer (Failed 500 ''storage_error'' (rq_OpID req))
          | Inr rec \<Rightarrow>
              if \<not> cr_Adopted rec then answer (Failed 409 ''adoption_required'' (rq_OpID req))
              else bind (connect_command (rq_OpID req) runID (rq_ControllerLease req) (cr_Generation rec) (sc_InstanceID c))
               (\<lambda>y. case y of
                  Inl e \<Rightarrow> answer (writeGrantError e (rq_OpID req))
                | Inr (ResConnect r) \<Rightarrow>
                    bind (signal (CoMark runID (of_nat (cr_Generation rec)) (cn_AttachmentID r) (sc_InstanceID c)
                        (of_nat (cn_AttachmentRev r))))
                      (\<lambda>_. answer (Answered 200 (sc_InstanceID c) (rq_OpID req) (BodyReceipt (cn_Operation r))))
                | Inr other \<Rightarrow> answer (Failed 400 ''attachment_failed'' (rq_OpID req)))))))"

text \<open>The run route publishes a connection only while the durable record names it.\<close>

definition current_episode :: "ControllerRecord \<Rightarrow> nat \<Rightarrow> string \<Rightarrow> string \<Rightarrow> bool" where
  "current_episode rec generation attachment instance_id \<longleftrightarrow>
     cr_Adopted rec \<and> cr_Connected rec \<and> cr_Generation rec = generation \<and> cr_AttachmentID rec = attachment \<and>
     cr_InstanceID rec = instance_id"

definition handleRunControllerConnect :: "server \<Rightarrow> string \<Rightarrow> ControllerConnectRunRequest option \<Rightarrow> reply proc" where
  "handleRunControllerConnect c run_path body =
     (let runID = TrimSpace run_path in
      if runID = [] then answer (Failed 400 ''invalid_path'' [])
      else case body of None \<Rightarrow> answer (Failed 400 ''invalid_json'' []) | Some req \<Rightarrow>
      if rc_OpID req = [] \<or> rc_ControllerLease req = [] \<or> rc_ExpectedGeneration req = 0
        then answer (Failed 400 ''invalid_request'' (rc_OpID req))
      else tracked (rc_OpID req)
       (bind (connect_command (rc_OpID req) runID (rc_ControllerLease req) (rc_ExpectedGeneration req) (sc_InstanceID c))
         (\<lambda>x. case x of
            Inl e \<Rightarrow> answer (writeGrantError e (rc_OpID req))
          | Inr (ResConnect r) \<Rightarrow>
              bind (query (GetControllerRecord runID)) (\<lambda>y.
              bind (case y of
                  Inl e \<Rightarrow> Return ()
                | Inr rec \<Rightarrow>
                    if current_episode rec (rc_ExpectedGeneration req) (cn_AttachmentID r) (sc_InstanceID c)
                    then signal (CoMark runID (of_nat (rc_ExpectedGeneration req)) (cn_AttachmentID r) (sc_InstanceID c)
                      (of_nat (cr_AttachmentRev rec)))
                    else Return ())
                (\<lambda>_. answer (Answered 200 (sc_InstanceID c) (rc_OpID req) (BodyConnect r))))
          | Inr other \<Rightarrow> answer (Failed 400 ''attachment_failed'' (rc_OpID req)))))"

definition disconnected_prefix :: string where "disconnected_prefix = ''disconnected:attachment=''"

definition handleRunControllerDisconnect :: "server \<Rightarrow> string \<Rightarrow> ControllerDisconnectRunRequest option \<Rightarrow> reply proc" where
  "handleRunControllerDisconnect c run_path body =
     (let runID = TrimSpace run_path in
      if runID = [] then answer (Failed 400 ''invalid_path'' [])
      else case body of None \<Rightarrow> answer (Failed 400 ''invalid_json'' []) | Some req \<Rightarrow>
      if dc_OpID req = [] \<or> dc_ControllerLease req = [] \<or> dc_ExpectedGeneration req = 0
        then answer (Failed 400 ''invalid_request'' (dc_OpID req))
      else tracked (dc_OpID req)
       (bind (command (CmdDisconnect (dc_OpID req) runID (dc_ControllerLease req) (dc_AttachmentID req) (dc_ExpectedGeneration req)))
         (\<lambda>x. case x of
            Inl e \<Rightarrow> answer (writeGrantError e (dc_OpID req))
          | Inr r \<Rightarrow>
              bind (if starts_with disconnected_prefix (or_Payload (receipt_of r))
                  then signal (CoInvalidateIf runID (of_nat (dc_ExpectedGeneration req))
                    (drop (length disconnected_prefix) (or_Payload (receipt_of r))) (sc_InstanceID c))
                  else Return ())
                (\<lambda>_. answer (Answered 200 (sc_InstanceID c) (dc_OpID req) (BodyReceipt (receipt_of r)))))))"

section \<open>Administration of grants\<close>

record ControllerAdoptRequest =
  ad_OpID :: string
  ad_Harness :: string
  ad_ControllerRef :: string
  ad_BootstrapLease :: string
  ad_OperatorRecovery :: bool
  ad_Reason :: string
  ad_ExpectedGeneration :: nat

record ControllerHandoffRequest =
  ho_OpID :: string
  ho_CurrentLease :: string
  ho_ExpectedGeneration :: nat
  ho_Harness :: string
  ho_ControllerRef :: string

record ControllerRevokeRequest =
  rv_OpID :: string
  rv_ControllerLease :: string
  rv_OperatorRecovery :: bool
  rv_Reason :: string
  rv_ExpectedGeneration :: nat

record ControllerCredentialRecoverRequest =
  cc_OpID :: string
  cc_SourceOpID :: string
  cc_ExpectedGeneration :: nat

definition writeGrantResponse :: "server \<Rightarrow> store_result \<Rightarrow> string \<Rightarrow> response" where
  "writeGrantResponse c r opID =
     (case r of ResGrant g \<Rightarrow> Answered 200 (sc_InstanceID c) (or_OpID (cg_Operation g)) (BodyGrant g)
      | other \<Rightarrow> Failed 400 ''grant_admin_failed'' opID)"

definition operator_recovery :: "bool \<Rightarrow> string \<Rightarrow> nat \<Rightarrow> OperatorRecovery option" where
  "operator_recovery on reason generation =
     (if on then Some \<lparr>rec_Reason = reason, rec_ExpectedGeneration = generation\<rparr> else None)"

definition handleControllerAdopt :: "server \<Rightarrow> string \<Rightarrow> ControllerAdoptRequest option \<Rightarrow> reply proc" where
  "handleControllerAdopt c run_path body =
     (let runID = TrimSpace run_path in
      if runID = [] then answer (Failed 400 ''invalid_path'' [])
      else case body of None \<Rightarrow> answer (Failed 400 ''invalid_json'' []) | Some req \<Rightarrow>
      if ad_OpID req = [] \<or> ad_Harness req = [] \<or> ad_ControllerRef req = []
        then answer (Failed 400 ''invalid_request'' (ad_OpID req))
      else if ad_OperatorRecovery req \<and> blank (ad_Reason req) then answer (Failed 400 ''invalid_request'' (ad_OpID req))
      else if \<not> ad_OperatorRecovery req \<and> ad_BootstrapLease req = []
        then answer (Failed 400 ''invalid_request'' (ad_OpID req))
      else tracked (ad_OpID req)
       (bind (random_hex 32) (\<lambda>candidate.
        bind (command (CmdAdopt (ad_OpID req) runID (ad_Harness req) (ad_ControllerRef req) (ad_BootstrapLease req)
            (operator_recovery (ad_OperatorRecovery req) (ad_Reason req) (ad_ExpectedGeneration req)) candidate))
         (\<lambda>x. answer (case x of
            Inl e \<Rightarrow> writeGrantAdminError e (ad_OpID req)
          | Inr r \<Rightarrow> writeGrantResponse c r (ad_OpID req))))))"

definition handleControllerHandoff :: "server \<Rightarrow> string \<Rightarrow> ControllerHandoffRequest option \<Rightarrow> reply proc" where
  "handleControllerHandoff c run_path body =
     (let runID = TrimSpace run_path in
      if runID = [] then answer (Failed 400 ''invalid_path'' [])
      else case body of None \<Rightarrow> answer (Failed 400 ''invalid_json'' []) | Some req \<Rightarrow>
      if ho_OpID req = [] \<or> ho_CurrentLease req = [] \<or> ho_ExpectedGeneration req = 0 \<or> ho_Harness req = [] \<or>
         ho_ControllerRef req = [] then answer (Failed 400 ''invalid_request'' (ho_OpID req))
      else tracked (ho_OpID req)
       (bind (random_hex 32) (\<lambda>candidate.
        bind (command (CmdHandoff (ho_OpID req) runID (ho_CurrentLease req) (ho_ExpectedGeneration req) (ho_Harness req)
            (ho_ControllerRef req) candidate))
         (\<lambda>x. case x of
            Inl e \<Rightarrow> answer (writeGrantAdminError e (ho_OpID req))
          | Inr r \<Rightarrow> bind (signal (CoInvalidate runID)) (\<lambda>_. answer (writeGrantResponse c r (ho_OpID req)))))))"

definition handleControllerRevoke :: "server \<Rightarrow> string \<Rightarrow> ControllerRevokeRequest option \<Rightarrow> reply proc" where
  "handleControllerRevoke c run_path body =
     (let runID = TrimSpace run_path in
      if runID = [] then answer (Failed 400 ''invalid_path'' [])
      else case body of None \<Rightarrow> answer (Failed 400 ''invalid_json'' []) | Some req \<Rightarrow>
      if rv_OpID req = [] then answer (Failed 400 ''invalid_request'' (rv_OpID req))
      else if rv_OperatorRecovery req \<and> blank (rv_Reason req) then answer (Failed 400 ''invalid_request'' (rv_OpID req))
      else if \<not> rv_OperatorRecovery req \<and> rv_ControllerLease req = []
        then answer (Failed 400 ''invalid_request'' (rv_OpID req))
      else tracked (rv_OpID req)
       (bind (command (CmdRevoke (rv_OpID req) runID (rv_ControllerLease req)
           (operator_recovery (rv_OperatorRecovery req) (rv_Reason req) (rv_ExpectedGeneration req))))
         (\<lambda>x. case x of
            Inl e \<Rightarrow> answer (writeGrantAdminError e (rv_OpID req))
          | Inr r \<Rightarrow> bind (signal (CoInvalidate runID)) (\<lambda>_.
              answer (Answered 200 (sc_InstanceID c) (rv_OpID req) (BodyPayload (or_Payload (receipt_of r))))))))"

definition handleControllerCredentialRecover ::
  "server \<Rightarrow> string \<Rightarrow> ControllerCredentialRecoverRequest option \<Rightarrow> reply proc"
where
  "handleControllerCredentialRecover c run_path body =
     (let runID = TrimSpace run_path in
      if runID = [] then answer (Failed 400 ''invalid_path'' [])
      else case body of None \<Rightarrow> answer (Failed 400 ''invalid_json'' []) | Some req \<Rightarrow>
      if cc_OpID req = [] \<or> cc_SourceOpID req = [] \<or> cc_ExpectedGeneration req = 0
        then answer (Failed 400 ''invalid_request'' (cc_OpID req))
      else tracked (cc_OpID req)
       (bind (command (CmdRecover (cc_OpID req) runID (cc_SourceOpID req) (cc_ExpectedGeneration req)))
         (\<lambda>x. answer (case x of
            Inl e \<Rightarrow> writeGrantAdminError e (cc_OpID req)
          | Inr r \<Rightarrow> writeGrantResponse c r (cc_OpID req)))))"

section \<open>Reads\<close>

definition handleControllerRecordGet :: "server \<Rightarrow> string \<Rightarrow> reply proc" where
  "handleControllerRecordGet c run_path =
     (let runID = TrimSpace run_path in
      if runID = [] then answer (Failed 400 ''invalid_path'' [])
      else bind (query (GetControllerRecord runID)) (\<lambda>x. answer (case x of
        Inl e \<Rightarrow> Failed 500 ''storage_error'' []
      | Inr rec \<Rightarrow> Answered 200 (sc_InstanceID c) [] (BodyRecord rec))))"

definition handleGetTurn :: "server \<Rightarrow> string \<Rightarrow> string \<Rightarrow> string \<Rightarrow> reply proc" where
  "handleGetTurn c run_path session_path turn_path =
     (let runID = TrimSpace run_path; sessionID = TrimSpace session_path; turnKey = TrimSpace turn_path in
      if runID = [] \<or> sessionID = [] \<or> turnKey = [] then answer (Failed 400 ''invalid_path'' [])
      else session_checked runID sessionID []
       (bind (query (\<lambda>d. Inr (GetTurnDetails sessionID turnKey d))) (\<lambda>x. answer (case x of
          Inl e \<Rightarrow> Failed 500 ''query_failed'' []
        | Inr None \<Rightarrow> Failed 404 ''turn_not_found'' []
        | Inr (Some td) \<Rightarrow> Answered 200 [] [] (BodyTurn td)))))"

end
