(* ===== verification/Service_Recovery.thy ===== *)
theory Service_Recovery
  imports Service_Handlers Go_Value
begin

text \<open>
  Recovery of a turn whose host was lost, \<open>handleReconcile\<close> of \<open>internal/service/commands.go\<close>: the
  episode is opened, the saved native session is attached to (\<open>sessionBindingFromStorage\<close>), the
  adapter is asked what became of the turn, and its finding is committed under the execution it was
  made for.
\<close>

section \<open>The saved session\<close>

text \<open>\<open>json.Unmarshal\<close> into a \<open>string\<close> and into a \<open>[]string\<close>; \<open>null\<close> leaves the zero value.\<close>

fun string_value :: "json \<Rightarrow> string option" where
  "string_value (JString s) = Some s"
| "string_value JNull = Some []"
| "string_value v = None"

fun all_strings :: "json list \<Rightarrow> string list option" where
  "all_strings [] = Some []"
| "all_strings (v # vs) =
     (case string_value v of None \<Rightarrow> None | Some s \<Rightarrow> map_option ((#) s) (all_strings vs))"

fun decodeToolList :: "json option \<Rightarrow> string list option" where
  "decodeToolList (Some (JArray vs)) = all_strings vs"
| "decodeToolList (Some JNull) = Some []"
| "decodeToolList v = None"

text \<open>The members of an object, a later duplicate first.\<close>

definition member :: "string \<Rightarrow> (string \<times> json) list \<Rightarrow> json option" where
  "member k ms = map_of (rev ms) k"

definition binding_config :: "(string \<times> json) list \<Rightarrow> SessionConfig \<Rightarrow> SessionConfig option" where
  "binding_config ms cfg =
     (case (case member ''workspace_root'' ms of None \<Rightarrow> Some (cf_WorkspaceRoot cfg) | Some v \<Rightarrow> string_value v) of
        None \<Rightarrow> None | Some root \<Rightarrow>
      (case (case member ''model'' ms of None \<Rightarrow> Some (cf_Model cfg) | Some v \<Rightarrow> string_value v) of
         None \<Rightarrow> None | Some model \<Rightarrow>
       (case (member ''tools'' ms, member ''tooling'' ms) of
          (Some a, Some b) \<Rightarrow> None
        | (Some a, None) \<Rightarrow> map_option (\<lambda>ts. \<lparr>cf_WorkspaceRoot = root, cf_Model = model, cf_Tooling = ts\<rparr>) (decodeToolList (Some a))
        | (None, Some b) \<Rightarrow> map_option (\<lambda>ts. \<lparr>cf_WorkspaceRoot = root, cf_Model = model, cf_Tooling = ts\<rparr>) (decodeToolList (Some b))
        | (None, None) \<Rightarrow> Some \<lparr>cf_WorkspaceRoot = root, cf_Model = model, cf_Tooling = cf_Tooling cfg\<rparr>)))"

definition sessionBindingFromStorage :: "NativeBinding \<Rightarrow> string \<Rightarrow> SessionBinding option" where
  "sessionBindingFromStorage nb contributor =
     (let binding = \<lparr>sb_SessionID = nb_LogicalSessionID nb, sb_Contributor = contributor,
            sb_NativeSessionID = nb_NativeSessionID nb,
            sb_Config = \<lparr>cf_WorkspaceRoot = [], cf_Model = nb_Model nb, cf_Tooling = []\<rparr>\<rparr>;
          trimmed = TrimSpace (nb_ToolingConfig nb)
      in if trimmed = [] \<or> trimmed = ''{}'' then Some binding
         else case parse_json trimmed of
           Some (JObject ms) \<Rightarrow> map_option (\<lambda>cfg. binding\<lparr>sb_Config := cfg\<rparr>) (binding_config ms (sb_Config binding))
         | Some JNull \<Rightarrow> Some binding
         | v \<Rightarrow> map_option (\<lambda>ts. binding\<lparr>sb_Config := (sb_Config binding)\<lparr>cf_Tooling := ts\<rparr>\<rparr>) (decodeToolList v))"

section \<open>Reconciling\<close>

text \<open>The generation in the receipt of a host loss.\<close>

definition scan_generation :: "string \<Rightarrow> nat option" where
  "scan_generation s =
     (if takeWhile is_digit s = [] \<or> 2 ^ 64 \<le> leading_number s \<or> leading_number s = 0 then None
      else Some (leading_number s))"

text \<open>The turn the session has active, or the one a lost host left behind.\<close>

definition recoverable :: "string \<Rightarrow> SessionRecoveryState \<Rightarrow> bool" where
  "recoverable turnKey r \<longleftrightarrow>
     rs_ActiveKey r = turnKey \<or>
     rs_ActiveKey r = [] \<and> rs_Visibility r = ''host_lost'' \<and> rs_RecoveryContext r = turnKey \<and> 0 < rs_ActiveRecoveryGen r"

text \<open>The generation of the open episode, or of the one that recording the loss opens.\<close>

definition recovery_generation ::
  "string \<Rightarrow> SessionRequest \<Rightarrow> SessionRecoveryState \<Rightarrow> (response + nat) proc"
where
  "recovery_generation sessionID req r =
     (if rs_Visibility r = ''host_lost'' \<and> 0 < rs_ActiveRecoveryGen r then Return (Inr (rs_ActiveRecoveryGen r))
      else
        bind (command (CmdHostLoss (rq_OpID req @ '':host_loss'') (rq_ControllerLease req) sessionID
            (if rq_ExpectedVersion req \<le> 0 then rs_RowVersion r else rq_ExpectedVersion req))) (\<lambda>x. Return (case x of
          Inl e \<Rightarrow> Inl (if e = ErrStaleUpdate then Failed 409 ''stale_version'' (rq_OpID req)
            else if e = ErrUnauthorizedOperation then Failed 403 ''unauthorized'' (rq_OpID req)
            else Failed 400 ''record_host_loss_failed'' (rq_OpID req))
        | Inr h \<Rightarrow> (case scan_generation (or_Payload (receipt_of h)) of
              None \<Rightarrow> Inl (Failed 500 ''invalid_recovery_gen'' (rq_OpID req))
            | Some g \<Rightarrow> Inr g))))"

text \<open>Attaching to the saved native session.\<close>

definition resume_saved :: "server \<Rightarrow> string \<Rightarrow> string \<Rightarrow> response option proc" where
  "resume_saved c sessionID opID =
     bind (agyAwaitingForSession c sessionID opID) (\<lambda>x. case x of Some r \<Rightarrow> Return (Some r) | None \<Rightarrow>
     if \<not> sc_has_adapter c then Return (Some (Failed 503 ''harness_unavailable'' opID))
     else bind (query (\<lambda>d. Inr (GetSessionNativeBinding sessionID d))) (\<lambda>y. case y of
       Inl e \<Rightarrow> Return (Some (Failed 500 ''get_binding_failed'' opID))
     | Inr None \<Rightarrow> Return (Some (Failed 503 ''harness_unavailable'' opID))
     | Inr (Some (nb, contributor)) \<Rightarrow>
         (case sessionBindingFromStorage nb contributor of
            None \<Rightarrow> Return (Some (Failed 503 ''harness_unavailable'' opID))
          | Some b \<Rightarrow> bind (ask (\<lambda>i. in_resume i b)) (\<lambda>err. Return (case err of
              None \<Rightarrow> None | Some m \<Rightarrow> Some (Failed 503 ''harness_unavailable'' opID))))))"

text \<open>The probe, its durable commit, and the announcement of a turn that ended.\<close>

definition probe_and_commit :: "server \<Rightarrow> string \<Rightarrow> string \<Rightarrow> string \<Rightarrow> ExecutionRef \<Rightarrow> nat \<Rightarrow> reply proc" where
  "probe_and_commit c sessionID turnKey opID execRef generation =
     (let ref = \<lparr>ref_SessionID = sessionID, ref_TurnKey = turnKey, ref_Generation = of_nat generation\<rparr> in
      bind (ask (\<lambda>i. in_reconcile i ref)) (\<lambda>x. case x of
        Inl m \<Rightarrow> answer (Failed 500 ''adapter_reconcile_failed'' opID)
      | Inr outcome \<Rightarrow>
          bind (command (CmdReconcile (opID @ '':reconcile'') execRef ref outcome)) (\<lambda>y. case y of
            Inl e \<Rightarrow> answer (if e = ErrUnauthorizedOperation then Failed 403 ''unauthorized'' opID
              else if e = ErrIdempotencyConflict then Failed 409 ''idempotency_conflict'' opID
              else Failed 400 ''persist_reconcile_failed'' opID)
          | Inr r \<Rightarrow>
              bind (query (\<lambda>d. Inr (GetTurnDetails sessionID turnKey d))) (\<lambda>z.
              bind (case z of
                  Inr (Some td) \<Rightarrow>
                    if isTerminal (td_Status td)
                    then signal (CoBroadcast \<lparr>ref_SessionID = sessionID, ref_TurnKey = turnKey\<rparr>
                      (terminal_event sessionID turnKey (td_Status td) (td_Result td)))
                    else Return ()
                | _ \<Rightarrow> Return ())
                (\<lambda>_. answer (Answered 200 (sc_InstanceID c) opID (BodyReceipt (receipt_of r))))))))"

definition handleReconcile :: "server \<Rightarrow> string \<Rightarrow> string \<Rightarrow> string \<Rightarrow> SessionRequest option \<Rightarrow> reply proc" where
  "handleReconcile c run_path session_path turn_path body =
     (let runID = TrimSpace run_path; sessionID = TrimSpace session_path; turnKey = TrimSpace turn_path in
      if runID = [] \<or> sessionID = [] \<or> turnKey = [] then answer (Failed 400 ''invalid_path'' [])
      else case body of None \<Rightarrow> answer (Failed 400 ''invalid_json'' []) | Some req \<Rightarrow>
      let opID = rq_OpID req in
      session_checked runID sessionID opID
       (if opID = [] \<or> rq_ControllerLease req = [] then answer (Failed 400 ''invalid_request'' opID)
        else tracked opID
         (gated runID sessionID (rq_ControllerLease req) opID
          (bind (to_query (ValidateControllerLease sessionID (rq_ControllerLease req))) (\<lambda>x. case x of
             Inl e \<Rightarrow> answer (if e = ErrSessionNotFound then Failed 404 ''session_not_found'' opID
               else auth_or (Failed 500 ''storage_error'' opID) e opID)
           | Inr _ \<Rightarrow>
          bind (query (FindOperationReceipt (opID @ '':reconcile'') (rq_ControllerLease req))) (\<lambda>y. case y of
             Inl e \<Rightarrow> answer (if e = ErrUnauthorizedOperation then Failed 403 ''unauthorized'' opID
               else if e = ErrIdempotencyConflict then Failed 409 ''idempotency_conflict'' opID
               else Failed 400 ''check_reconcile_failed'' opID)
           | Inr (Some r) \<Rightarrow> answer
               (if or_SessionID r \<noteq> sessionID \<or> (or_TurnKey r \<noteq> [] \<and> or_TurnKey r \<noteq> turnKey) \<or>
                   or_CommandType r \<noteq> ''reconcile_session'' then Failed 409 ''idempotency_conflict'' opID
                else Answered 200 (sc_InstanceID c) opID (BodyReceipt r))
           | Inr None \<Rightarrow>
          bind (query (GetSessionRecoveryState sessionID)) (\<lambda>z. case z of
             Inl e \<Rightarrow> answer (Failed 500 ''get_session_failed'' opID)
           | Inr st \<Rightarrow>
               if \<not> recoverable turnKey st then answer (Failed 400 ''invalid_turn'' opID)
               else
          bind (executionRefForTurn sessionID turnKey) (\<lambda>execRef. case execRef of
             None \<Rightarrow> answer (Failed 409 ''no_accepted_execution'' opID)
           | Some er \<Rightarrow>
          bind (recovery_generation sessionID req st) (\<lambda>g. case g of
             Inl r \<Rightarrow> answer r
           | Inr generation \<Rightarrow>
          bind (resume_saved c sessionID opID) (\<lambda>u. case u of
             Some r \<Rightarrow> answer r
           | None \<Rightarrow> probe_and_commit c sessionID turnKey opID er generation))))))))))"

end
