(* ===== verification/Service_Contracts.thy ===== *)
theory Service_Contracts
  imports Service_Recovery
begin

text \<open>
  The contract every handler keeps, stated as a locale and discharged for each of them: it answers
  with every unit of work it was admitted for retired, except the worker of a supervisor it started,
  and a turn it released anew has such a supervisor unless the service is being torn down.
\<close>

section \<open>The contract\<close>

definition for_turn :: "subject \<Rightarrow> supervisor \<Rightarrow> bool" where
  "for_turn j u \<longleftrightarrow> su_SessionID u = sj_SessionID j \<and> su_TurnKey u = sj_TurnKey j"

definition handled_well :: "subject \<Rightarrow> reply \<Rightarrow> ghost \<Rightarrow> bool" where
  "handled_well j r g \<longleftrightarrow> gh_held g = (case snd r of None \<Rightarrow> [] | Some u \<Rightarrow> [su_done u]) \<and>
     (gh_released g \<and> \<not> sj_Teardown j \<longrightarrow> snd r \<noteq> None) \<and> (\<forall>u. snd r = Some u \<longrightarrow> for_turn j u)"

text \<open>Under an admitted unit of work.\<close>

definition body_well :: "subject \<Rightarrow> nat \<Rightarrow> reply \<Rightarrow> ghost \<Rightarrow> bool" where
  "body_well j w r g \<longleftrightarrow> gh_held g = w # (case snd r of None \<Rightarrow> [] | Some u \<Rightarrow> [su_done u]) \<and> distinct (gh_held g) \<and>
     (gh_released g \<and> \<not> sj_Teardown j \<longrightarrow> snd r \<noteq> None) \<and> (\<forall>u. snd r = Some u \<longrightarrow> for_turn j u)"

definition idle :: "ghost \<Rightarrow> bool" where "idle g \<longleftrightarrow> gh_held g = [] \<and> \<not> gh_released g"

definition holding :: "nat \<Rightarrow> ghost \<Rightarrow> bool" where "holding w g \<longleftrightarrow> gh_held g = [w] \<and> \<not> gh_released g"

definition cleared :: "nat \<Rightarrow> ghost \<Rightarrow> bool" where "cleared w g \<longleftrightarrow> holding w g \<and> gh_gate g"

lemma cleared_later: "cleared w g \<Longrightarrow> later g h \<Longrightarrow> cleared w h"
  by (simp add: cleared_def holding_def laterD)

lemma idle_later: "idle g \<Longrightarrow> later g h \<Longrightarrow> idle h" and holding_later: "holding w g \<Longrightarrow> later g h \<Longrightarrow> holding w h"
  by (simp_all add: idle_def holding_def laterD)

lemma idle_answer: "idle g \<Longrightarrow> handled_well j (r, None) g"
  and holding_answer: "holding w g \<Longrightarrow> body_well j w (r, None) g"
  by (simp_all add: idle_def holding_def handled_well_def body_well_def)

lemma cleared_answer: "cleared w g \<Longrightarrow> body_well j w (r, None) g"
  by (simp add: cleared_def holding_answer)

lemma wp_defer_body:
  assumes "w \<in> set (gh_held g)" and "wp j p (body_well j w) g"
  shows "wp j (deferring w p) (handled_well j) g"
proof (rule wp_deferring [OF assms(1)], rule wp_mono [OF assms(2)])
  fix r h assume b: "body_well j w r h"
  then have "removeAll w (gh_held h) = (case snd r of None \<Rightarrow> [] | Some u \<Rightarrow> [su_done u])"
    by (auto simp: body_well_def removeAll_id split: option.splits)
  with b show "w \<in> set (gh_held h) \<and> (\<forall>h'. later (h\<lparr>gh_held := removeAll w (gh_held h)\<rparr>) h' \<longrightarrow> handled_well j r h')"
    by (auto simp: body_well_def handled_well_def laterD)
qed

section \<open>The shared steps\<close>

lemma wp_to_query: "(\<And>x h. later g h \<Longrightarrow> Q x h) \<Longrightarrow> wp j (to_query f) Q g"
  unfolding to_query_def by (rule wp_query_any)

lemma wp_session_checked:
  assumes "idle g" and "\<And>h. idle h \<Longrightarrow> wp j k (handled_well j) h"
  shows "wp j (session_checked runID sessionID opID k) (handled_well j) g"
  unfolding session_checked_def
  by (rule wp_bind, rule wp_to_query) (use assms idle_later idle_answer in \<open>auto split: sum.split\<close>)

lemma wp_tracked:
  assumes "idle g" and "\<And>w h. holding w h \<Longrightarrow> wp j k (body_well j w) h"
  shows "wp j (tracked opID k) (handled_well j) g"
  unfolding tracked_def
proof (rule wp_bind, rule wp_track_control)
  fix w h assume "later (g\<lparr>gh_held := gh_held g @ [w]\<rparr>) h"
  then have "holding w h" using assms(1) by (simp add: idle_def holding_def laterD)
  then show "wp j (case Inr w of Inl e \<Rightarrow> answer (Failed 503 ''service_stopping'' opID) | Inr w \<Rightarrow> deferring w k)
      (handled_well j) h"
    using assms(2) by (auto intro!: wp_defer_body simp: holding_def)
qed (use assms(1) idle_later idle_answer in auto)

text \<open>Behind the gate the ghost has seen it open.\<close>

lemma wp_attached_here:
  assumes s: "sj_RunID j = runID" and m: "cr_Adopted r \<Longrightarrow> cr_Connected r \<Longrightarrow> r \<in> set (gh_seen g)"
    and refused: "\<And>r h. later g h \<Longrightarrow> Q (Some r) h" and passed: "\<And>h. later g h \<Longrightarrow> gh_gate h \<Longrightarrow> Q None h"
  shows "wp j (attached_here runID opID r) Q g"
proof (cases "cr_Adopted r \<and> cr_Connected r")
  case True
  have "wp j (bind (inspect (ControllerAttachedEpisode runID (of_nat (cr_Generation r)) (cr_AttachmentID r)))
      (\<lambda>here. Return (if here then None else Some x))) Q g" for x
  proof (rule wp_bind, rule wp_inspect)
    fix i s assume l: "later g (observe j i None s g)"
    have "gh_gate (observe j i None s g)"
      if "ControllerAttachedEpisode runID (of_nat (cr_Generation r)) (cr_AttachmentID r) (sv_co s)"
      using that m True s by (auto simp: observe_def attached_def list_ex_iff Let_def)
    then show "wp j (Return (if ControllerAttachedEpisode runID (of_nat (cr_Generation r)) (cr_AttachmentID r) (sv_co s)
        then None else Some x)) Q (observe j i None s g)"
      using refused [OF l] passed [OF l] by simp
  qed
  then show ?thesis using True by (simp add: attached_here_def)
qed (use refused [OF later_refl] in \<open>auto simp: attached_here_def\<close>)

lemma wp_connected_here:
  assumes s: "sj_RunID j = runID" and v: "gh_lease g"
    and refused: "\<And>r h. later g h \<Longrightarrow> Q (Some r) h" and passed: "\<And>h. later g h \<Longrightarrow> gh_gate h \<Longrightarrow> Q None h"
  shows "wp j (connected_here runID opID) Q g"
  unfolding connected_here_def
proof (rule wp_bind, rule wp_query)
  fix i s assume l: "later g (observe j i None s g)"
  have "r \<in> set (gh_seen (observe j i None s g))"
    if "GetControllerRecord runID (sv_db s) = Inr r" "cr_Adopted r" "cr_Connected r" for r
    using that v s by (simp add: observe_def connected_record_def Let_def)
  then have "wp j (attached_here runID opID r) Q (observe j i None s g)" if "GetControllerRecord runID (sv_db s) = Inr r" for r
    by (rule wp_attached_here [OF s]) (use that refused passed later_trans [OF l] in auto)
  then show "wp j (case GetControllerRecord runID (sv_db s) of
      Inl e \<Rightarrow> Return (Some (Failed 500 ''storage_error'' opID)) | Inr r \<Rightarrow> attached_here runID opID r) Q (observe j i None s g)"
    using refused [OF l] by (simp split: sum.split)
qed (use refused in simp)

lemma wp_requireConnected:
  assumes s: "sj_RunID j = runID" "sj_SessionID j = sessionID" "sj_Lease j = lease"
    and refused: "\<And>r h. later g h \<Longrightarrow> Q (Some r) h" and passed: "\<And>h. later g h \<Longrightarrow> gh_gate h \<Longrightarrow> Q None h"
  shows "wp j (requireConnectedController runID sessionID lease opID) Q g"
  unfolding requireConnectedController_def to_query_def
proof (rule wp_bind, rule wp_query)
  fix i s assume l: "later g (observe j i None s g)"
  let ?v = "if sessionID \<noteq> [] then ValidateControllerLease sessionID lease else ValidateRunControllerLease runID lease"
  have "wp j (connected_here runID opID) Q (observe j i None s g)" if "?v (sv_db s) = None"
  proof (rule wp_connected_here [OF s(1)])
    show "gh_lease (observe j i None s g)"
      using that s by (simp add: observe_def lease_valid_def Let_def split: if_splits)
  qed (use refused passed later_trans [OF l] in auto)
  then show "wp j (case (case ?v (sv_db s) of Some e \<Rightarrow> Inl e | None \<Rightarrow> Inr ()) of
      Inl e \<Rightarrow> Return (Some (auth_or (Failed 500 ''storage_error'' opID) e opID)) | Inr _ \<Rightarrow> connected_here runID opID)
     Q (observe j i None s g)"
    using refused [OF l] by (auto split: option.split)
qed (use refused in simp)

lemma wp_gated:
  assumes "sj_RunID j = runID" "sj_SessionID j = sessionID" "sj_Lease j = lease" and w: "holding w g"
    and "\<And>h. cleared w h \<Longrightarrow> wp j k (body_well j w) h"
  shows "wp j (gated runID sessionID lease opID k) (body_well j w) g"
  unfolding gated_def
  by (rule wp_bind, rule wp_requireConnected [OF assms(1-3)])
    (use assms(5) holding_later [OF w] holding_answer in \<open>auto simp: cleared_def\<close>)

text \<open>A store command that releases nothing.\<close>

fun releasing :: "store_op \<Rightarrow> bool" where
  "releasing (CmdRelease op l sid v k) = True"
| "releasing c = False"

lemma not_releasing: "\<not> releasing c \<Longrightarrow> \<not> releases_anew (Some (Store c)) s"
  by (auto simp: releases_anew_def)

lemma wp_plain_command:
  assumes "gh_held g \<noteq> []" "decision c \<Longrightarrow> gh_gate g \<and> concerns j c" "proper_op c" "\<not> releasing c" "\<And>x h. later g h \<Longrightarrow> Q x h"
  shows "wp j (command c) Q g"
proof (rule wp_command [OF assms(1) _ assms(3)])
  fix s :: service and h r
  assume "later (g\<lparr>gh_released := gh_released g \<or> releases_anew (Some (Store c)) s\<rparr>) h"
  then have "later g h" using not_releasing [OF assms(4), of s] by (simp add: later_def)
  then show "Q (Inr r) h" by (rule assms(5))
qed (use assms(2,5) in simp_all)

lemma wp_held_command:
  assumes w: "holding w g" and "\<not> decision c" "proper_op c" "\<not> releasing c" and "\<And>x h. holding w h \<Longrightarrow> Q x h"
  shows "wp j (command c) Q g"
  by (rule wp_plain_command [OF _ _ assms(3,4)]) (use w assms(2,5) holding_later [OF w] in \<open>auto simp: holding_def\<close>)

lemma wp_cleared_command:
  assumes w: "cleared w g" and "proper_op c" "\<not> releasing c" "concerns j c" and "\<And>x h. cleared w h \<Longrightarrow> Q x h"
  shows "wp j (command c) Q g"
  by (rule wp_plain_command [OF _ _ assms(2,3)])
    (use w assms(4,5) cleared_later [OF w] in \<open>auto simp: cleared_def holding_def\<close>)

lemma wp_receipt_command:
  assumes "cleared w g" "proper_op cmd" "\<not> releasing cmd" "concerns j cmd"
  shows "wp j (receipt_command c opID cmd failed) (body_well j w) g"
  unfolding receipt_command_def
  by (rule wp_bind, rule wp_cleared_command [OF assms]) (auto intro: cleared_answer split: sum.split)

text \<open>Reads and questions change nothing.\<close>

lemma wp_held_query: "holding w g \<Longrightarrow> (\<And>x h. holding w h \<Longrightarrow> Q x h) \<Longrightarrow> wp j (query f) Q g"
  by (rule wp_query_any) (blast intro: holding_later)

lemma wp_held_ask: "holding w g \<Longrightarrow> (\<And>i h. holding w h \<Longrightarrow> Q (f i) h) \<Longrightarrow> wp j (ask f) Q g"
  by (rule wp_ask) (blast intro: holding_later)

lemma wp_cleared_query: "cleared w g \<Longrightarrow> (\<And>x h. cleared w h \<Longrightarrow> Q x h) \<Longrightarrow> wp j (query f) Q g"
  by (rule wp_query_any) (blast intro: cleared_later)

lemma wp_cleared_ask: "cleared w g \<Longrightarrow> (\<And>i h. cleared w h \<Longrightarrow> Q (f i) h) \<Longrightarrow> wp j (ask f) Q g"
  by (rule wp_ask) (blast intro: cleared_later)

lemma wp_agyAwaiting:
  "cleared w g \<Longrightarrow> (\<And>x h. cleared w h \<Longrightarrow> Q x h) \<Longrightarrow> wp j (agyAwaitingForSession c sid op) Q g"
  unfolding agyAwaitingForSession_def by (auto intro!: wp_bind wp_cleared_query)

lemma wp_validate_tools:
  "cleared w g \<Longrightarrow> (\<And>x h. cleared w h \<Longrightarrow> Q x h) \<Longrightarrow> wp j (validateQueuedRequiredTools c sid ts op) Q g"
  unfolding validateQueuedRequiredTools_def
  by (auto intro!: wp_bind wp_cleared_query split: sum.split)

lemma wp_execution_ref:
  assumes "cleared w g" and "\<And>x h. cleared w h \<Longrightarrow> (\<And>er. x = Some er \<Longrightarrow> er_SessionID er = sid \<and> er_TurnKey er = k) \<Longrightarrow> Q x h"
  shows "wp j (executionRefForTurn sid k) Q g"
  unfolding executionRefForTurn_def
  by (rule wp_bind, rule wp_cleared_query [OF assms(1)])
    (auto intro!: assms(2) split: sum.splits option.splits if_splits)

section \<open>The handlers keep it\<close>

definition subject_for :: "string \<Rightarrow> string \<Rightarrow> string \<Rightarrow> string \<Rightarrow> bool \<Rightarrow> subject" where
  "subject_for run_path session_path turn_path lease teardown =
     \<lparr>sj_RunID = TrimSpace run_path, sj_SessionID = TrimSpace session_path, sj_TurnKey = TrimSpace turn_path,
      sj_Lease = lease, sj_Worker = 0, sj_Teardown = teardown\<rparr>"

lemma subject_for_simps [simp]:
  "sj_RunID (subject_for r s k l t) = TrimSpace r" "sj_SessionID (subject_for r s k l t) = TrimSpace s"
  "sj_TurnKey (subject_for r s k l t) = TrimSpace k" "sj_Lease (subject_for r s k l t) = l"
  "sj_Teardown (subject_for r s k l t) = t"
  by (simp_all add: subject_for_def)

definition lease_of :: "'r option \<Rightarrow> ('r \<Rightarrow> string) \<Rightarrow> string" where
  "lease_of body f = (case body of None \<Rightarrow> [] | Some req \<Rightarrow> f req)"

lemma lease_of_Some [simp]: "lease_of (Some req) f = f req"
  by (simp add: lease_of_def)

lemma idle_fresh: "idle fresh_ghost"
  by (simp add: idle_def fresh_ghost_def)

lemma fresh_answer [simp]: "handled_well j (r, None) fresh_ghost"
  by (rule idle_answer [OF idle_fresh])

lemma wp_answer: "idle g \<Longrightarrow> wp j (answer r) (handled_well j) g"
  by (simp add: idle_answer)

lemma wp_held_answer: "holding w g \<Longrightarrow> wp j (answer r) (body_well j w) g"
  by (simp add: holding_answer)

locale handler =
  fixes j :: subject and p :: "reply proc"
  assumes keeps_contract: "wp j p (handled_well j) fresh_ghost"
begin

lemma in_every_interleaving:
  assumes "agrees j fresh_ghost s" "legal j ms fresh_ghost p s" "run j ms fresh_ghost p s = (h, g, q, t)"
  shows "agrees j g t" "wp j q (handled_well j) g" "\<forall>(g, s, a)\<in>set h. agrees j g s \<and> permitted j (Some a) s g"
  using wp_sound [OF assms(1) keeps_contract assms(2,3)] by simp_all

end

text \<open>The prologue of a session command behind the gate.\<close>

lemma wp_session_command:
  assumes "idle g" and "\<And>w h. cleared w h \<Longrightarrow> wp (subject_for r s k l td) p (body_well (subject_for r s k l td) w) h"
  shows "wp (subject_for r s k l td)
    (session_checked (TrimSpace r) (TrimSpace s) op (tracked op (gated (TrimSpace r) (TrimSpace s) l op p)))
    (handled_well (subject_for r s k l td)) g"
  using assms by (auto intro!: wp_session_checked wp_tracked wp_gated)

lemma wp_queue:
  "wp (subject_for r s k (lease_of b rq_ControllerLease) td) (handleQueuePrompt c r s b)
     (handled_well (subject_for r s k (lease_of b rq_ControllerLease) td)) fresh_ghost"
  by (cases b) (auto simp: handleQueuePrompt_def Let_def intro!: idle_fresh wp_session_command
      wp_bind wp_validate_tools wp_receipt_command cleared_answer split: option.split)

lemma wp_replace:
  "wp (subject_for r s k (lease_of b rq_ControllerLease) td) (handleReplacePrompt c r s k b)
     (handled_well (subject_for r s k (lease_of b rq_ControllerLease) td)) fresh_ghost"
  by (cases b) (auto simp: handleReplacePrompt_def Let_def intro!: idle_fresh wp_session_command
      wp_receipt_command)

lemma wp_discard:
  "wp (subject_for r s k (lease_of b rq_ControllerLease) td) (handleDiscardPrompt c r s k b)
     (handled_well (subject_for r s k (lease_of b rq_ControllerLease) td)) fresh_ghost"
  by (cases b) (auto simp: handleDiscardPrompt_def Let_def intro!: idle_fresh wp_session_command
      wp_receipt_command)

lemma trim_nothing [simp]: "TrimSpace [] = []"
  by (simp add: TrimSpace_def)

lemma wp_decide:
  "wp (subject_for r [] k (lease_of b rd_ControllerLease) td) (handleRecordDecision c r b)
     (handled_well (subject_for r [] k (lease_of b rd_ControllerLease) td)) fresh_ghost"
  by (cases b) (auto simp: handleRecordDecision_def Let_def intro!: idle_fresh wp_tracked wp_gated
      wp_receipt_command)

section \<open>Cancelling\<close>

lemma wp_term_outcome:
  assumes "cleared w g" and "sj_SessionID j = er_SessionID er" and "sj_TurnKey j = er_TurnKey er"
    and "\<And>x h. cleared w h \<Longrightarrow> isl x \<or> gh_settled h \<Longrightarrow> Q x h"
  shows "wp j (command (CmdOutcome op er st raw)) Q g"
  by (rule wp_outcome) (use assms cleared_later [OF assms(1)] in \<open>auto simp: cleared_def holding_def\<close>)

lemma wp_read_turn:
  assumes "cleared w g" and "sj_SessionID j = sid" and "sj_TurnKey j = k"
    and "\<And>x h. cleared w h \<Longrightarrow> later g h \<Longrightarrow> (\<And>td. x = Inr (Some td) \<Longrightarrow> isTerminal (td_Status td) \<Longrightarrow> gh_settled h) \<Longrightarrow> Q x h"
  shows "wp j (query (\<lambda>d. Inr (GetTurnDetails sid k d))) Q g"
proof (rule wp_turn_details [OF assms(2,3)])
  fix x :: "TurnDetails option" and h assume l: "later g h" and t: "\<And>td. x = Some td \<Longrightarrow> isTerminal (td_Status td) \<Longrightarrow> gh_settled h"
  show "Q (Inr x) h" by (rule assms(4) [OF cleared_later [OF assms(1) l] l]) (rule t, simp_all)
qed (rule assms(4) [OF cleared_later [OF assms(1)]], simp_all)

lemma wp_settled_broadcast:
  assumes "cleared w g" "gh_settled g" "sj_SessionID j = ref_SessionID ref" "sj_TurnKey j = ref_TurnKey ref"
    and "\<And>h. cleared w h \<Longrightarrow> Q () h"
  shows "wp j (signal (CoBroadcast ref ev)) Q g"
  by (rule wp_announce [OF assms(2-4)]) (use assms(5) cleared_later [OF assms(1)] in blast)

lemma wp_confirm_cancel:
  assumes g: "cleared w g" and j: "sj_SessionID j = sid" "sj_TurnKey j = k"
    and er: "\<And>er. execRef = Some er \<Longrightarrow> er_SessionID er = sid \<and> er_TurnKey er = k"
    and Q: "\<And>x h. cleared w h \<Longrightarrow> Q x h"
  shows "wp j (confirm_cancel sid k op execRef outcome) Q g"
proof -
  let ?ref = "\<lparr>ref_SessionID = sid, ref_TurnKey = k\<rparr>"
  let ?reason = "if ca_Reason outcome = [] then ''cancelled by operator'' else ca_Reason outcome"
  let ?durable = "\<lambda>x. case x of Inr (Some td) \<Rightarrow> if td_Status td = ''cancelled'' then Some (td_Result td) else None | _ \<Rightarrow> None"
  let ?rest = "\<lambda>persisted. bind (query (\<lambda>d. Inr (GetTurnDetails sid k d))) (\<lambda>x.
        let durable = ?durable x
        in if persisted \<or> durable \<noteq> None then
             bind (signal (CoBroadcast ?ref (terminal_event sid k ''cancelled'' (case durable of Some r \<Rightarrow> r | None \<Rightarrow> ?reason))))
               (\<lambda>_. Return ''confirmed'')
           else Return ''unknown'')"
  have told: "wp j (bind (signal (CoBroadcast ?ref ev)) (\<lambda>_. Return r)) Q h" if "cleared w h" "gh_settled h" for h ev r
    by (rule wp_bind, rule wp_settled_broadcast [OF that]) (simp_all add: j Q)
  have rest: "wp j (?rest persisted) Q h" if h: "cleared w h" and p: "persisted \<Longrightarrow> gh_settled h" for h persisted
  proof (rule wp_bind, rule wp_read_turn [OF h j])
    fix x :: "store_error + TurnDetails option" and i :: ghost
    assume c: "cleared w i" and l: "later h i" and t: "\<And>td. x = Inr (Some td) \<Longrightarrow> isTerminal (td_Status td) \<Longrightarrow> gh_settled i"
    have "gh_settled i" if known: "persisted \<or> ?durable x \<noteq> None"
    proof (cases persisted)
      case True
      then show ?thesis using laterD(5) [OF l p] by simp
    next
      case False
      then obtain td where "x = Inr (Some td)" "td_Status td = ''cancelled''"
        using known by (auto split: sum.splits option.splits if_splits)
      then show ?thesis using t [of td] by (simp add: isTerminal_def)
    qed
    then show "wp j (let durable = ?durable x in if persisted \<or> durable \<noteq> None then
             bind (signal (CoBroadcast ?ref (terminal_event sid k ''cancelled'' (case durable of Some r \<Rightarrow> r | None \<Rightarrow> ?reason))))
               (\<lambda>_. Return ''confirmed'') else Return ''unknown'') Q i"
      unfolding Let_def using told [OF c] Q [OF c] by (cases "persisted \<or> ?durable x \<noteq> None") simp_all
  qed
  have "wp j (case execRef of None \<Rightarrow> Return False
        | Some er \<Rightarrow> bind (command (CmdOutcome (op @ '':term'') er TurnCancelled ?reason)) (\<lambda>x. Return (isl x = False)))
      (\<lambda>persisted. wp j (?rest persisted) Q) g"
  proof (cases execRef)
    case None
    show ?thesis unfolding None option.case wp.simps(1) by (rule rest [OF g]) simp
  next
    case (Some er)
    have e: "sj_SessionID j = er_SessionID er" "sj_TurnKey j = er_TurnKey er" using er [OF Some] j by simp_all
    show ?thesis unfolding Some option.case
    proof (rule wp_bind, rule wp_term_outcome [OF g e])
      fix x :: "store_error + store_result" and h assume c: "cleared w h" "isl x \<or> gh_settled h"
      show "wp j (Return (isl x = False)) (\<lambda>persisted. wp j (?rest persisted) Q) h"
        unfolding wp.simps(1) by (rule rest [OF c(1)]) (use c(2) in simp)
    qed
  qed
  then show ?thesis unfolding confirm_cancel_def Let_def by (rule wp_bind)
qed

lemma wp_cancel_native:
  assumes g: "cleared w g" and j: "sj_SessionID j = sid" "sj_TurnKey j = k"
    and er: "\<And>er. execRef = Some er \<Longrightarrow> er_SessionID er = sid \<and> er_TurnKey er = k"
    and Q: "\<And>x h. cleared w h \<Longrightarrow> Q x h"
  shows "wp j (cancel_native sid k op execRef) Q g"
  unfolding cancel_native_def Let_def
  by (rule wp_bind, rule wp_cleared_ask [OF g])
    (auto intro: Q wp_confirm_cancel [OF _ j er] split: sum.split CancelDisposition.split)

lemma wp_cancel:
  "wp (subject_for r s k (lease_of b rq_ControllerLease) td) (handleCancel c r s k b)
     (handled_well (subject_for r s k (lease_of b rq_ControllerLease) td)) fresh_ghost"
proof (cases b)
  case (Some req)
  let ?j = "subject_for r s k (rq_ControllerLease req) td" and ?s = "TrimSpace s" and ?k = "TrimSpace k"
  have told: "wp ?j (bind (if sc_has_adapter c then cancel_native ?s ?k op er else Return ''requested'')
      (\<lambda>st. answer (f st))) (body_well ?j w) h"
    if "cleared w h" "\<And>e. er = Some e \<Longrightarrow> er_SessionID e = ?s \<and> er_TurnKey e = ?k" for w h er op f
    by (rule wp_bind) (use that in \<open>auto intro!: wp_cancel_native cleared_answer\<close>)
  have asked: "wp ?j (bind (executionRefForTurn ?s ?k) (\<lambda>er.
      bind (if sc_has_adapter c then cancel_native ?s ?k op er else Return ''requested'') (\<lambda>st. answer (f st)))) (body_well ?j w) h"
    if "cleared w h" for w h op f
    by (rule wp_bind, rule wp_execution_ref [OF that], rule told)
  have "wp ?j (bind (command (CmdCancel (rq_OpID req @ '':req'') (rq_ControllerLease req) ?s (rq_ExpectedVersion req) ?k)) (\<lambda>x. case x of
              Inl e \<Rightarrow> answer (command_error ''cancel_failed'' e (rq_OpID req))
            | Inr r \<Rightarrow> bind (executionRefForTurn ?s ?k) (\<lambda>er.
                bind (if sc_has_adapter c then cancel_native ?s ?k (rq_OpID req) er else Return ''requested'')
                  (\<lambda>st. answer (Answered 200 (sc_InstanceID c) (rq_OpID req) (BodyCancel (receipt_of r) st)))))) (body_well ?j w) h"
    if "cleared w h" for w h
    by (rule wp_bind, rule wp_cleared_command [OF that]) (auto intro: asked cleared_answer split: sum.split)
  then show ?thesis unfolding handleCancel_def Let_def
    by (auto simp: Some intro!: idle_fresh wp_session_checked wp_tracked wp_gated idle_answer)
qed (simp add: handleCancel_def Let_def)

section \<open>Reconciling\<close>

lemma wp_to_query_cleared:
  "cleared w g \<Longrightarrow> (\<And>x h. cleared w h \<Longrightarrow> Q x h) \<Longrightarrow> wp j (to_query f) Q g"
  unfolding to_query_def by (rule wp_cleared_query)

lemma wp_recovery_generation:
  assumes "cleared w g" and "sj_SessionID j = sid" "sj_Lease j = rq_ControllerLease req" and "\<And>x h. cleared w h \<Longrightarrow> Q x h"
  shows "wp j (recovery_generation sid req st) Q g"
  unfolding recovery_generation_def
  by (auto intro!: wp_bind wp_cleared_command [OF assms(1)] simp: assms)

lemma wp_resume_saved:
  assumes "cleared w g" and Q: "\<And>x h. cleared w h \<Longrightarrow> Q x h"
  shows "wp j (resume_saved c sid op) Q g"
  unfolding resume_saved_def
  by (rule wp_bind, rule wp_agyAwaiting [OF assms(1)])
    (auto intro!: wp_bind wp_cleared_query wp_cleared_ask Q split: option.split sum.split)

lemma wp_probe_and_commit:
  assumes g: "cleared w g" and j: "sj_SessionID j = sid" "sj_TurnKey j = k" and er: "er_SessionID er = sid" "er_TurnKey er = k"
  shows "wp j (probe_and_commit c sid k op er generation) (body_well j w) g"
proof -
  let ?tell = "\<lambda>z. case z of Inr (Some td) \<Rightarrow> if isTerminal (td_Status td)
        then signal (CoBroadcast \<lparr>ref_SessionID = sid, ref_TurnKey = k\<rparr> (terminal_event sid k (td_Status td) (td_Result td)))
        else Return () | _ \<Rightarrow> Return ()"
  have tell: "wp j (bind (?tell z) (\<lambda>_. answer r)) (body_well j w) h"
    if h: "cleared w h" and t: "\<And>td. z = Inr (Some td) \<Longrightarrow> isTerminal (td_Status td) \<Longrightarrow> gh_settled h" for z h r
  proof (rule wp_bind)
    show "wp j (?tell z) (\<lambda>_. wp j (answer r) (body_well j w)) h"
      using t cleared_answer [OF h]
      by (auto intro!: wp_settled_broadcast [OF h] simp: j split: sum.split option.split intro: cleared_answer)
  qed
  have read: "wp j (bind (query (\<lambda>d. Inr (GetTurnDetails sid k d))) (\<lambda>z. bind (?tell z) (\<lambda>_. answer r))) (body_well j w) h"
    if "cleared w h" for h r
    by (rule wp_bind, rule wp_read_turn [OF that j], rule tell)
  have "wp j (bind (command cmd) (\<lambda>y. case y of Inl e \<Rightarrow> answer (f e)
        | Inr r \<Rightarrow> bind (query (\<lambda>d. Inr (GetTurnDetails sid k d))) (\<lambda>z. bind (?tell z) (\<lambda>_. answer (a r))))) (body_well j w) h"
    if "cleared w h" "proper_op cmd" "\<not> releasing cmd" "concerns j cmd" for cmd h f a
    by (rule wp_bind, rule wp_cleared_command [OF that]) (auto intro: read cleared_answer split: sum.split)
  then show ?thesis unfolding probe_and_commit_def Let_def
    by (intro wp_bind wp_cleared_ask [OF g]) (auto simp: j er intro: cleared_answer split: sum.split)
qed

lemma wp_reconcile:
  "wp (subject_for r s k (lease_of b rq_ControllerLease) td) (handleReconcile c r s k b)
     (handled_well (subject_for r s k (lease_of b rq_ControllerLease) td)) fresh_ghost"
proof (cases b)
  case (Some req)
  let ?j = "subject_for r s k (rq_ControllerLease req) td" and ?s = "TrimSpace s" and ?k = "TrimSpace k" and ?op = "rq_OpID req"
  have probe: "wp ?j (bind (resume_saved c ?s ?op) (\<lambda>u. case u of Some r \<Rightarrow> answer r
      | None \<Rightarrow> probe_and_commit c ?s ?k ?op er generation)) (body_well ?j w) h"
    if "cleared w h" "er_SessionID er = ?s" "er_TurnKey er = ?k" for w h er generation
    by (rule wp_bind, rule wp_resume_saved [OF that(1)])
      (use that in \<open>auto intro: cleared_answer wp_probe_and_commit split: option.split\<close>)
  have opened: "wp ?j (bind (recovery_generation ?s req st) (\<lambda>g. case g of Inl r \<Rightarrow> answer r | Inr generation \<Rightarrow>
      bind (resume_saved c ?s ?op) (\<lambda>u. case u of Some r \<Rightarrow> answer r
      | None \<Rightarrow> probe_and_commit c ?s ?k ?op er generation))) (body_well ?j w) h"
    if "cleared w h" "er_SessionID er = ?s" "er_TurnKey er = ?k" for w h er st
    by (rule wp_bind, rule wp_recovery_generation [OF that(1)])
      (use that in \<open>auto intro: cleared_answer probe split: sum.split\<close>)
  have found: "wp ?j (bind (executionRefForTurn ?s ?k) (\<lambda>execRef. case execRef of
      None \<Rightarrow> answer (Failed 409 ''no_accepted_execution'' ?op)
    | Some er \<Rightarrow> bind (recovery_generation ?s req st) (\<lambda>g. case g of Inl r \<Rightarrow> answer r | Inr generation \<Rightarrow>
      bind (resume_saved c ?s ?op) (\<lambda>u. case u of Some r \<Rightarrow> answer r
      | None \<Rightarrow> probe_and_commit c ?s ?k ?op er generation)))) (body_well ?j w) h" if "cleared w h" for w h st
    by (rule wp_bind, rule wp_execution_ref [OF that]) (auto intro: cleared_answer opened split: option.split)
  show ?thesis unfolding handleReconcile_def Let_def
    by (auto simp: Some intro!: idle_fresh wp_session_checked wp_tracked wp_gated idle_answer wp_bind [of _ "to_query f" for f]
        wp_bind [of _ "query f" for f] wp_to_query_cleared wp_cleared_query found cleared_answer
        split: sum.split option.split)
qed (simp add: handleReconcile_def Let_def)

section \<open>Releasing\<close>

lemma new_release:
  assumes "store_exec (CmdRelease op l sid v k) now d = Inr (r, d')" and "journal_row op d = None"
  obtains rl where "r = ResRelease rl" "rl_Disposition rl = ReleaseDispositionNew"
proof -
  obtain rl where "ReleaseTurn op l sid v k now d = Inr (rl, d')" and r: "r = ResRelease rl"
    using assms(1) by (auto simp: as_result_Inr)
  then have "rl_Disposition rl = ReleaseDispositionNew"
    unfolding ReleaseTurn_def Let_def
    by (elim success_elims; clarsimp simp: release_replay_def assms(2))
  with r show ?thesis by (rule that)
qed

text \<open>A release that is new is not answered before its supervisor is registered.\<close>

lemma wp_release_command:
  assumes g: "cleared w g" and j: "sj_Lease j = l" "sj_SessionID j = sid" "sj_TurnKey j = k" and e: "\<And>e h. cleared w h \<Longrightarrow> Q (Inl e) h"
    and old: "\<And>r h. cleared w h \<Longrightarrow> Q (Inr r) h"
    and new: "\<And>r h. gh_held h = [w] \<Longrightarrow> gh_gate h \<Longrightarrow> rl_Disposition r = ReleaseDispositionNew \<Longrightarrow> Q (Inr (ResRelease r)) h"
  shows "wp j (command (CmdRelease op l sid v k)) Q g"
proof (rule wp_command)
  fix i s r d h
  assume x: "store_exec (CmdRelease op l sid v k) (in_now i) (sv_db s) = Inr (r, d)"
    and l: "later (g\<lparr>gh_released := gh_released g \<or> releases_anew (Some (Store (CmdRelease op l sid v k))) s\<rparr>) h"
  show "Q (Inr r) h"
  proof (cases "journal_row op (sv_db s)")
    case None
    obtain rl where "r = ResRelease rl" "rl_Disposition rl = ReleaseDispositionNew" by (rule new_release [OF x None])
    then show ?thesis using new laterD(1) [OF l] laterD(4) [OF l] g by (simp add: cleared_def holding_def)
  next
    case (Some e)
    then have "later g h" using l by (simp add: releases_anew_def later_def)
    then show ?thesis by (intro old cleared_later [OF g])
  qed
qed (use g e j cleared_later [OF g] in \<open>auto simp: cleared_def holding_def\<close>)

lemma wp_release_handoff:
  assumes g: "cleared w g" and j: "sj_Lease j = rq_ControllerLease req" "sj_SessionID j = sid" "sj_TurnKey j = k"
  shows "wp j (release_handoff c rid sid k req) (body_well j w) g"
proof -
  have refused: "body_well j w (r, None) h" if "later g' h" "sj_Teardown j \<or> gh_held g' = []" "gh_held g' = [w]" for r g' h
    using that laterD(1) [OF that(1)] by (auto simp: body_well_def)
  have started: "body_well j w (r, Some u) h"
    if "v \<notin> set (gh_held g')" "later (g'\<lparr>gh_held := gh_held g' @ [v]\<rparr>) h" "gh_held g' = [w]" "su_done u = v"
      "for_turn j u" for r u v g' h
    using that laterD(1) [OF that(2)] by (auto simp: body_well_def)
  have hand: "wp j (bind (register_worker ref) (\<lambda>y. case y of Inl e \<Rightarrow> answer (f e) | Inr v \<Rightarrow> Return (r, Some (u v))))
      (body_well j w) h" if "gh_held h = [w]" "\<And>v. su_done (u v) = v \<and> for_turn j (u v)" for h ref f r u
    by (rule wp_bind, rule wp_register_worker) (use refused started that in auto)
  have n: "ReleaseDispositionNew \<noteq> ReleaseDispositionReplayed" by simp
  show ?thesis unfolding release_handoff_def
    by (rule wp_bind, rule wp_release_command [OF g j])
      (auto intro!: hand simp: n for_turn_def j cleared_def holding_def intro: cleared_answer split: store_result.split)
qed

lemma wp_idle_query: "idle g \<Longrightarrow> (\<And>x h. idle h \<Longrightarrow> Q x h) \<Longrightarrow> wp j (query f) Q g"
  by (rule wp_query_any) (blast intro: idle_later)

lemma wp_admitted:
  assumes j: "sj_RunID j = rid" "sj_SessionID j = sid" "sj_Lease j = l" and g: "idle g"
    and p: "\<And>w h. cleared w h \<Longrightarrow> wp j p (body_well j w) h"
  shows "wp j (bind admit_release (\<lambda>y. case y of Inl e \<Rightarrow> answer (f e) | Inr w \<Rightarrow> deferring w (gated rid sid l op p)))
    (handled_well j) g"
proof (rule wp_bind, rule wp_admit_release)
  fix w h assume "later (g\<lparr>gh_held := gh_held g @ [w]\<rparr>) h"
  then have h: "holding w h" using g by (simp add: idle_def holding_def laterD)
  have "wp j (deferring w (gated rid sid l op p)) (handled_well j) h"
    by (rule wp_defer_body [OF _ wp_gated [OF j h p]]) (use h in \<open>simp add: holding_def\<close>)
  then show "wp j (case Inr w of Inl e \<Rightarrow> answer (f e) | Inr w \<Rightarrow> deferring w (gated rid sid l op p)) (handled_well j) h"
    by simp
qed (use idle_later [OF g] idle_answer in auto)

lemma wp_release:
  "wp (subject_for r s k (lease_of b rq_ControllerLease) td) (handleRelease c r s k b)
     (handled_well (subject_for r s k (lease_of b rq_ControllerLease) td)) fresh_ghost"
  by (cases b) (auto simp: handleRelease_def Let_def intro!: idle_fresh wp_session_checked wp_admitted idle_answer
      wp_bind [of _ "query f" for f] wp_idle_query wp_bind [of _ "agyAwaitingForSession c i op" for i op] wp_agyAwaiting
      wp_release_handoff cleared_answer split: sum.split option.split)

section \<open>The attachment and the administration of grants\<close>

fun publishing :: "co_op \<Rightarrow> bool" where
  "publishing (CoMark r g a i v) = True"
| "publishing (CoInvalidate r) = True"
| "publishing (CoInvalidateIf r g a i) = True"
| "publishing c = False"

lemma wp_publish:
  assumes "holding w g" "publishing a" and "\<And>h. holding w h \<Longrightarrow> Q () h"
  shows "wp j (signal a) Q g"
proof (rule wp_signal)
  fix h assume l: "later (g\<lparr>gh_blocked := gh_blocked g \<or> a = CoAddBlocker\<rparr>) h"
  have "a \<noteq> CoAddBlocker" using assms(2) by auto
  then have "later g h" using l by (simp add: later_def)
  then show "Q () h" by (intro assms(3) holding_later [OF assms(1)])
qed (use assms(2) in \<open>cases a; simp add: MarkControllerAttached_def InvalidateControllerAttachment_def
    InvalidateControllerAttachmentIf_def permitted_def split: option.split\<close>)+

lemmas attachment_steps = wp_bind wp_held_command wp_held_query wp_held_ask wp_publish holding_answer

lemma wp_connect_command:
  "holding w g \<Longrightarrow> (\<And>x h. holding w h \<Longrightarrow> Q x h) \<Longrightarrow> wp j (connect_command op rid l n inst) Q g"
  unfolding connect_command_def random_hex_def by (auto intro!: wp_bind wp_held_ask wp_held_command)

lemma wp_connect_session:
  "wp (subject_for r s [] (lease_of b rq_ControllerLease) td) (handleControllerConnect c r s b)
     (handled_well (subject_for r s [] (lease_of b rq_ControllerLease) td)) fresh_ghost"
  by (cases b) (auto simp: handleControllerConnect_def Let_def intro!: idle_fresh wp_session_checked wp_tracked idle_answer
      attachment_steps wp_connect_command split: sum.split store_result.split)

lemma wp_connect_run:
  "wp (subject_for r [] [] (lease_of b rc_ControllerLease) td) (handleRunControllerConnect c r b)
     (handled_well (subject_for r [] [] (lease_of b rc_ControllerLease) td)) fresh_ghost"
  by (cases b) (auto simp: handleRunControllerConnect_def Let_def intro!: idle_fresh wp_tracked idle_answer
      attachment_steps wp_connect_command split: sum.split store_result.split)

lemma wp_disconnect_run:
  "wp (subject_for r [] [] (lease_of b dc_ControllerLease) td) (handleRunControllerDisconnect c r b)
     (handled_well (subject_for r [] [] (lease_of b dc_ControllerLease) td)) fresh_ghost"
  by (cases b) (auto simp: handleRunControllerDisconnect_def Let_def intro!: idle_fresh wp_tracked idle_answer
      attachment_steps split: sum.split)

lemma wp_adopt:
  "wp (subject_for r [] [] l td) (handleControllerAdopt c r b) (handled_well (subject_for r [] [] l td)) fresh_ghost"
  by (cases b) (auto simp: handleControllerAdopt_def Let_def random_hex_def intro!: idle_fresh wp_tracked idle_answer
      attachment_steps split: sum.split)

lemma wp_handoff:
  "wp (subject_for r [] [] l td) (handleControllerHandoff c r b) (handled_well (subject_for r [] [] l td)) fresh_ghost"
  by (cases b) (auto simp: handleControllerHandoff_def Let_def random_hex_def intro!: idle_fresh wp_tracked idle_answer
      attachment_steps split: sum.split)

lemma wp_revoke:
  "wp (subject_for r [] [] l td) (handleControllerRevoke c r b) (handled_well (subject_for r [] [] l td)) fresh_ghost"
  by (cases b) (auto simp: handleControllerRevoke_def Let_def intro!: idle_fresh wp_tracked idle_answer
      attachment_steps split: sum.split)

lemma wp_recover:
  "wp (subject_for r [] [] l td) (handleControllerCredentialRecover c r b)
     (handled_well (subject_for r [] [] l td)) fresh_ghost"
  by (cases b) (auto simp: handleControllerCredentialRecover_def Let_def intro!: idle_fresh wp_tracked idle_answer
      attachment_steps split: sum.split)

lemma wp_controller_record:
  "wp (subject_for r [] [] l td) (handleControllerRecordGet c r) (handled_well (subject_for r [] [] l td)) fresh_ghost"
  by (auto simp: handleControllerRecordGet_def Let_def intro!: wp_bind wp_idle_query idle_fresh idle_answer)

lemma wp_get_turn:
  "wp (subject_for r s k l td) (handleGetTurn c r s k) (handled_well (subject_for r s k l td)) fresh_ghost"
  by (auto simp: handleGetTurn_def Let_def intro!: wp_session_checked wp_bind wp_idle_query idle_fresh idle_answer)

section \<open>Every handler is an instance\<close>

interpretation queue_prompt: handler "subject_for r s k (lease_of b rq_ControllerLease) td" "handleQueuePrompt c r s b"
  for r s k td c b by unfold_locales (rule wp_queue)

interpretation replace_prompt: handler "subject_for r s k (lease_of b rq_ControllerLease) td" "handleReplacePrompt c r s k b"
  for r s k td c b by unfold_locales (rule wp_replace)

interpretation discard_prompt: handler "subject_for r s k (lease_of b rq_ControllerLease) td" "handleDiscardPrompt c r s k b"
  for r s k td c b by unfold_locales (rule wp_discard)

interpretation release: handler "subject_for r s k (lease_of b rq_ControllerLease) td" "handleRelease c r s k b"
  for r s k td c b by unfold_locales (rule wp_release)

interpretation cancel: handler "subject_for r s k (lease_of b rq_ControllerLease) td" "handleCancel c r s k b"
  for r s k td c b by unfold_locales (rule wp_cancel)

interpretation reconcile: handler "subject_for r s k (lease_of b rq_ControllerLease) td" "handleReconcile c r s k b"
  for r s k td c b by unfold_locales (rule wp_reconcile)

interpretation decide: handler "subject_for r [] k (lease_of b rd_ControllerLease) td" "handleRecordDecision c r b"
  for r k td c b by unfold_locales (rule wp_decide)

interpretation connect_session: handler "subject_for r s [] (lease_of b rq_ControllerLease) td" "handleControllerConnect c r s b"
  for r s td c b by unfold_locales (rule wp_connect_session)

interpretation connect_run: handler "subject_for r [] [] (lease_of b rc_ControllerLease) td" "handleRunControllerConnect c r b"
  for r td c b by unfold_locales (rule wp_connect_run)

interpretation disconnect_run:
  handler "subject_for r [] [] (lease_of b dc_ControllerLease) td" "handleRunControllerDisconnect c r b"
  for r td c b by unfold_locales (rule wp_disconnect_run)

interpretation adopt: handler "subject_for r [] [] l td" "handleControllerAdopt c r b"
  for r l td c b by unfold_locales (rule wp_adopt)

interpretation handoff: handler "subject_for r [] [] l td" "handleControllerHandoff c r b"
  for r l td c b by unfold_locales (rule wp_handoff)

interpretation revoke: handler "subject_for r [] [] l td" "handleControllerRevoke c r b"
  for r l td c b by unfold_locales (rule wp_revoke)

interpretation recover: handler "subject_for r [] [] l td" "handleControllerCredentialRecover c r b"
  for r l td c b by unfold_locales (rule wp_recover)

interpretation controller_record: handler "subject_for r [] [] l td" "handleControllerRecordGet c r"
  for r l td c by unfold_locales (rule wp_controller_record)

interpretation get_turn: handler "subject_for r s k l td" "handleGetTurn c r s k"
  for r s k l td c by unfold_locales (rule wp_get_turn)

end
