(* ===== verification/Service_Router.thy ===== *)
theory Service_Router
  imports Service_Contracts
begin

text \<open>
  The routes of the HTTP interface (\<open>newServerWithAdapter\<close> in \<open>internal/service/server.go\<close>) behind the
  bearer token of \<open>internal/service/auth.go\<close>, and with them everything that acts on the shared
  state of an instance: a request being served or the supervisor of a released turn.
\<close>

section \<open>The bearer token\<close>

text \<open>\<open>strings.SplitN\<close> at the first space, the scheme, and the comparison of the token.\<close>

definition bearer_ok :: "string \<Rightarrow> string \<Rightarrow> bool" where
  "bearer_ok token header \<longleftrightarrow>
     (case dropWhile (\<lambda>c. c \<noteq> CHR '' '') header of
        [] \<Rightarrow> False
      | space # presented \<Rightarrow> takeWhile (\<lambda>c. c \<noteq> CHR '' '') header = ''Bearer'' \<and> presented = token)"

definition authMiddleware :: "string \<Rightarrow> string \<Rightarrow> reply proc \<Rightarrow> reply proc" where
  "authMiddleware token header next =
     (if header = [] then answer (Failed 401 ''unauthorized'' [])
      else if \<not> bearer_ok token header then answer (Failed 401 ''unauthorized'' [])
      else next)"

section \<open>Routes\<close>

text \<open>A route with the path values \<open>http.ServeMux\<close> matched and the request body as decoded.\<close>

datatype endpoint =
    PostRelease string string string "SessionRequest option"
  | GetTurn string string string
  | PostCancel string string string "CancelRequest option"
  | PostReconcile string string string "SessionRequest option"
  | PostSessionConnect string string "SessionRequest option"
  | PostConnect string "ControllerConnectRunRequest option"
  | GetController string
  | PostAdopt string "ControllerAdoptRequest option"
  | PostHandoff string "ControllerHandoffRequest option"
  | PostRevoke string "ControllerRevokeRequest option"
  | PostRecover string "ControllerCredentialRecoverRequest option"
  | PostDisconnect string "ControllerDisconnectRunRequest option"
  | PostQueue string string "QueuePromptRequest option"
  | PostReplace string string string "ReplacePromptRequest option"
  | PostDiscard string string string "SessionRequest option"
  | PostDecision string "RecordDecisionRequest option"

fun serve :: "server \<Rightarrow> endpoint \<Rightarrow> reply proc" where
  "serve c (PostRelease r s k b) = handleRelease c r s k b"
| "serve c (GetTurn r s k) = handleGetTurn c r s k"
| "serve c (PostCancel r s k b) = handleCancel c r s k b"
| "serve c (PostReconcile r s k b) = handleReconcile c r s k b"
| "serve c (PostSessionConnect r s b) = handleControllerConnect c r s b"
| "serve c (PostConnect r b) = handleRunControllerConnect c r b"
| "serve c (GetController r) = handleControllerRecordGet c r"
| "serve c (PostAdopt r b) = handleControllerAdopt c r b"
| "serve c (PostHandoff r b) = handleControllerHandoff c r b"
| "serve c (PostRevoke r b) = handleControllerRevoke c r b"
| "serve c (PostRecover r b) = handleControllerCredentialRecover c r b"
| "serve c (PostDisconnect r b) = handleRunControllerDisconnect c r b"
| "serve c (PostQueue r s b) = handleQueuePrompt c r s b"
| "serve c (PostReplace r s k b) = handleReplacePrompt c r s k b"
| "serve c (PostDiscard r s k b) = handleDiscardPrompt c r s k b"
| "serve c (PostDecision r b) = handleRecordDecision c r b"

text \<open>What a request is about: the run, session and turn of its path, the lease of its body.\<close>

fun subject_of :: "bool \<Rightarrow> endpoint \<Rightarrow> subject" where
  "subject_of td (PostRelease r s k b) = subject_for r s k (lease_of b rq_ControllerLease) td"
| "subject_of td (GetTurn r s k) = subject_for r s k [] td"
| "subject_of td (PostCancel r s k b) = subject_for r s k (lease_of b rq_ControllerLease) td"
| "subject_of td (PostReconcile r s k b) = subject_for r s k (lease_of b rq_ControllerLease) td"
| "subject_of td (PostSessionConnect r s b) = subject_for r s [] (lease_of b rq_ControllerLease) td"
| "subject_of td (PostConnect r b) = subject_for r [] [] (lease_of b rc_ControllerLease) td"
| "subject_of td (GetController r) = subject_for r [] [] [] td"
| "subject_of td (PostAdopt r b) = subject_for r [] [] (lease_of b ad_BootstrapLease) td"
| "subject_of td (PostHandoff r b) = subject_for r [] [] (lease_of b ho_CurrentLease) td"
| "subject_of td (PostRevoke r b) = subject_for r [] [] (lease_of b rv_ControllerLease) td"
| "subject_of td (PostRecover r b) = subject_for r [] [] [] td"
| "subject_of td (PostDisconnect r b) = subject_for r [] [] (lease_of b dc_ControllerLease) td"
| "subject_of td (PostQueue r s b) = subject_for r s [] (lease_of b rq_ControllerLease) td"
| "subject_of td (PostReplace r s k b) = subject_for r s k (lease_of b rq_ControllerLease) td"
| "subject_of td (PostDiscard r s k b) = subject_for r s k (lease_of b rq_ControllerLease) td"
| "subject_of td (PostDecision r b) = subject_for r [] [] (lease_of b rd_ControllerLease) td"

lemma sj_Teardown_of [simp]: "sj_Teardown (subject_of td e) = td"
  by (cases e) simp_all

text \<open>A request as it arrives: its authorization header and the route it matched.\<close>

definition handle_request :: "server \<Rightarrow> string \<Rightarrow> string \<Rightarrow> endpoint \<Rightarrow> reply proc" where
  "handle_request c token header e = authMiddleware token header (serve c e)"

lemma serve_keeps_contract: "wp (subject_of td e) (serve c e) (handled_well (subject_of td e)) fresh_ghost"
  by (cases e) (simp_all only: serve.simps subject_of.simps release.keeps_contract get_turn.keeps_contract
      cancel.keeps_contract reconcile.keeps_contract connect_session.keeps_contract connect_run.keeps_contract
      controller_record.keeps_contract adopt.keeps_contract handoff.keeps_contract revoke.keeps_contract
      recover.keeps_contract disconnect_run.keeps_contract queue_prompt.keeps_contract
      replace_prompt.keeps_contract discard_prompt.keeps_contract decide.keeps_contract)

lemma request_keeps_contract:
  "wp (subject_of td e) (handle_request c token header e) (handled_well (subject_of td e)) fresh_ghost"
  using serve_keeps_contract by (simp add: handle_request_def authMiddleware_def)

interpretation request: handler "subject_of td e" "handle_request c token header e" for td e c token header
  by unfold_locales (rule request_keeps_contract)

section \<open>Participants\<close>

text \<open>A request being served or a supervisor at work; its answer is the response or the exit.\<close>

datatype participant = Request string string endpoint | Supervising nat supervisor

definition acting :: "(Event \<Rightarrow> string) \<Rightarrow> server \<Rightarrow> participant \<Rightarrow> (reply + sup_exit) proc" where
  "acting marshal c p = (case p of
       Request token header e \<Rightarrow> bind (handle_request c token header e) (\<lambda>r. Return (Inl r))
     | Supervising n u \<Rightarrow> bind (Run marshal n u) (\<lambda>x. Return (Inr x)))"

text \<open>A supervisor starts with the unit of work the release registered for it.\<close>

definition subject_at :: "bool \<Rightarrow> participant \<Rightarrow> subject" where
  "subject_at td p = (case p of
       Request token header e \<Rightarrow> subject_of td e
     | Supervising n u \<Rightarrow> \<lparr>sj_RunID = su_RunID u, sj_SessionID = su_SessionID u, sj_TurnKey = su_TurnKey u,
         sj_Lease = su_CallerLease u, sj_Worker = su_done u, sj_Teardown = td\<rparr>)"

definition start_ghost :: "participant \<Rightarrow> ghost" where
  "start_ghost p = (case p of Request token header e \<Rightarrow> fresh_ghost
     | Supervising n u \<Rightarrow> fresh_ghost\<lparr>gh_held := [su_done u]\<rparr>)"

definition finished_well :: "subject \<Rightarrow> reply + sup_exit \<Rightarrow> ghost \<Rightarrow> bool" where
  "finished_well j x g = (case x of Inl r \<Rightarrow> handled_well j r g | Inr e \<Rightarrow> gh_held g = [] \<and> exit_ok e g)"

lemma acting_well: "wp (subject_at td p) (acting marshal c p) (finished_well (subject_at td p)) (start_ghost p)"
proof (cases p)
  case (Request token header e)
  show ?thesis unfolding Request acting_def subject_at_def start_ghost_def participant.case
    by (rule wp_bind, rule wp_mono [OF request_keeps_contract]) (simp add: finished_well_def)
next
  case (Supervising n u)
  let ?j = "subject_at td p"
  have s: "supervises ?j u" by (simp add: supervises_def Supervising subject_at_def)
  show ?thesis unfolding Supervising acting_def start_ghost_def participant.case
    by (rule wp_bind, rule wp_mono [OF wp_Run [OF s [unfolded Supervising]]]) (simp_all add: finished_well_def)
qed

section \<open>Reachable states\<close>

definition reachable_service :: "service \<Rightarrow> bool" where
  "reachable_service s \<longleftrightarrow> (\<exists>cs as. proper_run cs \<and> sv_db s = store_run cs empty_db \<and> sv_co s = co_run as NewCoordinator)"

lemma outcomes_ended_empty: "outcomes_ended empty_db"
  by (simp add: outcomes_ended_def empty_db_def)

lemma store_inv_run: "proper_run cs \<Longrightarrow> store_inv d \<Longrightarrow> store_inv (store_run cs d)"
proof (induction cs arbitrary: d)
  case (Cons x cs)
  obtain c now where x: "x = (c, now)" by (cases x)
  have "store_inv (store_step (c, now) d)"
    using Cons.prems store_inv_exec [of d c] by (cases rule: store_step_cases [of c now d]) (simp_all add: x)
  then show ?case using Cons by (simp add: x)
qed simp

lemma reachable_store_inv: "proper_run cs \<Longrightarrow> store_inv (store_run cs empty_db)"
  by (erule store_inv_run) (simp add: store_inv_def exec_inv_empty tables_ok_empty outcomes_ended_empty)

lemma reachable_agrees:
  assumes "reachable_service s" and "\<And>w. w \<in> set (gh_held g) \<Longrightarrow> unretired w (sv_co s)"
    and "gh_held g = [] \<or> sj_Teardown j" and "\<not> gh_settled g" "\<not> gh_cancelled g"
  shows "agrees j g s"
  using assms reachable_store_inv reachable_sound unfolding reachable_service_def agrees_def by auto

lemma act_reachable:
  assumes "reachable_service s" and "case a of Store c \<Rightarrow> proper_op c | Coord x \<Rightarrow> True"
  shows "reachable_service (act now a s)"
proof -
  obtain cs as where r: "proper_run cs" "sv_db s = store_run cs empty_db" "sv_co s = co_run as NewCoordinator"
    using assms(1) by (auto simp: reachable_service_def)
  show ?thesis
  proof (cases a)
    case (Store c)
    then have "proper_run (cs @ [(c, now)])" "sv_db (act now a s) = store_run (cs @ [(c, now)]) empty_db"
      using r assms(2) by (simp_all add: store_run_append)
    moreover have "sv_co (act now a s) = co_run as NewCoordinator" using r(3) by (simp add: Store)
    ultimately show ?thesis unfolding reachable_service_def by (intro exI conjI)
  next
    case (Coord x)
    have "sv_co (act now a s) = co_run (as @ [x]) NewCoordinator" using r by (simp add: Coord)
    moreover have "sv_db (act now a s) = store_run cs empty_db" using r(2) by (simp add: Coord)
    ultimately show ?thesis using r(1) unfolding reachable_service_def by (intro exI conjI)
  qed
qed

lemma run_reachable:
  assumes "agrees j g s" and "wp j p Q g" and "legal j ms g p s" and "run j ms g p s = (h, g', q, t)"
    and "reachable_service s"
  shows "reachable_service t"
  using assms
proof (induction ms arbitrary: g p s h)
  case (Cons m ms)
  show ?case
  proof (cases m)
    case (Outside now a)
    have a: "agrees j g (act now a s)" using Cons.prems agrees_outside by (simp add: Outside)
    have "reachable_service (act now a s)"
      by (rule act_reachable) (use Cons.prems in \<open>auto simp: Outside outside_def split: action.splits\<close>)
    then show ?thesis by (rule Cons.IH [OF a, rotated 3]) (use Cons.prems in \<open>simp_all add: Outside\<close>)
  next
    case (Own i)
    show ?thesis
    proof (cases p)
      case (Return r)
      then show ?thesis using Cons.prems by (intro Cons.IH) (simp_all add: Own)
    next
      case (Step f)
      obtain a u where f: "f i s = (a, u)" by fastforce
      obtain h' where r: "run j ms (observe j i a s g) u (perform i a s) = (h', g', q, t)"
        using Cons.prems(4) by (auto simp: Own Step f split: prod.splits)
      have p: "permitted j a s g" and w: "wp j u Q (observe j i a s g)"
        using Cons.prems(2) [unfolded Step wp_Step, rule_format, OF Cons.prems(1), of i] by (simp_all add: f)
      have again: "reachable_service (perform i a s)"
      proof (cases a)
        case None
        then show ?thesis using Cons.prems(5) by (simp add: perform_def)
      next
        case (Some x)
        then show ?thesis using p act_reachable [OF Cons.prems(5), of x]
          by (simp add: perform_def permitted_def split: action.splits)
      qed
      show ?thesis
        by (rule Cons.IH [OF agrees_own [OF Cons.prems(1) p] w _ r again]) (use Cons.prems(3) in \<open>simp add: Own Step f\<close>)
    qed
  qed
qed simp

text \<open>A blocker the ghost has seen is in the history.\<close>

lemma blocked_history:
  "run j ms g p s = (h, g', q, t) \<Longrightarrow> gh_blocked g' \<Longrightarrow> gh_blocked g \<or> (\<exists>f u. (f, u, Coord CoAddBlocker) \<in> set h)"
proof (induction ms arbitrary: g p s h)
  case (Cons m ms)
  show ?case
  proof (cases m)
    case (Own i)
    show ?thesis
    proof (cases p)
      case (Return r)
      then show ?thesis using Cons by (simp add: Own)
    next
      case (Step f)
      obtain a u where f: "f i s = (a, u)" by fastforce
      obtain h' where r: "run j ms (observe j i a s g) u (perform i a s) = (h', g', q, t)"
        and h: "h = (case a of None \<Rightarrow> h' | Some x \<Rightarrow> (g, s, x) # h')"
        using Cons.prems(1) by (auto simp: Own Step f split: prod.splits)
      from Cons.IH [OF r Cons.prems(2)] show ?thesis
        unfolding h by (auto simp: observe_def Let_def split: option.split)
    qed
  qed (use Cons in simp)
qed simp

end
