(* ===== verification/Service_Guarantees.thy ===== *)
theory Service_Guarantees
  imports Service_Router Store_Scenario
begin

text \<open>
  What a running instance guarantees, for every request and every supervisor in every interleaving
  with the others from every reachable state: decisions only through the gate, terminal events only
  for turns that have ended durably, a supervisor for every turn released, and a supervisor that
  leaves no turn behind silently.
\<close>

section \<open>A participant among the others\<close>

text \<open>A supervisor starts with its unit of work open.\<close>

definition startable :: "participant \<Rightarrow> service \<Rightarrow> bool" where
  "startable p s \<longleftrightarrow> reachable_service s \<and> list_all (\<lambda>w. unretired w (sv_co s)) (gh_held (start_ghost p))"

lemma start_ghost_simps [simp]: "\<not> gh_settled (start_ghost p)" "\<not> gh_cancelled (start_ghost p)"
  "\<not> gh_released (start_ghost p)" "\<not> gh_blocked (start_ghost p)"
  by (cases p; simp add: start_ghost_def fresh_ghost_def)+

lemma subject_at_Teardown [simp]: "sj_Teardown (subject_at td p) = td"
  by (cases p) (simp_all add: subject_at_def)

definition plays :: "bool \<Rightarrow> (Event \<Rightarrow> string) \<Rightarrow> server \<Rightarrow> participant \<Rightarrow> move list \<Rightarrow> service
    \<Rightarrow> (ghost \<times> service \<times> action) list \<times> ghost \<times> (reply + sup_exit) proc \<times> service" where
  "plays td marshal c p ms s = run (subject_at td p) ms (start_ghost p) (acting marshal c p) s"

definition fair :: "bool \<Rightarrow> (Event \<Rightarrow> string) \<Rightarrow> server \<Rightarrow> participant \<Rightarrow> move list \<Rightarrow> service \<Rightarrow> bool" where
  "fair td marshal c p ms s \<longleftrightarrow> legal (subject_at td p) ms (start_ghost p) (acting marshal c p) s"

lemma played:
  assumes "startable p s" and "td \<or> gh_held (start_ghost p) = []" and "fair td marshal c p ms s"
    and "plays td marshal c p ms s = (h, g, q, t)"
  shows "agrees (subject_at td p) g t" and "wp (subject_at td p) q (finished_well (subject_at td p)) g"
    and "\<And>f u a. (f, u, a) \<in> set h \<Longrightarrow> agrees (subject_at td p) f u \<and> permitted (subject_at td p) (Some a) u f"
    and "reachable_service t"
proof -
  have a: "agrees (subject_at td p) (start_ghost p) s"
    by (rule reachable_agrees) (use assms(1,2) in \<open>auto simp: startable_def list_all_iff\<close>)
  note l = assms(3) [unfolded fair_def] and r = assms(4) [unfolded plays_def]
  show "agrees (subject_at td p) g t" "wp (subject_at td p) q (finished_well (subject_at td p)) g"
    "\<And>f u a. (f, u, a) \<in> set h \<Longrightarrow> agrees (subject_at td p) f u \<and> permitted (subject_at td p) (Some a) u f"
    using wp_sound [OF a acting_well l r] by auto
  show "reachable_service t"
    by (rule run_reachable [OF a acting_well l r]) (use assms(1) in \<open>simp add: startable_def\<close>)
qed

lemma observe_released: "gh_released g \<Longrightarrow> gh_released (observe j i a s g)"
  by (simp add: observe_def Let_def)

lemma released_history:
  "run j ms g p s = (h, g', q, t) \<Longrightarrow> (f, u, Store (CmdRelease op l sid v k)) \<in> set h \<Longrightarrow> journal_row op (sv_db u) = None \<Longrightarrow>
   gh_released g'"
proof -
  have kept: "gh_released g \<Longrightarrow> run j ms g p s = (h, g', q, t) \<Longrightarrow> gh_released g'" for ms g p s h
  proof (induction ms arbitrary: g p s h)
    case (Cons m ms)
    show ?case
    proof (cases m)
      case (Own i)
      show ?thesis
      proof (cases p)
        case (Return r)
        then show ?thesis using Cons by (simp add: Own)
      next
        case (Step w)
        then show ?thesis using Cons.prems Cons.IH [OF observe_released] by (auto simp: Own split: prod.splits)
      qed
    qed (use Cons in simp)
  qed simp
  show "run j ms g p s = (h, g', q, t) \<Longrightarrow> (f, u, Store (CmdRelease op l sid v k)) \<in> set h \<Longrightarrow>
      journal_row op (sv_db u) = None \<Longrightarrow> gh_released g'"
  proof (induction ms arbitrary: g p s h)
    case (Cons m ms)
    show ?case
    proof (cases m)
      case (Own i)
      show ?thesis
      proof (cases p)
        case (Return r)
        then show ?thesis using Cons by (simp add: Own)
      next
        case (Step w)
        obtain a b where f: "w i s = (a, b)" by fastforce
        obtain h' where r: "run j ms (observe j i a s g) b (perform i a s) = (h', g', q, t)"
          and h: "h = (case a of None \<Rightarrow> h' | Some x \<Rightarrow> (g, s, x) # h')"
          using Cons.prems(1) by (auto simp: Own Step f split: prod.splits)
        show ?thesis
        proof (cases "(f, u, Store (CmdRelease op l sid v k)) \<in> set h'")
          case True
          then show ?thesis using Cons.IH [OF r] Cons.prems(3) by blast
        next
          case False
          then have "a = Some (Store (CmdRelease op l sid v k))" "u = s"
            using Cons.prems(2) by (auto simp: h split: option.splits)
          then have "gh_released (observe j i a s g)"
            using Cons.prems(3) by (simp add: observe_def Let_def releases_anew_def)
          then show ?thesis by (rule kept [OF _ r])
        qed
      qed
    qed (use Cons in simp)
  qed simp
qed

section \<open>A concrete instance\<close>

text \<open>Its processes run step by step.\<close>

lemma bind_assoc: "bind (bind p k) l = bind p (\<lambda>x. bind (k x) l)"
  by (induction p rule: proc_induct) (simp_all add: fun_eq_iff prod_eq_iff)

lemma bind_atomically: "bind (atomically f) k = Step (\<lambda>i s. map_prod id k (f i s))"
  by (simp add: atomically_def prod.map_comp comp_def id_def)

lemma run_atomically:
  "run j (Own i # ms) g (bind (atomically f) k) s =
     (case f i s of (a, r) \<Rightarrow> case run j ms (observe j i a s g) (k r) (perform i a s) of (h, rest) \<Rightarrow>
        ((case a of None \<Rightarrow> h | Some x \<Rightarrow> (g, s, x) # h), rest))"
  by (simp add: bind_atomically split: prod.split)

definition demo_usage :: ExecutionUsage where
  "demo_usage =
     \<lparr>InputTokens = \<lparr>um_Value = 0, um_Available = False, um_Estimated = False\<rparr>,
      OutputTokens = \<lparr>um_Value = 0, um_Available = False, um_Estimated = False\<rparr>,
      TotalCostUSD = \<lparr>um_Value = FloatFinite 0 0, um_Available = False, um_Estimated = False\<rparr>\<rparr>"

text \<open>The adapter accepts every dispatch and answers with the result of the turn; the disk works.\<close>

definition demo_inputs :: inputs where
  "demo_inputs = \<lparr>in_now = 6, in_fault = None, in_random = [],
     in_dispatch = (\<lambda>ref prompt. (\<lparr>do_Ref = ref, do_Status = DispatchAccepted, do_Reason = []\<rparr>, None)),
     in_observe = (\<lambda>ref. None),
     in_collect = (\<lambda>ref. Inr \<lparr>res_Ref = ref, res_Status = TurnCompleted, res_ResultStatus = ResultAvailable,
       res_Output = ''ok'', res_RawEvidence = [], res_Usage = demo_usage, res_CompletedAt = 6\<rparr>),
     in_cancel = (\<lambda>ref. Inl ''unavailable''), in_resume = (\<lambda>b. None), in_reconcile = (\<lambda>ref. Inl ''unavailable'')\<rparr>"

text \<open>A write of which the disk loses the transaction.\<close>

definition demo_fault :: inputs where
  "demo_fault = demo_inputs\<lparr>in_fault := Some ''disk full''\<rparr>"

lemma demo_inputs_simps [simp]: "in_fault demo_inputs = None" "in_now demo_inputs = 6"
  "in_dispatch demo_inputs = (\<lambda>ref prompt. (\<lparr>do_Ref = ref, do_Status = DispatchAccepted, do_Reason = []\<rparr>, None))"
  "in_observe demo_inputs = (\<lambda>ref. None)"
  "in_collect demo_inputs = (\<lambda>ref. Inr \<lparr>res_Ref = ref, res_Status = TurnCompleted, res_ResultStatus = ResultAvailable,
     res_Output = ''ok'', res_RawEvidence = [], res_Usage = demo_usage, res_CompletedAt = 6\<rparr>)"
  "in_fault demo_fault = Some ''disk full''"
  by (simp_all add: demo_inputs_def demo_fault_def)

lemma run_query:
  "run j (Own demo_inputs # ms) g (bind (query f) k) s =
     run j ms (observe j demo_inputs None s g) (k (f (sv_db s))) s"
  by (simp add: query_def run_atomically perform_def split: prod.split)

lemma run_inspect:
  "run j (Own demo_inputs # ms) g (bind (inspect f) k) s =
     run j ms (observe j demo_inputs None s g) (k (f (sv_co s))) s"
  by (simp add: inspect_def run_atomically perform_def split: prod.split)

lemma run_ask:
  "run j (Own demo_inputs # ms) g (bind (ask f) k) s = run j ms (observe j demo_inputs None s g) (k (f demo_inputs)) s"
  by (simp add: ask_def run_atomically perform_def split: prod.split)

lemma run_admission:
  "run j (Own demo_inputs # ms) g (bind (admission a f) k) s =
     (case f (sv_co s) of
        Inl e \<Rightarrow> run j ms (observe j demo_inputs None s g) (k (Inl e)) s
      | Inr (w, c) \<Rightarrow> (case run j ms (observe j demo_inputs (Some (Coord a)) s g) (k (Inr w)) (act 6 (Coord a) s) of
          (h, rest) \<Rightarrow> ((g, s, Coord a) # h, rest)))"
  by (simp add: admission_def run_atomically perform_def split: prod.split sum.split)

lemma run_signal:
  "run j (Own demo_inputs # ms) g (bind (signal a) k) s =
     (case run j ms (observe j demo_inputs (Some (Coord a)) s g) (k ()) (act 6 (Coord a) s) of
          (h, rest) \<Rightarrow> ((g, s, Coord a) # h, rest))"
  by (simp add: signal_def run_atomically perform_def split: prod.split)

lemma run_track_commit:
  "run j (Own demo_inputs # ms) g (bind track_commit k) s =
     (case run j ms (observe j demo_inputs (Some (Coord CoCommit)) s g) (k (fst (TrackCommit (sv_co s)))) (act 6 (Coord CoCommit) s) of
          (h, rest) \<Rightarrow> ((g, s, Coord CoCommit) # h, rest))"
  by (simp add: track_commit_def run_atomically perform_def split: prod.split)

lemma run_command:
  "run j (Own demo_inputs # ms) g (bind (command c) k) s =
     (case store_exec c 6 (sv_db s) of
        Inl e \<Rightarrow> run j ms (observe j demo_inputs None s g) (k (Inl e)) s
      | Inr (r, d) \<Rightarrow> (case run j ms (observe j demo_inputs (Some (Store c)) s g) (k (Inr r)) (s\<lparr>sv_db := d\<rparr>) of
          (h, rest) \<Rightarrow> ((g, s, Store c) # h, rest)))"
  by (simp add: command_def run_atomically perform_def split: prod.split sum.split)

lemma run_lost:
  "run j (Own demo_fault # ms) g (bind (command c) k) s =
     run j ms (observe j demo_fault None s g) (k (Inl (ErrMsg ''disk full''))) s"
  by (simp add: command_def run_atomically perform_def split: prod.split)

lemmas run_rules = run_query run_inspect run_ask run_admission run_signal run_track_commit run_command run_lost
  bind_assoc bind.simps(1)

lemma legal_own: "list_all (\<lambda>m. case m of Own i \<Rightarrow> True | Outside now a \<Rightarrow> False) ms \<Longrightarrow> legal j ms g p s"
proof (induction ms arbitrary: g p s)
  case (Cons m ms)
  then show ?case by (cases m; cases p) (auto split: prod.split)
qed simp

subsection \<open>A release\<close>

definition demo_server :: server where
  "demo_server = \<lparr>sc_InstanceID = ''i'', sc_has_adapter = True, sc_agyAwaiting = False,
     sc_expected_tools = (\<lambda>r d. Inr None)\<rparr>"

definition demo_request :: SessionRequest where
  "demo_request = \<lparr>rq_InstanceID = ''i'', rq_OpID = ''o6'', rq_ControllerLease = ''k'', rq_ExpectedVersion = 2\<rparr>"

lemma demo_fields [simp]:
  "sc_InstanceID demo_server = ''i''" "sc_has_adapter demo_server" "\<not> sc_agyAwaiting demo_server"
  "rq_InstanceID demo_request = ''i''" "rq_OpID demo_request = ''o6''" "rq_ControllerLease demo_request = ''k''"
  "rq_ExpectedVersion demo_request = 2"
  by (simp_all add: demo_server_def demo_request_def)

text \<open>While another request is being served.\<close>

definition demo_service :: service where
  "demo_service = \<lparr>sv_db = demo_db, sv_co = co_run [CoMark ''r'' 1 ''a'' ''i'' 1] NewCoordinator\<rparr>"

definition demo_moves :: "move list" where
  "demo_moves = (let m = Own demo_inputs in Outside 5 (Coord CoControl) # [m, m, m, m, m, m, m, m, m])"

lemma demo_queued_proper: "proper_run demo_queued"
  by (simp add: demo_queued_def demo_adopted_def demo_session_def proper_session_def)

lemma demo_reachable: "reachable_service demo_service"
  unfolding reachable_service_def
  by (rule exI [of _ demo_queued], rule exI [of _ "[CoMark ''r'' 1 ''a'' ''i'' 1]"])
    (simp add: demo_queued_proper demo_queued_db demo_service_def)

lemma demo_trim [simp]: "TrimSpace ''r'' = ''r''" "TrimSpace ''s'' = ''s''" "TrimSpace ''t'' = ''t''"
  "bearer_ok ''tok'' ''Bearer tok''"
  by code_simp+

lemma demo_reads [simp]: "ValidateSessionRun ''s'' ''r'' demo_db = None"
  "FindCommittedRelease ''o6'' ''k'' ''s'' ''t'' demo_db = Inr None"
  "ValidateControllerLease ''s'' ''k'' demo_db = None"
  by (simp_all add: ValidateSessionRun_def FindCommittedRelease_def ValidateControllerLease_def store_eval demo_db_eval)

lemma demo_recorded: "\<exists>r. GetControllerRecord ''r'' demo_db = Inr r \<and> cr_Adopted r \<and> cr_Connected r \<and>
    cr_Generation r = 1 \<and> cr_AttachmentID r = ''a''"
  by (simp add: GetControllerRecord_def row_defs record_lease_def no_controller_def store_eval demo_db_eval)

lemma demo_state: "sv_db demo_service = demo_db"
  "sv_co demo_service = NewCoordinator\<lparr>co_attachments :=
     [''r'' \<mapsto> \<lparr>at_generation = 1, at_attachmentID = ''a'', at_instanceID = ''i'', at_revision = 1\<rparr>]\<rparr>"
  by (simp_all add: demo_service_def MarkControllerAttached_def NewCoordinator_def)

abbreviation demo_posted :: participant where
  "demo_posted \<equiv> Request ''tok'' ''Bearer tok'' (PostRelease ''r'' ''s'' ''t'' (Some demo_request))"

lemma demo_startable: "startable demo_posted demo_service"
  by (simp add: startable_def demo_reachable start_ghost_def fresh_ghost_def)

lemma demo_fair: "fair td m demo_server demo_posted demo_moves demo_service"
  by (simp add: fair_def demo_moves_def Let_def outside_def legal_own)

lemma demo_release_run:
  obtains h g r x t f u where "plays td m demo_server demo_posted demo_moves demo_service = (h, g, Return (Inl (r, Some x)), t)"
    "(f, u, Store demo_release) \<in> set h" "sv_db u = demo_db"
proof -
  have "\<exists>h g r x t f u. plays td m demo_server demo_posted demo_moves demo_service = (h, g, Return (Inl (r, Some x)), t) \<and>
      (f, u, Store demo_release) \<in> set h \<and> sv_db u = demo_db"
    using demo_recorded demo_released [unfolded demo_release_def]
    apply (elim exE conjE)
    apply (simp add: plays_def acting_def handle_request_def authMiddleware_def handleRelease_def demo_moves_def Let_def
        session_checked_def to_query_def run_rules demo_state TrackControl_def admitted_def admit_def NewCoordinator_def)
    apply (simp add: admit_release_def run_rules AdmitRelease_def demo_state NewCoordinator_def admit_def admitted_def
        deferring_def gated_def requireConnectedController_def to_query_def connected_here_def attached_here_def
        ControllerAttachedEpisode_def agyAwaitingForSession_def release_handoff_def register_worker_def
        RegisterWorker_def retire_def demo_release_def)
    done
  then show ?thesis using that by blast
qed

subsection \<open>A supervised turn\<close>

definition demo_supervisor :: supervisor where
  "demo_supervisor = \<lparr>su_RunID = ''r'', su_SessionID = ''s'', su_TurnKey = ''t'', su_CallerLease = ''k'',
     su_ExpectedVersion = 3, su_Receipt = demo_receipt, su_done = 0\<rparr>"

definition demo_released_service :: service where
  "demo_released_service = \<lparr>sv_db = demo_db2, sv_co = co_run [CoRegister \<lparr>ref_SessionID = ''s'', ref_TurnKey = ''t''\<rparr>] NewCoordinator\<rparr>"

abbreviation demo_supervising :: participant where
  "demo_supervising \<equiv> Supervising 1 demo_supervisor"

lemma demo_supervisor_simps [simp]: "su_SessionID demo_supervisor = ''s''" "su_TurnKey demo_supervisor = ''t''"
  "su_Receipt demo_supervisor = demo_receipt" "su_done demo_supervisor = 0"
  by (simp_all add: demo_supervisor_def)

text \<open>The acknowledgement of the dispatch is lost; the outcome is not.\<close>

definition demo_supervision :: "move list" where
  "demo_supervision = (let m = Own demo_inputs in [m, m, m, Own demo_fault, m, m, m, m, m, m, m, m, m, m])"

lemma demo_outcome: "\<exists>r d. store_exec (CmdOutcome ''op-term-s-t-att_3_t''
    \<lparr>er_SessionID = ''s'', er_TurnKey = ''t'', er_AttemptID = ''att_3_t''\<rparr> TurnCompleted ''ok'') 6 demo_db2 = Inr (r, d)"
  by (simp add: outcome_eval store_eval demo_db2_eval)

lemma demo_supervised_startable: "startable demo_supervising demo_released_service"
proof -
  have "reachable_service demo_released_service" unfolding reachable_service_def
    by (rule exI [of _ demo_running], rule exI [of _ "[CoRegister \<lparr>ref_SessionID = ''s'', ref_TurnKey = ''t''\<rparr>]"])
      (simp add: demo_running_db demo_released_service_def)
  then show ?thesis
    by (simp add: startable_def start_ghost_def demo_supervisor_def demo_released_service_def unretired_def
        RegisterWorker_def admitted_def admit_def NewCoordinator_def)
qed

lemma demo_supervised_fair: "fair td m demo_server demo_supervising demo_supervision demo_released_service"
  by (simp add: fair_def demo_supervision_def Let_def legal_own)

lemma demo_turn [simp]: "GetTurnPrompt ''s'' ''t'' demo_db2 = Inr ''go''" "rr_AttemptID demo_receipt = ''att_3_t''"
  "\<exists>x. GetTurnDetails ''s'' ''t'' demo_db2 = Some x \<and> \<not> isTerminal (td_Status x)"
  by (simp_all add: GetTurnPrompt_def GetTurnDetails_def isTerminal_def row_defs is_row_defs demo_db2_eval)

lemma demo_supervised_run:
  obtains h g t f u ev where "plays td m demo_server demo_supervising demo_supervision demo_released_service =
      (h, g, Return (Inr ExitRecorded), t)"
    "(f, u, Coord (CoBroadcast \<lparr>ref_SessionID = ''s'', ref_TurnKey = ''t''\<rparr> ev)) \<in> set h" "sse_Event ev = ''terminal''"
proof -
  have "\<exists>h g t f u ev. plays td m demo_server demo_supervising demo_supervision demo_released_service =
      (h, g, Return (Inr ExitRecorded), t) \<and>
    (f, u, Coord (CoBroadcast \<lparr>ref_SessionID = ''s'', ref_TurnKey = ''t''\<rparr> ev)) \<in> set h \<and> sse_Event ev = ''terminal''"
    using demo_outcome demo_turn(3)
    apply (elim exE conjE)
    apply (simp add: plays_def acting_def Run_def supervise_def demo_supervision_def Let_def run_rules context_done_def
        demo_released_service_def worker_cancelled_def RegisterWorker_def admitted_def admit_def NewCoordinator_def
        deferring_def)
    apply (simp add: run_rules dispatched_def observe_and_collect_def turnAlreadyCommittedTerminal_def context_done_def
        worker_cancelled_def isTerminalTurnStatus_def commit_result_def recordTerminalOutcomeWithRetry_def
        record_attempts.simps(2) [where n = 9, simplified] supervisor_ref_def supervisor_op_def supervisor_attempt_def
        supervisor_exec_ref_def TrackCommit_def admit_def deferring_def retire_def BroadcastEvent_def terminal_event_def)
    done
  then show ?thesis using that by blast
qed

section \<open>Writes and decisions\<close>



section \<open>Terminal events\<close>



section \<open>Released turns are supervised\<close>

text \<open>C32 A turn released anew is never without a supervisor while the service is up: when the request
  has been answered, it has started the supervisor of that very turn, whose unit of work is open, so
  the service neither has stopped nor can stop idle; and every other unit the request was admitted
  for is retired. (Only a teardown may come in between.)\<close>

theorem released_turn_is_supervised:
  assumes "startable (Request token header e) s" and "fair False marshal c (Request token header e) ms s"
    and "plays False marshal c (Request token header e) ms s = (h, g, Return (Inl (r, started)), t)"
    and "(f, u, Store (CmdRelease op l sid v k)) \<in> set h" and "journal_row op (sv_db u) = None"
  shows "\<exists>x. started = Some x \<and> su_SessionID x = sid \<and> su_TurnKey x = k \<and> unretired (su_done x) (sv_co t) \<and>
    gh_held g = [su_done x] \<and> \<not> fst (TryStopIdle (sv_co t)) \<and> co_state (sv_co t) \<noteq> ServiceStateStopping \<and>
    startable (Supervising n x) t"
proof -
  let ?p = "Request token header e" let ?j = "subject_at False ?p"
  have e: "False \<or> gh_held (start_ghost ?p) = []" by (simp add: start_ghost_def fresh_ghost_def)
  have a: "agrees ?j g t" and w: "finished_well ?j (Inl (r, started)) g" and rc: "reachable_service t"
    using played(1,2,4) [OF assms(1) e assms(2,3)] by simp_all
  have "concerns ?j (CmdRelease op l sid v k)"
    using played(3) [OF assms(1) e assms(2,3,4)] by (simp add: permitted_def)
  moreover have "gh_released g" by (rule released_history [OF assms(3) [unfolded plays_def] assms(4,5)])
  ultimately obtain x where x: "started = Some x" "gh_held g = [su_done x]" "su_SessionID x = sid" "su_TurnKey x = k"
    using w by (auto simp: finished_well_def handled_well_def for_turn_def)
  have u: "unretired (su_done x) (sv_co t)" "co_state (sv_co t) \<noteq> ServiceStateStopping"
    using a x(2) by (simp_all add: agrees_def)
  moreover have "\<not> fst (TryStopIdle (sv_co t))"
    by (rule unretired_busy [OF _ u(1)]) (use a in \<open>simp add: agrees_def sound_def\<close>)
  moreover have "startable (Supervising n x) t" using rc u(1) by (simp add: startable_def start_ghost_def)
  ultimately show ?thesis using x by blast
qed

lemma released_turn_is_supervised_witness:
  "\<exists>(x :: supervisor) (t :: service). su_SessionID x = ''s'' \<and> su_TurnKey x = ''t'' \<and> unretired (su_done x) (sv_co t) \<and> \<not> fst (TryStopIdle (sv_co t))"
proof -
  obtain h g r x t f u where run: "plays False (\<lambda>e. []) demo_server demo_posted demo_moves demo_service =
      (h, g, Return (Inl (r, Some x)), t)" "(f, u, Store demo_release) \<in> set h" "sv_db u = demo_db"
    by (rule demo_release_run)
  have "journal_row ''o6'' demo_db = None" by (simp add: row_defs demo_db_eval)
  with released_turn_is_supervised [OF demo_startable demo_fair run(1) run(2) [unfolded demo_release_def]] run(3)
  show ?thesis by auto
qed

section \<open>Supervisors leave nothing behind\<close>



end
