(* ===== verification/Toolkit_Manifest.thy ===== *)
theory Toolkit_Manifest
  imports Go_Decode
begin

text \<open>
  The frozen toolkit policy of a run, \<open>internal/storage/toolkit_manifest.go\<close>: the manifest record and
  the checks of its paths, digests and lists. The value of a check is its error, if any. The
  profile that carries the manifest is in \<open>Run_Profile\<close>.
\<close>

record ToolkitManifest =
  tm_ProbedCLIVersion :: string
  tm_UniverseEvidencePath :: string
  tm_UniverseEvidenceDigest :: string
  tm_ApprovedTools :: "string list"
  tm_DeniedComplement :: "string list"
  tm_ExpectedHooks :: "string list"
  tm_ExpectedSkills :: "string list"
  tm_ExpectedPlugins :: "string list"
  tm_TurnsBound :: int

text \<open>\<open>strings.Split\<close> on one byte: one part more than there are separators.\<close>

fun split_on :: "char \<Rightarrow> string \<Rightarrow> string list" where
  "split_on c [] = [[]]"
| "split_on c (d # s) =
     (if d = c then [] # split_on c s
      else (case split_on c s of [] \<Rightarrow> [[d]] | p # ps \<Rightarrow> (d # p) # ps))"

definition validateUniverseEvidencePath :: "string \<Rightarrow> string option" where
  "validateUniverseEvidencePath p =
     (let s = TrimSpace p in
      if s = [] then Some ''universe_evidence_path is required''
      else if starts_with ''/'' s \<or> starts_with ''./'' s \<or> starts_with ''../'' s \<or> s = ''..'' \<or> Contains s [CHR 0x5C]
        then Some ''universe_evidence_path must be repo-relative with forward slashes''
      else if list_ex (\<lambda>q. q = [] \<or> q = ''.'' \<or> q = ''..'') (split_on (CHR ''/'') s)
        then Some ''universe_evidence_path contains invalid path components''
      else None)"

definition hex_lower :: "char \<Rightarrow> bool" where
  "hex_lower c \<longleftrightarrow> CHR ''0'' \<le> c \<and> c \<le> CHR ''9'' \<or> CHR ''a'' \<le> c \<and> c \<le> CHR ''f''"

definition ValidateSHA256Digest :: "string \<Rightarrow> string option" where
  "ValidateSHA256Digest d =
     (if \<not> starts_with ''sha256:'' d then Some ''must be sha256:<64 lowercase hex>''
      else if length (drop 7 d) \<noteq> 64 then Some ''must be sha256:<64 lowercase hex>''
      else if \<not> list_all hex_lower (drop 7 d) then Some ''must be sha256:<64 lowercase hex>''
      else None)"

fun manifest_items :: "string set \<Rightarrow> string list \<Rightarrow> string option" where
  "manifest_items seen [] = None"
| "manifest_items seen (item # rest) =
     (let s = TrimSpace item in
      if s = [] then Some ''entry is empty after trim''
      else if s \<in> seen then Some ''contains duplicate entry''
      else manifest_items (insert s seen) rest)"

definition validateManifestList :: "string list \<Rightarrow> bool \<Rightarrow> string option" where
  "validateManifestList items required =
     (case manifest_items {} items of
        Some e \<Rightarrow> Some e
      | None \<Rightarrow> if required \<and> items = [] then Some ''must not be empty'' else None)"

lemma manifest_items_None:
  "manifest_items seen items = None \<longleftrightarrow>
     list_all (\<lambda>i. \<not> blank i \<and> TrimSpace i \<notin> seen) items \<and> distinct (map TrimSpace items)"
proof (induction items arbitrary: seen)
  case (Cons a items)
  have "TrimSpace a \<notin> TrimSpace ` set items \<longleftrightarrow> (\<forall>i \<in> set items. TrimSpace i \<noteq> TrimSpace a)" by (auto simp: image_iff)
  then show ?case by (auto simp: blank_def Let_def list_all_iff Cons.IH)
qed simp

lemma validateManifestList_None:
  "validateManifestList items required = None \<longleftrightarrow>
     list_all (\<lambda>i. \<not> blank i) items \<and> distinct (map TrimSpace items) \<and> (required \<longrightarrow> items \<noteq> [])"
  using manifest_items_None [of "{}" items] by (cases "manifest_items {} items") (auto simp: validateManifestList_def list_all_iff)

lemma ValidateSHA256Digest_None:
  "ValidateSHA256Digest d = None \<longleftrightarrow> (\<exists>h. d = ''sha256:'' @ h \<and> length h = 64 \<and> list_all hex_lower h)"
  by (auto simp: ValidateSHA256Digest_def starts_with_iff)

end
