(* ===== verification/Claude_Stream.thy ===== *)
theory Claude_Stream
  imports Toolkit_Manifest
begin

text \<open>
  The stream parser of the Claude adapter, \<open>internal/adapter/claude/stream.go\<close>: one pass over the
  standard output of a turn's process, a JSON object per line, validated against what was frozen for
  the run. The reader is its bytes and whether it ends in an error instead of the end of file.
  Reasons are given without the values they mention.
\<close>

section \<open>Data\<close>

datatype StreamEventType = SEProgress | SEToolRequested | SEToolDenied | SETerminal

datatype DenialClass = DenialApprovalDenied | DenialGuardrail | DenialToolDisabled

record StreamConfig =
  sc_WorkspaceRoot :: string
  sc_ExpectedVersion :: string
  sc_ExpectedModelIdentity :: string
  sc_ExpectedSessionID :: string
  sc_Manifest :: ToolkitManifest
  sc_UniverseTools :: "string list"
  sc_MaxLineBytes :: int
  sc_MaxTotalBytes :: int

record StreamEvent =
  se_Type :: StreamEventType
  se_DeniedClass :: "DenialClass option"
  se_ToolName :: string
  se_Text :: string

record InitReport =
  ir_SessionID :: string
  ir_Version :: string
  ir_Model :: string
  ir_PermissionMode :: string
  ir_Cwd :: string
  ir_Tools :: "string list"
  ir_Skills :: "string list"
  ir_Plugins :: "string list"
  ir_HooksSeen :: "string list"
  ir_APIKeySource :: string

record ResultUsage =
  ru_Subtype :: string
  ru_IsError :: bool
  ru_DurationAPIms :: int
  ru_TotalCostUSD :: string
  ru_Raw :: string

record StreamOutcome =
  so_Terminal :: bool
  so_Completed :: bool
  so_ResultText :: string
  so_ResultUsage :: "ResultUsage option"
  so_SessionID :: string
  so_Poisoned :: bool
  so_PoisonReason :: string
  so_Init :: "InitReport option"
  so_TerminalEventEmitted :: bool

definition empty_outcome :: StreamOutcome where
  "empty_outcome = \<lparr>so_Terminal = False, so_Completed = False, so_ResultText = [], so_ResultUsage = None,
     so_SessionID = [], so_Poisoned = False, so_PoisonReason = [], so_Init = None, so_TerminalEventEmitted = False\<rparr>"

section \<open>A line\<close>

record messageEnvelope =
  me_Role :: string
  me_Content :: string

record nativeEvent =
  ev_Type :: string
  ev_Subtype :: string
  ev_SessionID :: string
  ev_HookName :: string
  ev_Cwd :: string
  ev_Version :: string
  ev_Model :: string
  ev_PermMode :: string
  ev_APIKeySrc :: string
  ev_Tools :: "string list"
  ev_Skills :: "string list"
  ev_Plugins :: "string list"
  ev_Message :: messageEnvelope
  ev_Result :: string
  ev_IsError :: bool
  ev_DurationAPIMs :: int
  ev_TotalCostUSD :: string

definition empty_event :: nativeEvent where
  "empty_event = \<lparr>ev_Type = [], ev_Subtype = [], ev_SessionID = [], ev_HookName = [], ev_Cwd = [], ev_Version = [],
     ev_Model = [], ev_PermMode = [], ev_APIKeySrc = [], ev_Tools = [], ev_Skills = [], ev_Plugins = [],
     ev_Message = \<lparr>me_Role = [], me_Content = []\<rparr>, ev_Result = [], ev_IsError = False, ev_DurationAPIMs = 0,
     ev_TotalCostUSD = ''0''\<rparr>"

definition strings_of :: "string \<Rightarrow> string list option" where
  "strings_of raw = to_list (\<lambda>r. to_string r []) raw"

definition message_field :: "string \<Rightarrow> string \<Rightarrow> messageEnvelope \<Rightarrow> messageEnvelope option" where
  "message_field k raw m =
     (if k = ''role'' then map_option (\<lambda>x. m\<lparr>me_Role := x\<rparr>) (to_string raw (me_Role m))
      else if k = ''content'' then Some (m\<lparr>me_Content := raw\<rparr>)
      else Some m)"

text \<open>\<open>pluginRef\<close> has a single field, its name.\<close>

definition plugin_field :: "string \<Rightarrow> string \<Rightarrow> string \<Rightarrow> string option" where
  "plugin_field k raw p = (if k = ''name'' then to_string raw p else Some p)"

definition native_field :: "string \<Rightarrow> string \<Rightarrow> nativeEvent \<Rightarrow> nativeEvent option" where
  "native_field k raw ev =
     (if k = ''type'' then map_option (\<lambda>x. ev\<lparr>ev_Type := x\<rparr>) (to_string raw (ev_Type ev))
      else if k = ''subtype'' then map_option (\<lambda>x. ev\<lparr>ev_Subtype := x\<rparr>) (to_string raw (ev_Subtype ev))
      else if k = ''session_id'' then map_option (\<lambda>x. ev\<lparr>ev_SessionID := x\<rparr>) (to_string raw (ev_SessionID ev))
      else if k = ''hook_name'' then map_option (\<lambda>x. ev\<lparr>ev_HookName := x\<rparr>) (to_string raw (ev_HookName ev))
      else if k = ''cwd'' then map_option (\<lambda>x. ev\<lparr>ev_Cwd := x\<rparr>) (to_string raw (ev_Cwd ev))
      else if k = ''claude_code_version'' then map_option (\<lambda>x. ev\<lparr>ev_Version := x\<rparr>) (to_string raw (ev_Version ev))
      else if k = ''model'' then map_option (\<lambda>x. ev\<lparr>ev_Model := x\<rparr>) (to_string raw (ev_Model ev))
      else if k = ''permissionmode'' then map_option (\<lambda>x. ev\<lparr>ev_PermMode := x\<rparr>) (to_string raw (ev_PermMode ev))
      else if k = ''apikeysource'' then map_option (\<lambda>x. ev\<lparr>ev_APIKeySrc := x\<rparr>) (to_string raw (ev_APIKeySrc ev))
      else if k = ''tools'' then map_option (\<lambda>x. ev\<lparr>ev_Tools := x\<rparr>) (strings_of raw)
      else if k = ''skills'' then map_option (\<lambda>x. ev\<lparr>ev_Skills := x\<rparr>) (strings_of raw)
      else if k = ''plugins'' then
        map_option (\<lambda>x. ev\<lparr>ev_Plugins := x\<rparr>) (to_list (\<lambda>r. to_struct plugin_field r []) raw)
      else if k = ''message'' then
        map_option (\<lambda>x. ev\<lparr>ev_Message := x\<rparr>) (to_struct message_field raw (ev_Message ev))
      else if k = ''result'' then map_option (\<lambda>x. ev\<lparr>ev_Result := x\<rparr>) (to_string raw (ev_Result ev))
      else if k = ''is_error'' then map_option (\<lambda>x. ev\<lparr>ev_IsError := x\<rparr>) (to_bool raw (ev_IsError ev))
      else if k = ''duration_api_ms'' then
        map_option (\<lambda>x. ev\<lparr>ev_DurationAPIMs := x\<rparr>) (to_int64 raw (ev_DurationAPIMs ev))
      else if k = ''total_cost_usd'' then
        map_option (\<lambda>x. ev\<lparr>ev_TotalCostUSD := x\<rparr>) (to_float raw (ev_TotalCostUSD ev))
      else Some ev)"

definition decode_event :: "string \<Rightarrow> nativeEvent option" where
  "decode_event trimmed = to_struct native_field trimmed empty_event"

record contentBlock =
  cb_Type :: string
  cb_Text :: string
  cb_Name :: string
  cb_ID :: string
  cb_ToolUseID :: string
  cb_IsError :: bool
  cb_Content :: string

definition empty_block :: contentBlock where
  "empty_block = \<lparr>cb_Type = [], cb_Text = [], cb_Name = [], cb_ID = [], cb_ToolUseID = [], cb_IsError = False, cb_Content = []\<rparr>"

definition block_field :: "string \<Rightarrow> string \<Rightarrow> contentBlock \<Rightarrow> contentBlock option" where
  "block_field k raw b =
     (if k = ''type'' then map_option (\<lambda>x. b\<lparr>cb_Type := x\<rparr>) (to_string raw (cb_Type b))
      else if k = ''text'' then map_option (\<lambda>x. b\<lparr>cb_Text := x\<rparr>) (to_string raw (cb_Text b))
      else if k = ''name'' then map_option (\<lambda>x. b\<lparr>cb_Name := x\<rparr>) (to_string raw (cb_Name b))
      else if k = ''id'' then map_option (\<lambda>x. b\<lparr>cb_ID := x\<rparr>) (to_string raw (cb_ID b))
      else if k = ''tool_use_id'' then map_option (\<lambda>x. b\<lparr>cb_ToolUseID := x\<rparr>) (to_string raw (cb_ToolUseID b))
      else if k = ''is_error'' then map_option (\<lambda>x. b\<lparr>cb_IsError := x\<rparr>) (to_bool raw (cb_IsError b))
      else if k = ''content'' then Some (b\<lparr>cb_Content := raw\<rparr>)
      else Some b)"

definition blocks_of :: "string \<Rightarrow> contentBlock list option" where
  "blocks_of raw = to_list (\<lambda>r. to_struct block_field r empty_block) raw"

text \<open>The blocks of a message, none when it has no content.\<close>

definition message_blocks :: "nativeEvent \<Rightarrow> contentBlock list option" where
  "message_blocks ev = (if me_Content (ev_Message ev) = [] then Some [] else blocks_of (me_Content (ev_Message ev)))"

fun join_with :: "string \<Rightarrow> string list \<Rightarrow> string" where
  "join_with sep [] = []"
| "join_with sep [p] = p"
| "join_with sep (p # ps) = p @ sep @ join_with sep ps"

definition textOf :: "string \<Rightarrow> string" where
  "textOf content =
     (case to_string content [] of
        Some t \<Rightarrow> t
      | None \<Rightarrow> (case blocks_of content of
          Some bs \<Rightarrow> join_with '' '' (filter (\<lambda>t. t \<noteq> []) (map cb_Text bs))
        | None \<Rightarrow> content))"

definition classifyDenial :: "string \<Rightarrow> DenialClass option" where
  "classifyDenial t =
     (let lower = lower_ascii t in
      if Contains lower ''requested permissions'' \<and> Contains lower (''haven'' @ [CHR 0x27] @ ''t granted'') then Some DenialApprovalDenied
      else if Contains lower ''guardrail denied'' \<or> Contains lower ''pretooluse:'' \<and> Contains lower ''hook error''
        then Some DenialGuardrail
      else if Contains lower ''no such tool available'' \<or> Contains lower ''disabled for this session''
        then Some DenialToolDisabled
      else None)"

section \<open>The init event\<close>

text \<open>\<open>exactSetMismatch\<close>: which entry is named first is left open by Go's map order, so only the two
  directions are told apart.\<close>

definition exactSetMismatch :: "string list \<Rightarrow> string list \<Rightarrow> string option" where
  "exactSetMismatch expected actual =
     (if list_ex (\<lambda>v. v \<notin> set actual) expected then Some ''init is missing an expected entry''
      else if list_ex (\<lambda>v. v \<notin> set expected) actual then Some ''init reports an unexpected entry''
      else None)"

fun check_enabled :: "string list \<Rightarrow> string list \<Rightarrow> string list \<Rightarrow> string option" where
  "check_enabled universe denied [] = None"
| "check_enabled universe denied (t # ts) =
     (if t \<notin> set universe then Some ''init reports unknown tool''
      else if t \<in> set denied then Some ''init reports denied tool as enabled''
      else check_enabled universe denied ts)"

definition report_of :: "nativeEvent \<Rightarrow> string list \<Rightarrow> InitReport" where
  "report_of ev hooksSeen =
     \<lparr>ir_SessionID = ev_SessionID ev, ir_Version = ev_Version ev, ir_Model = ev_Model ev,
      ir_PermissionMode = ev_PermMode ev, ir_Cwd = ev_Cwd ev, ir_Tools = ev_Tools ev, ir_Skills = ev_Skills ev,
      ir_Plugins = ev_Plugins ev, ir_HooksSeen = hooksSeen, ir_APIKeySource = ev_APIKeySrc ev\<rparr>"

definition init_mismatch :: "nativeEvent \<Rightarrow> StreamConfig \<Rightarrow> string list \<Rightarrow> string option" where
  "init_mismatch ev cfg hooksSeen =
     (let m = sc_Manifest cfg in
      if ev_Cwd ev \<noteq> sc_WorkspaceRoot cfg then Some ''init cwd does not match the workspace root''
      else if ev_Version ev \<noteq> sc_ExpectedVersion cfg then Some ''init claude_code_version does not match the probed version''
      else if sc_ExpectedModelIdentity cfg = [] \<or> ev_Model ev \<noteq> sc_ExpectedModelIdentity cfg
        then Some ''init model does not match the frozen native model identity''
      else if ev_PermMode ev \<noteq> [] \<and> ev_PermMode ev \<noteq> ''default'' then Some ''init permissionMode is not the native default''
      else case check_enabled (sc_UniverseTools cfg) (tm_DeniedComplement m) (ev_Tools ev) of
        Some e \<Rightarrow> Some e
      | None \<Rightarrow>
          if list_ex (\<lambda>t. t \<notin> set (tm_DeniedComplement m) \<and> t \<notin> set (ev_Tools ev)) (sc_UniverseTools cfg)
            then Some ''init is missing expected enabled tool''
          else (case exactSetMismatch (tm_ExpectedSkills m) (ev_Skills ev) of
              Some e \<Rightarrow> Some e
            | None \<Rightarrow>
                (case exactSetMismatch (tm_ExpectedPlugins m) (ev_Plugins ev) of
                   Some e \<Rightarrow> Some e
                 | None \<Rightarrow>
                     if list_ex (\<lambda>h. h \<notin> set hooksSeen) (tm_ExpectedHooks m)
                       then Some ''init stream is missing expected hook'' else None)))"

definition validateInit :: "nativeEvent \<Rightarrow> StreamConfig \<Rightarrow> string list \<Rightarrow> InitReport \<times> string option" where
  "validateInit ev cfg hooksSeen = (report_of ev hooksSeen, init_mismatch ev cfg hooksSeen)"

section \<open>The state of a pass\<close>

record stream_state =
  st_init :: "InitReport option"
  st_hooks :: "string list"
  st_pending :: "string \<Rightarrow> string option"
  st_evidence :: bool
  st_results :: nat
  st_out :: StreamOutcome
  st_events :: "StreamEvent list"

definition fresh_stream :: stream_state where
  "fresh_stream = \<lparr>st_init = None, st_hooks = [], st_pending = (\<lambda>i. None), st_evidence = False, st_results = 0,
     st_out = empty_outcome, st_events = []\<rparr>"

definition poison :: "string \<Rightarrow> stream_state \<Rightarrow> stream_state" where
  "poison reason st = st\<lparr>st_out := (st_out st)\<lparr>so_Poisoned := True, so_PoisonReason := reason\<rparr>\<rparr>"

definition emit :: "StreamEvent \<Rightarrow> stream_state \<Rightarrow> stream_state" where
  "emit e st = st\<lparr>st_events := st_events st @ [e]\<rparr>"

definition progress :: "string \<Rightarrow> string \<Rightarrow> StreamEvent" where
  "progress tool t = \<lparr>se_Type = SEProgress, se_DeniedClass = None, se_ToolName = tool, se_Text = t\<rparr>"

text \<open>A step returns on the left, where the pass stops, or on the right.\<close>

definition check_evidence :: "StreamConfig \<Rightarrow> nativeEvent \<Rightarrow> stream_state \<Rightarrow> string option" where
  "check_evidence cfg ev st =
     (if st_init st = None then Some ''event before system/init''
      else if sc_ExpectedSessionID cfg \<noteq> [] \<and> ev_SessionID ev \<noteq> sc_ExpectedSessionID cfg
        then Some ''session_id does not match the expected native session''
      else None)"

definition handle_system :: "StreamConfig \<Rightarrow> nativeEvent \<Rightarrow> stream_state \<Rightarrow> stream_state + stream_state" where
  "handle_system cfg ev st =
     (if ev_Subtype ev = ''init'' then
        if st_evidence st then Inl (poison ''system/init after turn evidence'' st)
        else if sc_ExpectedSessionID cfg \<noteq> [] \<and> ev_SessionID ev \<noteq> sc_ExpectedSessionID cfg
          then Inl (poison ''init session_id does not match the expected native session'' st)
        else (case validateInit ev cfg (st_hooks st) of
            (rep, Some reason) \<Rightarrow> Inl (poison reason st)
          | (rep, None) \<Rightarrow>
              Inr (st\<lparr>st_init := Some rep, st_out := (st_out st)\<lparr>so_SessionID := ir_SessionID rep\<rparr>\<rparr>))
      else if ev_Subtype ev = ''hook_started'' \<and> ev_HookName ev \<noteq> []
        then Inr (st\<lparr>st_hooks := st_hooks st @ [ev_HookName ev]\<rparr>)
      else Inr st)"

definition request_block :: "contentBlock \<Rightarrow> stream_state \<Rightarrow> stream_state" where
  "request_block b st =
     (let st1 = (if cb_Type b = ''text'' \<and> cb_Text b \<noteq> [] then emit (progress [] (cb_Text b)) st else st) in
      if cb_Type b = ''tool_use'' then
        emit \<lparr>se_Type = SEToolRequested, se_DeniedClass = None, se_ToolName = cb_Name b, se_Text = []\<rparr>
          (st1\<lparr>st_pending := (st_pending st1)(cb_ID b \<mapsto> cb_Name b)\<rparr>)
      else st1)"

definition handle_assistant :: "StreamConfig \<Rightarrow> nativeEvent \<Rightarrow> stream_state \<Rightarrow> stream_state + stream_state" where
  "handle_assistant cfg ev st0 =
     (let st = st0\<lparr>st_evidence := True\<rparr> in
      case check_evidence cfg ev st of Some reason \<Rightarrow> Inl (poison reason st)
      | None \<Rightarrow>
          (case message_blocks ev of
             None \<Rightarrow> Inl (poison ''malformed assistant content'' st)
           | Some bs \<Rightarrow> Inr (fold request_block bs st)))"

definition result_event :: "contentBlock \<Rightarrow> string \<Rightarrow> StreamEvent" where
  "result_event b toolName =
     (let t = textOf (cb_Content b) in
      if cb_IsError b then
        (case classifyDenial t of
           Some cl \<Rightarrow> \<lparr>se_Type = SEToolDenied, se_DeniedClass = Some cl, se_ToolName = toolName, se_Text = t\<rparr>
         | None \<Rightarrow> progress [] (''tool error: '' @ t))
      else progress toolName t)"

fun result_blocks :: "contentBlock list \<Rightarrow> stream_state \<Rightarrow> stream_state + stream_state" where
  "result_blocks [] st = Inr st"
| "result_blocks (b # bs) st =
     (if cb_Type b \<noteq> ''tool_result'' then result_blocks bs st
      else case st_pending st (cb_ToolUseID b) of
        None \<Rightarrow> Inl (poison ''tool_result references uncorrelated tool_use_id'' st)
      | Some toolName \<Rightarrow> result_blocks bs (emit (result_event b toolName) st))"

definition handle_user :: "StreamConfig \<Rightarrow> nativeEvent \<Rightarrow> stream_state \<Rightarrow> stream_state + stream_state" where
  "handle_user cfg ev st0 =
     (let st = st0\<lparr>st_evidence := True\<rparr> in
      case check_evidence cfg ev st of Some reason \<Rightarrow> Inl (poison reason st)
      | None \<Rightarrow>
          (case message_blocks ev of
             None \<Rightarrow> Inl (poison ''malformed user content'' st)
           | Some bs \<Rightarrow> result_blocks bs st))"

definition record_result :: "string \<Rightarrow> nativeEvent \<Rightarrow> StreamOutcome \<Rightarrow> StreamOutcome" where
  "record_result trimmed ev out =
     out\<lparr>so_Terminal := True, so_SessionID := ev_SessionID ev, so_ResultText := ev_Result ev,
       so_Completed := \<not> ev_IsError ev \<and> ev_Subtype ev = ''success'',
       so_ResultUsage := Some \<lparr>ru_Subtype = ev_Subtype ev, ru_IsError = ev_IsError ev,
         ru_DurationAPIms = ev_DurationAPIMs ev, ru_TotalCostUSD = ev_TotalCostUSD ev, ru_Raw = trimmed\<rparr>\<rparr>"

definition handle_result ::
  "StreamConfig \<Rightarrow> string \<Rightarrow> nativeEvent \<Rightarrow> stream_state \<Rightarrow> stream_state + stream_state"
where
  "handle_result cfg trimmed ev st0 =
     (let st = st0\<lparr>st_evidence := True\<rparr> in
      case check_evidence cfg ev st of Some reason \<Rightarrow> Inl (poison reason st)
      | None \<Rightarrow>
          let st1 = st\<lparr>st_results := st_results st + 1\<rparr> in
          if 1 < st_results st1 then Inl (poison ''multiple result events (protocol drift)'' st1)
          else Inr (st1\<lparr>st_out := record_result trimmed ev (st_out st1)\<rparr>))"

definition handle_event ::
  "StreamConfig \<Rightarrow> string \<Rightarrow> nativeEvent \<Rightarrow> stream_state \<Rightarrow> stream_state + stream_state"
where
  "handle_event cfg trimmed ev st =
     (if ev_Type ev = ''system'' then handle_system cfg ev st
      else if ev_Type ev = ''assistant'' then handle_assistant cfg ev st
      else if ev_Type ev = ''user'' then handle_user cfg ev st
      else if ev_Type ev = ''result'' then handle_result cfg trimmed ev st
      else Inr st)"

section \<open>Reading\<close>

datatype line_read = ReadEOF | ReadFailed | Torn string | Line string

definition newline :: char where "newline = CHR 0x0A"

text \<open>\<open>readBoundedLine\<close>: the line, the bytes it adds to the total, and the rest. The bytes of a torn last
  line are added twice, as in the source.\<close>

definition readBoundedLine :: "int \<Rightarrow> string \<Rightarrow> bool \<Rightarrow> line_read \<times> int \<times> string" where
  "readBoundedLine maxLine s broken =
     (let cut = takeWhile (\<lambda>c. c \<noteq> newline) s;
          ended = length cut < length s;
          n = (if ended then length cut + 1 else length cut)
      in if 0 < n \<and> maxLine < int n then (ReadFailed, max maxLine 0 + 1, [])
         else if ended then (Line cut, int n, drop n s)
         else if broken then (ReadFailed, int n, [])
         else if n = 0 then (ReadEOF, 0, [])
         else (Torn cut, 2 * int n, []))"

lemma readBoundedLine_rest: "readBoundedLine m s b = (Line l, n, rest) \<Longrightarrow> length rest < length s"
  by (auto simp: readBoundedLine_def Let_def split: if_splits)

function read_stream :: "StreamConfig \<Rightarrow> bool \<Rightarrow> string \<Rightarrow> int \<Rightarrow> stream_state \<Rightarrow> stream_state + stream_state" where
  "read_stream cfg broken s used st =
     (let (r, n, rest) = readBoundedLine (sc_MaxLineBytes cfg) s broken in
      if sc_MaxTotalBytes cfg < used + n then Inl (poison ''stream exceeded total byte budget'' st)
      else (case r of
        ReadEOF \<Rightarrow> Inr st
      | ReadFailed \<Rightarrow> Inl (poison ''stream read'' st)
      | Torn l \<Rightarrow> Inr st
      | Line l \<Rightarrow>
          let trimmed = TrimSpace l in
          if trimmed = [] then read_stream cfg broken rest (used + n) st
          else (case decode_event trimmed of
              None \<Rightarrow> Inl (poison ''malformed NDJSON mid-stream'' st)
            | Some ev \<Rightarrow>
                (case handle_event cfg trimmed ev st of
                   Inl st1 \<Rightarrow> Inl st1
                 | Inr st1 \<Rightarrow> read_stream cfg broken rest (used + n) st1))))"
  by pat_completeness auto
termination
  by (relation "measure (\<lambda>(cfg, broken, s, used, st). length s)") (auto dest: readBoundedLine_rest [OF sym])

declare read_stream.simps [simp del]

definition finish_stream :: "stream_state \<Rightarrow> StreamOutcome \<times> StreamEvent list" where
  "finish_stream st =
     (case st_init st of
        None \<Rightarrow> (st_out (poison ''stream ended without a system/init event'' st), st_events st)
      | Some rep \<Rightarrow>
          let out = (st_out st)\<lparr>so_Init := Some (rep\<lparr>ir_HooksSeen := st_hooks st\<rparr>)\<rparr> in
          if st_results st = 1 \<and> so_Terminal out then
            (out\<lparr>so_TerminalEventEmitted := True\<rparr>,
             st_events st @ [\<lparr>se_Type = SETerminal, se_DeniedClass = None, se_ToolName = [], se_Text = so_ResultText out\<rparr>])
          else (out, st_events st))"

definition ParseStream ::
  "string \<Rightarrow> bool \<Rightarrow> StreamConfig \<Rightarrow> string + StreamOutcome \<times> StreamEvent list"
where
  "ParseStream s broken cfg =
     (if blank (sc_ExpectedSessionID cfg) then Inl ''production stream parsing requires an ExpectedSessionID''
      else Inr (case read_stream cfg broken s 0 fresh_stream of
                  Inl st \<Rightarrow> (st_out st, st_events st)
                | Inr st \<Rightarrow> finish_stream st))"

end
