(* ===== verification/Claude_Verdict.thy ===== *)
theory Claude_Verdict
  imports Claude_Stream
begin

text \<open>
  What the verdict of the stream parser means: the one pass over the bytes is compared with a
  description of the lines as a history. A turn has a verified result exactly when the stream was
  read within its bounds, every line is an event, and each event is allowed by those before it.
\<close>

section \<open>The stream as a history of events\<close>

definition complete_lines :: "string \<Rightarrow> string list" where
  "complete_lines s = butlast (split_on newline s)"

definition torn_tail :: "string \<Rightarrow> string" where
  "torn_tail s = last (split_on newline s)"

definition stream_events :: "string \<Rightarrow> (string \<times> nativeEvent) list option" where
  "stream_events s =
     those (map (\<lambda>t. map_option (Pair t) (decode_event t)) (filter (\<lambda>t. t \<noteq> []) (map TrimSpace (complete_lines s))))"

text \<open>The bounds on the bytes; those of a torn tail count twice.\<close>

definition readable :: "StreamConfig \<Rightarrow> string \<Rightarrow> bool \<Rightarrow> bool" where
  "readable cfg s broken \<longleftrightarrow>
     \<not> broken \<and> (\<forall>l \<in> set (complete_lines s). int (length l) < sc_MaxLineBytes cfg) \<and>
     (torn_tail s = [] \<or> int (length (torn_tail s)) \<le> sc_MaxLineBytes cfg) \<and>
     int (length s + length (torn_tail s)) \<le> sc_MaxTotalBytes cfg"

definition is_init :: "nativeEvent \<Rightarrow> bool" where
  "is_init ev \<longleftrightarrow> ev_Type ev = ''system'' \<and> ev_Subtype ev = ''init''"

definition is_hook :: "nativeEvent \<Rightarrow> bool" where
  "is_hook ev \<longleftrightarrow> ev_Type ev = ''system'' \<and> ev_Subtype ev = ''hook_started'' \<and> ev_HookName ev \<noteq> []"

definition is_result :: "nativeEvent \<Rightarrow> bool" where "is_result ev \<longleftrightarrow> ev_Type ev = ''result''"

definition is_evidence :: "nativeEvent \<Rightarrow> bool" where
  "is_evidence ev \<longleftrightarrow> ev_Type ev = ''assistant'' \<or> ev_Type ev = ''user'' \<or> is_result ev"

definition requests :: "string \<Rightarrow> nativeEvent \<Rightarrow> bool" where
  "requests i ev \<longleftrightarrow>
     ev_Type ev = ''assistant'' \<and>
     (case message_blocks ev of None \<Rightarrow> False | Some bs \<Rightarrow> list_ex (\<lambda>b. cb_Type b = ''tool_use'' \<and> cb_ID b = i) bs)"

text \<open>A tool result answers a request of the history.\<close>

definition answers :: "nativeEvent list \<Rightarrow> contentBlock \<Rightarrow> bool" where
  "answers pre b \<longleftrightarrow> (cb_Type b = ''tool_result'' \<longrightarrow> list_ex (requests (cb_ToolUseID b)) pre)"

definition own_session :: "StreamConfig \<Rightarrow> nativeEvent \<Rightarrow> bool" where
  "own_session cfg ev \<longleftrightarrow> ev_SessionID ev = sc_ExpectedSessionID cfg"

text \<open>An event is allowed after a history.\<close>

definition event_allowed :: "StreamConfig \<Rightarrow> nativeEvent list \<Rightarrow> nativeEvent \<Rightarrow> bool" where
  "event_allowed cfg pre ev \<longleftrightarrow>
     (is_init ev \<longrightarrow>
        \<not> list_ex is_evidence pre \<and> own_session cfg ev \<and>
        init_mismatch ev cfg (map ev_HookName (filter is_hook pre)) = None) \<and>
     (is_evidence ev \<longrightarrow> list_ex is_init pre \<and> own_session cfg ev) \<and>
     (ev_Type ev = ''assistant'' \<longrightarrow> message_blocks ev \<noteq> None) \<and>
     (ev_Type ev = ''user'' \<longrightarrow>
        (case message_blocks ev of None \<Rightarrow> False | Some bs \<Rightarrow> list_all (answers pre) bs)) \<and>
     (is_result ev \<longrightarrow> \<not> list_ex is_result pre)"

fun allowed_from :: "StreamConfig \<Rightarrow> nativeEvent list \<Rightarrow> nativeEvent list \<Rightarrow> bool" where
  "allowed_from cfg pre [] \<longleftrightarrow> True"
| "allowed_from cfg pre (ev # evs) \<longleftrightarrow> event_allowed cfg pre ev \<and> allowed_from cfg (pre @ [ev]) evs"

definition follows_protocol :: "StreamConfig \<Rightarrow> nativeEvent list \<Rightarrow> bool" where
  "follows_protocol cfg evs \<longleftrightarrow> allowed_from cfg [] evs \<and> list_ex is_init evs"

section \<open>Handling a history\<close>

fun handle_events ::
  "StreamConfig \<Rightarrow> (string \<times> nativeEvent) list \<Rightarrow> stream_state \<Rightarrow> stream_state + stream_state"
where
  "handle_events cfg [] st = Inr st"
| "handle_events cfg ((t, ev) # evs) st =
     (case handle_event cfg t ev st of Inl st1 \<Rightarrow> Inl st1 | Inr st1 \<Rightarrow> handle_events cfg evs st1)"

text \<open>The result an outcome records.\<close>

definition records :: "StreamOutcome \<Rightarrow> string \<times> nativeEvent \<Rightarrow> bool" where
  "records out r \<longleftrightarrow>
     so_ResultText out = ev_Result (snd r) \<and> so_SessionID out = ev_SessionID (snd r) \<and>
     so_Completed out = (\<not> ev_IsError (snd r) \<and> ev_Subtype (snd r) = ''success'') \<and>
     map_option ru_Raw (so_ResultUsage out) = Some (fst r)"

definition represents :: "nativeEvent list \<Rightarrow> stream_state \<Rightarrow> bool" where
  "represents evs st \<longleftrightarrow>
     st_evidence st = list_ex is_evidence evs \<and>
     st_hooks st = map ev_HookName (filter is_hook evs) \<and>
     (st_init st = None) = (\<not> list_ex is_init evs) \<and>
     (\<forall>i. (st_pending st i = None) = (\<not> list_ex (requests i) evs)) \<and>
     st_results st = (if list_ex is_result evs then 1 else 0) \<and>
     \<not> so_Poisoned (st_out st) \<and> \<not> so_TerminalEventEmitted (st_out st) \<and>
     so_Terminal (st_out st) = list_ex is_result evs"

lemma represents_fresh: "represents [] fresh_stream"
  by (simp add: represents_def fresh_stream_def empty_outcome_def)

text \<open>The loops over the blocks of a message.\<close>

lemma request_blocks_state:
  fixes st :: stream_state and bs :: "contentBlock list"
  defines "st1 \<equiv> fold request_block bs st"
  shows "st_evidence st1 = st_evidence st" "st_hooks st1 = st_hooks st" "st_init st1 = st_init st"
    "st_results st1 = st_results st" "st_out st1 = st_out st"
    "(st_pending st1 i = None) =
       (st_pending st i = None \<and> \<not> list_ex (\<lambda>b. cb_Type b = ''tool_use'' \<and> cb_ID b = i) bs)"
  unfolding st1_def
  by (induction bs arbitrary: st) (auto simp: request_block_def emit_def Let_def)

lemma result_blocks_state:
  "result_blocks bs st = Inr st1 \<Longrightarrow>
     st_evidence st1 = st_evidence st \<and> st_hooks st1 = st_hooks st \<and> st_init st1 = st_init st \<and>
     st_results st1 = st_results st \<and> st_out st1 = st_out st \<and> st_pending st1 = st_pending st"
  by (induction bs st rule: result_blocks.induct) (auto simp: emit_def split: if_splits option.splits)

lemma result_blocks_allowed:
  assumes "\<And>i. (st_pending st i = None) = (\<not> list_ex (requests i) pre)"
  shows "(\<exists>st1. result_blocks bs st = Inr st1) = list_all (answers pre) bs"
  using assms
proof (induction bs st rule: result_blocks.induct)
  case (2 b bs st)
  note pending = 2(3) [of "cb_ToolUseID b"]
  show ?case
  proof (cases "cb_Type b = ''tool_result'' \<and> st_pending st (cb_ToolUseID b) = None")
    case True
    then show ?thesis using pending by (simp add: answers_def)
  next
    case False
    then have ok: "answers pre b" using pending by (auto simp: answers_def)
    from False show ?thesis
    proof (cases "cb_Type b = ''tool_result''")
      case True
      with False obtain n where "st_pending st (cb_ToolUseID b) = Some n" by auto
      with True ok show ?thesis using 2(2) [OF _ _] 2(3) by (simp add: emit_def)
    qed (use ok 2(1,3) in simp)
  qed
qed simp

text \<open>A pass that stops is poisoned and has announced no result.\<close>

definition stopped :: "stream_state \<Rightarrow> bool" where
  "stopped st \<longleftrightarrow> so_Poisoned (st_out st) \<and> \<not> so_TerminalEventEmitted (st_out st)"

lemma stopped_poison [simp]: "stopped (poison reason st) = (\<not> so_TerminalEventEmitted (st_out st))"
  by (simp add: stopped_def poison_def)

lemma result_blocks_stopped:
  "result_blocks bs st = Inl st1 \<Longrightarrow> \<not> so_TerminalEventEmitted (st_out st) \<Longrightarrow> stopped st1"
  by (induction bs st rule: result_blocks.induct) (auto simp: emit_def split: if_splits option.splits)

lemma handle_event_stopped:
  "handle_event cfg t ev st = Inl st1 \<Longrightarrow> \<not> so_TerminalEventEmitted (st_out st) \<Longrightarrow> stopped st1"
  by (auto simp: handle_event_def handle_system_def handle_assistant_def handle_user_def handle_result_def
      validateInit_def Let_def dest!: result_blocks_stopped split: if_splits option.splits)

section \<open>One event\<close>

text \<open>One event: it is handled exactly when the history allows it, and the state keeps representing the history.\<close>

lemmas event_kinds = is_init_def is_evidence_def is_hook_def is_result_def requests_def

lemma check_evidence_iff:
  assumes "represents pre st" and "sc_ExpectedSessionID cfg \<noteq> []"
  shows "(check_evidence cfg ev (st\<lparr>st_evidence := True\<rparr>) = None) = (list_ex is_init pre \<and> own_session cfg ev)"
  using assms by (cases "st_init st") (auto simp: check_evidence_def represents_def own_session_def)

lemma step_system:
  assumes "represents pre st" and "sc_ExpectedSessionID cfg \<noteq> []" and "ev_Type ev = ''system''"
  shows "(\<exists>st1. handle_system cfg ev st = Inr st1) = event_allowed cfg pre ev"
    and "handle_system cfg ev st = Inr st1 \<Longrightarrow> represents (pre @ [ev]) st1"
proof -
  have no: "\<not> is_evidence ev" "\<not> is_result ev" "\<not> requests i ev" for i
    using assms(3) by (simp_all add: event_kinds)
  show "(\<exists>st1. handle_system cfg ev st = Inr st1) = event_allowed cfg pre ev"
  proof (cases "ev_Subtype ev = ''init''")
    case True
    then have "is_init ev" using assms(3) by (simp add: is_init_def)
    then show ?thesis using assms no True
      by (simp add: handle_system_def validateInit_def event_allowed_def represents_def own_session_def split: option.split)
  next
    case False
    then have "\<not> is_init ev" by (simp add: is_init_def)
    then show ?thesis using assms(3) no False by (simp add: handle_system_def event_allowed_def)
  qed
  assume ok: "handle_system cfg ev st = Inr st1"
  show "represents (pre @ [ev]) st1"
  proof (cases "ev_Subtype ev = ''init''")
    case True
    then have "is_init ev" "\<not> is_hook ev" using assms(3) by (simp_all add: is_init_def is_hook_def)
    then show ?thesis using assms(1) ok no True
      by (auto simp: handle_system_def validateInit_def represents_def split: if_splits option.splits)
  next
    case False
    then have "\<not> is_init ev" "is_hook ev = (ev_Subtype ev = ''hook_started'' \<and> ev_HookName ev \<noteq> [])"
      using assms(3) by (simp_all add: is_init_def is_hook_def)
    then show ?thesis using assms(1) ok no False
      by (cases "is_hook ev") (auto simp: handle_system_def represents_def)
  qed
qed

lemma step_assistant:
  assumes "represents pre st" and "sc_ExpectedSessionID cfg \<noteq> []" and "ev_Type ev = ''assistant''"
  shows "(\<exists>st1. handle_assistant cfg ev st = Inr st1) = event_allowed cfg pre ev"
    and "handle_assistant cfg ev st = Inr st1 \<Longrightarrow> represents (pre @ [ev]) st1"
proof -
  note ce = check_evidence_iff [OF assms(1,2), of ev]
  show "(\<exists>st1. handle_assistant cfg ev st = Inr st1) = event_allowed cfg pre ev"
    using ce assms(3)
    by (auto simp: handle_assistant_def event_allowed_def event_kinds Let_def split: option.split)
  assume "handle_assistant cfg ev st = Inr st1"
  then obtain bs where bs: "message_blocks ev = Some bs" "st1 = fold request_block bs (st\<lparr>st_evidence := True\<rparr>)"
    by (auto simp: handle_assistant_def Let_def split: option.splits)
  have "requests i ev = list_ex (\<lambda>b. cb_Type b = ''tool_use'' \<and> cb_ID b = i) bs" for i
    using bs(1) assms(3) by (simp add: requests_def)
  moreover have "\<not> is_init ev" "\<not> is_hook ev" "\<not> is_result ev" "is_evidence ev"
    using assms(3) by (simp_all add: event_kinds)
  ultimately show "represents (pre @ [ev]) st1"
    using assms(1) unfolding bs(2) represents_def by (simp add: request_blocks_state)
qed

lemma step_user:
  assumes "represents pre st" and "sc_ExpectedSessionID cfg \<noteq> []" and "ev_Type ev = ''user''"
  shows "(\<exists>st1. handle_user cfg ev st = Inr st1) = event_allowed cfg pre ev"
    and "handle_user cfg ev st = Inr st1 \<Longrightarrow> represents (pre @ [ev]) st1"
proof -
  note ce = check_evidence_iff [OF assms(1,2), of ev]
  have rb: "(\<exists>st1. result_blocks bs (st\<lparr>st_evidence := True\<rparr>) = Inr st1) = list_all (answers pre) bs" for bs
    by (rule result_blocks_allowed) (use assms(1) in \<open>simp add: represents_def\<close>)
  show "(\<exists>st1. handle_user cfg ev st = Inr st1) = event_allowed cfg pre ev"
    using ce assms(3) rb
    by (auto simp: handle_user_def event_allowed_def event_kinds Let_def split: option.split)
  assume "handle_user cfg ev st = Inr st1"
  then obtain bs where "result_blocks bs (st\<lparr>st_evidence := True\<rparr>) = Inr st1"
    by (auto simp: handle_user_def Let_def split: option.splits)
  moreover have "\<not> is_init ev" "\<not> is_hook ev" "\<not> is_result ev" "is_evidence ev" "\<not> requests i ev" for i
    using assms(3) by (simp_all add: event_kinds)
  ultimately show "represents (pre @ [ev]) st1"
    using assms(1) by (auto dest!: result_blocks_state simp: represents_def)
qed

lemma step_result:
  assumes "represents pre st" and "sc_ExpectedSessionID cfg \<noteq> []" and "ev_Type ev = ''result''"
  shows "(\<exists>st1. handle_result cfg t ev st = Inr st1) = event_allowed cfg pre ev"
    and "handle_result cfg t ev st = Inr st1 \<Longrightarrow> represents (pre @ [ev]) st1"
proof -
  note ce = check_evidence_iff [OF assms(1,2), of ev]
  have n: "st_results st = (if list_ex is_result pre then 1 else 0)" using assms(1) by (simp add: represents_def)
  show "(\<exists>st1. handle_result cfg t ev st = Inr st1) = event_allowed cfg pre ev"
    using ce assms(3) n
    by (auto simp: handle_result_def event_allowed_def is_init_def is_evidence_def is_result_def Let_def split: option.split)
  assume ok: "handle_result cfg t ev st = Inr st1"
  have "\<not> is_init ev" "\<not> is_hook ev" "is_result ev" "is_evidence ev" "\<not> requests i ev" for i
    using assms(3) by (simp_all add: event_kinds)
  moreover have "\<not> list_ex is_result pre"
    "st1 = st\<lparr>st_evidence := True, st_results := 1, st_out := record_result t ev (st_out st)\<rparr>"
    using ok n by (auto simp: handle_result_def Let_def split: option.splits if_splits)
  ultimately show "represents (pre @ [ev]) st1"
    using assms(1) by (simp add: represents_def record_result_def)
qed

lemma step_event:
  assumes "represents pre st" and "sc_ExpectedSessionID cfg \<noteq> []"
  shows "(\<exists>st1. handle_event cfg t ev st = Inr st1) = event_allowed cfg pre ev"
    and "handle_event cfg t ev st = Inr st1 \<Longrightarrow> represents (pre @ [ev]) st1"
proof -
  have other: "event_allowed cfg pre ev" "represents (pre @ [ev]) st"
    if "ev_Type ev \<notin> {''system'', ''assistant'', ''user'', ''result''}"
    using assms that by (auto simp: event_allowed_def represents_def event_kinds)
  show "(\<exists>st1. handle_event cfg t ev st = Inr st1) = event_allowed cfg pre ev"
    using step_system(1) [OF assms, of ev] step_assistant(1) [OF assms, of ev] step_user(1) [OF assms, of ev]
      step_result(1) [OF assms, of ev t] other(1)
    by (simp add: handle_event_def)
  show "handle_event cfg t ev st = Inr st1 \<Longrightarrow> represents (pre @ [ev]) st1"
    using step_system(2) [OF assms, of ev] step_assistant(2) [OF assms, of ev] step_user(2) [OF assms, of ev]
      step_result(2) [OF assms, of ev t] other(2)
    by (auto simp: handle_event_def split: if_splits)
qed

lemma handle_events_allowed:
  assumes "represents pre st" and "sc_ExpectedSessionID cfg \<noteq> []"
  shows "(\<exists>st1. handle_events cfg evs st = Inr st1) = allowed_from cfg pre (map snd evs)"
    and "handle_events cfg evs st = Inr st1 \<Longrightarrow> represents (pre @ map snd evs) st1"
  using assms
proof (induction evs arbitrary: pre st)
  case (Cons x evs)
  obtain t ev where x: "x = (t, ev)" by (cases x)
  { case 1
    show ?case using step_event [OF 1(1,2), of t ev] Cons.IH(1) [OF step_event(2) [OF 1(1,2)] 1(2)]
      by (auto simp: x split: sum.split)
  next
    case 2
    show ?case using 2(1) step_event(2) [OF 2(2,3), of t ev] Cons.IH(2) [OF _ _ 2(3), of _ "pre @ [ev]"]
      by (auto simp: x split: sum.splits)
  }
qed (simp_all)

section \<open>The pass over the bytes\<close>

lemma split_on_nonempty: "split_on c s \<noteq> []"
  by (induction s) (auto split: list.split)

lemma split_on_cut:
  "split_on c s =
     (if c \<in> set s then takeWhile (\<lambda>d. d \<noteq> c) s # split_on c (drop (Suc (length (takeWhile (\<lambda>d. d \<noteq> c) s))) s) else [s])"
  by (induction s) auto

lemma takeWhile_ended: "length (takeWhile (\<lambda>d. d \<noteq> c) s) < length s \<longleftrightarrow> c \<in> set s"
  by (induction s) auto

lemma lines_step:
  assumes "newline \<in> set s"
  defines "first \<equiv> takeWhile (\<lambda>c. c \<noteq> newline) s"
  defines "rest \<equiv> drop (Suc (length first)) s"
  shows "complete_lines s = first # complete_lines rest" "torn_tail s = torn_tail rest"
    "length s = Suc (length first) + length rest"
proof -
  have "length first < length s" using assms(1) unfolding first_def by (simp add: takeWhile_ended)
  then show "length s = Suc (length first) + length rest" unfolding rest_def by simp
  show "complete_lines s = first # complete_lines rest" "torn_tail s = torn_tail rest"
    using assms(1) split_on_nonempty [of newline rest] split_on_cut [of newline s]
    by (simp_all add: complete_lines_def torn_tail_def first_def [symmetric] rest_def [symmetric])
qed

lemma last_line:
  assumes "newline \<notin> set s"
  shows "complete_lines s = []" "torn_tail s = s" "takeWhile (\<lambda>c. c \<noteq> newline) s = s"
  using assms split_on_cut [of newline s] by (auto simp: complete_lines_def torn_tail_def takeWhile_eq_all_conv)

lemma readBoundedLine_line:
  assumes "newline \<in> set s"
  defines "first \<equiv> takeWhile (\<lambda>c. c \<noteq> newline) s"
  shows "readBoundedLine m s b =
    (if m < int (Suc (length first)) then (ReadFailed, max m 0 + 1, [])
     else (Line first, int (Suc (length first)), drop (Suc (length first)) s))"
  using assms(1) takeWhile_ended [of newline s] by (simp add: readBoundedLine_def Let_def first_def)

lemma readBoundedLine_last:
  assumes "newline \<notin> set s"
  shows "readBoundedLine m s b =
    (if s \<noteq> [] \<and> m < int (length s) then (ReadFailed, max m 0 + 1, [])
     else if b then (ReadFailed, int (length s), [])
     else if s = [] then (ReadEOF, 0, []) else (Torn s, 2 * int (length s), []))"
  unfolding readBoundedLine_def Let_def last_line(3) [OF assms] by auto

text \<open>What the reader allows when some bytes have been used.\<close>

definition readable_from :: "StreamConfig \<Rightarrow> string \<Rightarrow> bool \<Rightarrow> int \<Rightarrow> bool" where
  "readable_from cfg s broken used \<longleftrightarrow>
     \<not> broken \<and> (\<forall>l \<in> set (complete_lines s). int (length l) < sc_MaxLineBytes cfg) \<and>
     (torn_tail s = [] \<or> int (length (torn_tail s)) \<le> sc_MaxLineBytes cfg) \<and>
     used + int (length s + length (torn_tail s)) \<le> sc_MaxTotalBytes cfg"

lemma readable_from_line:
  assumes "newline \<in> set s"
  defines "first \<equiv> takeWhile (\<lambda>c. c \<noteq> newline) s"
  shows "readable_from cfg s b used \<longleftrightarrow>
    int (Suc (length first)) \<le> sc_MaxLineBytes cfg \<and>
    readable_from cfg (drop (Suc (length first)) s) b (used + int (Suc (length first)))"
proof -
  define rest where "rest = drop (Suc (length first)) s"
  note L = lines_step [OF assms(1), folded first_def, folded rest_def]
  have sum: "used + int (length s + n) = used + int (Suc (length first)) + int (length rest + n)" for n
    using L(3) by simp
  show ?thesis unfolding readable_from_def L(1,2) rest_def [symmetric] sum by auto
qed

lemma stream_events_line:
  assumes "newline \<in> set s"
  defines "first \<equiv> takeWhile (\<lambda>c. c \<noteq> newline) s"
  shows "stream_events s =
    (if TrimSpace first = [] then stream_events (drop (Suc (length first)) s)
     else case decode_event (TrimSpace first) of None \<Rightarrow> None
       | Some ev \<Rightarrow> map_option (Cons (TrimSpace first, ev)) (stream_events (drop (Suc (length first)) s)))"
  using lines_step(1) [OF assms(1)] unfolding stream_events_def first_def [symmetric]
  by (auto split: option.split)

lemma readable_from_total: "readable_from cfg s b used \<Longrightarrow> used \<le> sc_MaxTotalBytes cfg"
  by (auto simp: readable_from_def)

lemma read_stream_iff:
  "read_stream cfg broken s used st = Inr st1 \<longleftrightarrow>
     readable_from cfg s broken used \<and> (\<exists>evs. stream_events s = Some evs \<and> handle_events cfg evs st = Inr st1)"
proof (induction cfg broken s used st rule: read_stream.induct)
  case (1 cfg broken s used st)
  show ?case
  proof (cases "newline \<in> set s")
    case False
    then show ?thesis
      unfolding read_stream.simps [of cfg broken s used st] readBoundedLine_last [OF False]
      using last_line [OF False] by (auto simp: readable_from_def stream_events_def)
  next
    case True
    define first where "first = takeWhile (\<lambda>c. c \<noteq> newline) s"
    define rest where "rest = drop (Suc (length first)) s"
    define n where "n = int (Suc (length first))"
    note R = readBoundedLine_line [OF True, folded first_def, folded rest_def n_def]
    note RF = readable_from_line [OF True, folded first_def, folded rest_def n_def]
    note E = stream_events_line [OF True, folded first_def, folded rest_def n_def]
    show ?thesis
    proof (cases "sc_MaxLineBytes cfg < n \<or> sc_MaxTotalBytes cfg < used + n")
      case True
      then have "\<not> readable_from cfg s broken used"
        using RF readable_from_total [of cfg rest broken "used + n"] by auto
      moreover have "\<nexists>st1. read_stream cfg broken s used st = Inr st1"
        unfolding read_stream.simps [of cfg broken s used st] R using True by auto
      ultimately show ?thesis by blast
    next
      case False
      have IH1: "TrimSpace first = [] \<Longrightarrow> read_stream cfg broken rest (used + n) st = Inr st1 \<longleftrightarrow>
          readable_from cfg rest broken (used + n) \<and>
          (\<exists>evs. stream_events rest = Some evs \<and> handle_events cfg evs st = Inr st1)"
        using 1(1) R False by simp
      have IH2: "TrimSpace first \<noteq> [] \<Longrightarrow> decode_event (TrimSpace first) = Some ev \<Longrightarrow>
          handle_event cfg (TrimSpace first) ev st = Inr st2 \<Longrightarrow>
          read_stream cfg broken rest (used + n) st2 = Inr st1 \<longleftrightarrow>
          readable_from cfg rest broken (used + n) \<and>
          (\<exists>evs. stream_events rest = Some evs \<and> handle_events cfg evs st2 = Inr st1)" for ev st2
        using 1(2) R False by simp
      show ?thesis
        unfolding read_stream.simps [of cfg broken s used st] R RF E
        using False IH1 IH2
        by (auto split: option.split sum.split)
    qed
  qed
qed

text \<open>What a pass records is the result it has seen.\<close>

lemma handle_event_out:
  assumes "handle_event cfg t ev st = Inr st1"
  shows "st_out st1 =
    (if is_result ev then record_result t ev (st_out st)
     else if is_init ev then (st_out st)\<lparr>so_SessionID := ev_SessionID ev\<rparr> else st_out st)"
proof -
  have user: "st_out st2 = st_out st" if "handle_user cfg ev st = Inr st2" for st2
    using that by (auto simp: handle_user_def Let_def dest!: result_blocks_state split: option.splits)
  have result: "st_out st2 = record_result t ev (st_out st)" if "handle_result cfg t ev st = Inr st2" for st2
    using that by (auto simp: handle_result_def Let_def split: option.splits if_splits)
  have assistant: "st_out st2 = st_out st" if "handle_assistant cfg ev st = Inr st2" for st2
    using that by (auto simp: handle_assistant_def Let_def request_blocks_state split: option.splits)
  have system: "st_out st2 = (if ev_Subtype ev = ''init'' then (st_out st)\<lparr>so_SessionID := ev_SessionID ev\<rparr> else st_out st)"
    if "handle_system cfg ev st = Inr st2" for st2
    using that by (auto simp: handle_system_def validateInit_def report_of_def split: option.splits if_splits)
  show ?thesis
    using assms user result assistant system
    by (auto simp: handle_event_def is_result_def is_init_def split: if_splits)
qed

lemma read_stream_stopped:
  "read_stream cfg broken s used st = Inl st1 \<Longrightarrow> \<not> so_TerminalEventEmitted (st_out st) \<Longrightarrow> stopped st1"
proof (induction cfg broken s used st rule: read_stream.induct)
  case (1 cfg broken s used st)
  obtain r n rest where R: "readBoundedLine (sc_MaxLineBytes cfg) s broken = (r, n, rest)" by (metis prod_cases3)
  note S = 1(3) [unfolded read_stream.simps [of cfg broken s used st] R]
  have keep: "\<not> so_TerminalEventEmitted (st_out st2)" if "handle_event cfg t ev st = Inr st2" for t ev st2
    using handle_event_out [OF that] 1(4) by (simp add: record_result_def)
  show ?case
  proof (cases "sc_MaxTotalBytes cfg < used + n")
    case True
    with S 1(4) show ?thesis by auto
  next
    case False
    show ?thesis
    proof (cases r)
      case (Line l)
      show ?thesis
        using S False Line 1(4) keep 1(1) [OF R [symmetric] refl refl False Line refl]
          1(2) [OF R [symmetric] refl refl False Line refl]
        by (auto simp: Let_def dest: handle_event_stopped split: if_splits option.splits sum.splits)
    qed (use S False 1(4) in auto)
  qed
qed

lemma step_records:
  assumes "represents (map snd pre) st" and "sc_ExpectedSessionID cfg \<noteq> []"
    and "handle_event cfg t ev st = Inr st1"
    and "\<forall>r \<in> set pre. is_result (snd r) \<longrightarrow> records (st_out st) r"
  shows "\<forall>r \<in> set (pre @ [(t, ev)]). is_result (snd r) \<longrightarrow> records (st_out st1) r"
proof -
  have allowed: "event_allowed cfg (map snd pre) ev"
    using step_event(1) [OF assms(1,2)] assms(3) by blast
  note out = handle_event_out [OF assms(3)]
  consider "is_result ev" | "is_init ev" "\<not> is_result ev" | "\<not> is_result ev" "\<not> is_init ev" by blast
  then show ?thesis
  proof cases
    case 1
    then have "\<forall>r \<in> set pre. \<not> is_result (snd r)"
      using allowed by (auto simp: event_allowed_def list_ex_iff)
    with 1 out show ?thesis by (auto simp: records_def record_result_def)
  next
    case 2
    then have "\<forall>r \<in> set pre. \<not> is_result (snd r)"
      using allowed by (auto simp: event_allowed_def list_ex_iff is_evidence_def)
    with 2 show ?thesis by auto
  next
    case 3
    with out assms(4) show ?thesis by auto
  qed
qed

lemma handle_events_records:
  assumes "handle_events cfg evs st = Inr st1" and "represents (map snd pre) st" and "sc_ExpectedSessionID cfg \<noteq> []"
    and "\<forall>r \<in> set pre. is_result (snd r) \<longrightarrow> records (st_out st) r"
  shows "\<forall>r \<in> set (pre @ evs). is_result (snd r) \<longrightarrow> records (st_out st1) r"
  using assms
proof (induction evs arbitrary: pre st)
  case (Cons x evs)
  obtain t ev where x: "x = (t, ev)" by (cases x)
  with Cons.prems(1) obtain st2 where h: "handle_event cfg t ev st = Inr st2" "handle_events cfg evs st2 = Inr st1"
    by (auto split: sum.splits)
  show ?case
    using Cons.IH [OF h(2) _ Cons.prems(3) step_records [OF Cons.prems(2,3) h(1) Cons.prems(4)]]
      step_event(2) [OF Cons.prems(2,3) h(1)]
    by (simp add: x)
qed simp

section \<open>The verdict\<close>

lemma readable_from_start: "readable_from cfg s broken 0 = readable cfg s broken"
  by (simp add: readable_from_def readable_def)

lemma read_stream_verdict:
  assumes "sc_ExpectedSessionID cfg \<noteq> []"
  shows "(\<exists>st. read_stream cfg broken s 0 fresh_stream = Inr st) \<longleftrightarrow>
      readable cfg s broken \<and> (\<exists>es. stream_events s = Some es \<and> allowed_from cfg [] (map snd es))"
    and "read_stream cfg broken s 0 fresh_stream = Inr st \<Longrightarrow>
      \<exists>es. stream_events s = Some es \<and> represents (map snd es) st \<and>
        (\<forall>r \<in> set es. is_result (snd r) \<longrightarrow> records (st_out st) r)"
  using handle_events_allowed [OF represents_fresh assms]
    handle_events_records [of cfg _ fresh_stream _ "[]"] represents_fresh assms
  by (auto simp: read_stream_iff readable_from_start)

lemma finish_stream_verdict:
  assumes "represents evs st"
  shows "so_Poisoned (fst (finish_stream st)) = (\<not> list_ex is_init evs)"
    and "so_TerminalEventEmitted (fst (finish_stream st)) = (list_ex is_init evs \<and> list_ex is_result evs)"
    and "records (fst (finish_stream st)) r = records (st_out st) r"
  using assms
  by (auto simp: finish_stream_def represents_def poison_def Let_def records_def split: option.split)

lemma ParseStream_verdict:
  assumes "\<not> blank (sc_ExpectedSessionID cfg)" and "ParseStream s broken cfg = Inr (out, evs)"
  shows "\<not> so_Poisoned out \<longleftrightarrow>
      readable cfg s broken \<and> (\<exists>es. stream_events s = Some es \<and> follows_protocol cfg (map snd es))"
    and "so_TerminalEventEmitted out \<Longrightarrow> \<not> so_Poisoned out \<and>
      (\<exists>es. stream_events s = Some es \<and> list_ex is_init (map snd es) \<and> list_ex is_result (map snd es) \<and>
        (\<forall>r \<in> set es. is_result (snd r) \<longrightarrow> records out r))"
    and "\<not> so_Poisoned out \<Longrightarrow> stream_events s = Some es \<Longrightarrow> list_ex is_result (map snd es) \<Longrightarrow>
      so_TerminalEventEmitted out"
proof -
  have session: "sc_ExpectedSessionID cfg \<noteq> []" using assms(1) by (auto simp: blank_def TrimSpace_def)
  note V = read_stream_verdict [OF session, of broken s]
  have all: "(\<not> so_Poisoned out \<longleftrightarrow>
      readable cfg s broken \<and> (\<exists>es. stream_events s = Some es \<and> follows_protocol cfg (map snd es))) \<and>
    (so_TerminalEventEmitted out \<longrightarrow> \<not> so_Poisoned out \<and>
      (\<exists>es. stream_events s = Some es \<and> list_ex is_init (map snd es) \<and> list_ex is_result (map snd es) \<and>
        (\<forall>r \<in> set es. is_result (snd r) \<longrightarrow> records out r))) \<and>
    (\<not> so_Poisoned out \<longrightarrow> stream_events s = Some es \<longrightarrow> list_ex is_result (map snd es) \<longrightarrow>
      so_TerminalEventEmitted out)"
  proof (cases "read_stream cfg broken s 0 fresh_stream")
    case (Inl st)
    then have "stopped st"
      by (rule read_stream_stopped) (simp add: fresh_stream_def empty_outcome_def)
    moreover have "out = st_out st" using assms Inl by (simp add: ParseStream_def)
    moreover have "\<not> (readable cfg s broken \<and> (\<exists>es. stream_events s = Some es \<and> follows_protocol cfg (map snd es)))"
      using V(1) Inl by (auto simp: follows_protocol_def)
    ultimately show ?thesis by (simp add: stopped_def)
  next
    case (Inr st)
    from V(2) [OF Inr] obtain es where es: "stream_events s = Some es" "represents (map snd es) st"
      "\<forall>r \<in> set es. is_result (snd r) \<longrightarrow> records (st_out st) r" by blast
    have "readable cfg s broken" "allowed_from cfg [] (map snd es)" using V(1) Inr es(1) by auto
    moreover have "out = fst (finish_stream st)" using assms Inr by (simp add: ParseStream_def)
    ultimately show ?thesis
      using es finish_stream_verdict [OF es(2)] by (auto simp: follows_protocol_def)
  qed
  show "\<not> so_Poisoned out \<longleftrightarrow>
      readable cfg s broken \<and> (\<exists>es. stream_events s = Some es \<and> follows_protocol cfg (map snd es))"
    using all by blast
  show "so_TerminalEventEmitted out \<Longrightarrow> \<not> so_Poisoned out \<and>
      (\<exists>es. stream_events s = Some es \<and> list_ex is_init (map snd es) \<and> list_ex is_result (map snd es) \<and>
        (\<forall>r \<in> set es. is_result (snd r) \<longrightarrow> records out r))"
    using all by blast
  show "\<not> so_Poisoned out \<Longrightarrow> stream_events s = Some es \<Longrightarrow> list_ex is_result (map snd es) \<Longrightarrow>
      so_TerminalEventEmitted out"
    using all by blast
qed

lemma those_pair: "those (map (\<lambda>t. map_option (Pair t) (f t)) l) = Some es \<Longrightarrow> (t, x) \<in> set es \<Longrightarrow> f t = Some x"
  by (induction l arbitrary: es) (auto split: option.splits)

lemma no_second_result: "allowed_from cfg pre post \<Longrightarrow> list_ex is_result pre \<Longrightarrow> \<not> list_ex is_result post"
proof (induction post arbitrary: pre)
  case (Cons e post)
  then have "\<not> is_result e" by (simp add: event_allowed_def)
  with Cons.IH [of "pre @ [e]"] Cons.prems show ?case by simp
qed simp

lemma result_unique:
  "allowed_from cfg pre (es @ ev # post) \<Longrightarrow> is_result ev \<Longrightarrow>
     \<not> list_ex is_result (pre @ es) \<and> \<not> list_ex is_result post \<and> own_session cfg ev"
proof (induction es arbitrary: pre)
  case Nil
  from no_second_result [of cfg "pre @ [ev]" post] Nil show ?case
    by (simp add: event_allowed_def is_evidence_def)
next
  case (Cons e es)
  from Cons.IH [of "pre @ [e]"] Cons.prems show ?case by auto
qed

text \<open>C39 The verdict of the stream parser, for a turn whose native session is known: the pass is clean
  exactly when the bytes are read to their end within the bounds, every complete line is an event and
  the events follow the protocol, an init that matches what was frozen for the run before any
  evidence, evidence of that session only, tool results for requested tools only and one result at
  most; and a result is announced exactly for such a stream that holds one.\<close>
theorem verdict_is_the_protocol:
  assumes "\<not> blank (sc_ExpectedSessionID cfg)"
  shows "\<exists>out evs. ParseStream s broken cfg = Inr (out, evs) \<and>
    (\<not> so_Poisoned out \<longleftrightarrow>
       readable cfg s broken \<and> (\<exists>es. stream_events s = Some es \<and> follows_protocol cfg (map snd es))) \<and>
    (so_TerminalEventEmitted out \<longleftrightarrow>
       readable cfg s broken \<and>
       (\<exists>es. stream_events s = Some es \<and> follows_protocol cfg (map snd es) \<and> list_ex is_result (map snd es)))"
proof -
  from assms obtain out evs where P: "ParseStream s broken cfg = Inr (out, evs)"
    by (cases "case read_stream cfg broken s 0 fresh_stream of
        Inl st \<Rightarrow> (st_out st, st_events st) | Inr st \<Rightarrow> finish_stream st") (auto simp: ParseStream_def)
  show ?thesis
    using ParseStream_verdict [OF assms P] P by fastforce
qed

text \<open>C40 The result a turn reports is the one its process printed: when the parser announces a
  result, exactly one event of the stream is a result, it names the session of the run, and the
  outcome's text, session, completion and raw line are those of that event.\<close>
theorem announced_result_is_the_printed_one:
  assumes "\<not> blank (sc_ExpectedSessionID cfg)" and "ParseStream s broken cfg = Inr (out, evs)"
    and "so_TerminalEventEmitted out"
  shows "\<exists>pre t ev post. stream_events s = Some (pre @ (t, ev) # post) \<and> decode_event t = Some ev \<and>
    is_result ev \<and> \<not> list_ex is_result (map snd (pre @ post)) \<and> own_session cfg ev \<and> records out (t, ev)"
proof -
  note V = ParseStream_verdict [OF assms(1,2)]
  from V(2) [OF assms(3)] obtain es where es: "stream_events s = Some es" "\<not> so_Poisoned out"
    "list_ex is_result (map snd es)" "\<forall>r \<in> set es. is_result (snd r) \<longrightarrow> records out r" by blast
  then have proto: "allowed_from cfg [] (map snd es)" using V(1) by (auto simp: follows_protocol_def)
  from es(3) obtain t ev where r: "(t, ev) \<in> set es" "is_result ev" by (auto simp: list_ex_iff)
  then obtain pre post where split: "es = pre @ (t, ev) # post" by (auto dest: split_list)
  have "decode_event t = Some ev"
    using es(1) r(1) unfolding stream_events_def by (rule those_pair)
  moreover have "\<not> list_ex is_result (map snd (pre @ post)) \<and> own_session cfg ev"
    using result_unique [of cfg "[]" "map snd pre" ev "map snd post"] proto r(2) by (simp add: split)
  moreover have "stream_events s = Some (pre @ (t, ev) # post)" "records out (t, ev)"
    using es(1,4) r split by auto
  ultimately show ?thesis using r(2) by blast
qed

section \<open>A concrete stream\<close>

definition quote :: string where "quote = [CHR 0x22]"

fun quoted :: "(string \<times> string) list \<Rightarrow> string" where
  "quoted [] = []"
| "quoted [(k, v)] = quote @ k @ quote @ '':'' @ quote @ v @ quote"
| "quoted ((k, v) # kvs) = quote @ k @ quote @ '':'' @ quote @ v @ quote @ '','' @ quoted kvs"

definition sample_stream :: string where
  "sample_stream =
     ''{'' @ quoted [(''type'', ''system''), (''subtype'', ''init''), (''session_id'', ''s''), (''cwd'', ''/w''),
       (''claude_code_version'', ''1''), (''model'', ''m'')] @ ''}'' @ [newline] @
     ''{'' @ quoted [(''type'', ''result''), (''subtype'', ''success''), (''session_id'', ''s''), (''result'', ''ok'')] @
     ''}'' @ [newline]"

definition no_manifest :: ToolkitManifest where
  "no_manifest = \<lparr>tm_ProbedCLIVersion = [], tm_UniverseEvidencePath = [], tm_UniverseEvidenceDigest = [],
     tm_ApprovedTools = [], tm_DeniedComplement = [], tm_ExpectedHooks = [], tm_ExpectedSkills = [],
     tm_ExpectedPlugins = [], tm_TurnsBound = 1\<rparr>"

definition sample_config :: StreamConfig where
  "sample_config = \<lparr>sc_WorkspaceRoot = ''/w'', sc_ExpectedVersion = ''1'', sc_ExpectedModelIdentity = ''m'',
     sc_ExpectedSessionID = ''s'', sc_Manifest = no_manifest, sc_UniverseTools = [], sc_MaxLineBytes = 200,
     sc_MaxTotalBytes = 1000\<rparr>"

lemma sample_run:
  "(case ParseStream sample_stream False sample_config of
      Inl e \<Rightarrow> False
    | Inr (out, evs) \<Rightarrow> so_TerminalEventEmitted out \<and> so_ResultText out = ''ok'' \<and> length evs = 1)"
  by code_simp

lemma sample_session: "\<not> blank (sc_ExpectedSessionID sample_config)"
  by code_simp

lemma verdict_is_the_protocol_witness:
  "\<exists>out evs. ParseStream sample_stream False sample_config = Inr (out, evs) \<and> so_TerminalEventEmitted out \<and>
     readable sample_config sample_stream False \<and>
     (\<exists>es. stream_events sample_stream = Some es \<and> follows_protocol sample_config (map snd es) \<and>
       list_ex is_result (map snd es))"
  using verdict_is_the_protocol [OF sample_session, of sample_stream False] sample_run by auto

lemma announced_result_is_the_printed_one_witness:
  "\<exists>out evs pre t ev post. ParseStream sample_stream False sample_config = Inr (out, evs) \<and>
     so_ResultText out = ''ok'' \<and> stream_events sample_stream = Some (pre @ (t, ev) # post) \<and> is_result ev \<and>
     records out (t, ev)"
proof -
  obtain out evs where r: "ParseStream sample_stream False sample_config = Inr (out, evs)"
    "so_TerminalEventEmitted out" "so_ResultText out = ''ok''"
    using sample_run by (auto split: sum.splits)
  from announced_result_is_the_printed_one [OF sample_session r(1,2)] r show ?thesis by blast
qed

end
