(* ===== verification/Spec2Isabelle.thy ===== *)
theory Spec2Isabelle
  imports Store_Hydrate Store_Sealing Redaction Service_Guarantees Claude_Verdict
begin

text \<open>
  Agent Council: a local daemon through which one controller drives several coding agents. The
  agents' sessions live in a SQLite database; a controller attached to a run queues prompts,
  releases them into turns, and the daemon supervises each turn through a harness adapter until its
  end is recorded.

  \<^bold>\<open>The program and how its parts interact.\<close> A request reaches \<open>internal/service\<close>, which
  authenticates it, is admitted by the coordinator, passes the connected-controller gate, and
  performs one or a few store transactions (\<open>internal/storage\<close>). A release that is new starts a
  goroutine, the supervisor of the turn, which dispatches the prompt to the adapter
  (\<open>internal/adapter\<close>), forwards its event stream, polls for its outcome and records it. A turn
  whose host was lost is reconciled by a later request. The in-memory kernel
  (\<open>internal/council/domain.go\<close>) states the rules of a logical session and of the ballot without
  persistence.

  \<^bold>\<open>Theories and the code they model.\<close>

  Go and its standard library, as far as the source uses them: \<open>Go_Prelude\<close> (strings, decimal
  numbers, tables as lists of rows, the theorem collections), \<open>Go_JSON\<close> (writing canonical bytes),
  \<open>Go_Unmarshal\<close>, \<open>Go_Value\<close> and \<open>Go_Decode\<close> (reading them back, into values and into structs),
  \<open>Go_Hash\<close> (SHA-256 on 32-bit words).

  \<open>Council_Domain\<close>: \<open>internal/council/domain.go\<close>, with the turn records in an explicit heap because
  the session's history and its active turn share them.

  The store. \<open>Store_Schema\<close> has the tables of \<open>schema.sql\<close> and its migrations and the receipts and
  errors of \<open>types.go\<close>; \<open>Store_Tables\<close> the statements with their constraints, the fingerprint and
  the operation journal. The commands: \<open>Store_Authority\<close> (\<open>controller_leases.go\<close>), \<open>Store_Attachment\<close>
  (\<open>controller_attachment.go\<close>), \<open>Store_Sessions\<close> (\<open>session_store.go\<close>), \<open>Store_Outcomes\<close>
  (\<open>execution_outcomes.go\<close>), \<open>Store_Transitions\<close>, \<open>Store_Reconcile\<close> and \<open>Store_Details\<close>
  (\<open>transitions.go\<close>), \<open>Store_Binding\<close> (the native binding and the validation of its tooling
  configuration, \<open>transitions.go\<close>), \<open>Store_Artifacts\<close> (the transactions of \<open>artifact_store.go\<close> and
  \<open>proposal_sets.go\<close>), \<open>Store_Hydrate\<close> (\<open>recovery.go\<close>), \<open>Redaction\<close> (\<open>redaction.go\<close>). A command is
  a function from the database to an error or a result with the new database, since each is one
  immediate transaction over a single write connection. \<open>Store_Journal\<close> states the journal protocol
  as a locale with an instance per command; \<open>Store_System\<close> is the store as a whole, runs of commands
  from the empty database; \<open>Store_Scenario\<close> is a concrete run. \<open>Store_Archive\<close> adds the directory of
  artifact blobs (\<open>artifact_store.go\<close>, \<open>worker_artifacts.go\<close>): a map from digests to bytes beside the
  database, with the steps of a publication interleaved with all other calls.

  What is proved of the store is in \<open>Store_Grants\<close> and \<open>Store_Fencing\<close> (who may act),
  \<open>Store_Execution\<close>, \<open>Store_Refinement\<close> and \<open>Store_Simulation\<close> (an abstract machine of sessions,
  prompts and turns, and that every command is a step of it), \<open>Store_Statements\<close> (a locale: a
  predicate every statement preserves is preserved by every command), \<open>Store_Integrity\<close> (keys,
  references, column checks), \<open>Store_Guarantees\<close> and \<open>Store_Evidence\<close> (executions, outcomes,
  recovery episodes, stored text), \<open>Store_Sealing\<close> (artifacts and proposal sets).

  The adapter interface. \<open>Adapter_Types\<close> and \<open>Adapter_Outcomes\<close>: \<open>internal/adapter/types.go\<close>;
  \<open>Adapter_Stream\<close>: the bounded event stream of \<open>stream.go\<close> as a machine of concurrent senders and
  closers, and the registry of \<open>registry.go\<close>.

  A vendor's protocol. \<open>Claude_Stream\<close>: the parser of \<open>internal/adapter/claude/stream.go\<close>, one function
  per event of the stream, with the toolkit manifest it checks against in \<open>Toolkit_Manifest\<close>
  (\<open>internal/storage/toolkit_manifest.go\<close>). \<open>Claude_Verdict\<close> describes the stream as a history of events
  and compares the one pass with it.

  The service. \<open>Service_Coordinator\<close>: \<open>coordinator.go\<close>, a step per method, since each holds the
  mutex. \<open>Service_World\<close> joins the database and the coordinator into the state the goroutines share.
  \<open>Service_Process\<close> has processes: finite trees of atomic steps, between any two of which the other
  processes act arbitrarily, and a weakest precondition that holds in every interleaving.
  \<open>Service_Supervisor\<close>: \<open>supervisor.go\<close>. \<open>Service_Handlers\<close> and \<open>Service_Recovery\<close>: the handlers of
  \<open>release.go\<close>, \<open>commands.go\<close>, \<open>controller_attachment.go\<close>, \<open>controller_admin.go\<close> and \<open>turns.go\<close>.
  \<open>Service_Router\<close>: authentication and dispatch of \<open>server.go\<close>. \<open>Service_Contracts\<close> states what every
  handler keeps as a locale, with an instance per handler.

  \<^bold>\<open>What the lemmas show.\<close> The kernel: the tally, its invariant over all runs, which calls start, end
  and never change a turn, the archive. The store: replay and append-only growth of the journal; one
  active grant per run, and that superseded and revoked credentials never act again; consistency of
  all tables; refinement of the execution machine, from which one live turn per session, final
  outcomes and release as the only start follow; outcomes taken only under the exact attempt;
  closed recovery episodes; a database that always hydrates; no credential in stored text; artifacts
  that read back, proposal sets that do not depend on the order of their members and are all that
  peers read. The Claude parser: its verdict is that of the protocol, and the result announced is the
  one printed. The stream: a bounded queue that never panics and whose calls return. The coordinator: exact accounting
  of admitted work, an idle stop that is final, delivery or disconnection of subscribers. The service
  as a whole: writes only for admitted work and about the request's own subject, terminal events only
  for settled turns, a supervisor for every turn released, and no supervisor that leaves a turn
  behind silently.

  \<^bold>\<open>Bounds.\<close> Machine integers are at their width where the source relies on it (the hash, the
  epoch of the coordinator). A JSON document nests at most 10000 deep, as in the library. The
  supervisor's polling loop runs over the list of its polls' inputs: each poll is an answer of the
  adapter, and the loop ends with an answer or with the cancellation of the service, whose arrival
  ends the list; a list that ends is no bound on the number of polls. The ten attempts at recording
  an outcome are those of the source. Versions and generations are integers and natural numbers:
  their 64-bit columns would need \<open>2 ^ 63\<close> commands to overflow.

  \<^bold>\<open>What is abstracted.\<close> An operation reads the clock a few times and gets one instant. Error texts
  of the service are left out, statuses and codes are kept. The adapter behind its interface, the
  clock, random bytes, the disk and expiring contexts are inputs of the steps that meet them.

  \<^bold>\<open>What is not modelled.\<close> The vendor adapters (\<open>internal/adapter/codex\<close>, \<open>agy\<close>, \<open>opencode\<close>,
  and of \<open>claude\<close> all but its parser) and the store's tables for them (\<open>agy_state.go\<close>, \<open>codex_*\<close>, \<open>claude_*\<close>): they drive
  external programs over pipes and HTTP. Canonical profiles
  (\<open>canonical_profile.go\<close>, and \<open>ValidateForClaude\<close> of \<open>toolkit_manifest.go\<close>). Opening and migrating the
  database file (\<open>store.go\<close>, \<open>migrations.go\<close>). Of the service the event subscription, readiness and
  shutdown handlers and the vendor endpoints. The client and the command line, which are input and
  output around one HTTP call each.
\<close>

end
